(* ===== verification/Prelude.thy ===== *)
theory Prelude
  imports Complex_Main "HOL-Library.AList" "HOL-Library.Sublist" "HOL-Library.List_Lexorder"
    "HOL-Library.Char_ord"
begin

text \<open>
  Shared ground of the development: the Python values the program handles (text, numbers,
  dictionaries, the JSON-like values of message headers), the exceptions it raises and catches,
  and generic lemmas about lists and dictionaries.

  \<^item> A Python \<open>str\<close> is the list of bytes of its UTF-8 encoding. Equality, concatenation,
    substring search, \<open>encode("utf-8")\<close> and code point order then agree with Python's;
    \<open>utf8_length\<close> and \<open>utf8_take\<close> count code points. \<open>lower\<close> and
    \<open>strip\<close> act on ASCII letters and ASCII white space.
  \<^item> A \<open>dict\<close> is an association list in insertion order.
  \<^item> A \<open>datetime\<close> is its number of microseconds since the epoch, with the time zone
    awareness Python checks; a \<open>timedelta\<close> is a number of microseconds.
  \<^item> A \<open>float\<close> is a rational number, an infinity or not-a-number (rounding of finite
    values is not modelled).
\<close>

named_theorems py_simps \<open>evaluation of Python primitives\<close>
named_theorems wp_simps \<open>computing the outcome of effectful programs\<close>


section \<open>Values\<close>

type_synonym 'a dict = "(string \<times> 'a) list"

datatype pyfloat = Finite rat | Infinite bool | NotANumber

datatype datetime = Aware int | Naive int

datatype pyval =
    PNone
  | PBool bool
  | PInt int
  | PFloat pyfloat
  | PStr string
  | PBytes string
  | PTime datetime
  | PList "pyval list"
  | PDict "pyval dict"

text \<open>The UTC instant of a timestamp: \<open>value if value.tzinfo else value.replace(tzinfo=UTC)\<close>.\<close>

fun as_utc :: "datetime \<Rightarrow> int" where
  "as_utc (Aware t) = t"
| "as_utc (Naive t) = t"

abbreviation seconds :: "int \<Rightarrow> int" where
  "seconds n \<equiv> n * 1000000"

abbreviation minutes :: "int \<Rightarrow> int" where
  "minutes n \<equiv> n * 60000000"

abbreviation days :: "int \<Rightarrow> int" where
  "days n \<equiv> n * 86400000000"

fun truthy :: "pyval \<Rightarrow> bool" where
  "truthy PNone = False"
| "truthy (PBool b) = b"
| "truthy (PInt n) = (n \<noteq> 0)"
| "truthy (PFloat (Finite r)) = (r \<noteq> 0)"
| "truthy (PFloat _) = True"
| "truthy (PStr s) = (s \<noteq> [])"
| "truthy (PBytes s) = (s \<noteq> [])"
| "truthy (PTime _) = True"
| "truthy (PList xs) = (xs \<noteq> [])"
| "truthy (PDict d) = (d \<noteq> [])"

text \<open>\<open>x or default\<close> on a value that may be absent (\<open>dict.get\<close> gives \<open>None\<close>).\<close>

definition py_or :: "pyval option \<Rightarrow> pyval \<Rightarrow> pyval" where
  "py_or v d = (case v of None \<Rightarrow> d | Some x \<Rightarrow> if truthy x then x else d)"

text \<open>\<open>x or default\<close> on an optional integer.\<close>

definition int_or :: "int option \<Rightarrow> int \<Rightarrow> int" where
  "int_or v d = (case v of None \<Rightarrow> d | Some n \<Rightarrow> if n = 0 then d else n)"

text \<open>\<open>x or default\<close> on an optional string.\<close>

definition str_or :: "string option \<Rightarrow> string \<Rightarrow> string" where
  "str_or v d = (case v of None \<Rightarrow> d | Some s \<Rightarrow> if s = [] then d else s)"


section \<open>Exceptions\<close>

text \<open>
  The exception classes the code distinguishes. The text is what \<open>str(error)\<close> gives;
  \<open>None\<close> where \<open>__str__\<close> itself raises. \<open>Other\<close> names any other class.
\<close>

datatype exn_class =
    ValueErr | TypeErr | OverflowErr | LookupErr | KeyErr | UnknownBatchErr | NotUniqueErr
  | UnsafeToBrowse | DeliveryErr | ChannelNotFoundErr | PreconditionFailedErr
  | AccessRefusedErr | ChannelInvalidStateErr | ManagementErr "int option"
  | HttpErr int | Other string

record exn =
  exn_class :: exn_class
  exn_text :: "string option"

definition mk_exn :: "exn_class \<Rightarrow> string \<Rightarrow> exn" where
  "mk_exn c s = \<lparr>exn_class = c, exn_text = Some s\<rparr>"

text \<open>\<open>HTTPException(status_code=code, detail=detail)\<close>\<close>

definition http_error :: "int \<Rightarrow> string \<Rightarrow> exn" where
  "http_error code detail = mk_exn (HttpErr code) detail"

text \<open>\<open>except LookupError\<close> also catches its subclasses.\<close>

definition is_lookup_error :: "exn \<Rightarrow> bool" where
  "is_lookup_error e \<longleftrightarrow> exn_class e \<in> {LookupErr, KeyErr, UnknownBatchErr, NotUniqueErr}"

lemma exn_class_mk_exn [simp]: "exn_class (mk_exn c s) = c"
  by (simp add: mk_exn_def)

lemma exn_text_mk_exn [simp]: "exn_text (mk_exn c s) = Some s"
  by (simp add: mk_exn_def)


text \<open>A pure computation that may raise, followed by another.\<close>

definition or_raise :: "exn + 'a \<Rightarrow> ('a \<Rightarrow> exn + 'b) \<Rightarrow> exn + 'b" where
  "or_raise r f = (case r of Inl e \<Rightarrow> Inl e | Inr x \<Rightarrow> f x)"

lemma or_raise_simps [simp]:
  "or_raise (Inl e) f = Inl e"
  "or_raise (Inr x) f = f x"
  by (simp_all add: or_raise_def)

lemma or_raise_Inr_iff: "or_raise r f = Inr y \<longleftrightarrow> (\<exists>x. r = Inr x \<and> f x = Inr y)"
  by (cases r) auto


section \<open>Text\<close>

definition lower_char :: "char \<Rightarrow> char" where
  "lower_char c = (if CHR ''A'' \<le> c \<and> c \<le> CHR ''Z'' then char_of ((of_char c :: nat) + 32) else c)"

definition lower :: "string \<Rightarrow> string" where
  "lower s = map lower_char s"

definition is_space :: "char \<Rightarrow> bool" where
  "is_space c \<longleftrightarrow> c = CHR 0x20 \<or> CHR 0x09 \<le> c \<and> c \<le> CHR 0x0D \<or> CHR 0x1C \<le> c \<and> c \<le> CHR 0x1F"

definition strip :: "string \<Rightarrow> string" where
  "strip s = rev (dropWhile is_space (rev (dropWhile is_space s)))"

definition starts_with :: "string \<Rightarrow> string \<Rightarrow> bool" where
  "starts_with s p \<longleftrightarrow> take (length p) s = p"

definition ends_with :: "string \<Rightarrow> string \<Rightarrow> bool" where
  "ends_with s p \<longleftrightarrow> length p \<le> length s \<and> drop (length s - length p) s = p"

text \<open>The two characters beyond ASCII that the program's messages use.\<close>

definition em_dash :: string where
  "em_dash = [CHR 0xE2, CHR 0x80, CHR 0x94]"

definition arrow :: string where
  "arrow = [CHR 0xE2, CHR 0x86, CHR 0x92]"

text \<open>\<open>needle in hay\<close>.\<close>

fun contains :: "string \<Rightarrow> string \<Rightarrow> bool" where
  "contains n [] \<longleftrightarrow> n = []"
| "contains n (c # cs) \<longleftrightarrow> starts_with (c # cs) n \<or> contains n cs"

text \<open>\<open>s.split(sep)\<close> for a one-character separator.\<close>

fun split_on :: "char \<Rightarrow> string \<Rightarrow> string list" where
  "split_on c [] = [[]]"
| "split_on c (x # xs) =
     (if x = c then [] # split_on c xs
      else (case split_on c xs of [] \<Rightarrow> [[x]] | w # ws \<Rightarrow> (x # w) # ws))"

fun join_with :: "string \<Rightarrow> string list \<Rightarrow> string" where
  "join_with sep [] = []"
| "join_with sep [x] = x"
| "join_with sep (x # y # zs) = x @ sep @ join_with sep (y # zs)"

text \<open>Code points of a string in UTF-8: every byte that is not a continuation byte starts one.\<close>

definition continuation :: "char \<Rightarrow> bool" where
  "continuation c \<longleftrightarrow> CHR 0x80 \<le> c \<and> c \<le> CHR 0xBF"

definition utf8_length :: "string \<Rightarrow> nat" where
  "utf8_length s = length (filter (\<lambda>c. \<not> continuation c) s)"

text \<open>\<open>s[:n]\<close>: stop before the byte that would start code point \<open>n + 1\<close>.\<close>

fun utf8_take :: "nat \<Rightarrow> string \<Rightarrow> string" where
  "utf8_take n [] = []"
| "utf8_take n (c # cs) =
     (if continuation c then c # utf8_take n cs
      else case n of 0 \<Rightarrow> [] | Suc m \<Rightarrow> c # utf8_take m cs)"

lemma utf8_length_take: "utf8_length (utf8_take n s) \<le> n"
  by (induction n s rule: utf8_take.induct) (auto simp: utf8_length_def split: nat.splits)

lemma utf8_take_id: "utf8_length s \<le> n \<Longrightarrow> utf8_take n s = s"
  by (induction n s rule: utf8_take.induct)
     (auto simp: utf8_length_def split: nat.splits if_splits)

lemma prefix_utf8_take: "prefix (utf8_take n s) s"
  by (induction n s rule: utf8_take.induct) (auto split: nat.splits)

lemma starts_with_iff_prefix: "starts_with s p \<longleftrightarrow> prefix p s"
  by (auto simp: starts_with_def prefix_def) (metis append_take_drop_id)

lemma contains_iff_sublist: "contains n s \<longleftrightarrow> sublist n s"
  by (induction n s rule: contains.induct)
     (auto simp: starts_with_iff_prefix sublist_Cons_right)

lemma split_on_nonempty [simp]: "split_on c s \<noteq> []"
  by (induction s) (auto split: list.splits)

lemma join_split_on: "join_with [c] (split_on c s) = s"
proof (induction s)
  case Nil
  then show ?case by simp
next
  case (Cons x s)
  then show ?case
    by (cases "split_on c s" rule: list.exhaust; cases "tl (split_on c s)") auto
qed


section \<open>Decimal text of integers\<close>

definition digit_char :: "nat \<Rightarrow> char" where
  "digit_char d = char_of (48 + d)"

fun nat_text :: "nat \<Rightarrow> string" where
  "nat_text n = (if n < 10 then [digit_char n] else nat_text (n div 10) @ [digit_char (n mod 10)])"

declare nat_text.simps [simp del]

definition int_text :: "int \<Rightarrow> string" where
  "int_text i = (if i < 0 then CHR ''-'' # nat_text (nat (- i)) else nat_text (nat i))"

definition is_digit :: "char \<Rightarrow> bool" where
  "is_digit c \<longleftrightarrow> CHR ''0'' \<le> c \<and> c \<le> CHR ''9''"

definition digit_value :: "char \<Rightarrow> int" where
  "digit_value c = int (of_char c) - 48"

text \<open>
  The digits of Python's \<open>int(text)\<close>: at least one, with single underscores allowed between
  two digits. \<open>None\<close> is a \<open>ValueError\<close>.
\<close>

fun parse_digits :: "int \<Rightarrow> string \<Rightarrow> int option" where
  "parse_digits acc [] = Some acc"
| "parse_digits acc (c # cs) =
     (if is_digit c then parse_digits (acc * 10 + digit_value c) cs
      else if c = CHR ''_'' then
        (case cs of [] \<Rightarrow> None
         | d # ds \<Rightarrow> if is_digit d then parse_digits (acc * 10 + digit_value d) ds else None)
      else None)"

definition parse_nat :: "string \<Rightarrow> int option" where
  "parse_nat s = (case s of [] \<Rightarrow> None | c # cs \<Rightarrow> if is_digit c then parse_digits 0 s else None)"

definition parse_int :: "string \<Rightarrow> int option" where
  "parse_int s =
     (case strip s of
        [] \<Rightarrow> None
      | c # cs \<Rightarrow> if c = CHR ''-'' then map_option uminus (parse_nat cs)
                  else if c = CHR ''+'' then parse_nat cs
                  else parse_nat (c # cs))"

text \<open>Truncation towards zero, as \<open>int(float)\<close> does.\<close>

definition trunc :: "rat \<Rightarrow> int" where
  "trunc r = (if r < 0 then \<lceil>r\<rceil> else \<lfloor>r\<rfloor>)"

text \<open>\<open>round(x)\<close>: to the nearest integer, ties to even.\<close>

definition py_round :: "rat \<Rightarrow> int" where
  "py_round r =
     (let f = \<lfloor>r\<rfloor>; d = r - of_int f
      in if d < 1 / 2 then f else if d > 1 / 2 then f + 1 else if even f then f else f + 1)"

lemma py_round_of_int [simp]: "py_round (of_int n) = n"
  by (simp add: py_round_def Let_def)

text \<open>\<open>int(value)\<close>.\<close>

fun py_int :: "pyval \<Rightarrow> exn + int" where
  "py_int (PBool b) = Inr (if b then 1 else 0)"
| "py_int (PInt n) = Inr n"
| "py_int (PFloat (Finite r)) = Inr (trunc r)"
| "py_int (PFloat (Infinite _)) = Inl (mk_exn OverflowErr ''cannot convert float infinity to integer'')"
| "py_int (PFloat NotANumber) = Inl (mk_exn ValueErr ''cannot convert float NaN to integer'')"
| "py_int (PStr s) =
     (case parse_int s of Some n \<Rightarrow> Inr n
      | None \<Rightarrow> Inl (mk_exn ValueErr (''invalid literal for int() with base 10: '' @ s)))"
| "py_int (PBytes s) =
     (case parse_int s of Some n \<Rightarrow> Inr n
      | None \<Rightarrow> Inl (mk_exn ValueErr (''invalid literal for int() with base 10: '' @ s)))"
| "py_int _ = Inl (mk_exn TypeErr ''int() argument must be a string or a real number'')"


section \<open>Dictionaries\<close>

abbreviation dict_get :: "'a dict \<Rightarrow> string \<Rightarrow> 'a option" where
  "dict_get d k \<equiv> map_of d k"

abbreviation dict_set :: "string \<Rightarrow> 'a \<Rightarrow> 'a dict \<Rightarrow> 'a dict" where
  "dict_set k v d \<equiv> AList.update k v d"

text \<open>\<open>{**a, **b}\<close>: the entries of \<open>a\<close>, overridden and extended by those of \<open>b\<close>.\<close>

definition dict_merge :: "'a dict \<Rightarrow> 'a dict \<Rightarrow> 'a dict" where
  "dict_merge a b = fold (\<lambda>(k, v). AList.update k v) b a"

lemma dict_merge_Nil [simp]: "dict_merge a [] = a"
  by (simp add: dict_merge_def)

lemma dict_merge_Cons [simp]: "dict_merge a ((k, v) # b) = dict_merge (AList.update k v a) b"
  by (simp add: dict_merge_def)

lemma map_of_dict_merge:
  "distinct (map fst b) \<Longrightarrow> map_of (dict_merge a b) = map_of a ++ map_of b"
proof (induction b arbitrary: a)
  case Nil
  then show ?case by simp
next
  case (Cons p b)
  then have "fst p \<notin> dom (map_of b)"
    by (simp add: dom_map_of_conv_image_fst)
  with Cons show ?case
    by (cases p) (auto simp: AList.update_conv' map_add_def fun_eq_iff dom_def split: option.splits)
qed

lemma distinct_dict_merge: "distinct (map fst a) \<Longrightarrow> distinct (map fst (dict_merge a b))"
  by (induction b arbitrary: a) (auto simp: dict_merge_def AList.distinct_update)

lemma dict_get_merge_other:
  "k \<notin> fst ` set b \<Longrightarrow> dict_get (dict_merge a b) k = dict_get a k"
  by (induction b arbitrary: a) (auto simp: AList.update_conv')


lemma map_of_filter_values:
  "distinct (map fst d) \<Longrightarrow> map_of (filter (\<lambda>(k, v). P k v) d) i =
     (case map_of d i of None \<Rightarrow> None | Some v \<Rightarrow> if P i v then Some v else None)"
proof (induction d)
  case (Cons p d)
  obtain k v where p: "p = (k, v)" by (cases p)
  have "k = i \<Longrightarrow> map_of d i = None"
    using Cons.prems p by (auto simp: map_of_eq_None_iff)
  with Cons p show ?case by auto
qed simp

lemma distinct_filter_keys: "distinct (map fst d) \<Longrightarrow> distinct (map fst (filter P d))"
  by (simp add: distinct_map_filter)

text \<open>\<open>d.get(k)\<close> where the values are Python objects.\<close>

definition py_get :: "pyval dict \<Rightarrow> string \<Rightarrow> pyval" where
  "py_get d k = (case dict_get d k of None \<Rightarrow> PNone | Some v \<Rightarrow> v)"

lemma py_get_simps [simp]:
  "py_get [] k = PNone"
  "py_get ((k', v) # d) k = (if k = k' then v else py_get d k)"
  by (simp_all add: py_get_def)


section \<open>Lists\<close>

text \<open>\<open>xs[:n]\<close>.\<close>

definition slice_to :: "int \<Rightarrow> 'a list \<Rightarrow> 'a list" where
  "slice_to n xs = (if n < 0 then take (length xs - nat (- n)) xs else take (nat n) xs)"

lemma filter_singleton_iff_unique:
  "length (filter P xs) = 1 \<Longrightarrow> \<exists>x. filter P xs = [x] \<and> x \<in> set xs \<and> P x"
  by (cases "filter P xs") (auto dest!: filter_eq_ConsD)

lemma count_list_filter: "count_list xs x = length (filter ((=) x) xs)"
  by (induction xs) auto

lemma set_take_mono: "m \<le> n \<Longrightarrow> set (take m xs) \<subseteq> set (take n xs)"
  by (rule set_take_subset_set_take)

text \<open>The position of the last element that satisfies a predicate.\<close>

fun last_index :: "('a \<Rightarrow> bool) \<Rightarrow> 'a list \<Rightarrow> nat option" where
  "last_index P [] = None"
| "last_index P (x # xs) =
     (case last_index P xs of Some i \<Rightarrow> Some (Suc i)
      | None \<Rightarrow> if P x then Some 0 else None)"

lemma last_index_None: "last_index P xs = None \<longleftrightarrow> (\<forall>x \<in> set xs. \<not> P x)"
  by (induction xs) (auto split: option.splits)

lemma last_index_SomeD:
  "last_index P xs = Some i \<Longrightarrow> i < length xs \<and> P (xs ! i) \<and> (\<forall>j. i < j \<and> j < length xs \<longrightarrow> \<not> P (xs ! j))"
proof (induction xs arbitrary: i)
  case Nil
  then show ?case by simp
next
  case (Cons x xs)
  show ?case
  proof (cases "last_index P xs")
    case None
    with Cons.prems have "i = 0" "P x" by (auto split: if_splits)
    moreover have "\<not> P (xs ! k)" if "k < length xs" for k
      using None that by (simp add: last_index_None)
    ultimately show ?thesis by (auto simp: nth_Cons split: nat.splits)
  next
    case (Some k)
    with Cons.prems have "i = Suc k" by simp
    with Cons.IH[OF Some] show ?thesis by (auto simp: nth_Cons split: nat.splits)
  qed
qed

end
