(* ===== verification/Domain.thy ===== *)
theory Domain
  imports Prelude
begin

text \<open>
  The domain layer (app/domain): the records every component passes around (models.py), the
  death count and the parsed \<open>x-death\<close> history (xdeath.py), and the message fingerprint
  (fingerprint.py).

  \<open>pylib\<close> collects the library functions whose results the code only passes on or
  compares: hashing, JSON text, ISO timestamps, zlib, base64, IP networks, time zones. They are
  arguments of the definitions that use them.
\<close>


section \<open>Library functions taken as arguments\<close>

record pylib =
  sha256_hex :: "string \<Rightarrow> string"
  isoformat :: "datetime \<Rightarrow> string"
  fromisoformat :: "string \<Rightarrow> datetime option"
  json_canonical :: "pyval \<Rightarrow> string"   \<comment> \<open>\<open>json.dumps(v, sort_keys=True, default=str, separators=(",", ":"))\<close>\<close>
  json_dumps :: "pyval \<Rightarrow> string"       \<comment> \<open>\<open>json.dumps(v, default=str)\<close>\<close>
  json_loads :: "string \<Rightarrow> pyval option" \<comment> \<open>\<open>None\<close>: JSONDecodeError\<close>
  utf8_ignore :: "string \<Rightarrow> string"      \<comment> \<open>\<open>decode("utf-8", errors="ignore")\<close>\<close>
  utf8_replace :: "string \<Rightarrow> string"     \<comment> \<open>\<open>decode("utf-8", errors="replace")\<close>\<close>
  utf8_valid :: "string \<Rightarrow> bool"         \<comment> \<open>\<open>decode("utf-8")\<close> does not raise\<close>
  base64 :: "string \<Rightarrow> string"
  zlib_inflate :: "int \<Rightarrow> string \<Rightarrow> nat \<Rightarrow> (string \<times> string \<times> string) option"
    \<comment> \<open>window bits, input, output cap: (output, \<open>unconsumed_tail\<close>, \<open>flush()\<close>), or zlib.error\<close>
  str_of :: "pyval \<Rightarrow> string"  \<comment> \<open>\<open>str(v)\<close> of floats, bytes, timestamps and containers\<close>
  parse_float :: "string \<Rightarrow> pyfloat option" \<comment> \<open>\<open>float(text)\<close>; \<open>None\<close>: ValueError\<close>
  db_time :: "datetime \<Rightarrow> datetime"      \<comment> \<open>how the database hands back a timestamp it was given\<close>
  pbkdf2_hex :: "string \<Rightarrow> string \<Rightarrow> string" \<comment> \<open>\<open>pbkdf2_hmac("sha256", password, salt, 200_000).hex()\<close>\<close>
  hmac_sha256 :: "string \<Rightarrow> string \<Rightarrow> string" \<comment> \<open>key, message\<close>
  ip_valid :: "string \<Rightarrow> bool"           \<comment> \<open>\<open>ip_address(s)\<close> does not raise\<close>
  ip_in :: "string \<Rightarrow> string \<Rightarrow> bool" \<comment> \<open>\<open>ip_address(s) in ip_network(n, strict=False)\<close>\<close>
  quote_all :: "string \<Rightarrow> string"        \<comment> \<open>\<open>urllib.parse.quote(s, safe="")\<close>\<close>
  local_hhmm :: "string \<Rightarrow> int \<Rightarrow> string option"
    \<comment> \<open>zone, instant: \<open>strftime("%H:%M")\<close> there; \<open>None\<close>: no such zone\<close>


text \<open>\<open>str(v)\<close>.\<close>

fun py_str :: "pylib \<Rightarrow> pyval \<Rightarrow> string" where
  "py_str L PNone = ''None''"
| "py_str L (PBool b) = (if b then ''True'' else ''False'')"
| "py_str L (PInt n) = int_text n"
| "py_str L (PStr s) = s"
| "py_str L v = str_of L v"

text \<open>Attribute access on a value that is not a dictionary: \<open>v.get(...)\<close> raises.\<close>

definition attribute_error :: exn where
  "attribute_error = mk_exn (Other ''AttributeError'') ''object has no attribute get''"

fun as_dict :: "pyval \<Rightarrow> exn + pyval dict" where
  "as_dict (PDict d) = Inr d"
| "as_dict _ = Inl attribute_error"

text \<open>\<open>d.get(k) or {}\<close>, about to be used as a dictionary.\<close>

definition sub_dict :: "pyval dict \<Rightarrow> string \<Rightarrow> exn + pyval dict" where
  "sub_dict d k = as_dict (py_or (dict_get d k) (PDict []))"

text \<open>\<open>[int(v) for v in vs]\<close>.\<close>

fun py_ints :: "pyval list \<Rightarrow> exn + int list" where
  "py_ints [] = Inr []"
| "py_ints (v # vs) = or_raise (py_int v) (\<lambda>n. or_raise (py_ints vs) (\<lambda>ns. Inr (n # ns)))"


section \<open>Records (models.py)\<close>

record replay_target =
  target_type :: string
  target_queue :: "string option"
  target_exchange :: "string option"
  target_routing_key :: "string option"

definition queue_target :: "string \<Rightarrow> replay_target" where
  "queue_target q =
     \<lparr>target_type = ''queue'', target_queue = Some q, target_exchange = None,
      target_routing_key = None\<rparr>"

record queue_info =
  qi_name :: string
  qi_vhost :: string
  qi_messages :: int
  qi_messages_ready :: int
  qi_messages_unacked :: int
  qi_consumers :: int
  qi_durable :: bool
  qi_arguments :: "pyval dict"
  qi_is_dlq :: bool
  qi_kind :: string
  qi_queue_type :: string
  qi_publish_rate :: "pyval option"
  qi_idle_since :: "pyval option"
  qi_delivery_limit :: "int option"

record audit_entry =
  ae_username :: string
  ae_action :: string
  ae_timestamp :: int
  ae_source_queue :: "string option"
  ae_message_fingerprint :: "string option"
  ae_payload_hash :: "string option"
  ae_target_type :: "string option"
  ae_target_exchange :: "string option"
  ae_target_queue :: "string option"
  ae_target_routing_key :: "string option"
  ae_result :: string
  ae_error_message :: "string option"
  ae_request_ip :: "string option"
  ae_user_agent :: "string option"
  ae_metadata :: "pyval dict"

text \<open>An entry with the defaults of the dataclass.\<close>

definition audit_entry_of :: "string \<Rightarrow> string \<Rightarrow> int \<Rightarrow> audit_entry" where
  "audit_entry_of user act ts =
     \<lparr>ae_username = user, ae_action = act, ae_timestamp = ts, ae_source_queue = None,
      ae_message_fingerprint = None, ae_payload_hash = None, ae_target_type = None,
      ae_target_exchange = None, ae_target_queue = None, ae_target_routing_key = None,
      ae_result = ''started'', ae_error_message = None, ae_request_ip = None,
      ae_user_agent = None, ae_metadata = []\<rparr>"

text \<open>\<open>None\<close> in \<open>mr_payload\<close> is the sentinel UNDECODED of message_browser.py.\<close>

record message_record =
  mr_fingerprint :: string
  mr_source_queue :: string
  mr_body :: string
  mr_payload :: "pyval option"
  mr_payload_format :: string
  mr_payload_size :: int
  mr_content_type :: "string option"
  mr_message_id :: "string option"
  mr_correlation_id :: "string option"
  mr_timestamp :: "datetime option"
  mr_exchange :: string
  mr_routing_key :: string
  mr_headers :: "pyval dict"
  mr_properties :: "pyval dict"
  mr_redelivered :: bool
  mr_x_death :: "pyval dict list"
  mr_decoded_from :: "string option"
  mr_payload_encoded :: "string option"


section \<open>Death counting (xdeath.py)\<close>

definition DEATHS_HEADER :: string where
  "DEATHS_HEADER = ''x-queuelens-deaths''"

text \<open>\<open>sum(int(entry.get("count") or 0) for entry in x_death)\<close>: the first entry whose count
  is not a number raises.\<close>

fun sum_counts :: "pyval dict list \<Rightarrow> exn + int" where
  "sum_counts [] = Inr 0"
| "sum_counts (entry # rest) =
     or_raise (py_int (py_or (dict_get entry ''count'') (PInt 0))) (\<lambda>n.
     or_raise (sum_counts rest) (\<lambda>m. Inr (n + m)))"

definition stamped_deaths :: "pyval dict \<Rightarrow> exn + int" where
  "stamped_deaths headers =
     (case py_int (py_or (dict_get headers DEATHS_HEADER) (PInt 0)) of
        Inr n \<Rightarrow> Inr n
      | Inl e \<Rightarrow> if exn_class e \<in> {TypeErr, ValueErr} then Inr 0 else Inl e)"

definition deaths :: "pyval dict list \<Rightarrow> pyval dict \<Rightarrow> exn + int" where
  "deaths x_death headers =
     or_raise (sum_counts x_death) (\<lambda>counted.
     or_raise (stamped_deaths headers) (\<lambda>stamped.
       Inr (if stamped > 0 then max counted (stamped + 1) else counted)))"

definition normalize_death :: "pyval dict \<Rightarrow> pyval dict" where
  "normalize_death item =
     (case dict_get item ''routing-keys'' of
        Some (PStr k) \<Rightarrow> dict_set ''routing-keys'' (PList [PStr k]) item
      | _ \<Rightarrow> item)"

fun parse_deaths :: "pyval list \<Rightarrow> pyval dict list" where
  "parse_deaths [] = []"
| "parse_deaths (PDict item # rest) = normalize_death item # parse_deaths rest"
| "parse_deaths (_ # rest) = parse_deaths rest"

definition parse_x_death :: "pyval dict \<Rightarrow> pyval dict list" where
  "parse_x_death headers =
     (case dict_get headers ''x-death'' of Some (PList raw) \<Rightarrow> parse_deaths raw | _ \<Rightarrow> [])"


section \<open>Fingerprints (fingerprint.py)\<close>

definition VOLATILE_HEADERS :: "string set" where
  "VOLATILE_HEADERS = {''x-delivery-count''}"

definition opt_str :: "string option \<Rightarrow> pyval" where
  "opt_str s = (case s of None \<Rightarrow> PNone | Some x \<Rightarrow> PStr x)"

definition fingerprint_identity ::
  "pylib \<Rightarrow> string \<Rightarrow> string \<Rightarrow> pyval dict \<Rightarrow> string option \<Rightarrow> datetime option \<Rightarrow> string \<Rightarrow> string \<Rightarrow> pyval"
where
  "fingerprint_identity L queue body headers message_id timestamp exchange routing_key =
     PDict [(''queue'', PStr queue),
            (''body'', PStr (sha256_hex L body)),
            (''headers'', PDict (filter (\<lambda>(k, v). k \<notin> VOLATILE_HEADERS) headers)),
            (''message_id'', opt_str message_id),
            (''timestamp'', opt_str (map_option (isoformat L) timestamp)),
            (''exchange'', PStr exchange),
            (''routing_key'', PStr routing_key)]"

definition message_fingerprint ::
  "pylib \<Rightarrow> string \<Rightarrow> string \<Rightarrow> pyval dict \<Rightarrow> string option \<Rightarrow> datetime option \<Rightarrow> string \<Rightarrow> string \<Rightarrow> string"
where
  "message_fingerprint L queue body headers message_id timestamp exchange routing_key =
     sha256_hex L (json_canonical L
       (fingerprint_identity L queue body headers message_id timestamp exchange routing_key))"


section \<open>Lemmas\<close>

lemma sum_counts_append:
  "sum_counts (xs @ ys) =
     or_raise (sum_counts xs) (\<lambda>n. or_raise (sum_counts ys) (\<lambda>m. Inr (n + m)))"
proof (induction xs)
  case Nil
  then show ?case by (cases "sum_counts ys") auto
next
  case (Cons x xs)
  then show ?case
    by (cases "py_int (py_or (dict_get x ''count'') (PInt 0))"; cases "sum_counts xs";
        cases "sum_counts ys") (auto simp: add.assoc)
qed

lemma deaths_Inr:
  "deaths xd hs = Inr d \<Longrightarrow>
     \<exists>c s. sum_counts xd = Inr c \<and> stamped_deaths hs = Inr s \<and>
           d = (if s > 0 then max c (s + 1) else c)"
  by (auto simp: deaths_def or_raise_Inr_iff)

lemma deaths_at_least_counted:
  "deaths xd hs = Inr d \<Longrightarrow> sum_counts xd = Inr c \<Longrightarrow> c \<le> d"
  by (auto dest!: deaths_Inr)

text \<open>A stamped message has died at least once more than its stamp says.\<close>

lemma deaths_above_stamp:
  "deaths xd hs = Inr d \<Longrightarrow> stamped_deaths hs = Inr s \<Longrightarrow> 0 < s \<Longrightarrow> s < d"
  by (auto dest!: deaths_Inr)

text \<open>A stamp that is not a number counts as none, whatever the producer wrote.\<close>

lemma stamped_deaths_text:
  "dict_get headers DEATHS_HEADER = Some (PStr s) \<Longrightarrow> parse_int s = None \<Longrightarrow> stamped_deaths headers = Inr 0"
  by (cases s) (auto simp: stamped_deaths_def py_or_def)

lemma parse_deaths_length: "length (parse_deaths raw) \<le> length raw"
  by (induction raw rule: parse_deaths.induct) auto

lemma fingerprint_identity_delivery_count:
  "fingerprint_identity L q b (filter (\<lambda>(k, v). k \<notin> VOLATILE_HEADERS) hs) i t x r =
   fingerprint_identity L q b hs i t x r"
  by (simp add: fingerprint_identity_def case_prod_unfold)

end
