(* ===== verification/Effects.thy ===== *)
theory Effects
  imports Domain
begin

text \<open>
  The calls the program makes to code outside the repository, and the programs built from them.

  A call is an \<open>event\<close> of the history: the operation, its arguments and what came back (a
  value, or the exception it raised). The outside world is an \<open>env\<close>: for every operation a
  function from the history so far and the arguments to the reply. Nothing is assumed about it
  here, so a theorem about all environments covers every reply, failure and interleaving the
  broker, the Management API and the database can produce.

  An effectful Python function is a value of type \<open>'a io\<close>: from the history to its result
  (or the exception that left it) and the longer history. \<open>bnd\<close> is sequencing, \<open>catch\<close> is
  \<open>try/except\<close>, \<open>finally_do\<close> is \<open>try/finally\<close>, \<open>bracket\<close> is \<open>async with\<close>.

  A message object of the client library is known by its \<open>d_tag\<close>.
\<close>


section \<open>Messages on the wire\<close>

record delivery =
  d_tag :: nat
  d_body :: string
  d_headers :: "pyval dict option"
  d_content_type :: "string option"
  d_content_encoding :: "string option"
  d_delivery_mode :: "int option"
  d_priority :: "int option"
  d_correlation_id :: "string option"
  d_reply_to :: "string option"
  d_expiration :: "pyfloat option"
  d_message_id :: "string option"
  d_timestamp :: "datetime option"
  d_type :: "string option"
  d_user_id :: "string option"
  d_app_id :: "string option"
  d_exchange :: "string option"
  d_routing_key :: "string option"
  d_redelivered :: bool

record outgoing =
  o_body :: string
  o_expiration_ms :: "string option"
  o_headers :: "pyval dict"
  o_content_type :: "string option"
  o_content_encoding :: pyval
  o_delivery_mode :: pyval
  o_priority :: pyval
  o_correlation_id :: "string option"
  o_reply_to :: pyval
  o_message_id :: "string option"
  o_timestamp :: "datetime option"
  o_type :: pyval
  o_user_id :: pyval
  o_app_id :: pyval


text \<open>An alert mail as it is handed to the SMTP server, and a notification row.\<close>

record mail =
  ml_from :: string
  ml_to :: string
  ml_subject :: string
  ml_body :: string
  ml_host :: string
  ml_port :: int
  ml_ssl :: bool
  ml_starttls :: bool
  ml_login :: "(string \<times> string) option"

record notice =
  no_level :: string
  no_title :: string
  no_message :: string
  no_source :: string
  no_rule :: "int option"
  no_delivery :: "pyval dict"


section \<open>Events and environments\<close>

text \<open>
  \<open>EvStart\<close>: the services of an environment and vhost are started (\<open>_ensure_bundle\<close>,
  environments.py): unless the vhost is \<open>/\<close>, the Management API is asked to create it and to give
  the user permissions on it, and its AMQP connection is opened.
\<close>

datatype event =
    EvLock "string list" "exn option"
  | EvUnlock "string list"
  | EvOpen "exn option"
  | EvClose "exn option"
  | EvDeclare string bool "exn + int option"
  | EvGet string "exn + delivery option"
  | EvAck nat "exn option"
  | EvNack nat "exn option"
  | EvExchange string bool "exn option"
  | EvPublish string string outgoing "exn option"
  | EvMgmtQueue string "exn + pyval dict"
  | EvMgmtQueues "exn + pyval dict list"
  | EvOverview "exn + pyval dict"
  | EvSetting string "exn + pyval"
  | EvAudit audit_entry "exn option"
  | EvPost string pyval "exn option"
  | EvMail mail "exn option"
  | EvNotify notice "exn option"
  | EvStart "string option \<times> string option"

type_synonym hist = "event list"

record env =
  e_lib :: pylib
  e_lock_scope :: "string \<times> string"
  e_clock :: "hist \<Rightarrow> int"
  e_token :: "hist \<Rightarrow> nat \<Rightarrow> string"
  e_hex :: "hist \<Rightarrow> nat \<Rightarrow> string"
  e_lock :: "hist \<Rightarrow> string list \<Rightarrow> exn option"
  e_open :: "hist \<Rightarrow> exn option"
  e_close :: "hist \<Rightarrow> exn option"
  e_declare :: "hist \<Rightarrow> string \<Rightarrow> bool \<Rightarrow> exn + int option"
  e_get :: "hist \<Rightarrow> string \<Rightarrow> exn + delivery option"
  e_ack :: "hist \<Rightarrow> nat \<Rightarrow> exn option"
  e_nack :: "hist \<Rightarrow> nat \<Rightarrow> exn option"
  e_processed :: "hist \<Rightarrow> nat \<Rightarrow> bool"
  e_exchange :: "hist \<Rightarrow> string \<Rightarrow> bool \<Rightarrow> exn option"
  e_publish :: "hist \<Rightarrow> string \<Rightarrow> string \<Rightarrow> outgoing \<Rightarrow> exn option"
  e_mgmt_queue :: "hist \<Rightarrow> string \<Rightarrow> exn + pyval dict"
  e_mgmt_queues :: "hist \<Rightarrow> exn + pyval dict list"
  e_overview :: "hist \<Rightarrow> exn + pyval dict"
  e_setting :: "hist \<Rightarrow> string \<Rightarrow> exn + pyval"
  e_audit :: "hist \<Rightarrow> audit_entry \<Rightarrow> exn option"
  e_post :: "hist \<Rightarrow> string \<Rightarrow> pyval \<Rightarrow> exn option"
  e_mail :: "hist \<Rightarrow> mail \<Rightarrow> exn option"
  e_notify :: "hist \<Rightarrow> notice \<Rightarrow> exn option"


section \<open>Programs\<close>

type_synonym 'a io = "hist \<Rightarrow> (exn + 'a) \<times> hist"

definition ret :: "'a \<Rightarrow> 'a io" where
  "ret x = (\<lambda>h. (Inr x, h))"

definition raise :: "exn \<Rightarrow> 'a io" where
  "raise e = (\<lambda>h. (Inl e, h))"

definition lift :: "exn + 'a \<Rightarrow> 'a io" where
  "lift r = (\<lambda>h. (r, h))"

definition bnd :: "'a io \<Rightarrow> ('a \<Rightarrow> 'b io) \<Rightarrow> 'b io" where
  "bnd m f = (\<lambda>h. case m h of (Inl e, h') \<Rightarrow> (Inl e, h') | (Inr x, h') \<Rightarrow> f x h')"

text \<open>The outcome of \<open>m\<close> as a value: nothing is raised.\<close>

definition outcome :: "'a io \<Rightarrow> (exn + 'a) io" where
  "outcome m = (\<lambda>h. case m h of (r, h') \<Rightarrow> (Inr r, h'))"

definition catch :: "'a io \<Rightarrow> (exn \<Rightarrow> 'a io) \<Rightarrow> 'a io" where
  "catch m f = (\<lambda>h. case m h of (Inl e, h') \<Rightarrow> f e h' | (Inr x, h') \<Rightarrow> (Inr x, h'))"

text \<open>An exception in the final part replaces the outcome of the body.\<close>

definition finally_do :: "'a io \<Rightarrow> unit io \<Rightarrow> 'a io" where
  "finally_do m c =
     (\<lambda>h. case m h of (r, h') \<Rightarrow>
        (case c h' of (Inl e, h'') \<Rightarrow> (Inl e, h'') | (Inr _, h'') \<Rightarrow> (r, h'')))"

definition bracket :: "unit io \<Rightarrow> unit io \<Rightarrow> 'a io \<Rightarrow> 'a io" where
  "bracket enter leave body = bnd enter (\<lambda>_. finally_do body leave)"

definition perform :: "(hist \<Rightarrow> exn option) \<Rightarrow> (exn option \<Rightarrow> event) \<Rightarrow> unit io" where
  "perform f ev = (\<lambda>h. (case f h of None \<Rightarrow> Inr () | Some e \<Rightarrow> Inl e, h @ [ev (f h)]))"

definition ask :: "(hist \<Rightarrow> exn + 'a) \<Rightarrow> (exn + 'a \<Rightarrow> event) \<Rightarrow> 'a io" where
  "ask f ev = (\<lambda>h. (f h, h @ [ev (f h)]))"

definition observe :: "(hist \<Rightarrow> 'a) \<Rightarrow> 'a io" where
  "observe f = (\<lambda>h. (Inr (f h), h))"

primrec for_each :: "('x \<Rightarrow> unit io) \<Rightarrow> 'x list \<Rightarrow> unit io" where
  "for_each f [] = ret ()"
| "for_each f (x # xs) = bnd (f x) (\<lambda>_. for_each f xs)"


section \<open>The operations\<close>

definition clock :: "env \<Rightarrow> int io" where
  "clock E = observe (e_clock E)"

text \<open>\<open>secrets.token_urlsafe(n)\<close>\<close>

definition token_urlsafe :: "env \<Rightarrow> nat \<Rightarrow> string io" where
  "token_urlsafe E n = observe (\<lambda>h. e_token E h n)"

text \<open>\<open>secrets.token_hex(n)\<close>\<close>

definition token_hex :: "env \<Rightarrow> nat \<Rightarrow> string io" where
  "token_hex E n = observe (\<lambda>h. e_hex E h n)"

definition declare_queue :: "env \<Rightarrow> string \<Rightarrow> bool \<Rightarrow> int option io" where
  "declare_queue E q passive = ask (\<lambda>h. e_declare E h q passive) (EvDeclare q passive)"

definition ack :: "env \<Rightarrow> delivery \<Rightarrow> unit io" where
  "ack E m = perform (\<lambda>h. e_ack E h (d_tag m)) (EvAck (d_tag m))"

definition nack :: "env \<Rightarrow> delivery \<Rightarrow> unit io" where
  "nack E m = perform (\<lambda>h. e_nack E h (d_tag m)) (EvNack (d_tag m))"

definition processed :: "env \<Rightarrow> delivery \<Rightarrow> bool io" where
  "processed E m = observe (\<lambda>h. e_processed E h (d_tag m))"

definition get_exchange :: "env \<Rightarrow> string \<Rightarrow> bool \<Rightarrow> unit io" where
  "get_exchange E x ensure = perform (\<lambda>h. e_exchange E h x ensure) (EvExchange x ensure)"

definition publish_to :: "env \<Rightarrow> string \<Rightarrow> string \<Rightarrow> outgoing \<Rightarrow> unit io" where
  "publish_to E x rk m = perform (\<lambda>h. e_publish E h x rk m) (EvPublish x rk m)"

definition mgmt_queue :: "env \<Rightarrow> string \<Rightarrow> pyval dict io" where
  "mgmt_queue E q = ask (\<lambda>h. e_mgmt_queue E h q) (EvMgmtQueue q)"

definition mgmt_queues :: "env \<Rightarrow> pyval dict list io" where
  "mgmt_queues E = ask (\<lambda>h. e_mgmt_queues E h) EvMgmtQueues"

definition overview :: "env \<Rightarrow> pyval dict io" where
  "overview E = ask (\<lambda>h. e_overview E h) EvOverview"

definition read_setting :: "env \<Rightarrow> string \<Rightarrow> pyval io" where
  "read_setting E k = ask (\<lambda>h. e_setting E h k) (EvSetting k)"

definition record_audit :: "env \<Rightarrow> audit_entry \<Rightarrow> unit io" where
  "record_audit E entry = perform (\<lambda>h. e_audit E h entry) (EvAudit entry)"

definition http_post :: "env \<Rightarrow> string \<Rightarrow> pyval \<Rightarrow> unit io" where
  "http_post E url payload = perform (\<lambda>h. e_post E h url payload) (EvPost url payload)"

definition smtp_send :: "env \<Rightarrow> mail \<Rightarrow> unit io" where
  "smtp_send E m = perform (\<lambda>h. e_mail E h m) (EvMail m)"

definition add_notification :: "env \<Rightarrow> notice \<Rightarrow> unit io" where
  "add_notification E n = perform (\<lambda>h. e_notify E h n) (EvNotify n)"

text \<open>
  \<open>async with self._locks(queue), self._connection.channel() as channel\<close>: the queue's lock
  (QueueLocks: keyed by broker, vhost and queue), then a channel, which is closed on every way
  out (connection.py), then the lock is released.
\<close>

definition lock_names :: "env \<Rightarrow> string \<Rightarrow> string list" where
  "lock_names E q = [''queue'', fst (e_lock_scope E), snd (e_lock_scope E), q]"

definition with_lock :: "env \<Rightarrow> string list \<Rightarrow> 'a io \<Rightarrow> 'a io" where
  "with_lock E names body =
     bracket (perform (\<lambda>h. e_lock E h names) (EvLock names))
       (perform (\<lambda>h. None) (\<lambda>_. EvUnlock names)) body"

definition with_channel :: "env \<Rightarrow> 'a io \<Rightarrow> 'a io" where
  "with_channel E body =
     bracket (perform (e_open E) EvOpen) (perform (e_close E) EvClose) body"

definition within_queue :: "env \<Rightarrow> string \<Rightarrow> 'a io \<Rightarrow> 'a io" where
  "within_queue E q body = with_lock E (lock_names E q) (with_channel E body)"


section \<open>What a program may do: \<open>emits\<close>\<close>

text \<open>\<open>emits P m\<close>: \<open>m\<close> only adds events that satisfy \<open>P\<close>.\<close>

definition emits :: "(event \<Rightarrow> bool) \<Rightarrow> 'a io \<Rightarrow> bool" where
  "emits P m \<longleftrightarrow> (\<forall>h. \<exists>t. snd (m h) = h @ t \<and> list_all P t)"

named_theorems emits_intros \<open>which events a program can add\<close>

lemma emitsI: "(\<And>h. \<exists>t. snd (m h) = h @ t \<and> list_all P t) \<Longrightarrow> emits P m"
  by (simp add: emits_def)

lemma emitsD: "emits P m \<Longrightarrow> m h = (r, h') \<Longrightarrow> \<exists>t. h' = h @ t \<and> list_all P t"
  by (metis emits_def snd_conv)

lemma emits_mono: "emits P m \<Longrightarrow> (\<And>e. P e \<Longrightarrow> Q e) \<Longrightarrow> emits Q m"
  unfolding emits_def by (meson list_all_iff)

lemma emits_ret [emits_intros]: "emits P (ret x)"
  by (simp add: emits_def ret_def)

lemma emits_raise [emits_intros]: "emits P (raise e)"
  by (simp add: emits_def raise_def)

lemma emits_lift [emits_intros]: "emits P (lift r)"
  by (simp add: emits_def lift_def)

lemma emits_observe [emits_intros]: "emits P (observe f)"
  by (simp add: emits_def observe_def)

lemma emits_bnd [emits_intros]:
  assumes "emits P m" and "\<And>x. emits P (f x)"
  shows "emits P (bnd m f)"
proof (rule emitsI)
  fix h
  obtain r h1 where m: "m h = (r, h1)" by fastforce
  with assms(1) obtain t where t: "h1 = h @ t" "list_all P t" by (blast dest: emitsD)
  show "\<exists>t. snd (bnd m f h) = h @ t \<and> list_all P t"
  proof (cases r)
    case (Inl e)
    with m t show ?thesis by (auto simp: bnd_def)
  next
    case (Inr x)
    obtain r2 h2 where f: "f x h1 = (r2, h2)" by fastforce
    with assms(2) obtain t2 where "h2 = h1 @ t2" "list_all P t2" by (blast dest: emitsD)
    with m t f Inr show ?thesis by (auto simp: bnd_def)
  qed
qed

lemma emits_outcome [emits_intros]: "emits P m \<Longrightarrow> emits P (outcome m)"
  by (auto simp: emits_def outcome_def split: prod.splits) (metis snd_conv)

lemma catch_bnd: "catch m f = bnd (outcome m) (\<lambda>r. case r of Inl e \<Rightarrow> f e | Inr x \<Rightarrow> ret x)"
  by (auto simp: fun_eq_iff catch_def bnd_def outcome_def ret_def split: prod.splits sum.splits)

lemma finally_bnd:
  "finally_do m c = bnd (outcome m) (\<lambda>r. bnd c (\<lambda>_. lift r))"
  by (auto simp: fun_eq_iff finally_do_def bnd_def outcome_def lift_def split: prod.splits sum.splits)

lemma emits_case_sum [emits_intros]:
  "(\<And>x. emits P (f x)) \<Longrightarrow> (\<And>y. emits P (g y)) \<Longrightarrow> emits P (case r of Inl x \<Rightarrow> f x | Inr y \<Rightarrow> g y)"
  by (cases r) auto

lemma emits_case_option [emits_intros]:
  "emits P f \<Longrightarrow> (\<And>y. emits P (g y)) \<Longrightarrow> emits P (case r of None \<Rightarrow> f | Some y \<Rightarrow> g y)"
  by (cases r) auto

lemma emits_case_prod [emits_intros]:
  "(\<And>x y. emits P (f x y)) \<Longrightarrow> emits P (case r of (x, y) \<Rightarrow> f x y)"
  by (cases r) auto

lemma emits_if [emits_intros]:
  "emits P f \<Longrightarrow> emits P g \<Longrightarrow> emits P (if b then f else g)"
  by auto

lemma emits_case_bool [emits_intros]:
  "emits P f \<Longrightarrow> emits P g \<Longrightarrow> emits P (case b of True \<Rightarrow> f | False \<Rightarrow> g)"
  by (cases b) auto

lemma emits_Let [emits_intros]: "(\<And>x. emits P (f x)) \<Longrightarrow> emits P (let x = v in f x)"
  by auto

lemma emits_catch [emits_intros]:
  "emits P m \<Longrightarrow> (\<And>e. emits P (f e)) \<Longrightarrow> emits P (catch m f)"
  unfolding catch_bnd by (intro emits_intros)

lemma emits_finally [emits_intros]:
  "emits P m \<Longrightarrow> emits P c \<Longrightarrow> emits P (finally_do m c)"
  unfolding finally_bnd by (intro emits_intros)

lemma emits_bracket [emits_intros]:
  "emits P a \<Longrightarrow> emits P z \<Longrightarrow> emits P m \<Longrightarrow> emits P (bracket a z m)"
  unfolding bracket_def by (intro emits_intros)

lemma emits_perform: "(\<And>r. P (ev r)) \<Longrightarrow> emits P (perform f ev)"
  by (auto simp: emits_def perform_def)

lemma emits_ask: "(\<And>r. P (ev r)) \<Longrightarrow> emits P (ask f ev)"
  by (auto simp: emits_def ask_def)

lemma emits_for_each [emits_intros]: "(\<And>x. emits P (f x)) \<Longrightarrow> emits P (for_each f xs)"
  by (induction xs) (auto intro: emits_intros)

lemmas operation_defs =
  declare_queue_def ack_def nack_def get_exchange_def publish_to_def mgmt_queue_def
  mgmt_queues_def overview_def read_setting_def record_audit_def http_post_def smtp_send_def
  add_notification_def

lemma emits_clock [emits_intros]: "emits P (clock E)"
  by (simp add: clock_def emits_observe)

lemma emits_token [emits_intros]: "emits P (token_urlsafe E n)"
  by (simp add: token_urlsafe_def emits_observe)

lemma emits_token_hex [emits_intros]: "emits P (token_hex E n)"
  by (simp add: token_hex_def emits_observe)

lemma emits_processed [emits_intros]: "emits P (processed E m)"
  by (simp add: processed_def emits_observe)

text \<open>Every program built from the operations only extends the history.\<close>

lemma emits_True: "emits P m \<Longrightarrow> emits (\<lambda>_. True) m"
  by (rule emits_mono) simp_all

lemma emits_operations [emits_intros]:
  "(\<And>r. P (EvDeclare q b r)) \<Longrightarrow> emits P (declare_queue E q b)"
  "(\<And>r. P (EvAck (d_tag m) r)) \<Longrightarrow> emits P (ack E m)"
  "(\<And>r. P (EvNack (d_tag m) r)) \<Longrightarrow> emits P (nack E m)"
  "(\<And>r. P (EvExchange x b r)) \<Longrightarrow> emits P (get_exchange E x b)"
  "(\<And>r. P (EvPublish x k out r)) \<Longrightarrow> emits P (publish_to E x k out)"
  "(\<And>r. P (EvMgmtQueue q r)) \<Longrightarrow> emits P (mgmt_queue E q)"
  "(\<And>r. P (EvMgmtQueues r)) \<Longrightarrow> emits P (mgmt_queues E)"
  "(\<And>r. P (EvOverview r)) \<Longrightarrow> emits P (overview E)"
  "(\<And>r. P (EvSetting k r)) \<Longrightarrow> emits P (read_setting E k)"
  "(\<And>r. P (EvAudit a r)) \<Longrightarrow> emits P (record_audit E a)"
  "(\<And>r. P (EvPost u v r)) \<Longrightarrow> emits P (http_post E u v)"
  "(\<And>r. P (EvMail l r)) \<Longrightarrow> emits P (smtp_send E l)"
  "(\<And>r. P (EvNotify n r)) \<Longrightarrow> emits P (add_notification E n)"
  by (simp_all add: operation_defs emits_perform emits_ask)

lemma emits_within_queue:
  assumes "emits P body"
    and "\<And>n r. P (EvLock n r)" "\<And>n. P (EvUnlock n)" "\<And>r. P (EvOpen r)" "\<And>r. P (EvClose r)"
  shows "emits P (within_queue E q body)"
  unfolding within_queue_def with_lock_def with_channel_def
  by (intro emits_bracket emits_perform assms)


section \<open>Which replies a program was given: \<open>emits_at\<close>\<close>

text \<open>\<open>traced P h t\<close>: every event of the trace \<open>t\<close> satisfies \<open>P\<close> at the history before it.\<close>

fun traced :: "(hist \<Rightarrow> event \<Rightarrow> bool) \<Rightarrow> hist \<Rightarrow> event list \<Rightarrow> bool" where
  "traced P h [] \<longleftrightarrow> True"
| "traced P h (e # t) \<longleftrightarrow> P h e \<and> traced P (h @ [e]) t"

lemma traced_append [simp]: "traced P h (t @ u) \<longleftrightarrow> traced P h t \<and> traced P (h @ t) u"
  by (induction t arbitrary: h) auto

definition emits_at :: "(hist \<Rightarrow> event \<Rightarrow> bool) \<Rightarrow> 'a io \<Rightarrow> bool" where
  "emits_at P m \<longleftrightarrow> (\<forall>h. \<exists>t. snd (m h) = h @ t \<and> traced P h t)"

named_theorems emits_at_intros \<open>which events a program can add after a history\<close>

lemma emits_atD: "emits_at P m \<Longrightarrow> m h = (r, h') \<Longrightarrow> \<exists>t. h' = h @ t \<and> traced P h t"
  by (metis emits_at_def snd_conv)

lemma emits_at_pure [emits_at_intros]:
  "emits_at P (ret x)" "emits_at P (raise e)" "emits_at P (lift r)" "emits_at P (observe f)"
  by (simp_all add: emits_at_def ret_def raise_def lift_def observe_def)

lemma emits_at_bnd [emits_at_intros]:
  assumes "emits_at P m" and "\<And>x. emits_at P (f x)"
  shows "emits_at P (bnd m f)"
  unfolding emits_at_def
proof
  fix h
  obtain r h1 where m: "m h = (r, h1)" by fastforce
  with assms(1) obtain t where t: "h1 = h @ t" "traced P h t" by (blast dest: emits_atD)
  show "\<exists>t. snd (bnd m f h) = h @ t \<and> traced P h t"
  proof (cases r)
    case (Inl e)
    with m t show ?thesis by (auto simp: bnd_def)
  next
    case (Inr x)
    obtain r2 h2 where f: "f x h1 = (r2, h2)" by fastforce
    with assms(2) obtain t2 where "h2 = h1 @ t2" "traced P h1 t2" by (blast dest: emits_atD)
    with m t f Inr show ?thesis by (auto simp: bnd_def)
  qed
qed

lemma emits_at_outcome [emits_at_intros]: "emits_at P m \<Longrightarrow> emits_at P (outcome m)"
  by (auto simp: emits_at_def outcome_def split: prod.splits) (metis snd_conv)

lemma emits_at_cases [emits_at_intros]:
  "(\<And>x. emits_at P (f x)) \<Longrightarrow> (\<And>y. emits_at P (g y)) \<Longrightarrow> emits_at P (case r of Inl x \<Rightarrow> f x | Inr y \<Rightarrow> g y)"
  "emits_at P k \<Longrightarrow> (\<And>y. emits_at P (g y)) \<Longrightarrow> emits_at P (case v of None \<Rightarrow> k | Some y \<Rightarrow> g y)"
  "(\<And>x y. emits_at P (i x y)) \<Longrightarrow> emits_at P (case p of (x, y) \<Rightarrow> i x y)"
  "emits_at P k \<Longrightarrow> emits_at P l \<Longrightarrow> emits_at P (if b then k else l)"
  "(\<And>x. emits_at P (f x)) \<Longrightarrow> emits_at P (let x = z in f x)"
  by (auto split: sum.split option.split prod.split)

lemma emits_at_catch [emits_at_intros]:
  "emits_at P m \<Longrightarrow> (\<And>e. emits_at P (f e)) \<Longrightarrow> emits_at P (catch m f)"
  unfolding catch_bnd by (intro emits_at_intros)

lemma emits_at_bracket [emits_at_intros]:
  "emits_at P a \<Longrightarrow> emits_at P z \<Longrightarrow> emits_at P m \<Longrightarrow> emits_at P (bracket a z m)"
  unfolding bracket_def finally_bnd by (intro emits_at_intros)

lemma emits_at_finally [emits_at_intros]:
  "emits_at P m \<Longrightarrow> emits_at P c \<Longrightarrow> emits_at P (finally_do m c)"
  unfolding finally_bnd by (intro emits_at_intros)

lemma emits_at_perform: "(\<And>h. P h (ev (f h))) \<Longrightarrow> emits_at P (perform f ev)"
  by (auto simp: emits_at_def perform_def)

lemma emits_at_ask: "(\<And>h. P h (ev (f h))) \<Longrightarrow> emits_at P (ask f ev)"
  by (auto simp: emits_at_def ask_def)

lemma emits_at_for_each [emits_at_intros]: "(\<And>x. emits_at P (f x)) \<Longrightarrow> emits_at P (for_each f xs)"
  by (induction xs) (auto intro: emits_at_intros)


section \<open>Outcomes: \<open>wp\<close>\<close>

text \<open>\<open>wp m Q h\<close>: run from \<open>h\<close>, \<open>m\<close> ends with a result and history that satisfy \<open>Q\<close>.\<close>

definition wp :: "'a io \<Rightarrow> (exn + 'a \<Rightarrow> hist \<Rightarrow> bool) \<Rightarrow> hist \<Rightarrow> bool" where
  "wp m Q h \<longleftrightarrow> (case m h of (r, h') \<Rightarrow> Q r h')"

lemma wpI: "(\<And>r h'. m h = (r, h') \<Longrightarrow> Q r h') \<Longrightarrow> wp m Q h"
  by (auto simp: wp_def)

lemma wpD: "wp m Q h \<Longrightarrow> m h = (r, h') \<Longrightarrow> Q r h'"
  by (simp add: wp_def)

lemma wp_mono: "wp m Q h \<Longrightarrow> (\<And>r h'. Q r h' \<Longrightarrow> R r h') \<Longrightarrow> wp m R h"
  by (auto simp: wp_def)

lemma wp_ret [wp_simps]: "wp (ret x) Q h = Q (Inr x) h"
  by (simp add: wp_def ret_def)

lemma wp_raise [wp_simps]: "wp (raise e) Q h = Q (Inl e) h"
  by (simp add: wp_def raise_def)

lemma wp_lift [wp_simps]: "wp (lift r) Q h = Q r h"
  by (simp add: wp_def lift_def)

lemma wp_observe [wp_simps]: "wp (observe f) Q h = Q (Inr (f h)) h"
  by (simp add: wp_def observe_def)

lemma wp_bnd [wp_simps]:
  "wp (bnd m f) Q h = wp m (\<lambda>r h'. case r of Inl e \<Rightarrow> Q (Inl e) h' | Inr x \<Rightarrow> wp (f x) Q h') h"
  by (auto simp: wp_def bnd_def split: prod.splits sum.splits)

lemma wp_outcome [wp_simps]: "wp (outcome m) Q h = wp m (\<lambda>r h'. Q (Inr r) h') h"
  by (auto simp: wp_def outcome_def split: prod.splits)

lemma wp_catch [wp_simps]:
  "wp (catch m f) Q h = wp m (\<lambda>r h'. case r of Inl e \<Rightarrow> wp (f e) Q h' | Inr x \<Rightarrow> Q (Inr x) h') h"
  by (auto simp: wp_def catch_def split: prod.splits sum.splits)

lemma wp_finally [wp_simps]:
  "wp (finally_do m c) Q h =
     wp m (\<lambda>r h'. wp c (\<lambda>r' h''. case r' of Inl e \<Rightarrow> Q (Inl e) h'' | Inr _ \<Rightarrow> Q r h'') h') h"
  by (auto simp: wp_def finally_do_def split: prod.splits sum.splits)

lemma wp_bracket [wp_simps]:
  "wp (bracket a z m) Q h =
     wp a (\<lambda>r h'. case r of Inl e \<Rightarrow> Q (Inl e) h' | Inr _ \<Rightarrow> wp (finally_do m z) Q h') h"
  by (simp add: bracket_def wp_bnd)

lemma wp_perform [wp_simps]:
  "wp (perform f ev) Q h = Q (case f h of None \<Rightarrow> Inr () | Some e \<Rightarrow> Inl e) (h @ [ev (f h)])"
  by (simp add: wp_def perform_def)

lemma wp_ask [wp_simps]: "wp (ask f ev) Q h = Q (f h) (h @ [ev (f h)])"
  by (simp add: wp_def ask_def)

lemma wp_emits: "emits P m \<Longrightarrow> (\<And>r t. list_all P t \<Longrightarrow> Q r (h @ t)) \<Longrightarrow> wp m Q h"
  by (rule wpI) (auto dest: emitsD)


section \<open>What a program did: \<open>does\<close>\<close>

text \<open>\<open>does m h \<Phi>\<close>: from \<open>h\<close>, \<open>m\<close> extends the history by a trace that, with the result,
  satisfies \<open>\<Phi>\<close>.\<close>

definition does :: "'a io \<Rightarrow> hist \<Rightarrow> (exn + 'a \<Rightarrow> event list \<Rightarrow> bool) \<Rightarrow> bool" where
  "does m h \<Phi> \<longleftrightarrow> (\<forall>r h'. m h = (r, h') \<longrightarrow> (\<exists>t. h' = h @ t \<and> \<Phi> r t))"

lemma doesI: "(\<And>r h'. m h = (r, h') \<Longrightarrow> \<exists>t. h' = h @ t \<and> \<Phi> r t) \<Longrightarrow> does m h \<Phi>"
  by (simp add: does_def)

lemma doesD: "does m h \<Phi> \<Longrightarrow> m h = (r, h') \<Longrightarrow> \<exists>t. h' = h @ t \<and> \<Phi> r t"
  by (simp add: does_def)

lemma doesD': "does m h \<Phi> \<Longrightarrow> m h = (r, h @ t) \<Longrightarrow> \<Phi> r t"
  by (auto simp: does_def)

lemma does_mono: "does m h \<Phi> \<Longrightarrow> (\<And>r t. \<Phi> r t \<Longrightarrow> \<Psi> r t) \<Longrightarrow> does m h \<Psi>"
  by (fastforce simp: does_def)

lemma does_conj: "does m h \<Phi> \<Longrightarrow> does m h \<Psi> \<Longrightarrow> does m h (\<lambda>r t. \<Phi> r t \<and> \<Psi> r t)"
  by (fastforce simp: does_def)

lemma does_emits: "emits P m \<Longrightarrow> does m h (\<lambda>r t. list_all P t)"
  by (rule doesI) (blast dest: emitsD)

lemma does_ret: "\<Phi> (Inr x) [] \<Longrightarrow> does (ret x) h \<Phi>"
  by (simp add: does_def ret_def)

lemma does_raise: "\<Phi> (Inl e) [] \<Longrightarrow> does (raise e) h \<Phi>"
  by (simp add: does_def raise_def)

lemma does_lift: "\<Phi> r [] \<Longrightarrow> does (lift r) h \<Phi>"
  by (simp add: does_def lift_def)

lemma does_bnd:
  assumes "does m h \<Theta>"
    and "\<And>e t. \<Theta> (Inl e) t \<Longrightarrow> \<Phi> (Inl e) t"
    and "\<And>x t. \<Theta> (Inr x) t \<Longrightarrow> does (f x) (h @ t) (\<lambda>r u. \<Phi> r (t @ u))"
  shows "does (bnd m f) h \<Phi>"
proof (rule doesI)
  fix r h' assume run: "bnd m f h = (r, h')"
  obtain s h1 where m: "m h = (s, h1)" by fastforce
  with assms(1) obtain t where t: "h1 = h @ t" "\<Theta> s t" by (blast dest: doesD)
  show "\<exists>t. h' = h @ t \<and> \<Phi> r t"
  proof (cases s)
    case (Inl e)
    with run m t assms(2) show ?thesis by (auto simp: bnd_def)
  next
    case (Inr x)
    with run m t have f: "f x (h @ t) = (r, h')" by (simp add: bnd_def)
    from t(2) Inr have "does (f x) (h @ t) (\<lambda>r u. \<Phi> r (t @ u))" by (intro assms(3)) simp
    from doesD[OF this f] show ?thesis by auto
  qed
qed

lemma does_outcome: "does m h (\<lambda>r t. \<Phi> (Inr r) t) \<Longrightarrow> does (outcome m) h \<Phi>"
  by (auto simp: does_def outcome_def split: prod.splits)

lemma does_catch:
  assumes "does m h \<Theta>"
    and "\<And>x t. \<Theta> (Inr x) t \<Longrightarrow> \<Phi> (Inr x) t"
    and "\<And>e t. \<Theta> (Inl e) t \<Longrightarrow> does (f e) (h @ t) (\<lambda>r u. \<Phi> r (t @ u))"
  shows "does (catch m f) h \<Phi>"
  unfolding catch_bnd
  by (rule does_bnd[where \<Theta> = "\<lambda>s t. \<exists>r. s = Inr r \<and> \<Theta> r t"])
     (auto intro!: does_outcome does_mono[OF assms(1)] does_ret assms(2,3) split: sum.splits)

lemma does_perform:
  "\<Phi> (case f h of None \<Rightarrow> Inr () | Some e \<Rightarrow> Inl e) [ev (f h)] \<Longrightarrow> does (perform f ev) h \<Phi>"
  by (simp add: does_def perform_def)

lemma does_ask: "\<Phi> (f h) [ev (f h)] \<Longrightarrow> does (ask f ev) h \<Phi>"
  by (simp add: does_def ask_def)

text \<open>The three ways through a locked channel: no lock, no channel, or the body and then the
  close and the unlock, whatever the body did.\<close>

lemma within_queue_cases:
  assumes "within_queue E q body h = (r, h')"
  obtains
    (no_lock) e where "r = Inl e" "h' = h @ [EvLock (lock_names E q) (Some e)]"
  | (no_channel) e where "r = Inl e"
      "h' = h @ [EvLock (lock_names E q) None, EvOpen (Some e), EvUnlock (lock_names E q)]"
  | (ran) rb hb c where "body (h @ [EvLock (lock_names E q) None, EvOpen None]) = (rb, hb)"
      "h' = hb @ [EvClose c, EvUnlock (lock_names E q)]"
      "r = (case c of None \<Rightarrow> rb | Some e \<Rightarrow> Inl e)"
  using assms
  by (auto simp: within_queue_def with_lock_def with_channel_def bracket_def bnd_def
      finally_do_def perform_def split: prod.splits sum.splits option.splits)

lemma does_within_queue:
  assumes body: "does body (h @ [EvLock (lock_names E q) None, EvOpen None]) \<Theta>"
    and "\<And>e. \<Phi> (Inl e) [EvLock (lock_names E q) (Some e)]"
    and "\<And>e. \<Phi> (Inl e) [EvLock (lock_names E q) None, EvOpen (Some e), EvUnlock (lock_names E q)]"
    and "\<And>r t c. \<Theta> r t \<Longrightarrow>
           \<Phi> (case c of None \<Rightarrow> r | Some e \<Rightarrow> Inl e)
             ([EvLock (lock_names E q) None, EvOpen None] @ t @ [EvClose c, EvUnlock (lock_names E q)])"
  shows "does (within_queue E q body) h \<Phi>"
proof (rule doesI)
  fix r h' assume "within_queue E q body h = (r, h')"
  then show "\<exists>t. h' = h @ t \<and> \<Phi> r t"
  proof (cases rule: within_queue_cases)
    case (ran rb hb c)
    from doesD[OF body ran(1)] obtain t where
      "hb = (h @ [EvLock (lock_names E q) None, EvOpen None]) @ t" "\<Theta> rb t"
      by blast
    with ran assms(4) show ?thesis by auto
  qed (use assms(2,3) in auto)
qed

end
