(* ===== verification/Browser.thy ===== *)
theory Browser
  imports Effects
begin

text \<open>
  Reading a queue without consuming it: app/infrastructure/rabbitmq/message_browser.py
  (\<open>fetch\<close>, \<open>requeue\<close>, \<open>MessageBrowser.scan\<close>, the message record with its decoded payload)
  and the reading half of app/application/message_service.py.

  The scan loop is \<open>fetch_loop\<close>; it stops because every round takes one message and a
  message past \<open>limit\<close> ends it. \<open>held\<close> is the caller's list: it is returned also when the
  loop raises, since the code requeues what was taken then too. A payload that \<open>json.loads\<close>
  refuses is text; that it refuses an enormous number or nesting with another exception than
  \<open>JSONDecodeError\<close>, which the code lets through, is not modelled.
\<close>


section \<open>The scan loop\<close>

definition SCAN_BYTES_BUDGET :: int where
  "SCAN_BYTES_BUDGET = 64 * 1024 * 1024"

definition too_deep :: "string \<Rightarrow> int \<Rightarrow> int \<Rightarrow> string" where
  "too_deep queue_name messages depth =
     queue_name @ '' is a quorum queue holding '' @ int_text messages @
     '' messages, more than the browse depth ('' @ int_text depth @
     ''). A quorum queue puts every returned message at the back, so browsing part of one '' @
     ''would reorder it '' @ em_dash @ '' QueueLens browses quorum queues only whole. Raise the '' @
     ''browse depth (Configuration '' @ arrow @ '' Limits) or shovel the queue to a classic one to browse it.''"

function fetch_loop ::
  "env \<Rightarrow> string \<Rightarrow> int \<Rightarrow> bool \<Rightarrow> int option \<Rightarrow> int \<Rightarrow> delivery list \<Rightarrow> int \<Rightarrow>
     ((exn + int \<times> string option) \<times> delivery list) io"
where
  "fetch_loop E q limit whole max_bytes ready held bytes h =
     (let r = e_get E h q; h' = h @ [EvGet q r]
      in case r of
        Inl e \<Rightarrow> (Inr (Inl e, held), h')
      | Inr None \<Rightarrow> (Inr (Inr (ready, None), held), h')
      | Inr (Some m) \<Rightarrow>
          (let held' = held @ [m]; n = int (length held')
           in if n > limit
              then (Inr (Inl (mk_exn UnsafeToBrowse (too_deep q n limit)), held'), h')
              else
                (let bytes' = bytes + int (length (d_body m))
                 in if \<not> whole \<and> n = limit then (Inr (Inr (ready, Some ''depth''), held'), h')
                    else if \<not> whole \<and> (case max_bytes of None \<Rightarrow> False | Some b \<Rightarrow> bytes' \<ge> b)
                    then (Inr (Inr (ready, Some ''memory''), held'), h')
                    else fetch_loop E q limit whole max_bytes ready held' bytes' h')))"
  by pat_completeness auto
termination
  by (relation "measure (\<lambda>(E, q, limit, whole, mb, ready, held, bytes, h). nat (limit + 1 - int (length held)))")
     auto

declare fetch_loop.simps [simp del]

text \<open>\<open>declared\<close> is the message count of the passive declare's Declare-Ok, if there is one.\<close>

definition fetch ::
  "env \<Rightarrow> string \<Rightarrow> int option \<Rightarrow> int \<Rightarrow> bool \<Rightarrow> int option \<Rightarrow>
     ((exn + int \<times> string option) \<times> delivery list) io"
where
  "fetch E q declared limit whole max_bytes =
     (let ready = int_or declared 0
      in if whole \<and> ready > limit
         then ret (Inl (mk_exn UnsafeToBrowse (too_deep q ready limit)), [])
         else fetch_loop E q limit whole max_bytes ready [] 0)"

definition requeue_one :: "env \<Rightarrow> delivery option \<Rightarrow> delivery \<Rightarrow> unit io" where
  "requeue_one E keep m =
     bnd (processed E m) (\<lambda>done.
       if (case keep of None \<Rightarrow> True | Some k \<Rightarrow> d_tag m \<noteq> d_tag k) \<and> \<not> done
       then nack E m else ret ())"

definition requeue :: "env \<Rightarrow> delivery list \<Rightarrow> delivery option \<Rightarrow> unit io" where
  "requeue E messages keep = for_each (requeue_one E keep) messages"


section \<open>Message records\<close>

definition MAX_DECODED_BYTES :: nat where
  "MAX_DECODED_BYTES = 4 * 1024 * 1024"

fun try_inflate :: "pylib \<Rightarrow> string \<Rightarrow> int list \<Rightarrow> string option" where
  "try_inflate L body [] = None"
| "try_inflate L body (wbits # rest) =
     (case zlib_inflate L wbits body MAX_DECODED_BYTES of
        None \<Rightarrow> try_inflate L body rest
      | Some (out, tail, flushed) \<Rightarrow> if tail \<noteq> [] then None else Some (out @ flushed))"

definition decompress :: "pylib \<Rightarrow> string \<Rightarrow> string \<Rightarrow> string option" where
  "decompress L body encoding =
     try_inflate L body ([32 + 15] @ (if encoding = ''deflate'' then [- 15] else []))"

definition decode_payload :: "pylib \<Rightarrow> string \<Rightarrow> string option \<Rightarrow> pyval \<times> string \<times> string option" where
  "decode_payload L body content_encoding =
     (let encoding = lower (strip (str_or content_encoding []));
          inflated = (if encoding \<in> {''gzip'', ''x-gzip'', ''deflate''}
                      then decompress L body encoding else None);
          body' = (case inflated of None \<Rightarrow> body | Some b \<Rightarrow> b);
          decoded_from = (case inflated of None \<Rightarrow> None
                          | Some _ \<Rightarrow> Some (if contains ''gzip'' encoding then ''gzip'' else ''deflate''))
      in if utf8_valid L body'
         then (case json_loads L body' of
                 Some v \<Rightarrow> (v, ''json'', decoded_from)
               | None \<Rightarrow> (PStr body', ''text'', decoded_from))
         else (PStr (base64 L body'), ''base64'', decoded_from))"

definition opt_int :: "int option \<Rightarrow> pyval" where
  "opt_int n = (case n of None \<Rightarrow> PNone | Some x \<Rightarrow> PInt x)"

definition opt_float :: "pyfloat option \<Rightarrow> pyval" where
  "opt_float n = (case n of None \<Rightarrow> PNone | Some x \<Rightarrow> PFloat x)"

fun str_value :: "pyval \<Rightarrow> string option" where
  "str_value (PStr s) = Some s"
| "str_value _ = None"

definition message_properties :: "pylib \<Rightarrow> delivery \<Rightarrow> pyval dict" where
  "message_properties L m =
     [(''content_type'', opt_str (d_content_type m)),
      (''content_encoding'', opt_str (d_content_encoding m)),
      (''delivery_mode'', opt_int (d_delivery_mode m)),
      (''priority'', opt_int (d_priority m)),
      (''correlation_id'', opt_str (d_correlation_id m)),
      (''reply_to'', opt_str (d_reply_to m)),
      (''expiration'', opt_float (d_expiration m)),
      (''message_id'', opt_str (d_message_id m)),
      (''timestamp'', opt_str (map_option (isoformat L) (d_timestamp m))),
      (''type'', opt_str (d_type m)),
      (''user_id'', opt_str (d_user_id m)),
      (''app_id'', opt_str (d_app_id m))]"

definition to_record :: "pylib \<Rightarrow> string \<Rightarrow> bool \<Rightarrow> delivery \<Rightarrow> message_record" where
  "to_record L queue_name slim m =
     (let headers = (case d_headers m of None \<Rightarrow> [] | Some h \<Rightarrow> h);
          body = d_body m;
          (payload, payload_format, decoded_from) = decode_payload L body (d_content_encoding m);
          record =
            \<lparr>mr_fingerprint = message_fingerprint L queue_name body headers (d_message_id m)
                (d_timestamp m) (str_or (d_exchange m) []) (str_or (d_routing_key m) []),
             mr_source_queue = queue_name,
             mr_body = body,
             mr_payload = Some payload,
             mr_payload_format = payload_format,
             mr_payload_size = int (length body),
             mr_content_type = d_content_type m,
             mr_message_id = d_message_id m,
             mr_correlation_id = d_correlation_id m,
             mr_timestamp = d_timestamp m,
             mr_exchange = str_or (d_exchange m) [],
             mr_routing_key = str_or (d_routing_key m) [],
             mr_headers = headers,
             mr_properties = message_properties L m,
             mr_redelivered = d_redelivered m,
             mr_x_death = parse_x_death headers,
             mr_decoded_from = decoded_from,
             mr_payload_encoded =
               (if decoded_from \<noteq> None then Some (base64 L body) else None)\<rparr>
      in if slim then record\<lparr>mr_payload := None, mr_payload_encoded := None\<rparr> else record)"

definition with_payload :: "pylib \<Rightarrow> message_record \<Rightarrow> message_record" where
  "with_payload L r =
     (if mr_payload r \<noteq> None then r
      else
        let (payload, _, decoded_from) =
              decode_payload L (mr_body r) (str_value (py_get (mr_properties r) ''content_encoding''))
        in r\<lparr>mr_payload := Some payload,
             mr_payload_encoded :=
               (if decoded_from \<noteq> None then Some (base64 L (mr_body r)) else None)\<rparr>)"


section \<open>Scanning\<close>

record scan_result =
  sc_records :: "message_record list"
  sc_ready :: int
  sc_stopped :: "string option"

definition scan_body ::
  "env \<Rightarrow> string \<Rightarrow> int \<Rightarrow> bool \<Rightarrow> int option \<Rightarrow> bool \<Rightarrow> scan_result io"
where
  "scan_body E q limit whole max_bytes slim =
     bnd (declare_queue E q True) (\<lambda>declared.
     bnd (fetch E q declared limit whole max_bytes) (\<lambda>(fetched, messages).
       finally_do
         (bnd (lift fetched) (\<lambda>(ready, stopped).
            ret \<lparr>sc_records = map (to_record (e_lib E) q slim) messages,
                 sc_ready = ready, sc_stopped = stopped\<rparr>))
         (requeue E messages None)))"

definition scan :: "env \<Rightarrow> string \<Rightarrow> int \<Rightarrow> bool \<Rightarrow> int option \<Rightarrow> bool \<Rightarrow> scan_result io" where
  "scan E q limit whole max_bytes slim =
     within_queue E q (scan_body E q limit whole max_bytes slim)"

definition browser_list_messages :: "env \<Rightarrow> string \<Rightarrow> int \<Rightarrow> bool \<Rightarrow> message_record list io" where
  "browser_list_messages E q limit whole =
     bnd (scan E q limit whole None False) (\<lambda>s. ret (sc_records s))"


section \<open>The message service\<close>

text \<open>A browse guard raises before any read where browsing would be destructive, and says
  whether the queue must be scanned whole.\<close>

type_synonym browse_guard = "string \<Rightarrow> bool io"

definition no_guard :: browse_guard where
  "no_guard q = ret False"

definition list_messages :: "env \<Rightarrow> browse_guard \<Rightarrow> string \<Rightarrow> int \<Rightarrow> int option \<Rightarrow> message_record list io"
where
  "list_messages E guard q limit depth =
     bnd (guard q) (\<lambda>whole.
     bnd (scan E q (if whole then int_or depth limit else limit) whole None False) (\<lambda>s.
       ret (slice_to limit (sc_records s))))"

definition snapshot :: "env \<Rightarrow> browse_guard \<Rightarrow> string \<Rightarrow> int \<Rightarrow> scan_result io" where
  "snapshot E guard q depth =
     bnd (guard q) (\<lambda>whole. scan E q depth whole (Some SCAN_BYTES_BUDGET) True)"

definition get_message ::
  "env \<Rightarrow> browse_guard \<Rightarrow> string \<Rightarrow> string \<Rightarrow> int \<Rightarrow> int option \<Rightarrow> message_record io"
where
  "get_message E guard q fingerprint limit depth =
     bnd (list_messages E guard q limit depth) (\<lambda>messages.
       case filter (\<lambda>m. mr_fingerprint m = fingerprint) messages of
         [m] \<Rightarrow> ret m
       | _ \<Rightarrow> raise (mk_exn NotUniqueErr
                (''Message '' @ fingerprint @ '' was not found uniquely in '' @ q)))"


section \<open>Lemmas\<close>

subsection \<open>Records\<close>

lemma str_value_opt_str [simp]: "str_value (opt_str s) = s"
  by (cases s) (auto simp: opt_str_def)

lemma properties_content_encoding [simp]:
  "py_get (message_properties L m) ''content_encoding'' = opt_str (d_content_encoding m)"
  by (simp add: message_properties_def)

lemma to_record_fields [simp]:
  "mr_fingerprint (to_record L q slim m) =
     message_fingerprint L q (d_body m) (case d_headers m of None \<Rightarrow> [] | Some h \<Rightarrow> h)
       (d_message_id m) (d_timestamp m) (str_or (d_exchange m) []) (str_or (d_routing_key m) [])"
  "mr_body (to_record L q slim m) = d_body m"
  "mr_headers (to_record L q slim m) = (case d_headers m of None \<Rightarrow> [] | Some h \<Rightarrow> h)"
  "mr_properties (to_record L q slim m) = message_properties L m"
  "mr_x_death (to_record L q slim m) = parse_x_death (case d_headers m of None \<Rightarrow> [] | Some h \<Rightarrow> h)"
  "mr_content_type (to_record L q slim m) = d_content_type m"
  "mr_message_id (to_record L q slim m) = d_message_id m"
  "mr_correlation_id (to_record L q slim m) = d_correlation_id m"
  "mr_timestamp (to_record L q slim m) = d_timestamp m"
  by (simp_all add: to_record_def Let_def split: prod.splits)

subsection \<open>The loop\<close>

lemma fetch_loop_simp:
  "fetch_loop E q limit whole mb ready held bytes h =
     (case e_get E h q of
        Inl e \<Rightarrow> (Inr (Inl e, held), h @ [EvGet q (Inl e)])
      | Inr None \<Rightarrow> (Inr (Inr (ready, None), held), h @ [EvGet q (Inr None)])
      | Inr (Some m) \<Rightarrow>
          (if int (length held) + 1 > limit
           then (Inr (Inl (mk_exn UnsafeToBrowse (too_deep q (int (length held) + 1) limit)), held @ [m]),
                 h @ [EvGet q (Inr (Some m))])
           else if \<not> whole \<and> int (length held) + 1 = limit
           then (Inr (Inr (ready, Some ''depth''), held @ [m]), h @ [EvGet q (Inr (Some m))])
           else if \<not> whole \<and> (case mb of None \<Rightarrow> False | Some b \<Rightarrow> bytes + int (length (d_body m)) \<ge> b)
           then (Inr (Inr (ready, Some ''memory''), held @ [m]), h @ [EvGet q (Inr (Some m))])
           else fetch_loop E q limit whole mb ready (held @ [m]) (bytes + int (length (d_body m)))
                  (h @ [EvGet q (Inr (Some m))])))"
  by (subst fetch_loop.simps) (auto simp: Let_def add.commute split: sum.splits option.splits)

text \<open>
  What the loop did, whatever the broker answered: it returned normally as a program (its
  exception is part of the value), it added only gets of this queue, and the messages it holds
  are exactly the ones it was given, in order.
\<close>

definition got :: "event list \<Rightarrow> delivery list" where
  "got t = concat (map (\<lambda>e. case e of EvGet _ (Inr (Some m)) \<Rightarrow> [m] | _ \<Rightarrow> []) t)"

lemma got_simps [simp]:
  "got [] = []"
  "got (EvGet q (Inr (Some m)) # t) = m # got t"
  "got (EvGet q (Inr None) # t) = got t"
  "got (EvGet q (Inl e) # t) = got t"
  "got (t @ t') = got t @ got t'"
  by (simp_all add: got_def)

definition is_get :: "string \<Rightarrow> event \<Rightarrow> bool" where
  "is_get q e \<longleftrightarrow> (\<exists>r. e = EvGet q r)"

lemma is_get_simps [simp]: "is_get q (EvGet q r)"
  by (simp add: is_get_def)

lemma fetch_loop_trace:
  assumes "fetch_loop E q limit whole mb ready held bytes h = (r, h')"
  shows "\<exists>res t. r = Inr (res, held @ got t) \<and> h' = h @ t \<and> list_all (is_get q) t"
  using assms
proof (induction E q limit whole mb ready held bytes h arbitrary: r h' rule: fetch_loop.induct)
  case (1 E q limit whole mb ready held bytes h)
  note eq = "1.prems"[unfolded fetch_loop_simp[of E q limit whole mb ready held bytes h]]
  show ?case
  proof (cases "\<exists>m. e_get E h q = Inr (Some m) \<and> \<not> int (length held) + 1 > limit
      \<and> \<not> (\<not> whole \<and> int (length held) + 1 = limit)
      \<and> \<not> (\<not> whole \<and> (case mb of None \<Rightarrow> False | Some b \<Rightarrow> bytes + int (length (d_body m)) \<ge> b))")
    case False
    with eq show ?thesis
      by (auto simp: is_get_def split: sum.splits option.splits if_splits)
  next
    case True
    then obtain m where m: "e_get E h q = Inr (Some m)"
        "\<not> int (length held) + 1 > limit" "\<not> (\<not> whole \<and> int (length held) + 1 = limit)"
        "\<not> (\<not> whole \<and> (case mb of None \<Rightarrow> False | Some b \<Rightarrow> bytes + int (length (d_body m)) \<ge> b))"
      by blast
    then have eq': "fetch_loop E q limit whole mb ready (held @ [m]) (bytes + int (length (d_body m)))
        (h @ [EvGet q (Inr (Some m))]) = (r, h')"
      using eq by (auto split: if_splits)
    have "\<exists>res t. r = Inr (res, (held @ [m]) @ got t) \<and> h' = (h @ [EvGet q (Inr (Some m))]) @ t
        \<and> list_all (is_get q) t"
      using "1.IH"[OF refl refl, of "Some m" m] m eq' by (auto simp: add.commute)
    then obtain res t where "r = Inr (res, held @ m # got t)"
        "h' = h @ EvGet q (Inr (Some m)) # t" "list_all (is_get q) t"
      by auto
    then show ?thesis
      by (intro exI[of _ res] exI[of _ "EvGet q (Inr (Some m)) # t"]) simp
  qed
qed

end
