(* ===== verification/Queue_Model.thy ===== *)
theory Queue_Model
  imports Browser
begin

text \<open>
  What a RabbitMQ queue does with the calls of a scan, as docs/SAFETY.md (section 1) records it,
  and what scanning therefore leaves behind.

  The queue is a list of ready messages and a list of unacked ones. A get moves the head to the
  unacked list, an ack drops a message, a nack with requeue returns it, closing the channel
  returns every unacked one in order. Where a returned message goes is the queue type's
  discipline: a classic queue puts it back in its place, a quorum queue at the back.

  These are hypotheses about the broker (\<open>serves\<close>), never definitions the scan uses. The
  calls may still fail at any point.
\<close>


section \<open>The queue behind the calls\<close>

type_synonym discipline = "delivery \<Rightarrow> delivery list \<Rightarrow> delivery list"

record queue_state =
  q_ready :: "delivery list"
  q_unacked :: "delivery list"

definition return_to :: "discipline \<Rightarrow> nat \<Rightarrow> queue_state \<Rightarrow> queue_state" where
  "return_to put t s =
     (case filter (\<lambda>m. d_tag m = t) (q_unacked s) of
        [] \<Rightarrow> s
      | m # _ \<Rightarrow> \<lparr>q_ready = put m (q_ready s), q_unacked = filter (\<lambda>m. d_tag m \<noteq> t) (q_unacked s)\<rparr>)"

fun q_step :: "discipline \<Rightarrow> string \<Rightarrow> event \<Rightarrow> queue_state \<Rightarrow> queue_state" where
  "q_step put q (EvGet q' (Inr (Some m))) s =
     (if q' = q then \<lparr>q_ready = tl (q_ready s), q_unacked = q_unacked s @ [m]\<rparr> else s)"
| "q_step put q (EvAck t None) s = s\<lparr>q_unacked := filter (\<lambda>m. d_tag m \<noteq> t) (q_unacked s)\<rparr>"
| "q_step put q (EvNack t None) s = return_to put t s"
| "q_step put q (EvClose _) s = \<lparr>q_ready = fold put (q_unacked s) (q_ready s), q_unacked = []\<rparr>"
| "q_step put q _ s = s"

definition queue_after :: "discipline \<Rightarrow> string \<Rightarrow> queue_state \<Rightarrow> hist \<Rightarrow> queue_state" where
  "queue_after put q s h = fold (q_step put q) h s"

lemma queue_after_Nil [simp]: "queue_after put q s [] = s"
  by (simp add: queue_after_def)

lemma queue_after_append [simp]:
  "queue_after put q s (h @ t) = queue_after put q (queue_after put q s h) t"
  by (simp add: queue_after_def)

lemma queue_after_Cons [simp]:
  "queue_after put q s (e # t) = queue_after put q (q_step put q e s) t"
  by (simp add: queue_after_def)

text \<open>The broker answers gets and passive declares from that queue, when it answers.\<close>

definition serves :: "discipline \<Rightarrow> string \<Rightarrow> queue_state \<Rightarrow> env \<Rightarrow> bool" where
  "serves put q s0 E \<longleftrightarrow>
     (\<forall>h r. e_get E h q = Inr r \<longrightarrow>
        r = (case q_ready (queue_after put q s0 h) of [] \<Rightarrow> None | m # _ \<Rightarrow> Some m)) \<and>
     (\<forall>h r. e_declare E h q True = Inr r \<longrightarrow>
        r = Some (int (length (q_ready (queue_after put q s0 h)))))"

lemma serves_get:
  "serves put q s0 E \<Longrightarrow> e_get E h q = Inr r \<Longrightarrow>
     r = (case q_ready (queue_after put q s0 h) of [] \<Rightarrow> None | m # _ \<Rightarrow> Some m)"
  by (auto simp: serves_def)

lemma serves_declare:
  "serves put q s0 E \<Longrightarrow> e_declare E h q True = Inr r \<Longrightarrow>
     r = Some (int (length (q_ready (queue_after put q s0 h))))"
  by (auto simp: serves_def)

definition gets_answered :: "string \<Rightarrow> env \<Rightarrow> bool" where
  "gets_answered q E \<longleftrightarrow> (\<forall>h. \<exists>r. e_get E h q = Inr r)"

text \<open>The client library marks a message processed only once it was acked or nacked.\<close>

definition honest_processed :: "env \<Rightarrow> bool" where
  "honest_processed E \<longleftrightarrow>
     (\<forall>h t. e_processed E h t \<longrightarrow> EvAck t None \<in> set h \<or> EvNack t None \<in> set h)"

text \<open>Messages no earlier part of the history has settled, with tags of their own.\<close>

definition unsettled :: "hist \<Rightarrow> delivery list \<Rightarrow> bool" where
  "unsettled h ms \<longleftrightarrow> distinct (map d_tag ms) \<and>
     (\<forall>m \<in> set ms. EvAck (d_tag m) None \<notin> set h \<and> EvNack (d_tag m) None \<notin> set h)"

lemma unsettled_append_no_settle:
  assumes "unsettled h ms" and "\<And>t. EvAck t None \<notin> set h'" "\<And>t. EvNack t None \<notin> set h'"
  shows "unsettled (h @ h') ms"
  using assms by (auto simp: unsettled_def)


section \<open>Steps of a scan\<close>

lemma fetch_loop_queue:
  assumes "serves put q s0 E"
    and "fetch_loop E q limit whole mb n held bytes h = (r, h')"
    and "queue_after put q s0 h = \<lparr>q_ready = R, q_unacked = U\<rparr>"
  shows "\<exists>res taken rest. R = taken @ rest \<and> r = Inr (res, held @ taken) \<and>
           queue_after put q s0 h' = \<lparr>q_ready = rest, q_unacked = U @ taken\<rparr> \<and>
           (gets_answered q E \<longrightarrow> whole \<longrightarrow> int (length held + length R) \<le> limit \<longrightarrow> rest = [])"
  using assms(2,3)
proof (induction R arbitrary: held bytes h U)
  case Nil
  have "q_ready (queue_after put q s0 h) = []" using Nil by simp
  then have "\<And>x. e_get E h q = Inr x \<Longrightarrow> x = None"
    using serves_get[OF assms(1)] by fastforce
  then show ?case
    using Nil by (auto simp: fetch_loop_simp[of E q limit whole mb n held bytes h] split: sum.splits option.splits)
next
  case (Cons m R)
  have "\<And>x. e_get E h q = Inr x \<Longrightarrow> x = Some m"
    using serves_get[OF assms(1)] Cons.prems(2) by fastforce
  then consider (fail) e where "e_get E h q = Inl e" | (got) "e_get E h q = Inr (Some m)"
    by (cases "e_get E h q") auto
  then show ?case
  proof cases
    case fail
    then have "\<not> gets_answered q E" unfolding gets_answered_def by (metis Inl_Inr_False)
    with fail Cons.prems show ?thesis
      by (auto simp: fetch_loop_simp[of E q limit whole mb n held bytes h])
  next
    case got
    let ?h = "h @ [EvGet q (Inr (Some m))]"
    have q': "queue_after put q s0 ?h = \<lparr>q_ready = R, q_unacked = U @ [m]\<rparr>"
      using Cons.prems(2) by simp
    consider (stop) res where "r = Inr (res, held @ [m])" "h' = ?h"
        "\<not> (whole \<and> int (length held + length (m # R)) \<le> limit)"
      | (more) b where "fetch_loop E q limit whole mb n (held @ [m]) b ?h = (r, h')"
      using Cons.prems(1) got
      by (auto simp: fetch_loop_simp[of E q limit whole mb n held bytes h] split: if_splits)
    then show ?thesis
    proof cases
      case stop
      with q' show ?thesis by (intro exI[of _ res] exI[of _ "[m]"] exI[of _ R]) auto
    next
      case more
      from Cons.IH[OF this q'] obtain res taken rest where
        "R = taken @ rest" "r = Inr (res, (held @ [m]) @ taken)"
        "queue_after put q s0 h' = \<lparr>q_ready = rest, q_unacked = (U @ [m]) @ taken\<rparr>"
        "gets_answered q E \<longrightarrow> whole \<longrightarrow> int (length (held @ [m]) + length R) \<le> limit \<longrightarrow> rest = []"
        by blast
      then show ?thesis by (intro exI[of _ res] exI[of _ "m # taken"] exI[of _ rest]) auto
    qed
  qed
qed

text \<open>Requeueing in read order, stopping at the first nack that fails.\<close>

lemma requeue_queue:
  assumes "honest_processed E" and "unsettled h ms"
    and "queue_after put q s0 h = \<lparr>q_ready = R, q_unacked = ms\<rparr>"
    and "requeue E ms None h = (r, h')"
  shows "\<exists>pre post. ms = pre @ post \<and>
           queue_after put q s0 h' = \<lparr>q_ready = fold put pre R, q_unacked = post\<rparr>"
  using assms(2-4)
proof (induction ms arbitrary: h R)
  case Nil
  then show ?case by (auto simp: requeue_def ret_def)
next
  case (Cons m ms)
  have np: "\<not> e_processed E h (d_tag m)"
    using assms(1) Cons.prems(1) by (auto simp: honest_processed_def unsettled_def)
  have others: "filter (\<lambda>m'. d_tag m' \<noteq> d_tag m) ms = ms" "filter (\<lambda>m'. d_tag m' = d_tag m) ms = []"
    using Cons.prems(1)
    by (simp_all add: unsettled_def filter_id_conv filter_empty_conv) (metis imageI)+
  show ?case
  proof (cases "e_nack E h (d_tag m)")
    case None
    let ?h = "h @ [EvNack (d_tag m) None]"
    have "unsettled ?h ms"
      using Cons.prems(1) by (auto simp: unsettled_def) (metis imageI)
    moreover have "queue_after put q s0 ?h = \<lparr>q_ready = put m R, q_unacked = ms\<rparr>"
      using Cons.prems(2) others by (simp add: return_to_def)
    moreover have "requeue E ms None ?h = (r, h')"
      using Cons.prems(3) np None
      by (simp add: requeue_def requeue_one_def bnd_def processed_def observe_def nack_def perform_def)
    ultimately obtain pre post where "ms = pre @ post"
        "queue_after put q s0 h' = \<lparr>q_ready = fold put pre (put m R), q_unacked = post\<rparr>"
      using Cons.IH by blast
    then show ?thesis by (intro exI[of _ "m # pre"] exI[of _ post]) simp
  next
    case (Some e)
    then have "h' = h @ [EvNack (d_tag m) (Some e)]"
      using Cons.prems(3) np
      by (simp add: requeue_def requeue_one_def bnd_def processed_def observe_def nack_def perform_def)
    then show ?thesis
      using Cons.prems(2) by (intro exI[of _ "[]"] exI[of _ "m # ms"]) simp
  qed
qed


section \<open>A whole scan\<close>

lemma no_settle_gets:
  "list_all (is_get q) t \<Longrightarrow> EvAck x None \<notin> set t \<and> EvNack x None \<notin> set t"
  by (auto simp: list_all_iff is_get_def)

lemma unsettled_prefix: "unsettled h (xs @ ys) \<Longrightarrow> unsettled h xs"
  by (auto simp: unsettled_def)

text \<open>The channel of a scan, from its first get to its close: whatever was taken is returned in
  the order it was read.\<close>

lemma scan_body_queue:
  assumes sv: "serves put q s0 E" and hp: "honest_processed E"
    and un: "unsettled h R"
    and st: "queue_after put q s0 h = \<lparr>q_ready = R, q_unacked = []\<rparr>"
    and run: "scan_body E q limit whole mb slim h = (r, h')"
  shows "\<exists>taken rest pre post. R = taken @ rest \<and> taken = pre @ post \<and>
           queue_after put q s0 h' = \<lparr>q_ready = fold put pre rest, q_unacked = post\<rparr> \<and>
           (gets_answered q E \<longrightarrow> whole \<longrightarrow> taken = [] \<or> rest = [])"
proof (cases "e_declare E h q True")
  case (Inl e)
  then have "h' = h @ [EvDeclare q True (Inl e)]"
    using run by (simp add: scan_body_def bnd_def declare_queue_def ask_def)
  then show ?thesis
    using st by (intro exI[of _ "[]"] exI[of _ R] exI[of _ "[]"] exI[of _ "[]"]) simp
next
  case (Inr d)
  then have d: "d = Some (int (length R))" using serves_declare[OF sv] st by fastforce
  let ?h1 = "h @ [EvDeclare q True (Inr d)]"
  have st1: "queue_after put q s0 ?h1 = \<lparr>q_ready = R, q_unacked = []\<rparr>" using st by simp
  have un1: "unsettled ?h1 R" using un by (auto simp: unsettled_def)
  obtain v h2 where f: "fetch E q d limit whole mb ?h1 = (v, h2)" by fastforce
  have "\<exists>res taken rest. R = taken @ rest \<and> v = Inr (res, taken) \<and> unsettled h2 taken \<and>
      queue_after put q s0 h2 = \<lparr>q_ready = rest, q_unacked = taken\<rparr> \<and>
      (gets_answered q E \<longrightarrow> whole \<longrightarrow> taken = [] \<or> rest = [])"
  proof (cases "whole \<and> int (length R) > limit")
    case True
    then have "v = Inr (Inl (mk_exn UnsafeToBrowse (too_deep q (int (length R)) limit)), [])" "h2 = ?h1"
      using f d by (auto simp: fetch_def int_or_def ret_def Let_def split: if_splits)
    then show ?thesis using st1 by (intro exI) (auto simp: unsettled_def)
  next
    case False
    then obtain n where loop: "fetch_loop E q limit whole mb n [] 0 ?h1 = (v, h2)"
      using f d by (auto simp: fetch_def int_or_def ret_def Let_def split: if_splits)
    obtain t where t: "h2 = ?h1 @ t" "list_all (is_get q) t"
      using fetch_loop_trace[OF loop] by blast
    from fetch_loop_queue[OF sv loop st1] obtain res taken rest where
      *: "R = taken @ rest" "v = Inr (res, taken)"
        "queue_after put q s0 h2 = \<lparr>q_ready = rest, q_unacked = taken\<rparr>"
        "gets_answered q E \<longrightarrow> whole \<longrightarrow> int (length R) \<le> limit \<longrightarrow> rest = []"
      by auto
    have "unsettled h2 taken"
      using un1 *(1) t by (auto simp: unsettled_def dest: no_settle_gets)
    with * False show ?thesis by auto
  qed
  then obtain res taken rest where
    v: "R = taken @ rest" "v = Inr (res, taken)" "unsettled h2 taken"
      "queue_after put q s0 h2 = \<lparr>q_ready = rest, q_unacked = taken\<rparr>"
      "gets_answered q E \<longrightarrow> whole \<longrightarrow> taken = [] \<or> rest = []"
    by blast
  have "\<exists>rr. requeue E taken None h2 = (rr, h')"
    using run Inr f v(2)
    by (auto simp: scan_body_def bnd_def declare_queue_def ask_def finally_do_def lift_def ret_def
        split: prod.splits sum.splits)
  then obtain pre post where "taken = pre @ post"
      "queue_after put q s0 h' = \<lparr>q_ready = fold put pre rest, q_unacked = post\<rparr>"
    using requeue_queue[OF hp v(3,4)] by blast
  with v show ?thesis by blast
qed

lemma scan_queue:
  assumes sv: "serves put q s0 E" and hp: "honest_processed E"
    and un: "unsettled h R"
    and st: "queue_after put q s0 h = \<lparr>q_ready = R, q_unacked = []\<rparr>"
    and run: "scan E q limit whole mb slim h = (r, h')"
  shows "\<exists>taken rest. R = taken @ rest \<and>
           queue_after put q s0 h' = \<lparr>q_ready = fold put taken rest, q_unacked = []\<rparr> \<and>
           (gets_answered q E \<longrightarrow> whole \<longrightarrow> taken = [] \<or> rest = [])"
proof -
  let ?h2 = "h @ [EvLock (lock_names E q) None, EvOpen None]"
  have un2: "unsettled ?h2 R" using un by (auto simp: unsettled_def)
  have st2: "queue_after put q s0 ?h2 = \<lparr>q_ready = R, q_unacked = []\<rparr>" using st by simp
  from run[unfolded scan_def] show ?thesis
  proof (cases rule: within_queue_cases)
    case (ran rb hb c)
    from scan_body_queue[OF sv hp un2 st2 ran(1)] obtain taken rest pre post where
      *: "R = taken @ rest" "taken = pre @ post"
        "queue_after put q s0 hb = \<lparr>q_ready = fold put pre rest, q_unacked = post\<rparr>"
        "gets_answered q E \<longrightarrow> whole \<longrightarrow> taken = [] \<or> rest = []"
      by blast
    then show ?thesis using ran(2) by (intro exI[of _ taken] exI[of _ rest]) simp
  qed (rule exI[of _ "[]"], rule exI[of _ R], use st in simp)+
qed


section \<open>Return disciplines\<close>

text \<open>
  The interface between a queue type and the scan: when \<open>safe taken rest\<close> holds, returning the
  messages taken from the front, in the order they were read, restores the queue.
\<close>

locale return_discipline =
  fixes put :: discipline
    and safe :: "delivery list \<Rightarrow> delivery list \<Rightarrow> bool"
  assumes restore: "safe taken rest \<Longrightarrow> fold put taken rest = taken @ rest"
begin

lemma scan_restores:
  assumes "serves put q s0 E" "honest_processed E" "unsettled h R"
    and "queue_after put q s0 h = \<lparr>q_ready = R, q_unacked = []\<rparr>"
    and "scan E q limit whole mb slim h = (r, h')"
    and "\<And>taken rest. R = taken @ rest \<Longrightarrow>
           gets_answered q E \<longrightarrow> whole \<longrightarrow> taken = [] \<or> rest = [] \<Longrightarrow> safe taken rest"
  shows "queue_after put q s0 h' = \<lparr>q_ready = R, q_unacked = []\<rparr>"
  using scan_queue[OF assms(1-5)] assms(6) restore by fastforce

end

text \<open>A classic queue restores positions; a quorum queue appends.\<close>

definition to_position :: discipline where
  "to_position m ms = insort_key d_tag m ms"

definition to_back :: discipline where
  "to_back m ms = ms @ [m]"

definition in_position :: "delivery list \<Rightarrow> delivery list \<Rightarrow> bool" where
  "in_position taken rest \<longleftrightarrow> sorted_wrt (\<lambda>a b. d_tag a < d_tag b) (taken @ rest)"

lemma insort_key_front:
  "\<forall>x \<in> set ms. d_tag m < d_tag x \<Longrightarrow> insort_key d_tag m ms = m # ms"
  by (cases ms) auto

lemma insort_key_middle:
  "sorted_wrt (\<lambda>a b. d_tag a < d_tag b) (xs @ m # ys) \<Longrightarrow>
     insort_key d_tag m (xs @ ys) = xs @ m # ys"
  by (induction xs) (auto simp: sorted_wrt_append intro!: insort_key_front)

lemma fold_to_position:
  "sorted_wrt (\<lambda>a b. d_tag a < d_tag b) (pre @ taken @ rest) \<Longrightarrow>
     fold to_position taken (pre @ rest) = pre @ taken @ rest"
proof (induction taken arbitrary: pre)
  case Nil
  then show ?case by simp
next
  case (Cons m taken)
  have "sorted_wrt (\<lambda>a b. d_tag a < d_tag b) (pre @ m # rest)"
    using Cons.prems by (auto simp: sorted_wrt_append)
  then have "to_position m (pre @ rest) = (pre @ [m]) @ rest"
    by (simp add: to_position_def insort_key_middle)
  moreover have "fold to_position taken ((pre @ [m]) @ rest) = (pre @ [m]) @ taken @ rest"
    using Cons.prems by (intro Cons.IH) simp
  ultimately show ?case by simp
qed

lemma fold_to_back: "fold to_back taken rest = rest @ taken"
  by (induction taken arbitrary: rest) (auto simp: to_back_def)

interpretation classic: return_discipline to_position in_position
proof unfold_locales
  fix taken rest :: "delivery list"
  assume "in_position taken rest"
  then show "fold to_position taken rest = taken @ rest"
    using fold_to_position[of "[]" taken rest] by (simp add: in_position_def)
qed

interpretation quorum: return_discipline to_back "\<lambda>taken rest. taken = [] \<or> rest = []"
  by unfold_locales (auto simp: fold_to_back)

end
