(* ===== verification/Operator.thy ===== *)
theory Operator
  imports Queue_Model
begin

text \<open>
  Acting on messages: app/infrastructure/rabbitmq/message_operator.py. \<open>operate\<close> is the single
  action (copy, move, park, delete), \<open>operate_bulk\<close> the batch. Both scan the queue, act on the
  messages whose fingerprint was asked for, and return the rest; the outgoing copy is
  \<open>outgoing_of\<close>. The answer's \<open>x_death\<close> goes through JSON in the code, which turns timestamps
  in it into text; here it is the record's own.
\<close>


section \<open>Error texts\<close>

fun exn_name :: "exn_class \<Rightarrow> string" where
  "exn_name ValueErr = ''ValueError''"
| "exn_name TypeErr = ''TypeError''"
| "exn_name OverflowErr = ''OverflowError''"
| "exn_name LookupErr = ''LookupError''"
| "exn_name KeyErr = ''KeyError''"
| "exn_name UnknownBatchErr = ''UnknownBulkBatch''"
| "exn_name NotUniqueErr = ''MessageNotUniquelyIdentifiable''"
| "exn_name UnsafeToBrowse = ''UnsafeToBrowse''"
| "exn_name DeliveryErr = ''DeliveryError''"
| "exn_name ChannelNotFoundErr = ''ChannelNotFoundEntity''"
| "exn_name PreconditionFailedErr = ''ChannelPreconditionFailed''"
| "exn_name AccessRefusedErr = ''ChannelAccessRefused''"
| "exn_name ChannelInvalidStateErr = ''ChannelInvalidStateError''"
| "exn_name (ManagementErr _) = ''RabbitMQManagementError''"
| "exn_name (HttpErr _) = ''HTTPException''"
| "exn_name (Other n) = n"

definition error_text :: "exn \<Rightarrow> string \<Rightarrow> string" where
  "error_text e fallback =
     (case exn_text e of
        Some s \<Rightarrow> if s \<noteq> [] then s else if fallback \<noteq> [] then fallback else exn_name (exn_class e)
      | None \<Rightarrow> if fallback \<noteq> [] then fallback else exn_name (exn_class e))"

definition is_refusal :: "exn \<Rightarrow> bool" where
  "is_refusal e \<longleftrightarrow> exn_class e \<in> {PreconditionFailedErr, AccessRefusedErr}"

definition refusal_text :: "exn \<Rightarrow> string" where
  "refusal_text e =
     (let text = error_text e [];
          text' = (if contains ''user_id'' text
                   then text @ '' '' @ em_dash @ '' the message carries another broker user's user_id, which RabbitMQ accepts '' @
                        ''only from that user or one with the impersonator tag''
                   else text)
      in ''RabbitMQ refused it: '' @ text')"


section \<open>The outgoing copy\<close>

text \<open>\<open>_milliseconds\<close>: seconds as the client library decodes them, back to the broker's text.\<close>

fun milliseconds :: "pyval \<Rightarrow> exn + string option" where
  "milliseconds PNone = Inr None"
| "milliseconds (PBool b) = Inr (Some (int_text (if b then 1000 else 0)))"
| "milliseconds (PInt n) = Inr (Some (int_text (n * 1000)))"
| "milliseconds (PFloat (Finite r)) = Inr (Some (int_text (py_round (r * 1000))))"
| "milliseconds (PFloat (Infinite _)) =
     Inl (mk_exn OverflowErr ''cannot convert float infinity to integer'')"
| "milliseconds (PFloat NotANumber) =
     Inl (mk_exn ValueErr ''cannot convert float NaN to integer'')"
| "milliseconds _ = Inl (mk_exn TypeErr ''unsupported operand type(s)'')"

definition outgoing_of :: "message_record \<Rightarrow> pyval dict \<Rightarrow> bool \<Rightarrow> exn + outgoing" where
  "outgoing_of r replay_headers stamp =
     (let properties = mr_properties r;
          headers = dict_merge (mr_headers r) replay_headers
      in or_raise (if stamp
                   then or_raise (deaths (mr_x_death r) (mr_headers r)) (\<lambda>d.
                          Inr (dict_set DEATHS_HEADER (PInt d) headers))
                   else Inr headers) (\<lambda>headers'.
         or_raise (milliseconds (py_get properties ''expiration'')) (\<lambda>expiration.
           Inr \<lparr>o_body = mr_body r,
                o_expiration_ms = expiration,
                o_headers = headers',
                o_content_type = mr_content_type r,
                o_content_encoding = py_get properties ''content_encoding'',
                o_delivery_mode = py_get properties ''delivery_mode'',
                o_priority = py_get properties ''priority'',
                o_correlation_id = mr_correlation_id r,
                o_reply_to = py_get properties ''reply_to'',
                o_message_id = mr_message_id r,
                o_timestamp = mr_timestamp r,
                o_type = py_get properties ''type'',
                o_user_id = py_get properties ''user_id'',
                o_app_id = py_get properties ''app_id''\<rparr>)))"

definition value_error :: "string \<Rightarrow> exn" where
  "value_error s = mk_exn ValueErr s"

definition publish_record ::
  "env \<Rightarrow> message_record \<Rightarrow> replay_target \<Rightarrow> pyval dict \<Rightarrow> bool \<Rightarrow> unit io"
where
  "publish_record E r target replay_headers stamp =
     bnd (lift (outgoing_of r replay_headers stamp)) (\<lambda>out.
       if target_type target = ''queue'' then
         (if str_or (target_queue target) [] = []
          then raise (value_error ''Queue replay target requires queue'')
          else publish_to E [] (str_or (target_queue target) []) out)
       else if target_type target = ''exchange'' then
         (case target_routing_key target of
            None \<Rightarrow> raise (value_error ''Exchange replay target requires exchange and routing_key'')
          | Some rk \<Rightarrow>
              if str_or (target_exchange target) [] = []
              then raise (value_error ''Exchange replay target requires exchange and routing_key'')
              else bnd (get_exchange E (str_or (target_exchange target) []) False) (\<lambda>_.
                   publish_to E (str_or (target_exchange target) []) rk out))
       else raise (value_error (''Unsupported replay target type: '' @ target_type target)))"

definition ensure_target :: "env \<Rightarrow> replay_target \<Rightarrow> bool \<Rightarrow> unit io" where
  "ensure_target E target create =
     (if target_type target = ''queue'' then
        (if str_or (target_queue target) [] = []
         then raise (value_error ''Queue replay target requires queue'')
         else bnd (declare_queue E (str_or (target_queue target) []) (\<not> create)) (\<lambda>_. ret ()))
      else if target_type target = ''exchange'' then
        (if str_or (target_exchange target) [] = [] \<or> target_routing_key target = None
         then raise (value_error ''Exchange replay target requires exchange and routing_key'')
         else get_exchange E (str_or (target_exchange target) []) True)
      else raise (value_error (''Unsupported replay target type: '' @ target_type target)))"


section \<open>Returning what was scanned\<close>

primrec requeue_unprocessed :: "env \<Rightarrow> delivery list \<Rightarrow> unit io" where
  "requeue_unprocessed E [] = ret ()"
| "requeue_unprocessed E (m # ms) =
     bnd (processed E m) (\<lambda>p.
       if p then requeue_unprocessed E ms
       else bnd (outcome (nack E m)) (\<lambda>r.
              case r of
                Inr _ \<Rightarrow> requeue_unprocessed E ms
              | Inl e \<Rightarrow> if exn_class e = ChannelInvalidStateErr then ret () else raise e))"


section \<open>A single action\<close>

definition PUBLISHING :: "string set" where
  "PUBLISHING = {''copy'', ''move'', ''park''}"

definition ACKING :: "string set" where
  "ACKING = {''move'', ''park'', ''delete''}"

record op_result =
  or_status :: string
  or_action :: string
  or_fingerprint :: string
  or_target :: "replay_target option"
  or_message_id :: "string option"
  or_x_death :: "pyval dict list"

definition matches_in :: "env \<Rightarrow> string \<Rightarrow> string \<Rightarrow> delivery list \<Rightarrow> delivery list" where
  "matches_in E q fp scanned = filter (\<lambda>m. mr_fingerprint (to_record (e_lib E) q False m) = fp) scanned"

definition publish_step ::
  "env \<Rightarrow> string \<Rightarrow> replay_target option \<Rightarrow> message_record \<Rightarrow> pyval dict \<Rightarrow> bool \<Rightarrow> unit io"
where
  "publish_step E action target r replay_headers stamp =
     (if action \<in> PUBLISHING then
        (case target of
           None \<Rightarrow> raise (value_error ''A publish target is required'')
         | Some tgt \<Rightarrow> bnd (ensure_target E tgt (action = ''park'')) (\<lambda>_.
                     publish_record E r tgt replay_headers (stamp \<and> action \<noteq> ''park'')))
      else ret ())"

definition settle_step :: "env \<Rightarrow> string \<Rightarrow> delivery \<Rightarrow> unit io" where
  "settle_step E action m =
     (if action \<in> ACKING then ack E m
      else if action = ''copy'' then nack E m
      else raise (value_error (''Unsupported message action: '' @ action)))"

definition operate_on ::
  "env \<Rightarrow> string \<Rightarrow> string \<Rightarrow> string \<Rightarrow> replay_target option \<Rightarrow> pyval dict \<Rightarrow> bool \<Rightarrow>
     delivery list \<Rightarrow> op_result io"
where
  "operate_on E q fp action target replay_headers stamp scanned =
     (case matches_in E q fp scanned of
        [m] \<Rightarrow>
          (let r = to_record (e_lib E) q False m
           in bnd (publish_step E action target r replay_headers stamp) (\<lambda>_.
              bnd (settle_step E action m) (\<lambda>_.
              bnd (requeue E scanned (Some m)) (\<lambda>_.
                ret \<lparr>or_status = ''success'', or_action = action, or_fingerprint = fp,
                     or_target = target, or_message_id = mr_message_id r,
                     or_x_death = mr_x_death r\<rparr>))))
      | _ \<Rightarrow> raise (mk_exn LookupErr
               (''Message '' @ fp @ '' was not found uniquely in '' @ q)))"

definition operate_body ::
  "env \<Rightarrow> string \<Rightarrow> string \<Rightarrow> string \<Rightarrow> replay_target option \<Rightarrow> pyval dict \<Rightarrow> bool \<Rightarrow> int \<Rightarrow> bool \<Rightarrow>
     op_result io"
where
  "operate_body E q fp action target replay_headers stamp max_scan whole =
     bnd (declare_queue E q True) (\<lambda>declared.
     bnd (fetch E q declared max_scan whole None) (\<lambda>(fetched, scanned).
       catch (bnd (lift fetched) (\<lambda>_.
                operate_on E q fp action target replay_headers stamp scanned))
         (\<lambda>e. bnd (requeue_unprocessed E scanned) (\<lambda>_. raise e))))"

definition operate ::
  "env \<Rightarrow> string \<Rightarrow> string \<Rightarrow> string \<Rightarrow> replay_target option \<Rightarrow> pyval dict \<Rightarrow> bool \<Rightarrow> int \<Rightarrow> bool \<Rightarrow>
     op_result io"
where
  "operate E q fp action target replay_headers stamp max_scan whole =
     within_queue E q (operate_body E q fp action target replay_headers stamp max_scan whole)"


section \<open>A batch\<close>

record bulk_result =
  bk_fingerprint :: string
  bk_status :: string
  bk_error :: "string option"

definition bulk_status :: "string \<Rightarrow> string \<Rightarrow> bulk_result" where
  "bulk_status fp s = \<lparr>bk_fingerprint = fp, bk_status = s, bk_error = None\<rparr>"

definition bulk_failed :: "string \<Rightarrow> string \<Rightarrow> bulk_result" where
  "bulk_failed fp err = \<lparr>bk_fingerprint = fp, bk_status = ''failed'', bk_error = Some err\<rparr>"

definition halted :: "string \<Rightarrow> exn \<Rightarrow> bool \<Rightarrow> string \<Rightarrow> bulk_result" where
  "halted fp e published action =
     (if published \<and> action = ''copy'' then bulk_status fp ''success''
      else if published then
        bulk_failed fp (''copied to the target, but the original could not be acknowledged ('' @
          error_text e [] @ '') '' @ em_dash @ '' it is back in the queue, so replaying it again '' @
          ''would duplicate it'')
      else bulk_failed fp (if is_refusal e then refusal_text e else error_text e []))"

text \<open>One message of the batch: whether its copy was published, and how the try block ended.\<close>

definition attempt ::
  "env \<Rightarrow> string \<Rightarrow> replay_target option \<Rightarrow> pyval dict \<Rightarrow> delivery \<Rightarrow> message_record \<Rightarrow>
     (bool \<times> (exn + unit)) io"
where
  "attempt E action target replay_headers m r =
     bnd (outcome
           (if action \<in> PUBLISHING then
              (case target of
                 None \<Rightarrow> raise (value_error ''A publish target is required'')
               | Some tgt \<Rightarrow> publish_record E r tgt
                   (dict_set ''x-queuelens-original-fingerprint'' (PStr (mr_fingerprint r)) replay_headers)
                   (action \<noteq> ''park''))
            else ret ())) (\<lambda>p.
       case p of
         Inl e \<Rightarrow> ret (False, Inl e)
       | Inr _ \<Rightarrow>
           bnd (outcome (if action = ''copy'' then nack E m else ack E m)) (\<lambda>s.
             ret (action \<in> PUBLISHING, s)))"

primrec bulk_loop ::
  "env \<Rightarrow> string \<Rightarrow> string \<Rightarrow> replay_target option \<Rightarrow> pyval dict \<Rightarrow> delivery list \<Rightarrow> string list \<Rightarrow>
     bulk_result list io"
where
  "bulk_loop E q action target replay_headers scanned [] = ret []"
| "bulk_loop E q action target replay_headers scanned (fp # later) =
     (case matches_in E q fp scanned of
        [] \<Rightarrow>
          bnd (bulk_loop E q action target replay_headers scanned later) (\<lambda>rs.
            ret (bulk_status fp ''not_found'' # rs))
      | m # others \<Rightarrow>
          if others \<noteq> [] then
            bnd (bulk_loop E q action target replay_headers scanned later) (\<lambda>rs.
              ret (bulk_status fp ''skipped_duplicate'' # rs))
          else
            bnd (attempt E action target replay_headers m (to_record (e_lib E) q False m)) (\<lambda>(published, s).
              case s of
                Inr _ \<Rightarrow>
                  bnd (bulk_loop E q action target replay_headers scanned later) (\<lambda>rs.
                    ret (bulk_status fp ''success'' # rs))
              | Inl e \<Rightarrow>
                  if exn_class e = DeliveryErr then
                    bnd (nack E m) (\<lambda>_.
                    bnd (bulk_loop E q action target replay_headers scanned later) (\<lambda>rs.
                      ret (bulk_failed fp (error_text e ''message was unroutable'') # rs)))
                  else
                    ret (halted fp e published action #
                         map (\<lambda>l. bulk_status l ''not_attempted'') later)))"

definition bulk_body ::
  "env \<Rightarrow> string \<Rightarrow> string set \<Rightarrow> string \<Rightarrow> replay_target option \<Rightarrow> pyval dict \<Rightarrow> int \<Rightarrow> bool \<Rightarrow>
     bulk_result list io"
where
  "bulk_body E q fps action target replay_headers max_scan whole =
     bnd (declare_queue E q True) (\<lambda>declared.
     bnd (fetch E q declared max_scan whole None) (\<lambda>(fetched, scanned).
       catch
         (bnd (lift fetched) (\<lambda>_.
          bnd (if action \<in> PUBLISHING then
                 (case target of
                    None \<Rightarrow> raise (value_error ''A publish target is required'')
                  | Some tgt \<Rightarrow> ensure_target E tgt (action = ''park''))
               else ret ()) (\<lambda>_.
          bnd (bulk_loop E q action target replay_headers scanned (sorted_list_of_set fps)) (\<lambda>results.
          bnd (requeue_unprocessed E scanned) (\<lambda>_. ret results)))))
         (\<lambda>e. bnd (requeue_unprocessed E scanned) (\<lambda>_. raise e))))"

definition operate_bulk ::
  "env \<Rightarrow> string \<Rightarrow> string set \<Rightarrow> string \<Rightarrow> replay_target option \<Rightarrow> pyval dict \<Rightarrow> int \<Rightarrow> bool \<Rightarrow>
     bulk_result list io"
where
  "operate_bulk E q fps action target replay_headers max_scan whole =
     (if action \<notin> {''copy'', ''move'', ''park'', ''delete''}
      then raise (value_error (''Unsupported message action: '' @ action))
      else within_queue E q
             (bulk_body E q fps action target replay_headers max_scan whole))"

end
