(* ===== verification/Operator_Safety.thy ===== *)
theory Operator_Safety
  imports Operator
begin

text \<open>
  What the operator may do to a queue. First the shape of every trace: which events the phases of
  an action can add, and that an ack comes only after the unique match was found and, unless the
  message is deleted, after its copy was published. Then the same for a batch. Last, with the
  queue of \<open>Queue_Model\<close> behind the calls, what the queue holds afterwards.
\<close>


section \<open>Kinds of events\<close>

fun is_ack :: "event \<Rightarrow> bool" where
  "is_ack (EvAck _ _) = True"
| "is_ack _ = False"

fun is_publish :: "event \<Rightarrow> bool" where
  "is_publish (EvPublish _ _ _ _) = True"
| "is_publish _ = False"

fun is_read :: "event \<Rightarrow> bool" where
  "is_read (EvGet _ _) = True"
| "is_read _ = False"

text \<open>Settling events are acks and nacks.\<close>

fun settles :: "event \<Rightarrow> bool" where
  "settles (EvAck _ _) = True"
| "settles (EvNack _ _) = True"
| "settles _ = False"

text \<open>Events that settle nothing and close no channel.\<close>

fun quiet :: "event \<Rightarrow> bool" where
  "quiet (EvAck _ _) = False"
| "quiet (EvNack _ _) = False"
| "quiet (EvClose _) = False"
| "quiet _ = True"

lemma quiet_ack: "quiet e \<Longrightarrow> \<not> is_ack e"
  by (cases e) auto

lemma is_get_quiet: "is_get q e \<Longrightarrow> quiet e"
  by (auto simp: is_get_def)

lemma settles_ack: "\<not> settles e \<Longrightarrow> \<not> is_ack e"
  by (cases e) auto

lemma is_get_kinds: "is_get q e \<Longrightarrow> \<not> is_ack e \<and> \<not> is_publish e \<and> \<not> settles e"
  by (auto simp: is_get_def)

lemma got_no_read: "list_all (\<lambda>e. \<not> is_read e) t \<Longrightarrow> got t = []"
  by (induction t) (auto simp: got_def split: event.splits sum.splits option.splits)

lemma got_snoc_event [simp]:
  "\<not> is_read e \<Longrightarrow> got (e # t) = got t"
  by (cases e) (auto simp: got_def)

lemma got_other [simp]:
  "got (EvLock a b # t) = got t" "got (EvUnlock a # t) = got t"
  "got (EvOpen c # t) = got t" "got (EvClose c # t) = got t"
  "got (EvDeclare n p d # t) = got t"
  by (simp_all add: got_def)

lemma list_all_conj: "list_all P t \<Longrightarrow> list_all Q t \<Longrightarrow> list_all (\<lambda>e. P e \<and> Q e) t"
  by (auto simp: list_all_iff)


section \<open>Phases\<close>

lemma fetch_does:
  "does (fetch E q d limit whole mb) h
     (\<lambda>r t. \<exists>res. r = Inr (res, got t) \<and> list_all (is_get q) t)"
  by (rule doesI)
     (auto simp: fetch_def Let_def ret_def dest!: fetch_loop_trace split: if_splits)

lemma emits_publish_record:
  "emits (\<lambda>e. quiet e \<and> \<not> is_read e) (publish_record E r tgt rh stamp)"
  unfolding publish_record_def by (intro emits_intros) simp_all

lemma emits_ensure_target:
  "emits (\<lambda>e. quiet e \<and> \<not> is_read e \<and> \<not> is_publish e) (ensure_target E tgt create)"
  unfolding ensure_target_def by (intro emits_intros) simp_all

lemma emits_publish_step:
  "emits (\<lambda>e. quiet e \<and> \<not> is_read e) (publish_step E action target r rh stamp)"
  unfolding publish_step_def
  by (intro emits_intros emits_publish_record emits_mono[OF emits_ensure_target]) simp_all

lemma emits_requeue:
  "emits (\<lambda>e. \<not> is_ack e \<and> \<not> is_publish e \<and> \<not> is_read e) (requeue E ms keep)"
  unfolding requeue_def requeue_one_def by (intro emits_intros) simp_all

lemma emits_requeue_unprocessed:
  "emits (\<lambda>e. \<not> is_ack e \<and> \<not> is_publish e \<and> \<not> is_read e) (requeue_unprocessed E ms)"
  by (induction ms) (auto intro!: emits_intros)

text \<open>Where a target sends a copy.\<close>

definition routed :: "replay_target \<Rightarrow> string \<Rightarrow> string \<Rightarrow> bool" where
  "routed tgt x rk \<longleftrightarrow>
     target_type tgt = ''queue'' \<and> x = [] \<and> target_queue tgt = Some rk \<and> rk \<noteq> [] \<or>
     target_type tgt = ''exchange'' \<and> target_exchange tgt = Some x \<and> x \<noteq> [] \<and>
       target_routing_key tgt = Some rk"

text \<open>A publish that returns normally has put the outgoing copy where the target says.\<close>

definition published :: "replay_target \<Rightarrow> (exn + outgoing) \<Rightarrow> event list \<Rightarrow> bool" where
  "published tgt copy t \<longleftrightarrow>
     (\<exists>x rk out. copy = Inr out \<and> routed tgt x rk \<and> EvPublish x rk out None \<in> set t)"

lemma published_append: "published tgt c t \<Longrightarrow> published tgt c (u @ t)"
  by (auto simp: published_def)

lemma published_extend: "published tgt c t \<Longrightarrow> published tgt c (t @ u)"
  by (auto simp: published_def)

lemma published_mono: "published tgt c t \<Longrightarrow> set t \<subseteq> set u \<Longrightarrow> published tgt c u"
  by (auto simp: published_def)

lemma publish_record_does:
  "does (publish_record E r tgt rh stamp) h
     (\<lambda>res t. res = Inr () \<longrightarrow> published tgt (outgoing_of r rh stamp) t)"
proof (cases "outgoing_of r rh stamp")
  case (Inl e)
  then show ?thesis by (simp add: publish_record_def does_def bnd_def lift_def)
next
  case (Inr out)
  show ?thesis
    unfolding publish_record_def Inr published_def
    by (auto simp: does_def bnd_def lift_def raise_def publish_to_def get_exchange_def perform_def
        routed_def str_or_def split: if_splits option.splits)
qed

lemma publish_step_does:
  "does (publish_step E action target r rh stamp) h
     (\<lambda>res t. res = Inr () \<longrightarrow> action \<in> PUBLISHING \<longrightarrow>
        (\<exists>tgt. target = Some tgt \<and>
               published tgt (outgoing_of r rh (stamp \<and> action \<noteq> ''park'')) t))"
proof (cases "action \<in> PUBLISHING \<and> target \<noteq> None")
  case True
  then obtain tgt where tgt: "target = Some tgt" "action \<in> PUBLISHING" by auto
  show ?thesis
    unfolding publish_step_def tgt option.case
    by (simp only: tgt if_True)
       (rule does_bnd[OF does_emits[OF emits_ensure_target]], simp,
        auto intro!: does_mono[OF publish_record_does] intro: published_mono)
next
  case False
  then show ?thesis
    by (auto simp: publish_step_def does_def ret_def raise_def split: option.splits)
qed


section \<open>One action: the shape of its trace\<close>

text \<open>
  Either nothing was acked, or exactly one message was: the only one of the messages read whose
  fingerprint was asked for, by an action that removes it, and after its copy was published when
  the action publishes one. \<open>scanned\<close> are the messages read so far.
\<close>

definition justified_ack ::
  "env \<Rightarrow> string \<Rightarrow> string \<Rightarrow> string \<Rightarrow> replay_target option \<Rightarrow> pyval dict \<Rightarrow> bool \<Rightarrow>
     delivery list \<Rightarrow> event list \<Rightarrow> nat \<Rightarrow> bool"
where
  "justified_ack E q fp action target rh stamp scanned before tag \<longleftrightarrow>
     action \<in> ACKING \<and> list_all quiet before \<and>
     (\<exists>m. matches_in E q fp scanned = [m] \<and> d_tag m = tag \<and>
        (action \<noteq> ''delete'' \<longrightarrow>
           (\<exists>tgt. target = Some tgt \<and>
              published tgt
                (outgoing_of (to_record (e_lib E) q False m) rh (stamp \<and> action \<noteq> ''park'')) before)))"

definition one_ack :: "(event list \<Rightarrow> nat \<Rightarrow> bool) \<Rightarrow> event list \<Rightarrow> bool" where
  "one_ack J t \<longleftrightarrow>
     list_all (\<lambda>e. \<not> is_ack e) t \<or>
     (\<exists>before tag a after. t = before @ EvAck tag a # after \<and>
        list_all (\<lambda>e. \<not> is_ack e) (before @ after) \<and> J before tag)"

lemma one_ack_no_ack: "list_all (\<lambda>e. \<not> is_ack e) t \<Longrightarrow> one_ack J t"
  by (simp add: one_ack_def)

lemma one_ack_no_read:
  assumes "one_ack J t" "list_all (\<lambda>e. \<not> is_read e) t"
  shows "one_ack (\<lambda>b tag. J b tag \<and> got b = []) t"
  using assms(1) unfolding one_ack_def
proof (elim disjE exE conjE)
  fix before tag a after
  assume *: "t = before @ EvAck tag a # after" "list_all (\<lambda>e. \<not> is_ack e) (before @ after)"
    "J before tag"
  then have "got before = []" using assms(2) by (simp add: got_no_read)
  with * show "list_all (\<lambda>e. \<not> is_ack e) t \<or> (\<exists>before tag a after. t = before @ EvAck tag a # after \<and>
      list_all (\<lambda>e. \<not> is_ack e) (before @ after) \<and> J before tag \<and> got before = [])"
    by blast
qed simp

lemma one_ack_append:
  assumes "one_ack J t" "list_all (\<lambda>e. \<not> is_ack e) u" "list_all (\<lambda>e. \<not> is_ack e) v"
    and "\<And>before tag. J before tag \<Longrightarrow> K (u @ before) tag"
  shows "one_ack K (u @ t @ v)"
  using assms(1) unfolding one_ack_def
proof (elim disjE exE conjE)
  fix before tag a after
  assume *: "t = before @ EvAck tag a # after" "list_all (\<lambda>e. \<not> is_ack e) (before @ after)"
    "J before tag"
  then have "u @ t @ v = (u @ before) @ EvAck tag a # (after @ v)" by simp
  moreover have "list_all (\<lambda>e. \<not> is_ack e) ((u @ before) @ (after @ v))"
    using * assms(2,3) by simp
  ultimately show "list_all (\<lambda>e. \<not> is_ack e) (u @ t @ v) \<or>
    (\<exists>before tag a after. u @ t @ v = before @ EvAck tag a # after \<and>
      list_all (\<lambda>e. \<not> is_ack e) (before @ after) \<and> K before tag)"
    using assms(4)[OF *(3)] by blast
qed (use assms in simp)

lemma one_ackD:
  assumes "one_ack J t" and "t = before @ EvAck tag a # after"
  shows "J before tag \<and> list_all (\<lambda>e. \<not> is_ack e) (before @ after)"
proof -
  from assms obtain b2 tag2 a2 af2 where
    2: "before @ EvAck tag a # after = b2 @ EvAck tag2 a2 # af2"
      "list_all (\<lambda>e. \<not> is_ack e) (b2 @ af2)" "J b2 tag2"
    by (auto simp: one_ack_def)
  have "before = b2 \<and> tag = tag2 \<and> after = af2"
    using 2(1,2) by (fastforce simp: append_eq_append_conv2 append_eq_Cons_conv Cons_eq_append_conv list_all_iff)
  with 2 show ?thesis by simp
qed

lemma one_ack_single:
  "list_all (\<lambda>e. \<not> is_ack e) (t @ v) \<Longrightarrow> J t tag \<Longrightarrow> one_ack J (t @ EvAck tag a # v)"
  by (auto simp: one_ack_def)

lemma list_all_imp: "list_all P t \<Longrightarrow> (\<And>e. P e \<Longrightarrow> Q e) \<Longrightarrow> list_all Q t"
  by (auto simp: list_all_iff)

lemma operate_on_does:
  "does (operate_on E q fp action target rh stamp scanned) h
     (\<lambda>r t. one_ack (justified_ack E q fp action target rh stamp scanned) t \<and>
            list_all (\<lambda>e. \<not> is_read e) t)"
proof (cases "\<exists>m. matches_in E q fp scanned = [m]")
  case False
  then show ?thesis
    by (auto simp: operate_on_def one_ack_no_ack intro!: does_raise split: list.splits)
next
  case True
  then obtain m where m: "matches_in E q fp scanned = [m]" by blast
  let ?r = "to_record (e_lib E) q False m"
  have tail: "does (bnd (requeue E scanned (Some m)) (\<lambda>_. ret x)) h'
      (\<lambda>r t. list_all (\<lambda>e. \<not> is_ack e \<and> \<not> is_read e) t)" for x :: op_result and h'
    by (rule does_emits) (auto intro!: emits_intros emits_mono[OF emits_requeue])
  let ?\<Phi> = "\<lambda>r t. one_ack (justified_ack E q fp action target rh stamp scanned) t \<and>
                 list_all (\<lambda>e. \<not> is_read e) t"
  show ?thesis
    unfolding operate_on_def m list.case Let_def
  proof (rule does_bnd[OF does_conj[OF publish_step_does does_emits[OF emits_publish_step]]])
    show "?\<Phi> (Inl e) t" if "(Inl e = Inr () \<longrightarrow> action \<in> PUBLISHING \<longrightarrow>
          (\<exists>tgt. target = Some tgt \<and> published tgt (outgoing_of ?r rh (stamp \<and> action \<noteq> ''park'')) t)) \<and>
        list_all (\<lambda>e. quiet e \<and> \<not> is_read e) t" for e t
      using that by (auto intro!: one_ack_no_ack elim!: list_all_imp dest: quiet_ack)
  next
    fix x t
    assume pub: "(Inr x = Inr () \<longrightarrow> action \<in> PUBLISHING \<longrightarrow>
          (\<exists>tgt. target = Some tgt \<and> published tgt (outgoing_of ?r rh (stamp \<and> action \<noteq> ''park'')) t)) \<and>
        list_all (\<lambda>e. quiet e \<and> \<not> is_read e) t"
    then have quiet: "list_all (\<lambda>e. \<not> is_ack e) t" "list_all (\<lambda>e. \<not> is_read e) t"
      "list_all quiet t"
      by (auto elim!: list_all_imp dest: quiet_ack)
    have J: "justified_ack E q fp action target rh stamp scanned t (d_tag m)" if "action \<in> ACKING"
    proof -
      have "action \<noteq> ''delete'' \<longrightarrow> action \<in> PUBLISHING"
        using that by (auto simp: ACKING_def PUBLISHING_def)
      moreover have "Inr x = (Inr () :: exn + unit)" by simp
      ultimately show ?thesis using that m pub quiet(3) unfolding justified_ack_def by blast
    qed
    show "does (bnd (settle_step E action m) (\<lambda>_. bnd (requeue E scanned (Some m)) (\<lambda>_.
            ret \<lparr>or_status = ''success'', or_action = action, or_fingerprint = fp, or_target = target,
                 or_message_id = mr_message_id ?r, or_x_death = mr_x_death ?r\<rparr>))) (h @ t)
          (\<lambda>r u. ?\<Phi> r (t @ u))"
    proof (rule does_bnd[where \<Theta> = "\<lambda>r u. list_all (\<lambda>e. \<not> is_read e) u \<and>
          (action \<in> ACKING \<and> (\<exists>a. u = [EvAck (d_tag m) a]) \<or> list_all (\<lambda>e. \<not> is_ack e) u)"])
      show "does (settle_step E action m) (h @ t) (\<lambda>r u. list_all (\<lambda>e. \<not> is_read e) u \<and>
          (action \<in> ACKING \<and> (\<exists>a. u = [EvAck (d_tag m) a]) \<or> list_all (\<lambda>e. \<not> is_ack e) u))"
        by (auto simp: settle_step_def ack_def nack_def intro!: does_perform does_raise)
    next
      fix e u
      assume u: "list_all (\<lambda>e. \<not> is_read e) u \<and>
          (action \<in> ACKING \<and> (\<exists>a. u = [EvAck (d_tag m) a]) \<or> list_all (\<lambda>e. \<not> is_ack e) u)"
      then show "?\<Phi> (Inl e) (t @ u)"
        using quiet J one_ack_single[of t "[]"] by (auto intro: one_ack_no_ack)
    next
      fix x u
      assume u: "list_all (\<lambda>e. \<not> is_read e) u \<and>
          (action \<in> ACKING \<and> (\<exists>a. u = [EvAck (d_tag m) a]) \<or> list_all (\<lambda>e. \<not> is_ack e) u)"
      show "does (bnd (requeue E scanned (Some m)) (\<lambda>_.
            ret \<lparr>or_status = ''success'', or_action = action, or_fingerprint = fp, or_target = target,
                 or_message_id = mr_message_id ?r, or_x_death = mr_x_death ?r\<rparr>)) ((h @ t) @ u)
          (\<lambda>r v. ?\<Phi> r (t @ u @ v))"
      proof (rule does_mono[OF tail])
        fix r v
        assume v: "list_all (\<lambda>e. \<not> is_ack e \<and> \<not> is_read e) v"
        then have "list_all (\<lambda>e. \<not> is_ack e) v" "list_all (\<lambda>e. \<not> is_read e) v"
          by (auto elim!: list_all_imp)
        then show "?\<Phi> r (t @ u @ v)"
          using u quiet J one_ack_single[of t v] by (auto intro: one_ack_no_ack)
      qed
    qed
  qed
qed

text \<open>The whole action: \<open>got before\<close> are the messages the scan read.\<close>

definition justified_by_trace ::
  "env \<Rightarrow> string \<Rightarrow> string \<Rightarrow> string \<Rightarrow> replay_target option \<Rightarrow> pyval dict \<Rightarrow> bool \<Rightarrow>
     event list \<Rightarrow> nat \<Rightarrow> bool"
where
  "justified_by_trace E q fp action target rh stamp before tag \<longleftrightarrow>
     justified_ack E q fp action target rh stamp (got before) before tag"

lemma justified_ack_mono:
  "justified_ack E q fp action target rh stamp s t tag \<Longrightarrow> list_all quiet u \<Longrightarrow>
     justified_ack E q fp action target rh stamp s (u @ t) tag"
  by (auto simp: justified_ack_def intro: published_append)

lemma no_ack_gets: "list_all (is_get q) t \<Longrightarrow> list_all (\<lambda>e. \<not> is_ack e) t"
  by (auto simp: is_get_def elim!: list_all_imp)

lemma operate_body_does:
  "does (operate_body E q fp action target rh stamp ms whole) h
     (\<lambda>r t. one_ack (justified_by_trace E q fp action target rh stamp) t)"
proof -
  let ?J = "justified_by_trace E q fp action target rh stamp"
  have rest: "does (catch (bnd (lift fetched) (\<lambda>_. operate_on E q fp action target rh stamp scanned))
         (\<lambda>e. bnd (requeue_unprocessed E scanned) (\<lambda>_. raise e))) h'
     (\<lambda>r t. \<exists>u v. t = u @ v \<and> one_ack (justified_ack E q fp action target rh stamp scanned) u \<and>
        list_all (\<lambda>e. \<not> is_read e) u \<and> list_all (\<lambda>e. \<not> is_ack e) v)" for fetched scanned h'
  proof (rule does_catch[where \<Theta> = "\<lambda>r t. one_ack (justified_ack E q fp action target rh stamp scanned) t \<and>
            list_all (\<lambda>e. \<not> is_read e) t"])
    show "does (bnd (lift fetched) (\<lambda>_. operate_on E q fp action target rh stamp scanned)) h'
       (\<lambda>r t. one_ack (justified_ack E q fp action target rh stamp scanned) t \<and> list_all (\<lambda>e. \<not> is_read e) t)"
      by (rule does_bnd[OF does_lift[where \<Phi> = "\<lambda>r t. t = []"]])
         (auto simp: one_ack_no_ack operate_on_does)
  next
    fix e t
    assume t: "one_ack (justified_ack E q fp action target rh stamp scanned) t \<and> list_all (\<lambda>e. \<not> is_read e) t"
    have "does (bnd (requeue_unprocessed E scanned) (\<lambda>_. raise e)) (h' @ t)
        (\<lambda>r v. list_all (\<lambda>e. \<not> is_ack e) v)"
      by (rule does_emits) (auto intro!: emits_intros emits_mono[OF emits_requeue_unprocessed])
    then show "does (bnd (requeue_unprocessed E scanned) (\<lambda>_. raise e)) (h' @ t)
       (\<lambda>r v. \<exists>u w. t @ v = u @ w \<and> one_ack (justified_ack E q fp action target rh stamp scanned) u \<and>
          list_all (\<lambda>e. \<not> is_read e) u \<and> list_all (\<lambda>e. \<not> is_ack e) w)"
      using t by (fastforce elim!: does_mono)
  qed force
  show ?thesis
    unfolding operate_body_def
  proof (rule does_bnd[where \<Theta> = "\<lambda>r t. \<exists>d. t = [EvDeclare q True d]"])
    show "does (declare_queue E q True) h (\<lambda>r t. \<exists>d. t = [EvDeclare q True d])"
      by (auto simp: declare_queue_def intro: does_ask)
  next
    fix declared t
    assume t: "\<exists>d. t = [EvDeclare q True d]"
    show "does (bnd (fetch E q declared ms whole None) (\<lambda>(fetched, scanned).
              catch (bnd (lift fetched) (\<lambda>_. operate_on E q fp action target rh stamp scanned))
                (\<lambda>e. bnd (requeue_unprocessed E scanned) (\<lambda>_. raise e)))) (h @ t)
          (\<lambda>r u. one_ack ?J (t @ u))"
    proof (rule does_bnd[OF fetch_does], goal_cases)
      case (1 e u)
      then show ?case by simp
    next
      case (2 x u)
      then obtain res where x: "x = (res, got u)" and u: "list_all (is_get q) u" by auto
      show ?case
        unfolding x prod.case
      proof (rule does_mono[OF rest])
        fix r v
        assume "\<exists>w z. v = w @ z \<and> one_ack (justified_ack E q fp action target rh stamp (got u)) w \<and>
           list_all (\<lambda>e. \<not> is_read e) w \<and> list_all (\<lambda>e. \<not> is_ack e) z"
        then obtain w z where v: "v = w @ z" "list_all (\<lambda>e. \<not> is_read e) w" "list_all (\<lambda>e. \<not> is_ack e) z"
          "one_ack (justified_ack E q fp action target rh stamp (got u)) w" by blast
        have K: "one_ack (\<lambda>b tag. justified_ack E q fp action target rh stamp (got u) b tag \<and> got b = []) w"
          using v(4,2) by (rule one_ack_no_read)
        have "one_ack ?J ((t @ u) @ w @ z)"
        proof (rule one_ack_append[OF K])
          show "list_all (\<lambda>e. \<not> is_ack e) (t @ u)" using t u by (auto intro: no_ack_gets)
          show "?J ((t @ u) @ b) tag"
            if "justified_ack E q fp action target rh stamp (got u) b tag \<and> got b = []" for b tag
            using that t u justified_ack_mono[of E q fp action target rh stamp "got u" b tag "t @ u"]
            by (auto simp: justified_by_trace_def list.pred_mono_strong is_get_quiet list_all_imp[OF _ is_get_quiet])
        qed (rule v(3))
        then show "one_ack ?J (t @ u @ v)" using v(1) by simp
      qed
    qed
  qed (auto simp: one_ack_def)
qed

lemma operate_does:
  "does (operate E q fp action target rh stamp ms whole) h
     (\<lambda>r t. one_ack (justified_by_trace E q fp action target rh stamp) t)"
  unfolding operate_def
proof (rule does_within_queue[OF operate_body_does])
  fix r t c
  assume "one_ack (justified_by_trace E q fp action target rh stamp) t"
  then show "one_ack (justified_by_trace E q fp action target rh stamp)
      ([EvLock (lock_names E q) None, EvOpen None] @ t @ [EvClose c, EvUnlock (lock_names E q)])"
    by (rule one_ack_append)
       (auto simp: justified_by_trace_def dest: justified_ack_mono[where u = "[EvLock (lock_names E q) None, EvOpen None]"])
qed (auto simp: one_ack_def)

end
