(* ===== verification/Conservation.thy ===== *)
theory Conservation
  imports Operator_Safety "HOL-Library.Multiset"
begin

text \<open>
  No message is lost. With the queue of \<open>Queue_Model\<close> behind the calls, what a queue holds
  (ready or unacked) changes only by acknowledged messages, whatever the program did and
  whichever calls failed. The law the queue type has to keep is the locale \<open>holding\<close>: returning
  a message adds it and nothing else. The locale \<open>ordered\<close> adds what a classic queue promises:
  returned messages go back to their place.
\<close>


section \<open>Gets are answered by the queue\<close>

fun answered :: "env \<Rightarrow> string \<Rightarrow> hist \<Rightarrow> event \<Rightarrow> bool" where
  "answered E q h (EvGet q' r) \<longleftrightarrow> (q' = q \<longrightarrow> r = e_get E h q)"
| "answered E q h _ \<longleftrightarrow> True"

lemma answered_fetch_loop:
  "fetch_loop E q' limit whole mb ready held bytes h = (r, h') \<Longrightarrow>
     \<exists>t. h' = h @ t \<and> traced (answered E q) h t"
proof (induction E q' limit whole mb ready held bytes h arbitrary: r h' rule: fetch_loop.induct)
  case (1 E q' limit whole mb ready held bytes h)
  note eq = "1.prems"[unfolded fetch_loop_simp[of E q' limit whole mb ready held bytes h]]
  show ?case
  proof (cases "\<exists>m. e_get E h q' = Inr (Some m) \<and> \<not> int (length held) + 1 > limit
      \<and> \<not> (\<not> whole \<and> int (length held) + 1 = limit)
      \<and> \<not> (\<not> whole \<and> (case mb of None \<Rightarrow> False | Some b \<Rightarrow> bytes + int (length (d_body m)) \<ge> b))")
    case False
    with eq show ?thesis
      by (auto split: sum.splits option.splits if_splits)
  next
    case True
    then obtain m where m: "e_get E h q' = Inr (Some m)"
        "\<not> int (length held) + 1 > limit" "\<not> (\<not> whole \<and> int (length held) + 1 = limit)"
        "\<not> (\<not> whole \<and> (case mb of None \<Rightarrow> False | Some b \<Rightarrow> bytes + int (length (d_body m)) \<ge> b))"
      by blast
    then have eq': "fetch_loop E q' limit whole mb ready (held @ [m]) (bytes + int (length (d_body m)))
        (h @ [EvGet q' (Inr (Some m))]) = (r, h')"
      using eq by (auto split: if_splits)
    have "\<exists>t. h' = (h @ [EvGet q' (Inr (Some m))]) @ t \<and> traced (answered E q) (h @ [EvGet q' (Inr (Some m))]) t"
      using "1.IH"[OF refl refl, of "Some m" m] m eq' by (auto simp: add.commute)
    then obtain t where "h' = h @ EvGet q' (Inr (Some m)) # t"
        "traced (answered E q) (h @ [EvGet q' (Inr (Some m))]) t"
      by auto
    then show ?thesis
      using m(1) by (intro exI[of _ "EvGet q' (Inr (Some m)) # t"]) auto
  qed
qed

lemma answered_fetch [emits_at_intros]: "emits_at (answered E q) (fetch E q' d limit whole mb)"
  unfolding emits_at_def
proof
  fix h
  obtain r h' where run: "fetch E q' d limit whole mb h = (r, h')" by fastforce
  then show "\<exists>t. snd (fetch E q' d limit whole mb h) = h @ t \<and> traced (answered E q) h t"
    by (auto simp: fetch_def ret_def Let_def dest: answered_fetch_loop[where q = q] split: if_splits)
qed

lemma answered_operations [emits_at_intros]:
  "emits_at (answered E q) (declare_queue E n b)" "emits_at (answered E q) (ack E m)"
  "emits_at (answered E q) (nack E m)" "emits_at (answered E q) (get_exchange E x b)"
  "emits_at (answered E q) (publish_to E x k out)" "emits_at (answered E q) (mgmt_queue E n)"
  "emits_at (answered E q) (mgmt_queues E)" "emits_at (answered E q) (overview E)"
  "emits_at (answered E q) (read_setting E s)" "emits_at (answered E q) (record_audit E a)"
  by (auto simp: operation_defs intro!: emits_at_perform emits_at_ask)

lemma answered_observe [emits_at_intros]:
  "emits_at (answered E q) (processed E m)" "emits_at (answered E q) (clock E)"
  by (simp_all add: processed_def clock_def emits_at_pure)

lemma answered_within [emits_at_intros]:
  "emits_at (answered E q) body \<Longrightarrow> emits_at (answered E q) (within_queue E n body)"
  unfolding within_queue_def with_lock_def with_channel_def
  by (intro emits_at_intros emits_at_perform) simp_all

lemma answered_requeue [emits_at_intros]:
  "emits_at (answered E q) (requeue E ms keep)"
  "emits_at (answered E q) (requeue_unprocessed E ms)"
  subgoal unfolding requeue_def requeue_one_def by (intro emits_at_intros)
  subgoal by (induction ms) (auto intro!: emits_at_intros)
  done

lemma answered_publish [emits_at_intros]:
  "emits_at (answered E q) (publish_record E r tgt rh stamp)"
  "emits_at (answered E q) (ensure_target E tgt create)"
  unfolding publish_record_def ensure_target_def by (intro emits_at_intros)+

lemma answered_scan [emits_at_intros]:
  "emits_at (answered E q) (scan E n limit whole mb slim)"
  unfolding scan_def scan_body_def by (intro emits_at_intros)

lemma answered_operate [emits_at_intros]:
  "emits_at (answered E q) (operate E n fp action target rh stamp ms whole)"
  unfolding operate_def operate_body_def operate_on_def publish_step_def settle_step_def
  by (intro emits_at_intros) (auto intro!: emits_at_intros split: list.split)

lemma answered_bulk_loop [emits_at_intros]:
  "emits_at (answered E q) (bulk_loop E n action target rh scanned fps)"
  by (induction fps)
     (auto simp: attempt_def intro!: emits_at_intros split: list.split)

lemma answered_bulk [emits_at_intros]:
  "emits_at (answered E q) (operate_bulk E n fps action target rh ms whole)"
  unfolding operate_bulk_def bulk_body_def by (intro emits_at_intros)


section \<open>What the queue holds\<close>

definition live :: "queue_state \<Rightarrow> delivery multiset" where
  "live s = mset (q_ready s) + mset (q_unacked s)"

definition own_tags :: "queue_state \<Rightarrow> bool" where
  "own_tags s \<longleftrightarrow> distinct (map d_tag (q_ready s @ q_unacked s))"

definition acked_in :: "event list \<Rightarrow> delivery \<Rightarrow> bool" where
  "acked_in t m \<longleftrightarrow> EvAck (d_tag m) None \<in> set t"

lemma own_tags_iff: "own_tags s \<longleftrightarrow> (\<forall>x. count (image_mset d_tag (live s)) x \<le> 1)"
proof -
  have "image_mset d_tag (live s) = mset (map d_tag (q_ready s @ q_unacked s))"
    by (simp add: live_def)
  then show ?thesis
    unfolding own_tags_def
    by (simp only: distinct_count_atmost_1 count_mset)
       (metis count_list_0_iff le_numeral_extra(4) linorder_not_le less_one zero_le_one le_antisym
         One_nat_def Suc_leI not_gr_zero)
qed

lemma own_tags_subset: "own_tags s \<Longrightarrow> live s' \<subseteq># live s \<Longrightarrow> own_tags s'"
  unfolding own_tags_iff by (meson image_mset_subseteq_mono mset_subset_eq_count order_trans)

locale holding =
  fixes put :: discipline
  assumes mset_put: "mset (put m ms) = add_mset m (mset ms)"
begin

lemma mset_fold_put: "mset (fold put us ms) = mset us + mset ms"
  by (induction us arbitrary: ms) (auto simp: mset_put)

lemma live_return:
  assumes "own_tags s"
  shows "live (return_to put x s) = live s"
proof (cases "filter (\<lambda>m. d_tag m = x) (q_unacked s)")
  case Nil
  then show ?thesis by (simp add: return_to_def)
next
  case (Cons m rest)
  have "distinct (map d_tag (filter (\<lambda>m. d_tag m = x) (q_unacked s)))"
    using assms unfolding own_tags_def by (intro distinct_map_filter) simp
  then have d: "distinct (map d_tag (m # rest))" by (simp only: Cons)
  have "set (filter (\<lambda>m. d_tag m = x) (q_unacked s)) \<subseteq> {y. d_tag y = x}" by auto
  then have "set (m # rest) \<subseteq> {y. d_tag y = x}" by (simp only: Cons)
  with d have "rest = []" by (cases rest) simp_all
  then have "mset (filter (\<lambda>m. d_tag m = x) (q_unacked s)) = mset [m]" by (simp only: Cons \<open>rest = []\<close>)
  then have one: "filter_mset (\<lambda>m. d_tag m = x) (mset (q_unacked s)) = {#m#}"
    by (simp only: mset_filter mset.simps)
  have "mset (q_unacked s) = filter_mset (\<lambda>m. d_tag m = x) (mset (q_unacked s)) +
      filter_mset (\<lambda>m. d_tag m \<noteq> x) (mset (q_unacked s))"
    by (rule multiset_partition)
  then have split: "mset (q_unacked s) = {#m#} + filter_mset (\<lambda>m. d_tag m \<noteq> x) (mset (q_unacked s))"
    by (simp only: one)
  have "live (return_to put x s) =
      add_mset m (mset (q_ready s)) + filter_mset (\<lambda>m. d_tag m \<noteq> x) (mset (q_unacked s))"
    by (simp add: return_to_def live_def mset_put Cons)
  also have "\<dots> = mset (q_ready s) + ({#m#} + filter_mset (\<lambda>m. d_tag m \<noteq> x) (mset (q_unacked s)))"
    by simp
  also have "\<dots> = live s" by (simp only: live_def split[symmetric])
  finally show ?thesis .
qed

text \<open>One event: the queue keeps what it holds, but for an acknowledged message.\<close>

lemma live_step_same:
  assumes "own_tags s" and "\<And>m. e = EvGet q (Inr (Some m)) \<Longrightarrow> \<exists>ms. q_ready s = m # ms"
    and "\<And>x. e \<noteq> EvAck x None"
  shows "live (q_step put q e s) = live s"
  using assms
proof (cases "(put, q, e, s)" rule: q_step.cases)
  case (1 p qq q' m' s')
  then show ?thesis using assms(2)[of m'] by (auto simp: live_def)
next
  case (3 p qq x s')
  then show ?thesis using live_return[OF assms(1)] by simp
next
  case (4 p qq c s')
  then have "e = EvClose c" by simp
  then show ?thesis using mset_fold_put by (simp add: live_def)
qed simp_all

lemma live_step:
  assumes "own_tags s" and "\<And>m. e = EvGet q (Inr (Some m)) \<Longrightarrow> \<exists>ms. q_ready s = m # ms"
  shows "live (q_step put q e s) \<subseteq># live s \<and>
         filter_mset (\<lambda>m. \<not> acked_in [e] m) (live s) \<subseteq># live (q_step put q e s)"
proof (cases "\<exists>x. e = EvAck x None")
  case True
  then obtain x where e: "e = EvAck x None" by blast
  have "filter_mset (\<lambda>m. d_tag m \<noteq> x) (mset (q_ready s) + mset (q_unacked s)) \<subseteq>#
     mset (q_ready s) + filter_mset (\<lambda>m. d_tag m \<noteq> x) (mset (q_unacked s))"
    by simp
  then show ?thesis by (simp add: e live_def acked_in_def)
next
  case False
  then show ?thesis using live_step_same[OF assms] by simp
qed

lemma live_trace:
  assumes "serves put q s0 E" and "traced (answered E q) h t"
    and "own_tags (queue_after put q s0 h)"
  shows "live (queue_after put q s0 (h @ t)) \<subseteq># live (queue_after put q s0 h) \<and>
         filter_mset (\<lambda>m. \<not> acked_in t m) (live (queue_after put q s0 h))
           \<subseteq># live (queue_after put q s0 (h @ t))"
  using assms(2,3)
proof (induction t arbitrary: h)
  case Nil
  then show ?case by simp
next
  case (Cons e t)
  let ?s = "queue_after put q s0 h" and ?s1 = "queue_after put q s0 (h @ [e])"
  have "\<exists>ms. q_ready ?s = m # ms" if "e = EvGet q' (Inr (Some m))" "q' = q" for q' m
  proof -
    have "e_get E h q = Inr (Some m)" using that Cons.prems(1) by simp
    from serves_get[OF assms(1) this] show ?thesis by (auto split: list.splits)
  qed
  then have step: "live ?s1 \<subseteq># live ?s" "filter_mset (\<lambda>m. \<not> acked_in [e] m) (live ?s) \<subseteq># live ?s1"
    using live_step[OF Cons.prems(2), of e q] by simp_all
  have rest: "live (queue_after put q s0 ((h @ [e]) @ t)) \<subseteq># live ?s1"
    "filter_mset (\<lambda>m. \<not> acked_in t m) (live ?s1) \<subseteq># live (queue_after put q s0 ((h @ [e]) @ t))"
    using Cons.IH[of "h @ [e]"] Cons.prems own_tags_subset[OF _ step(1)] by auto
  have "filter_mset (\<lambda>m. \<not> acked_in (e # t) m) (live ?s) =
      filter_mset (\<lambda>m. \<not> acked_in t m) (filter_mset (\<lambda>m. \<not> acked_in [e] m) (live ?s))"
    by (simp add: filter_filter_mset acked_in_def conj_commute)
  also have "\<dots> \<subseteq># filter_mset (\<lambda>m. \<not> acked_in t m) (live ?s1)"
    using step(2) by (rule multiset_filter_mono)
  also note rest(2)
  finally show ?case using rest(1) step(1) by (auto intro: subset_mset.order_trans)
qed

text \<open>Any program whose gets the queue answers.\<close>

lemma conserves:
  assumes "serves put q s0 E" "emits_at (answered E q) m" "own_tags (queue_after put q s0 h)"
    and "m h = (r, h @ t)"
  shows "live (queue_after put q s0 (h @ t)) \<subseteq># live (queue_after put q s0 h)"
    and "filter_mset (\<lambda>m. \<not> acked_in t m) (live (queue_after put q s0 h))
           \<subseteq># live (queue_after put q s0 (h @ t))"
proof -
  have "traced (answered E q) h t" using emits_atD[OF assms(2,4)] by auto
  from live_trace[OF assms(1) this assms(3)] show
    "live (queue_after put q s0 (h @ t)) \<subseteq># live (queue_after put q s0 h)"
    "filter_mset (\<lambda>m. \<not> acked_in t m) (live (queue_after put q s0 h))
           \<subseteq># live (queue_after put q s0 (h @ t))" by blast+
qed

end

section \<open>What an action leaves\<close>

text \<open>The channel is closed on every way out, so nothing stays unacked.\<close>

lemma within_queue_unacked:
  assumes "within_queue E n body h = (r, h')" and "q_unacked (queue_after put q s0 h) = []"
  shows "q_unacked (queue_after put q s0 h') = []"
  using assms(1)
proof (cases rule: within_queue_cases)
qed (use assms(2) in auto)

fun reads_only :: "string \<Rightarrow> event \<Rightarrow> bool" where
  "reads_only q (EvGet q' _) \<longleftrightarrow> q' = q"
| "reads_only q _ \<longleftrightarrow> True"

lemma reads_only_fetch: "emits (reads_only q) (fetch E q d limit whole mb)"
proof (rule emitsI)
  fix h
  obtain r h' where run: "fetch E q d limit whole mb h = (r, h')" by fastforce
  from doesD[OF fetch_does run] obtain t where t: "h' = h @ t" "list_all (is_get q) t" by blast
  then have "list_all (reads_only q) t" by (auto simp: list_all_iff is_get_def)
  with t run show "\<exists>t. snd (fetch E q d limit whole mb h) = h @ t \<and> list_all (reads_only q) t" by auto
qed

lemma not_read_reads_only: "\<not> is_read e \<Longrightarrow> reads_only q e"
  by (cases e) auto

lemma reads_only_operate: "emits (reads_only q) (operate E q fp action target rh stamp ms whole)"
  unfolding operate_def operate_body_def operate_on_def settle_step_def
  by (intro emits_within_queue emits_intros reads_only_fetch
      emits_mono[OF emits_publish_step] emits_mono[OF emits_requeue] emits_mono[OF emits_requeue_unprocessed])
     (auto intro!: emits_intros emits_mono[OF emits_publish_step] emits_mono[OF emits_requeue]
       not_read_reads_only split: list.split)

text \<open>While nothing is settled, what was read is what is unacked.\<close>

lemma quiet_unacked:
  "list_all quiet t \<Longrightarrow> list_all (reads_only q) t \<Longrightarrow>
     q_unacked (queue_after put q s t) = q_unacked s @ got t"
proof (induction t arbitrary: s)
  case Nil
  then show ?case by simp
next
  case (Cons e t)
  have "q_unacked (q_step put q e s) = q_unacked s @ got [e]"
    using Cons.prems
  proof (cases "(put, q, e, s)" rule: q_step.cases)
  qed (auto simp: got_def)
  then show ?case using Cons by (simp add: got_def)
qed

text \<open>A message that was read and not settled since is unacked.\<close>

lemma still_unacked:
  assumes "m \<in> set (got t)" "list_all (reads_only q) t"
    and "\<forall>e \<in> set t. (\<forall>c. e \<noteq> EvClose c) \<and> (\<forall>a. e \<noteq> EvAck (d_tag m) a) \<and> (\<forall>a. e \<noteq> EvNack (d_tag m) a)"
  shows "m \<in> set (q_unacked (queue_after put q s t))"
  using assms
proof (induction t rule: rev_induct)
  case Nil
  then show ?case by simp
next
  case (snoc e t)
  show ?case
  proof (cases "e = EvGet q (Inr (Some m))")
    case False
    then have "m \<in> set (got t)" using snoc.prems by (auto simp: got_def split: event.splits sum.splits option.splits)
    then have "m \<in> set (q_unacked (queue_after put q s t))" using snoc by auto
    then show ?thesis
      using snoc.prems(3)
      by (cases "(put, q, e, queue_after put q s t)" rule: q_step.cases)
         (auto simp: return_to_def split: list.splits)
  qed simp
qed

context holding
begin

text \<open>When every message is unacked at the time it is acknowledged, exactly the acknowledged ones
  are gone.\<close>

lemma live_ack:
  assumes "own_tags s" "x \<in> d_tag ` set (q_unacked s)"
  shows "live (q_step put q (EvAck x None) s) = filter_mset (\<lambda>m. d_tag m \<noteq> x) (live s)"
proof -
  have "x \<notin> d_tag ` set (q_ready s)"
    using assms by (auto simp: own_tags_def)
  then have "filter_mset (\<lambda>m. d_tag m \<noteq> x) (mset (q_ready s)) = mset (q_ready s)"
    by (auto simp: filter_mset_eq_conv)
  then show ?thesis by (simp add: live_def)
qed

lemma live_acks:
  assumes sv: "serves put q s0 E" and tr: "traced (answered E q) h t"
    and own: "own_tags (queue_after put q s0 h)"
    and here: "\<And>b x c. t = b @ EvAck x None # c \<Longrightarrow> x \<in> d_tag ` set (q_unacked (queue_after put q s0 (h @ b)))"
  shows "live (queue_after put q s0 (h @ t)) =
     filter_mset (\<lambda>m. \<not> acked_in t m) (live (queue_after put q s0 h))"
  using tr here
proof (induction t rule: rev_induct)
  case Nil
  then show ?case by (simp add: acked_in_def)
next
  case (snoc e t)
  let ?s = "queue_after put q s0 (h @ t)"
  have IH: "live ?s = filter_mset (\<lambda>m. \<not> acked_in t m) (live (queue_after put q s0 h))"
    using snoc.prems by (intro snoc.IH) auto
  then have own': "own_tags ?s" using own_tags_subset[OF own] by simp
  show ?case
  proof (cases "\<exists>x. e = EvAck x None")
    case True
    then obtain x where e: "e = EvAck x None" by blast
    have "live (queue_after put q s0 (h @ t @ [e])) = filter_mset (\<lambda>m. d_tag m \<noteq> x) (live ?s)"
      using live_ack[OF own', of x q] snoc.prems(2)[of t x "[]"] by (simp add: e)
    then show ?thesis
      unfolding IH by (simp add: filter_filter_mset e acked_in_def)
         (intro filter_mset_cong refl, auto)
  next
    case False
    have "\<exists>ms. q_ready ?s = m # ms" if "e = EvGet q (Inr (Some m))" for m
      using serves_get[OF sv, of "h @ t" "Some m"] that snoc.prems(1) by (auto split: list.splits)
    then have "live (queue_after put q s0 (h @ t @ [e])) = live ?s"
      using live_step_same[OF own', of e q] False by simp
    then show ?thesis
      unfolding IH using False by (auto simp: acked_in_def intro: filter_mset_cong)
  qed
qed

lemma operate_live:
  assumes sv: "serves put q s0 E" and own: "own_tags (queue_after put q s0 h)"
    and closed: "q_unacked (queue_after put q s0 h) = []"
    and run: "operate E q fp action target rh stamp ms whole h = (r, h @ t)"
  shows "mset (q_ready (queue_after put q s0 (h @ t))) =
     filter_mset (\<lambda>m. \<not> acked_in t m) (mset (q_ready (queue_after put q s0 h)))"
    and "q_unacked (queue_after put q s0 (h @ t)) = []"
proof -
  show closed': "q_unacked (queue_after put q s0 (h @ t)) = []"
    using within_queue_unacked[OF run[unfolded operate_def]] closed by simp
  have tr: "traced (answered E q) h t" using emits_atD[OF answered_operate run] by auto
  have ro: "list_all (reads_only q) t" using emitsD[OF reads_only_operate run] by auto
  have "one_ack (justified_by_trace E q fp action target rh stamp) t"
    using doesD'[OF operate_does run] .
  then have "live (queue_after put q s0 (h @ t)) =
      filter_mset (\<lambda>m. \<not> acked_in t m) (live (queue_after put q s0 h))"
    unfolding one_ack_def
  proof (elim disjE exE conjE)
    assume no: "list_all (\<lambda>e. \<not> is_ack e) t"
    then have "filter_mset (\<lambda>m. \<not> acked_in t m) (live (queue_after put q s0 h)) = live (queue_after put q s0 h)"
      by (auto simp: acked_in_def list_all_iff filter_mset_eq_conv)
    then show ?thesis using live_trace[OF sv tr own] by (auto intro: subset_mset.antisym)
  next
    fix before x a after
    assume t: "t = before @ EvAck x a # after" "list_all (\<lambda>e. \<not> is_ack e) (before @ after)"
      "justified_by_trace E q fp action target rh stamp before x"
    then obtain m where m: "matches_in E q fp (got before) = [m]" "d_tag m = x" "list_all quiet before"
      by (auto simp: justified_by_trace_def justified_ack_def)
    then have "m \<in> set (got before)"
      unfolding matches_in_def by (auto dest: filter_eq_ConsD)
    moreover have "q_unacked (queue_after put q s0 (h @ before)) = got before"
      using quiet_unacked[OF m(3), of q put "queue_after put q s0 h"] ro t(1) closed by simp
    ultimately have "x \<in> d_tag ` set (q_unacked (queue_after put q s0 (h @ before)))"
      using m(2) by auto
    moreover have "b = before \<and> y = x" if "t = b @ EvAck y None # c" for b y c
      using that t(1,2) by (fastforce simp: append_eq_append_conv2 append_eq_Cons_conv Cons_eq_append_conv)
    ultimately show ?thesis by (intro live_acks[OF sv tr own]) auto
  qed
  then show "mset (q_ready (queue_after put q s0 (h @ t))) =
     filter_mset (\<lambda>m. \<not> acked_in t m) (mset (q_ready (queue_after put q s0 h)))"
    using closed closed' by (simp add: live_def)
qed

end

text \<open>Queue types that return a message to its place keep the ready list ordered, whatever
  happens; with what the queue holds known, its order is known.\<close>

locale ordered = holding +
  assumes sorted_put: "sorted (map d_tag ms) \<Longrightarrow> sorted (map d_tag (put m ms))"
begin

lemma sorted_fold_put: "sorted (map d_tag ms) \<Longrightarrow> sorted (map d_tag (fold put us ms))"
  by (induction us arbitrary: ms) (auto simp: sorted_put)

lemma sorted_step: "sorted (map d_tag (q_ready s)) \<Longrightarrow> sorted (map d_tag (q_ready (q_step put q e s)))"
proof (cases "(put, q, e, s)" rule: q_step.cases)
  case (1 p qq q' m' s')
  then show "sorted (map d_tag (q_ready s)) \<Longrightarrow> ?thesis" by (auto simp: map_tl sorted_tl)
next
  case (3 p qq x s')
  then show "sorted (map d_tag (q_ready s)) \<Longrightarrow> ?thesis" 
    using sorted_put by (auto simp: return_to_def split: list.splits)
next
  case (4 p qq c s')
  then have "e = EvClose c" by simp
  then show "sorted (map d_tag (q_ready s)) \<Longrightarrow> ?thesis" using sorted_fold_put by simp
qed auto

lemma sorted_after:
  "sorted (map d_tag (q_ready s)) \<Longrightarrow> sorted (map d_tag (q_ready (queue_after put q s t)))"
  by (induction t arbitrary: s) (auto simp: sorted_step)

lemma same_list:
  assumes "mset xs = mset ys" "sorted (map d_tag xs)" "sorted (map d_tag ys)" "distinct (map d_tag ys)"
  shows "xs = ys"
proof -
  have "mset (map d_tag xs) = mset (map d_tag ys)" using assms(1) by simp
  then have "map d_tag xs = map d_tag ys"
    using assms(2,3) by (metis properties_for_sort)
  moreover have "set xs = set ys" using assms(1) by (rule mset_eq_setD)
  moreover have "inj_on d_tag (set ys)" using assms(4) by (simp add: distinct_map)
  ultimately show ?thesis by (metis Un_absorb map_inj_on)
qed

lemma operate_order:
  assumes sv: "serves put q s0 E" and own: "own_tags (queue_after put q s0 h)"
    and so: "sorted (map d_tag (q_ready (queue_after put q s0 h)))"
    and closed: "q_unacked (queue_after put q s0 h) = []"
    and run: "operate E q fp action target rh stamp ms whole h = (r, h @ t)"
  shows "q_ready (queue_after put q s0 (h @ t)) =
     filter (\<lambda>m. \<not> acked_in t m) (q_ready (queue_after put q s0 h))"
proof (rule same_list)
  show "mset (q_ready (queue_after put q s0 (h @ t))) =
    mset (filter (\<lambda>m. \<not> acked_in t m) (q_ready (queue_after put q s0 h)))"
    using operate_live(1)[OF sv own closed run] by simp
  show "sorted (map d_tag (q_ready (queue_after put q s0 (h @ t))))"
    using sorted_after[OF so] by simp
qed (use so own closed in \<open>auto simp: own_tags_def sorted_filter distinct_map_filter\<close>)

end

interpretation holds_classic: ordered to_position
  by unfold_locales (simp_all add: to_position_def sorted_insort_key)

interpretation holds_quorum: holding to_back
  by unfold_locales (simp add: to_back_def)

end
