(* ===== verification/Sample_World.thy ===== *)
theory Sample_World
  imports Conservation
begin

text \<open>
  A concrete outside world, for evaluating the model: library functions that compute, a broker
  that answers from one queue, and a few messages. It meets the hypotheses about the broker that
  the theorems state (\<open>serves\<close>, \<open>honest_processed\<close>, \<open>gets_answered\<close>).
\<close>

definition sample_lib :: pylib where
  "sample_lib =
     \<lparr>sha256_hex = (\<lambda>s. s), isoformat = (\<lambda>_. ''2026-01-01T00:00:00''), fromisoformat = (\<lambda>_. None),
      json_canonical = (\<lambda>v. case v of PDict d \<Rightarrow>
         (case dict_get d ''message_id'' of Some (PStr s) \<Rightarrow> s | _ \<Rightarrow> ''none'') | _ \<Rightarrow> ''none''),
      json_dumps = (\<lambda>_. ''{}''), json_loads = (\<lambda>_. None), utf8_ignore = (\<lambda>s. s),
      utf8_replace = (\<lambda>s. s), utf8_valid = (\<lambda>_. True), base64 = (\<lambda>s. s),
      zlib_inflate = (\<lambda>_ _ _. None), str_of = (\<lambda>_. ''value''),
      parse_float = (\<lambda>_. None), db_time = (\<lambda>d. Naive (as_utc d)), pbkdf2_hex = (\<lambda>p s. s @ p), hmac_sha256 = (\<lambda>k m. k @ m), ip_valid = (\<lambda>s. s \<noteq> []), ip_in = (\<lambda>s n. s = n),
      quote_all = (\<lambda>s. s), local_hhmm = (\<lambda>_ _. Some ''12:00'')\<rparr>"

definition sample_env :: "discipline \<Rightarrow> string \<Rightarrow> queue_state \<Rightarrow> env" where
  "sample_env put q s0 =
     \<lparr>e_lib = sample_lib, e_lock_scope = (''broker'', ''/''), e_clock = (\<lambda>_. 0), e_token = (\<lambda>_ _. ''token''),
      e_hex = (\<lambda>_ _. ''5a17''), e_lock = (\<lambda>_ _. None),
      e_open = (\<lambda>_. None), e_close = (\<lambda>_. None),
      e_declare = (\<lambda>h n p. Inr (Some (int (length (q_ready (queue_after put q s0 h)))))),
      e_get = (\<lambda>h n. Inr (case q_ready (queue_after put q s0 h) of [] \<Rightarrow> None | m # _ \<Rightarrow> Some m)),
      e_ack = (\<lambda>_ _. None), e_nack = (\<lambda>_ _. None),
      e_processed = (\<lambda>h t. EvAck t None \<in> set h \<or> EvNack t None \<in> set h),
      e_exchange = (\<lambda>_ _ _. None), e_publish = (\<lambda>_ _ _ _. None),
      e_mgmt_queue = (\<lambda>_ _. Inr []), e_mgmt_queues = (\<lambda>_. Inr []), e_overview = (\<lambda>_. Inr []),
      e_setting = (\<lambda>_ _. Inr PNone), e_audit = (\<lambda>_ _. None),
      e_post = (\<lambda>_ _ _. None), e_mail = (\<lambda>_ _. None), e_notify = (\<lambda>_ _. None)\<rparr>"

definition sample_message :: "nat \<Rightarrow> string \<Rightarrow> delivery" where
  "sample_message tag ident =
     \<lparr>d_tag = tag, d_body = ident, d_headers = None, d_content_type = None, d_content_encoding = None,
      d_delivery_mode = None, d_priority = None, d_correlation_id = None, d_reply_to = None,
      d_expiration = None, d_message_id = Some ident, d_timestamp = None, d_type = None,
      d_user_id = None, d_app_id = None, d_exchange = None, d_routing_key = None,
      d_redelivered = False\<rparr>"

definition three_messages :: queue_state where
  "three_messages =
     \<lparr>q_ready = [sample_message 1 ''a'', sample_message 2 ''b'', sample_message 3 ''c''], q_unacked = []\<rparr>"

abbreviation classic_env :: env where
  "classic_env \<equiv> sample_env to_position ''dlq'' three_messages"

abbreviation quorum_env :: env where
  "quorum_env \<equiv> sample_env to_back ''dlq'' three_messages"

lemma sample_serves: "serves put q s0 (sample_env put q s0)"
  by (simp add: serves_def sample_env_def)

lemma sample_answers: "gets_answered q' (sample_env put q s0)"
  by (simp add: gets_answered_def sample_env_def)

lemma sample_honest: "honest_processed (sample_env put q s0)"
  by (simp add: honest_processed_def sample_env_def)

lemma sample_own: "own_tags three_messages" "own_tags (queue_after put q three_messages [])"
  by (simp_all add: own_tags_def three_messages_def sample_message_def)

lemma sample_closed: "q_unacked three_messages = []"
  by (simp add: three_messages_def)

lemma sample_sorted: "sorted (map d_tag (q_ready three_messages))"
  by (simp add: three_messages_def sample_message_def)

lemma sample_unsettled: "unsettled [] (q_ready three_messages)"
  by (simp add: unsettled_def three_messages_def sample_message_def)

end
