(* ===== verification/Operator_Properties.thy ===== *)
theory Operator_Properties
  imports Sample_World
begin

text \<open>
  What a single action guarantees: what it may acknowledge and when, what an ambiguous or missing
  fingerprint does, what success means, and what the queue holds afterwards.
\<close>


section \<open>Outcome of an action\<close>

definition carried_out ::
  "env \<Rightarrow> string \<Rightarrow> string \<Rightarrow> string \<Rightarrow> replay_target option \<Rightarrow> pyval dict \<Rightarrow> bool \<Rightarrow> delivery \<Rightarrow>
     op_result \<Rightarrow> event list \<Rightarrow> bool"
where
  "carried_out E q fp action target rh stamp m res t \<longleftrightarrow>
     or_status res = ''success'' \<and> or_action res = action \<and> or_fingerprint res = fp \<and>
     or_target res = target \<and> or_message_id res = d_message_id m \<and>
     (if action \<in> ACKING then EvAck (d_tag m) None \<in> set t
      else action = ''copy'' \<and> EvNack (d_tag m) None \<in> set t) \<and>
     (action \<in> PUBLISHING \<longrightarrow>
        (\<exists>tgt. target = Some tgt \<and>
           published tgt (outgoing_of (to_record (e_lib E) q False m) rh (stamp \<and> action \<noteq> ''park'')) t))"

definition mutates :: "event \<Rightarrow> bool" where
  "mutates e \<longleftrightarrow> is_ack e \<or> is_publish e"

definition operate_outcome ::
  "env \<Rightarrow> string \<Rightarrow> string \<Rightarrow> string \<Rightarrow> replay_target option \<Rightarrow> pyval dict \<Rightarrow> bool \<Rightarrow> delivery list \<Rightarrow>
     exn + op_result \<Rightarrow> event list \<Rightarrow> bool"
where
  "operate_outcome E q fp action target rh stamp scanned r t \<longleftrightarrow>
     (case matches_in E q fp scanned of
        [m] \<Rightarrow> (\<forall>res. r = Inr res \<longrightarrow> carried_out E q fp action target rh stamp m res t)
      | _ \<Rightarrow> (\<exists>e. r = Inl e) \<and> list_all (\<lambda>e. \<not> mutates e) t)"

lemma operate_outcomeI:
  "(\<And>m res. matches_in E q fp scanned = [m] \<Longrightarrow> r = Inr res \<Longrightarrow>
      carried_out E q fp action target rh stamp m res t) \<Longrightarrow>
   ((\<And>m. matches_in E q fp scanned \<noteq> [m]) \<Longrightarrow> (\<exists>e. r = Inl e) \<and> list_all (\<lambda>e. \<not> mutates e) t) \<Longrightarrow>
   operate_outcome E q fp action target rh stamp scanned r t"
  by (auto simp: operate_outcome_def split: list.splits)

lemma carried_out_mono:
  "carried_out E q fp action target rh stamp m res t \<Longrightarrow> set t \<subseteq> set u \<Longrightarrow>
     carried_out E q fp action target rh stamp m res u"
  by (auto simp: carried_out_def intro: published_mono split: if_splits)

lemma operate_outcome_extend:
  assumes "operate_outcome E q fp action target rh stamp scanned r t"
    and "set t \<subseteq> set u" and "\<And>e. e \<in> set u \<Longrightarrow> e \<notin> set t \<Longrightarrow> \<not> mutates e"
    and "\<And>res. r' = Inr res \<Longrightarrow> r = Inr res"
    and "(\<exists>e. r = Inl e) \<Longrightarrow> (\<exists>e. r' = Inl e)"
  shows "operate_outcome E q fp action target rh stamp scanned r' u"
  using assms carried_out_mono[OF _ assms(2)]
  by (auto simp: operate_outcome_def list_all_iff split: list.splits)

lemma settle_step_does:
  "does (settle_step E action m) h (\<lambda>r t. r = Inr () \<longrightarrow>
     (if action \<in> ACKING then EvAck (d_tag m) None \<in> set t
      else action = ''copy'' \<and> EvNack (d_tag m) None \<in> set t))"
  by (auto simp: settle_step_def ack_def nack_def intro!: does_perform does_raise split: option.splits)

lemma operate_on_outcome:
  "does (operate_on E q fp action target rh stamp scanned) h
     (\<lambda>r t. operate_outcome E q fp action target rh stamp scanned r t)"
proof (cases "\<exists>m. matches_in E q fp scanned = [m]")
  case False
  then have "operate_on E q fp action target rh stamp scanned =
      raise (mk_exn LookupErr (''Message '' @ fp @ '' was not found uniquely in '' @ q))"
    by (auto simp: operate_on_def split: list.split)
  then show ?thesis using False by (auto intro!: does_raise operate_outcomeI)
next
  case True
  then obtain m where m: "matches_in E q fp scanned = [m]" by blast
  let ?\<Phi> = "operate_outcome E q fp action target rh stamp scanned"
  have fail: "?\<Phi> (Inl e) t" for e t using m by (auto intro: operate_outcomeI)
  show ?thesis
    unfolding operate_on_def m list.case Let_def
  proof (rule does_bnd[OF publish_step_does])
    show "?\<Phi> (Inl e) t" for e t by (rule fail)
  next
    fix x :: unit and t
    assume pub: "Inr x = (Inr () :: exn + unit) \<longrightarrow> action \<in> PUBLISHING \<longrightarrow> (\<exists>tgt. target = Some tgt \<and>
       published tgt (outgoing_of (to_record (e_lib E) q False m) rh (stamp \<and> action \<noteq> ''park'')) t)"
    let ?k = "bnd (requeue E scanned (Some m)) (\<lambda>_. ret \<lparr>or_status = ''success'', or_action = action,
        or_fingerprint = fp, or_target = target,
        or_message_id = mr_message_id (to_record (e_lib E) q False m),
        or_x_death = mr_x_death (to_record (e_lib E) q False m)\<rparr>)"
    show "does (bnd (settle_step E action m) (\<lambda>_. ?k)) (h @ t) (\<lambda>r u. ?\<Phi> r (t @ u))"
    proof (rule does_bnd[OF settle_step_does])
      show "?\<Phi> (Inl e) (t @ u)" for e u by (rule fail)
    next
      fix y :: unit and u
      assume settled: "Inr y = (Inr () :: exn + unit) \<longrightarrow> (if action \<in> ACKING then EvAck (d_tag m) None \<in> set u
          else action = ''copy'' \<and> EvNack (d_tag m) None \<in> set u)"
      show "does ?k ((h @ t) @ u) (\<lambda>r v. ?\<Phi> r (t @ u @ v))"
      proof (rule does_bnd[where \<Theta> = "\<lambda>_ _. True"])
        show "does (requeue E scanned (Some m)) ((h @ t) @ u) (\<lambda>_ _. True)"
          by (rule does_mono[OF does_emits[OF emits_requeue]]) simp
        show "?\<Phi> (Inl e) (t @ u @ v)" for e v by (rule fail)
        show "does (ret \<lparr>or_status = ''success'', or_action = action, or_fingerprint = fp,
            or_target = target, or_message_id = mr_message_id (to_record (e_lib E) q False m),
            or_x_death = mr_x_death (to_record (e_lib E) q False m)\<rparr>) (((h @ t) @ u) @ v)
            (\<lambda>r w. ?\<Phi> r (t @ u @ v @ w))" for v
          using m pub settled
          by (intro does_ret operate_outcomeI)
             (auto simp: carried_out_def intro: published_extend split: if_splits)
      qed
    qed
  qed
qed

lemma operate_body_outcome:
  "does (operate_body E q fp action target rh stamp ms whole) h
     (\<lambda>r t. (\<exists>e. r = Inl e) \<and> t \<noteq> [] \<and> list_all (\<lambda>e. \<not> mutates e) t \<and> got t = [] \<or>
            operate_outcome E q fp action target rh stamp (got t) r t)"
proof -
  let ?Out = "operate_outcome E q fp action target rh stamp"
  have rest: "does (catch (bnd (lift fetched) (\<lambda>_. operate_on E q fp action target rh stamp scanned))
         (\<lambda>e. bnd (requeue_unprocessed E scanned) (\<lambda>_. raise e))) h'
     (\<lambda>r t. ?Out scanned r t \<and> list_all (\<lambda>e. \<not> is_read e) t)" for fetched scanned h'
  proof (rule does_catch[where \<Theta> = "\<lambda>r t. ?Out scanned r t \<and> list_all (\<lambda>e. \<not> is_read e) t"])
    have "does (lift fetched) h' (\<lambda>r t. r = fetched \<and> t = [])" by (rule does_lift) simp
    then show "does (bnd (lift fetched) (\<lambda>_. operate_on E q fp action target rh stamp scanned)) h'
       (\<lambda>r t. ?Out scanned r t \<and> list_all (\<lambda>e. \<not> is_read e) t)"
    proof (rule does_bnd)
      show "?Out scanned (Inl e) t \<and> list_all (\<lambda>e. \<not> is_read e) t"
        if "Inl e = fetched \<and> t = []" for e t
        using that by (auto intro: operate_outcomeI)
      show "does (operate_on E q fp action target rh stamp scanned) (h' @ t)
         (\<lambda>r u. ?Out scanned r (t @ u) \<and> list_all (\<lambda>e. \<not> is_read e) (t @ u))"
        if "Inr x = fetched \<and> t = []" for x t
        using does_mono[OF does_conj[OF operate_on_outcome operate_on_does]] that by auto
    qed
  next
    fix e t
    assume t: "?Out scanned (Inl e) t \<and> list_all (\<lambda>e. \<not> is_read e) t"
    have "does (bnd (requeue_unprocessed E scanned) (\<lambda>_. raise e)) (h' @ t)
        (\<lambda>r v. (\<exists>e. r = Inl e) \<and> list_all (\<lambda>e. \<not> is_ack e \<and> \<not> is_publish e \<and> \<not> is_read e) v)"
      by (rule does_bnd[OF does_emits[OF emits_requeue_unprocessed]]) (auto intro: does_raise)
    then show "does (bnd (requeue_unprocessed E scanned) (\<lambda>_. raise e)) (h' @ t)
       (\<lambda>r v. ?Out scanned r (t @ v) \<and> list_all (\<lambda>e. \<not> is_read e) (t @ v))"
      by (rule does_mono)
         (use t in \<open>auto simp: list_all_iff mutates_def intro: operate_outcome_extend\<close>)
  qed auto
  show ?thesis
    unfolding operate_body_def
  proof (rule does_bnd[where \<Theta> = "\<lambda>r t. \<exists>d. t = [EvDeclare q True d]"])
    show "does (declare_queue E q True) h (\<lambda>r t. \<exists>d. t = [EvDeclare q True d])"
      by (auto simp: declare_queue_def intro: does_ask)
  next
    fix declared t
    assume t: "\<exists>d. t = [EvDeclare q True d]"
    show "does (bnd (fetch E q declared ms whole None) (\<lambda>(fetched, scanned).
              catch (bnd (lift fetched) (\<lambda>_. operate_on E q fp action target rh stamp scanned))
                (\<lambda>e. bnd (requeue_unprocessed E scanned) (\<lambda>_. raise e)))) (h @ t)
          (\<lambda>r u. (\<exists>e. r = Inl e) \<and> t @ u \<noteq> [] \<and> list_all (\<lambda>e. \<not> mutates e) (t @ u) \<and> got (t @ u) = [] \<or>
            ?Out (got (t @ u)) r (t @ u))"
    proof (rule does_bnd[OF fetch_does], goal_cases)
      case (1 e u)
      then show ?case by simp
    next
      case (2 x u)
      then obtain res where x: "x = (res, got u)" and u: "list_all (is_get q) u" by auto
      show ?case
        unfolding x prod.case
      proof (rule does_mono[OF rest])
        fix r v
        assume v: "?Out (got u) r v \<and> list_all (\<lambda>e. \<not> is_read e) v"
        moreover have "got t = []" using t by auto
        moreover have "?Out (got u) r (t @ u @ v)"
          by (rule operate_outcome_extend[OF conjunct1[OF v]])
             (use t u in \<open>auto simp: list_all_iff mutates_def is_get_def\<close>)
        ultimately show "(\<exists>e. r = Inl e) \<and> t @ u @ v \<noteq> [] \<and> list_all (\<lambda>e. \<not> mutates e) (t @ u @ v) \<and>
            got (t @ u @ v) = [] \<or> ?Out (got (t @ u @ v)) r (t @ u @ v)"
          by (simp add: got_no_read)
      qed
    qed
  qed (auto simp: mutates_def)
qed

lemma operate_outcomes:
  "does (operate E q fp action target rh stamp ms whole) h
     (\<lambda>r t. operate_outcome E q fp action target rh stamp (got t) r t)"
  unfolding operate_def
proof (rule does_within_queue[OF operate_body_outcome])
  fix e
  have none: "matches_in E q fp [] = []" by (simp add: matches_in_def)
  show "operate_outcome E q fp action target rh stamp (got [EvLock (lock_names E q) (Some e)]) (Inl e)
      [EvLock (lock_names E q) (Some e)]"
    by (auto simp: mutates_def none intro!: operate_outcomeI)
  show "operate_outcome E q fp action target rh stamp
      (got [EvLock (lock_names E q) None, EvOpen (Some e), EvUnlock (lock_names E q)]) (Inl e)
      [EvLock (lock_names E q) None, EvOpen (Some e), EvUnlock (lock_names E q)]"
    by (auto simp: mutates_def none intro!: operate_outcomeI)
next
  fix r t c
  assume *: "(\<exists>e. r = Inl e) \<and> t \<noteq> [] \<and> list_all (\<lambda>e. \<not> mutates e) t \<and> got t = [] \<or>
            operate_outcome E q fp action target rh stamp (got t) r t"
  let ?t = "[EvLock (lock_names E q) None, EvOpen None] @ t @ [EvClose c, EvUnlock (lock_names E q)]"
  have g: "got ?t = got t" by simp
  have none: "matches_in E q fp [] = []" by (simp add: matches_in_def)
  have 1: "operate_outcome E q fp action target rh stamp (got t) r t"
    using * none by (auto simp: operate_outcome_def)
  show "operate_outcome E q fp action target rh stamp (got ?t) (case c of None \<Rightarrow> r | Some e \<Rightarrow> Inl e) ?t"
    unfolding g
    by (rule operate_outcome_extend[OF 1]) (auto simp: mutates_def split: option.splits)
qed


section \<open>Properties\<close>

text \<open>
  C1. An action acknowledges a message only if the action removes one (move, park, delete), the
  message is the only one of those read so far with the fingerprint asked for, and, unless it is
  deleted, its copy has been published to the target before. It never acknowledges another
  message. This holds whatever the broker answers and whichever call fails.
\<close>

theorem operate_ack_justified:
  assumes "operate E q fp action target rh stamp ms whole h = (r, h @ before @ EvAck tag a # after)"
  shows "action \<in> ACKING \<and>
    (\<exists>m. matches_in E q fp (got before) = [m] \<and> d_tag m = tag \<and>
       (action \<noteq> ''delete'' \<longrightarrow>
          (\<exists>tgt. target = Some tgt \<and>
             published tgt (outgoing_of (to_record (e_lib E) q False m) rh (stamp \<and> action \<noteq> ''park''))
               before))) \<and>
    list_all (\<lambda>e. \<not> is_ack e) (before @ after)"
proof -
  have "one_ack (justified_by_trace E q fp action target rh stamp) (before @ EvAck tag a # after)"
    using doesD'[OF operate_does assms] .
  from one_ackD[OF this refl] show ?thesis
    by (auto simp: justified_by_trace_def justified_ack_def)
qed

definition move_target :: "replay_target option" where
  "move_target = Some (queue_target ''orders'')"

definition move_trace :: hist where
  "move_trace = snd (operate classic_env ''dlq'' ''b'' ''move'' move_target [] True 10 False [])"

theorem operate_ack_justified_witness:
  "\<exists>before after. move_trace = before @ EvAck 2 None # after \<and>
     matches_in classic_env ''dlq'' ''b'' (got before) = [sample_message 2 ''b'']"
proof -
  let ?i = "length (takeWhile (\<lambda>e. \<not> is_ack e) move_trace)"
  have split: "move_trace = take ?i move_trace @ EvAck 2 None # drop (Suc ?i) move_trace"
    by code_simp
  have only_b: "matches_in classic_env ''dlq'' ''b'' (got (take ?i move_trace)) = [sample_message 2 ''b'']"
    by code_simp
  have run: "operate classic_env ''dlq'' ''b'' ''move'' move_target [] True 10 False [] =
      (fst (operate classic_env ''dlq'' ''b'' ''move'' move_target [] True 10 False []),
       [] @ take ?i move_trace @ EvAck 2 None # drop (Suc ?i) move_trace)"
    unfolding append_Nil split[symmetric] by (simp add: move_trace_def)
  obtain m where "matches_in classic_env ''dlq'' ''b'' (got (take ?i move_trace)) = [m]"
    using operate_ack_justified[OF run] by blast
  with only_b split show ?thesis by blast
qed

text \<open>
  C2. An action on a classic queue, with whatever calls fail: afterwards the queue holds, in the
  order it had, every message except the acknowledged one, and none is left unacked.
\<close>

theorem operate_classic_queue:
  assumes "serves to_position q s0 E" and "own_tags (queue_after to_position q s0 h)"
    and "sorted (map d_tag (q_ready (queue_after to_position q s0 h)))"
    and "q_unacked (queue_after to_position q s0 h) = []"
    and "operate E q fp action target rh stamp ms whole h = (r, h @ t)"
  shows "queue_after to_position q s0 (h @ t) =
     \<lparr>q_ready = filter (\<lambda>m. \<not> acked_in t m) (q_ready (queue_after to_position q s0 h)), q_unacked = []\<rparr>"
  using holds_classic.operate_order[OF assms] holds_classic.operate_live(2)[OF assms(1,2,4,5)]
  by (cases "queue_after to_position q s0 (h @ t)") simp

theorem operate_classic_queue_witness:
  "q_ready (queue_after to_position ''dlq'' three_messages move_trace) =
     [sample_message 1 ''a'', sample_message 3 ''c'']"
proof -
  have run: "operate classic_env ''dlq'' ''b'' ''move'' move_target [] True 10 False [] =
      (fst (operate classic_env ''dlq'' ''b'' ''move'' move_target [] True 10 False []), [] @ move_trace)"
    by (simp add: move_trace_def)
  have "filter (\<lambda>m. \<not> acked_in move_trace m) (q_ready three_messages) =
     [sample_message 1 ''a'', sample_message 3 ''c'']"
    by code_simp
  then show ?thesis
    using operate_classic_queue[OF sample_serves sample_own(2) _ _ run] sample_sorted sample_closed by simp
qed

text \<open>
  C3. The same on a quorum queue, which appends what is returned: no message is lost or
  duplicated but the acknowledged one (the order is another matter, see
  \<open>copy_reorders_quorum_queue\<close>).
\<close>

theorem operate_quorum_queue:
  assumes "serves to_back q s0 E" and "own_tags (queue_after to_back q s0 h)"
    and "q_unacked (queue_after to_back q s0 h) = []"
    and "operate E q fp action target rh stamp ms whole h = (r, h @ t)"
  shows "mset (q_ready (queue_after to_back q s0 (h @ t))) =
           filter_mset (\<lambda>m. \<not> acked_in t m) (mset (q_ready (queue_after to_back q s0 h))) \<and>
         q_unacked (queue_after to_back q s0 (h @ t)) = []"
  using holds_quorum.operate_live[OF assms] by blast

definition quorum_delete_trace :: hist where
  "quorum_delete_trace = snd (operate quorum_env ''dlq'' ''c'' ''delete'' None [] True 10 True [])"

theorem operate_quorum_queue_witness:
  "mset (q_ready (queue_after to_back ''dlq'' three_messages quorum_delete_trace)) =
     {#sample_message 1 ''a'', sample_message 2 ''b''#}"
proof -
  have run: "operate quorum_env ''dlq'' ''c'' ''delete'' None [] True 10 True [] =
      (fst (operate quorum_env ''dlq'' ''c'' ''delete'' None [] True 10 True []), [] @ quorum_delete_trace)"
    by (simp add: quorum_delete_trace_def)
  have "filter (\<lambda>m. \<not> acked_in quorum_delete_trace m) (q_ready three_messages) =
     [sample_message 1 ''a'', sample_message 2 ''b'']"
    by code_simp
  then have "filter_mset (\<lambda>m. \<not> acked_in quorum_delete_trace m) (mset (q_ready three_messages)) =
     mset [sample_message 1 ''a'', sample_message 2 ''b'']"
    by (metis mset_filter)
  then show ?thesis
    using operate_quorum_queue[OF sample_serves sample_own(2) _ run] sample_closed by simp
qed

text \<open>
  C4. An action whose fingerprint no message read has, or more than one has, fails and touches
  nothing: no message is published and none is acknowledged.
\<close>

theorem operate_needs_unique_match:
  assumes "operate E q fp action target rh stamp ms whole h = (r, h @ t)"
    and "length (matches_in E q fp (got t)) \<noteq> 1"
  shows "(\<exists>e. r = Inl e) \<and> (\<forall>e \<in> set t. \<not> is_ack e \<and> \<not> is_publish e)"
proof -
  have "operate_outcome E q fp action target rh stamp (got t) r t"
    using doesD'[OF operate_outcomes assms(1)] .
  with assms(2) show ?thesis
    by (auto simp: operate_outcome_def mutates_def list_all_iff split: list.splits)
qed

definition twice_b :: queue_state where
  "twice_b = \<lparr>q_ready = [sample_message 1 ''b'', sample_message 2 ''b''], q_unacked = []\<rparr>"

definition ambiguous_run :: "(exn + op_result) \<times> hist" where
  "ambiguous_run = operate (sample_env to_position ''dlq'' twice_b) ''dlq'' ''b'' ''move'' move_target [] True 10 False []"

theorem operate_needs_unique_match_witness:
  "\<exists>e. fst ambiguous_run = Inl e"
proof -
  have run: "operate (sample_env to_position ''dlq'' twice_b) ''dlq'' ''b'' ''move'' move_target [] True 10 False [] =
      (fst ambiguous_run, [] @ snd ambiguous_run)"
    by (simp add: ambiguous_run_def)
  have "length (matches_in (sample_env to_position ''dlq'' twice_b) ''dlq'' ''b'' (got (snd ambiguous_run))) \<noteq> 1"
    by code_simp
  from operate_needs_unique_match[OF run this] show ?thesis by blast
qed

text \<open>
  C5. An action that reports success did what it says: there is exactly one message with the
  fingerprint among those read, it was acknowledged (or, for a copy, returned), and for copy, move
  and park its copy was published to the target.
\<close>

theorem operate_success_means_done:
  assumes "operate E q fp action target rh stamp ms whole h = (Inr res, h @ t)"
  shows "\<exists>m. matches_in E q fp (got t) = [m] \<and> carried_out E q fp action target rh stamp m res t"
proof -
  have "operate_outcome E q fp action target rh stamp (got t) (Inr res) t"
    using doesD'[OF operate_outcomes assms] .
  then show ?thesis by (auto simp: operate_outcome_def split: list.splits)
qed

theorem operate_success_means_done_witness:
  "\<exists>m res. matches_in classic_env ''dlq'' ''b'' (got move_trace) = [m] \<and>
     carried_out classic_env ''dlq'' ''b'' ''move'' move_target [] True m res move_trace"
proof -
  have "\<not> isl (fst (operate classic_env ''dlq'' ''b'' ''move'' move_target [] True 10 False []))"
    by code_simp
  then obtain res where "fst (operate classic_env ''dlq'' ''b'' ''move'' move_target [] True 10 False []) = Inr res"
    by (cases "fst (operate classic_env ''dlq'' ''b'' ''move'' move_target [] True 10 False [])") auto
  then have run: "operate classic_env ''dlq'' ''b'' ''move'' move_target [] True 10 False [] = (Inr res, [] @ move_trace)"
    by (simp add: move_trace_def prod_eq_iff)
  from operate_success_means_done[OF run] show ?thesis by blast
qed

text \<open>
  A copy on a quorum queue does reorder it: the copied message is returned before the others, so
  of a, b, c the copy of b leaves b, a, c.
\<close>

theorem copy_reorders_quorum_queue:
  "map d_body (q_ready (queue_after to_back ''dlq'' three_messages
     (snd (operate quorum_env ''dlq'' ''b'' ''copy'' move_target [] True 10 True [])))) =
   [''b'', ''a'', ''c'']"
  by code_simp

end
