(* ===== verification/Bulk_Operation.thy ===== *)
theory Bulk_Operation
  imports Sample_World
begin

text \<open>
  A batch, \<open>operate_bulk\<close>: every acknowledgement is justified by its own message, the report is
  truthful, and the queue holds what was not acknowledged.
\<close>


section \<open>Acknowledgements of a trace\<close>

definition acks_justified :: "(event list \<Rightarrow> nat \<Rightarrow> bool) \<Rightarrow> event list \<Rightarrow> bool" where
  "acks_justified J t \<longleftrightarrow> (\<forall>before x a after. t = before @ EvAck x a # after \<longrightarrow> J before x)"

lemma acks_justified_none: "list_all (\<lambda>e. \<not> is_ack e) t \<Longrightarrow> acks_justified J t"
  by (auto simp: acks_justified_def)

lemma acks_justified_one: "J [] x \<Longrightarrow> acks_justified J [EvAck x a]"
  by (auto simp: acks_justified_def Cons_eq_append_conv)

lemma acks_justified_append:
  assumes "acks_justified J t" "acks_justified K u" "\<And>b x. K b x \<Longrightarrow> J (t @ b) x"
  shows "acks_justified J (t @ u)"
  unfolding acks_justified_def
proof (intro allI impI)
  fix before x a after
  assume eq: "t @ u = before @ EvAck x a # after"
  then consider (left) v where "t = before @ EvAck x a # v" | (right) b where "before = t @ b" "u = b @ EvAck x a # after"
    by (auto simp: append_eq_append_conv2 append_eq_Cons_conv)
  then show "J before x"
    using assms by cases (auto simp: acks_justified_def)
qed

lemma acks_justified_mono: "acks_justified J t \<Longrightarrow> (\<And>b x. J b x \<Longrightarrow> K b x) \<Longrightarrow> acks_justified K t"
  by (auto simp: acks_justified_def)

fun settled_tag :: "event \<Rightarrow> nat option" where
  "settled_tag (EvAck x _) = Some x"
| "settled_tag (EvNack x _) = Some x"
| "settled_tag _ = None"

fun is_close :: "event \<Rightarrow> bool" where
  "is_close (EvClose _) = True"
| "is_close _ = False"

lemma settled_tag_quiet: "quiet e \<Longrightarrow> settled_tag e = None"
  by (cases e) auto

lemma is_close_quiet: "quiet e \<Longrightarrow> \<not> is_close e"
  by (cases e) auto

text \<open>The messages a batch is about: the unique matches of its fingerprints.\<close>

definition unique_match :: "env \<Rightarrow> string \<Rightarrow> string \<Rightarrow> delivery list \<Rightarrow> delivery \<Rightarrow> bool" where
  "unique_match E q fp scanned m \<longleftrightarrow> matches_in E q fp scanned = [m]"

lemma unique_match_in: "unique_match E q fp scanned m \<Longrightarrow> m \<in> set scanned"
  by (auto simp: unique_match_def matches_in_def dest: filter_eq_ConsD)

lemma unique_match_fp:
  "unique_match E q fp scanned m \<Longrightarrow> mr_fingerprint (to_record (e_lib E) q False m) = fp"
  by (auto simp: unique_match_def matches_in_def dest: filter_eq_ConsD)

lemma unique_match_tags:
  assumes "distinct (map d_tag scanned)" "unique_match E q fp scanned m" "unique_match E q fp' scanned m'"
    and "d_tag m = d_tag m'"
  shows "fp = fp'"
  using assms unique_match_in unique_match_fp by (metis distinct_map inj_onD)

definition bulk_copy :: "env \<Rightarrow> string \<Rightarrow> string \<Rightarrow> pyval dict \<Rightarrow> delivery \<Rightarrow> exn + outgoing" where
  "bulk_copy E q action rh m =
     (let r = to_record (e_lib E) q False m
      in outgoing_of r (dict_set ''x-queuelens-original-fingerprint'' (PStr (mr_fingerprint r)) rh)
           (action \<noteq> ''park''))"

definition bulk_ack ::
  "env \<Rightarrow> string \<Rightarrow> string \<Rightarrow> replay_target option \<Rightarrow> pyval dict \<Rightarrow> delivery list \<Rightarrow> string set \<Rightarrow>
     event list \<Rightarrow> nat \<Rightarrow> bool"
where
  "bulk_ack E q action target rh scanned fps before x \<longleftrightarrow>
     action \<noteq> ''copy'' \<and>
     (\<exists>fp \<in> fps. \<exists>m. unique_match E q fp scanned m \<and> d_tag m = x \<and>
        (action \<in> PUBLISHING \<longrightarrow>
          (\<exists>tgt. target = Some tgt \<and> published tgt (bulk_copy E q action rh m) before)))"

lemma bulk_ack_prepend:
  "bulk_ack E q action target rh scanned fps b x \<Longrightarrow> fps \<subseteq> gps \<Longrightarrow>
     bulk_ack E q action target rh scanned gps (u @ b) x"
  by (force simp: bulk_ack_def intro: published_append)


section \<open>One message of the batch\<close>

definition attempt_facts ::
  "env \<Rightarrow> string \<Rightarrow> string \<Rightarrow> replay_target option \<Rightarrow> pyval dict \<Rightarrow> delivery \<Rightarrow> bool \<Rightarrow> exn + unit \<Rightarrow>
     event list \<Rightarrow> bool"
where
  "attempt_facts E q action target rh m pub s t \<longleftrightarrow>
     (\<exists>u v. t = u @ v \<and> list_all (\<lambda>e. quiet e \<and> \<not> is_read e) u \<and>
        (v = [] \<and> s \<noteq> Inr () \<and> \<not> pub \<or>
         pub = (action \<in> PUBLISHING) \<and>
         (action \<in> PUBLISHING \<longrightarrow>
            (\<exists>tgt. target = Some tgt \<and> published tgt (bulk_copy E q action rh m) u)) \<and>
         v = [(if action = ''copy'' then EvNack else EvAck) (d_tag m)
                (case s of Inl e \<Rightarrow> Some e | Inr _ \<Rightarrow> None)]))"

lemma attempt_factsI:
  assumes "list_all (\<lambda>e. quiet e \<and> \<not> is_read e) u"
    and "action \<in> PUBLISHING \<Longrightarrow> \<exists>tgt. target = Some tgt \<and> published tgt (bulk_copy E q action rh m) u"
    and "v = [(if action = ''copy'' then EvNack else EvAck) (d_tag m)
                (case s of Inl e \<Rightarrow> Some e | Inr _ \<Rightarrow> None)]"
    and "pub \<longleftrightarrow> action \<in> PUBLISHING"
  shows "attempt_facts E q action target rh m pub s (u @ v)"
  using assms unfolding attempt_facts_def by blast

lemma attempt_facts_unpublished:
  "list_all (\<lambda>e. quiet e \<and> \<not> is_read e) u \<Longrightarrow> attempt_facts E q action target rh m False (Inl e) u"
  unfolding attempt_facts_def by (intro exI[of _ u] exI[of _ "[]"]) simp

lemma attempt_does:
  "does (attempt E action target rh m (to_record (e_lib E) q False m)) h
     (\<lambda>r t. case r of Inl e \<Rightarrow> False | Inr (pub, s) \<Rightarrow> attempt_facts E q action target rh m pub s t)"
proof -
  let ?r = "to_record (e_lib E) q False m"
  let ?pub = "if action \<in> PUBLISHING then
              (case target of
                 None \<Rightarrow> raise (value_error ''A publish target is required'')
               | Some tgt \<Rightarrow> publish_record E ?r tgt
                   (dict_set ''x-queuelens-original-fingerprint'' (PStr (mr_fingerprint ?r)) rh)
                   (action \<noteq> ''park''))
            else ret ()"
  let ?P = "\<lambda>r u. list_all (\<lambda>e. quiet e \<and> \<not> is_read e) u \<and> (r = Inr () \<longrightarrow> action \<in> PUBLISHING \<longrightarrow>
            (\<exists>tgt. target = Some tgt \<and> published tgt (bulk_copy E q action rh m) u))"
  have "does ?pub h ?P"
  proof (rule does_conj)
    show "does ?pub h (\<lambda>r u. list_all (\<lambda>e. quiet e \<and> \<not> is_read e) u)"
      by (rule does_emits) (intro emits_intros emits_publish_record)
    show "does ?pub h (\<lambda>r u. r = Inr () \<longrightarrow> action \<in> PUBLISHING \<longrightarrow>
            (\<exists>tgt. target = Some tgt \<and> published tgt (bulk_copy E q action rh m) u))"
      by (auto simp: bulk_copy_def Let_def intro!: does_raise does_ret does_mono[OF publish_record_does]
          split: option.splits)
  qed
  then have "does (outcome ?pub) h (\<lambda>r u. \<exists>p. r = Inr p \<and> ?P p u)"
    by (auto intro!: does_outcome)
  then show ?thesis
    unfolding attempt_def
  proof (rule does_bnd)
    fix p :: "exn + unit" and u
    assume "\<exists>p'. (Inr p :: exn + (exn + unit)) = Inr p' \<and> ?P p' u"
    then have P: "?P p u" by simp
    show "does (case p of Inl e \<Rightarrow> ret (False, Inl e)
        | Inr x \<Rightarrow> bnd (outcome (if action = ''copy'' then nack E m else ack E m))
            (\<lambda>s. ret (action \<in> PUBLISHING, s))) (h @ u)
        (\<lambda>r v. case r of Inl e \<Rightarrow> False
           | Inr (pub, s) \<Rightarrow> attempt_facts E q action target rh m pub s (u @ v))"
    proof (cases p)
      case (Inl e)
      then show ?thesis using P by (auto intro!: does_ret attempt_facts_unpublished)
    next
      case (Inr x)
      have "does (outcome (if action = ''copy'' then nack E m else ack E m)) (h @ u)
         (\<lambda>r v. \<exists>s. r = Inr s \<and> v = [(if action = ''copy'' then EvNack else EvAck) (d_tag m)
                (case s of Inl e \<Rightarrow> Some e | Inr _ \<Rightarrow> None)])"
        by (auto simp: ack_def nack_def intro!: does_outcome does_perform split: option.splits)
      then show ?thesis
        unfolding Inr sum.case
        by (rule does_bnd) (use P Inr in \<open>auto intro!: does_ret attempt_factsI\<close>)
    qed
  qed auto
qed


section \<open>The loop over the fingerprints\<close>

text \<open>What the report says of one fingerprint is true of the trace.\<close>

definition result_true ::
  "env \<Rightarrow> string \<Rightarrow> string \<Rightarrow> replay_target option \<Rightarrow> pyval dict \<Rightarrow> delivery list \<Rightarrow> event list \<Rightarrow>
     string \<Rightarrow> bulk_result \<Rightarrow> bool"
where
  "result_true E q action target rh scanned t fp res \<longleftrightarrow>
     bk_fingerprint res = fp \<and>
     (if bk_status res = ''success'' then
        (\<exists>m. unique_match E q fp scanned m \<and>
           (action \<noteq> ''copy'' \<longrightarrow> EvAck (d_tag m) None \<in> set t) \<and>
           (action \<in> PUBLISHING \<longrightarrow>
              (\<exists>tgt. target = Some tgt \<and> published tgt (bulk_copy E q action rh m) t)))
      else (\<forall>m. unique_match E q fp scanned m \<longrightarrow> EvAck (d_tag m) None \<notin> set t))"

definition settles_only :: "env \<Rightarrow> string \<Rightarrow> delivery list \<Rightarrow> string set \<Rightarrow> event list \<Rightarrow> bool" where
  "settles_only E q scanned fps t \<longleftrightarrow>
     (\<forall>e \<in> set t. \<not> is_read e \<and> \<not> is_close e \<and>
        (\<forall>x. settled_tag e = Some x \<longrightarrow> (\<exists>fp \<in> fps. \<exists>m. unique_match E q fp scanned m \<and> d_tag m = x)))"

definition fresh_ack ::
  "env \<Rightarrow> string \<Rightarrow> string \<Rightarrow> replay_target option \<Rightarrow> pyval dict \<Rightarrow> delivery list \<Rightarrow> string set \<Rightarrow>
     event list \<Rightarrow> nat \<Rightarrow> bool"
where
  "fresh_ack E q action target rh scanned fps before x \<longleftrightarrow>
     bulk_ack E q action target rh scanned fps before x \<and>
     (\<forall>e \<in> set before. settled_tag e \<noteq> Some x \<and> \<not> is_close e)"

definition step_ok where
  "step_ok E q action target rh scanned fps t \<longleftrightarrow>
     acks_justified (fresh_ack E q action target rh scanned fps) t \<and> settles_only E q scanned fps t"

lemma settles_only_append:
  "settles_only E q scanned A t \<Longrightarrow> settles_only E q scanned B u \<Longrightarrow> settles_only E q scanned (A \<union> B) (t @ u)"
  unfolding settles_only_def by (simp add: ball_Un) blast

lemma step_ok_append:
  assumes "distinct (map d_tag scanned)" "A \<inter> B = {}"
    and "step_ok E q action target rh scanned A t" "step_ok E q action target rh scanned B u"
  shows "step_ok E q action target rh scanned (A \<union> B) (t @ u)"
  unfolding step_ok_def
proof (intro conjI acks_justified_append)
  show "acks_justified (fresh_ack E q action target rh scanned (A \<union> B)) t"
    by (rule acks_justified_mono[OF conjunct1[OF assms(3)[unfolded step_ok_def]]])
       (force simp: fresh_ack_def bulk_ack_def)
  show "acks_justified (fresh_ack E q action target rh scanned B) u"
    using assms(4) by (simp add: step_ok_def)
  show "settles_only E q scanned (A \<union> B) (t @ u)"
    using assms(3,4) by (simp add: step_ok_def settles_only_append)
  fix b x assume fresh: "fresh_ack E q action target rh scanned B b x"
  then obtain fp m where m: "fp \<in> B" "unique_match E q fp scanned m" "d_tag m = x"
    by (auto simp: fresh_ack_def bulk_ack_def)
  have "settled_tag e \<noteq> Some x" if e: "e \<in> set t" for e
  proof
    assume "settled_tag e = Some x"
    then obtain gp m' where "gp \<in> A" "unique_match E q gp scanned m'" "d_tag m' = x"
      using assms(3) e unfolding step_ok_def settles_only_def by blast
    with unique_match_tags[OF assms(1) m(2)] m(3) have "fp = gp" by metis
    with \<open>gp \<in> A\<close> m(1) assms(2) show False by blast
  qed
  moreover have "\<not> is_close e" if "e \<in> set t" for e
    using assms(3) that by (auto simp: step_ok_def settles_only_def)
  ultimately show "fresh_ack E q action target rh scanned (A \<union> B) (t @ b) x"
    using fresh by (auto simp: fresh_ack_def intro: bulk_ack_prepend)
qed

definition loop_ok where
  "loop_ok E q action target rh scanned fps r t \<longleftrightarrow>
     step_ok E q action target rh scanned (set fps) t \<and>
     (\<forall>rs. r = Inr rs \<longrightarrow> list_all2 (result_true E q action target rh scanned t) fps rs)"

lemma no_ack_of_others:
  assumes "distinct (map d_tag scanned)" "settles_only E q scanned A t" "fp \<notin> A"
    and "unique_match E q fp scanned m"
  shows "EvAck (d_tag m) a \<notin> set t"
proof
  assume "EvAck (d_tag m) a \<in> set t"
  then obtain gp m' where "gp \<in> A" "unique_match E q gp scanned m'" "d_tag m' = d_tag m"
    using assms(2) by (force simp: settles_only_def)
  with unique_match_tags[OF assms(1,4)] assms(3) show False by metis
qed

lemma result_true_grow:
  assumes "result_true E q action target rh scanned t fp res" "set t \<subseteq> set u"
    and "\<And>m. unique_match E q fp scanned m \<Longrightarrow> EvAck (d_tag m) None \<in> set u \<Longrightarrow> EvAck (d_tag m) None \<in> set t"
  shows "result_true E q action target rh scanned u fp res"
proof (cases "bk_status res = ''success''")
  case True
  then obtain m where "unique_match E q fp scanned m"
      "action \<noteq> ''copy'' \<longrightarrow> EvAck (d_tag m) None \<in> set t"
      "action \<in> PUBLISHING \<longrightarrow> (\<exists>tgt. target = Some tgt \<and> published tgt (bulk_copy E q action rh m) t)"
    using assms(1) by (auto simp: result_true_def)
  then show ?thesis
    using assms(1,2) True
    by (auto simp: result_true_def intro!: exI[of _ m] intro: published_mono)
qed (use assms(1,3) in \<open>auto simp: result_true_def\<close>)

lemma result_true_extend_after:
  assumes "distinct (map d_tag scanned)" "settles_only E q scanned A u" "fp \<notin> A"
    and "result_true E q action target rh scanned t fp res"
  shows "result_true E q action target rh scanned (t @ u) fp res"
  by (rule result_true_grow[OF assms(4)]) (auto dest: no_ack_of_others[OF assms(1-3)])

lemma result_true_extend_before:
  assumes "distinct (map d_tag scanned)" "settles_only E q scanned A t" "fp \<notin> A"
    and "result_true E q action target rh scanned u fp res"
  shows "result_true E q action target rh scanned (t @ u) fp res"
  by (rule result_true_grow[OF assms(4)]) (auto dest: no_ack_of_others[OF assms(1-3)])

lemma loop_ok_Cons:
  assumes D: "distinct (map d_tag scanned)" "fp \<notin> set later"
    and t: "step_ok E q action target rh scanned {fp} t"
    and res: "result_true E q action target rh scanned t fp res"
    and u: "loop_ok E q action target rh scanned later r u"
    and r': "r' = (case r of Inl e \<Rightarrow> Inl e | Inr rs \<Rightarrow> Inr (res # rs))"
  shows "loop_ok E q action target rh scanned (fp # later) r' (t @ u)"
proof -
  have so: "settles_only E q scanned {fp} t" "settles_only E q scanned (set later) u"
    using t u by (simp_all add: step_ok_def loop_ok_def)
  have "step_ok E q action target rh scanned (set (fp # later)) (t @ u)"
    using step_ok_append[OF D(1) _ t, of "set later" u] u D(2) by (simp add: loop_ok_def)
  moreover have "list_all2 (result_true E q action target rh scanned (t @ u)) (fp # later) (res # rs)"
    if "r = Inr rs" for rs
  proof -
    have "list_all2 (result_true E q action target rh scanned u) later rs"
      using u that by (simp add: loop_ok_def)
    then have "list_all2 (result_true E q action target rh scanned (t @ u)) later rs"
      using D(2)
      by (auto simp: list_all2_conv_all_nth intro!: result_true_extend_before[OF D(1) so(1)])
    then show ?thesis using result_true_extend_after[OF D(1) so(2) D(2) res] by simp
  qed
  ultimately show ?thesis unfolding loop_ok_def r' by (auto split: sum.splits)
qed

lemma loop_ok_halt:
  assumes D: "distinct (map d_tag scanned)" "fp \<notin> set later"
    and t: "step_ok E q action target rh scanned {fp} t"
    and res: "result_true E q action target rh scanned t fp res"
  shows "loop_ok E q action target rh scanned (fp # later)
           (Inr (res # map (\<lambda>l. bulk_status l ''not_attempted'') later)) t"
proof -
  have so: "settles_only E q scanned {fp} t" using t by (simp add: step_ok_def)
  have e: "step_ok E q action target rh scanned (set later) []"
    by (simp add: step_ok_def settles_only_def acks_justified_def)
  have "step_ok E q action target rh scanned (set (fp # later)) t"
    using step_ok_append[OF D(1) _ t e] D(2) by simp
  moreover have "list_all2 (result_true E q action target rh scanned t) later
      (map (\<lambda>l. bulk_status l ''not_attempted'') later)"
    using D(2) no_ack_of_others[OF D(1) so]
    by (auto simp: list_all2_conv_all_nth result_true_def bulk_status_def) (metis nth_mem singletonD)
  ultimately show ?thesis using res by (auto simp: loop_ok_def)
qed

lemma loop_ok_raise:
  "distinct (map d_tag scanned) \<Longrightarrow> fp \<notin> set later \<Longrightarrow> step_ok E q action target rh scanned {fp} t \<Longrightarrow>
     loop_ok E q action target rh scanned (fp # later) (Inl e) t"
  using loop_ok_halt[of scanned fp later E q action target rh t]
    step_ok_append[of scanned "{fp}" "set later" E q action target rh t "[]"]
  by (simp add: loop_ok_def step_ok_def settles_only_def acks_justified_def)

text \<open>The trace of one attempt, and of a returned message.\<close>

lemma attempt_step_ok:
  assumes "unique_match E q fp scanned m" "attempt_facts E q action target rh m pub s t"
  shows "step_ok E q action target rh scanned {fp} t"
proof -
  obtain u v where t: "t = u @ v" and u: "list_all (\<lambda>e. quiet e \<and> \<not> is_read e) u"
    and v: "v = [] \<or> (action \<in> PUBLISHING \<longrightarrow>
            (\<exists>tgt. target = Some tgt \<and> published tgt (bulk_copy E q action rh m) u)) \<and>
         v = [(if action = ''copy'' then EvNack else EvAck) (d_tag m)
                (case s of Inl e \<Rightarrow> Some e | Inr _ \<Rightarrow> None)]"
    using assms(2) by (auto simp: attempt_facts_def)
  have uq: "settled_tag e = None \<and> \<not> is_read e \<and> \<not> is_close e \<and> \<not> is_ack e" if "e \<in> set u" for e
    using u that by (auto simp: list_all_iff settled_tag_quiet is_close_quiet quiet_ack)
  have "settles_only E q scanned {fp} u"
    using uq by (auto simp: settles_only_def)
  moreover have "settles_only E q scanned {fp} v"
    using v assms(1) by (cases "action = ''copy''") (auto simp: settles_only_def)
  ultimately have "settles_only E q scanned {fp} t"
    using settles_only_append[of E q scanned "{fp}" u "{fp}" v] t by simp
  moreover have "acks_justified (fresh_ack E q action target rh scanned {fp}) t"
    unfolding t
  proof (rule acks_justified_append)
    show "acks_justified (fresh_ack E q action target rh scanned {fp}) u"
      using uq by (auto intro!: acks_justified_none simp: list_all_iff)
    show "acks_justified (\<lambda>b x. b = [] \<and> v = [EvAck x (case s of Inl e \<Rightarrow> Some e | Inr _ \<Rightarrow> None)]) v"
      using v by (cases "action = ''copy''") (auto simp: acks_justified_def append_eq_Cons_conv)
    show "fresh_ack E q action target rh scanned {fp} (u @ b) x"
      if "b = [] \<and> v = [EvAck x (case s of Inl e \<Rightarrow> Some e | Inr _ \<Rightarrow> None)]" for b x
      using that v assms(1) uq by (auto simp: fresh_ack_def bulk_ack_def split: if_splits)
  qed
  ultimately show ?thesis by (simp add: step_ok_def)
qed


lemma attempt_result:
  assumes "unique_match E q fp scanned m" "attempt_facts E q action target rh m pub s t"
  shows "s = Inr () \<Longrightarrow> result_true E q action target rh scanned t fp (bulk_status fp ''success'')"
    and "s = Inl e \<Longrightarrow> result_true E q action target rh scanned t fp (bulk_failed fp err)"
    and "s = Inl e \<Longrightarrow> result_true E q action target rh scanned t fp (halted fp e pub action)"
proof -
  obtain u v where t: "t = u @ v" and u: "list_all (\<lambda>e. quiet e \<and> \<not> is_read e) u"
    and v: "v = [] \<and> s \<noteq> Inr () \<and> \<not> pub \<or>
         pub = (action \<in> PUBLISHING) \<and>
         (action \<in> PUBLISHING \<longrightarrow>
            (\<exists>tgt. target = Some tgt \<and> published tgt (bulk_copy E q action rh m) u)) \<and>
         v = [(if action = ''copy'' then EvNack else EvAck) (d_tag m)
                (case s of Inl e \<Rightarrow> Some e | Inr _ \<Rightarrow> None)]"
    using assms(2) unfolding attempt_facts_def by blast
  have uniq: "m' = m" if "unique_match E q fp scanned m'" for m'
    using that assms(1) by (simp add: unique_match_def)
  have noack: "EvAck x a \<notin> set u" for x a
    using u quiet_ack by (force simp: list_all_iff)
  show "result_true E q action target rh scanned t fp (bulk_status fp ''success'')" if "s = Inr ()"
    using v that assms(1) t
    by (cases "action = ''copy''")
       (auto simp: result_true_def bulk_status_def intro!: exI[of _ m] intro: published_extend)
  have failed: "EvAck (d_tag m) None \<notin> set t" if "s = Inl e"
    using v that noack t by (cases "action = ''copy''") auto
  then show "result_true E q action target rh scanned t fp (bulk_failed fp err)" if "s = Inl e"
    using that by (auto simp: result_true_def bulk_failed_def dest!: uniq)
  show "result_true E q action target rh scanned t fp (halted fp e pub action)" if "s = Inl e"
  proof (cases "pub \<and> action = ''copy''")
    case True
    then show ?thesis
      using v assms(1) t
      by (auto simp: halted_def result_true_def bulk_status_def intro!: exI[of _ m] intro: published_extend)
  next
    case False
    then show ?thesis
      using failed[OF that]
      by (auto simp: halted_def result_true_def bulk_failed_def dest!: uniq)
  qed
qed

lemma loop_ok_skip:
  assumes "distinct (map d_tag scanned)" "fp \<notin> set later"
    and "loop_ok E q action target rh scanned later r u"
    and "result_true E q action target rh scanned [] fp res"
  shows "loop_ok E q action target rh scanned (fp # later)
           (case r of Inl e \<Rightarrow> Inl e | Inr rs \<Rightarrow> Inr (res # rs)) u"
proof -
  have "step_ok E q action target rh scanned {fp} []"
    by (simp add: step_ok_def settles_only_def acks_justified_def)
  from loop_ok_Cons[OF assms(1,2) this assms(4,3) refl] show ?thesis by simp
qed

lemma does_then_cons:
  assumes "does m h \<Phi>"
    and "\<And>r t. \<Phi> r t \<Longrightarrow> \<Psi> (case r of Inl e \<Rightarrow> Inl e | Inr rs \<Rightarrow> Inr (x # rs)) t"
  shows "does (bnd m (\<lambda>rs. ret (x # rs))) h \<Psi>"
  by (rule does_bnd[OF assms(1)]) (use assms(2) in \<open>force intro: does_ret\<close>)+

lemma nack_does: "does (nack E m) h (\<lambda>r t. \<exists>a. t = [EvNack (d_tag m) a])"
  by (auto simp: nack_def intro: does_perform)

lemma step_ok_returned:
  assumes "unique_match E q fp scanned m" "step_ok E q action target rh scanned {fp} t"
  shows "step_ok E q action target rh scanned {fp} (t @ [EvNack (d_tag m) a])"
  unfolding step_ok_def
proof
  show "acks_justified (fresh_ack E q action target rh scanned {fp}) (t @ [EvNack (d_tag m) a])"
    by (rule acks_justified_append[where K = "\<lambda>_ _. False"])
       (use assms(2) in \<open>auto simp: step_ok_def intro!: acks_justified_none\<close>)
  have "settles_only E q scanned {fp} [EvNack (d_tag m) a]"
    using assms(1) by (auto simp: settles_only_def)
  then show "settles_only E q scanned {fp} (t @ [EvNack (d_tag m) a])"
    using settles_only_append[of E q scanned "{fp}" t "{fp}"] assms(2) by (simp add: step_ok_def)
qed

text \<open>What the loop does after one attempt.\<close>

lemma after_unroutable:
  assumes D: "distinct (map d_tag scanned)" "fp \<notin> set later"
    and IH: "\<And>h'. does L h' (loop_ok E q action target rh scanned later)"
    and m: "unique_match E q fp scanned m"
    and t: "step_ok E q action target rh scanned {fp} t"
    and res: "result_true E q action target rh scanned t fp res"
  shows "does (bnd (nack E m) (\<lambda>_. bnd L (\<lambda>rs. ret (res # rs)))) (h @ t)
           (\<lambda>r u. loop_ok E q action target rh scanned (fp # later) r (t @ u))"
proof (rule does_bnd[OF nack_does])
  note n = step_ok_returned[OF m t]
  show "loop_ok E q action target rh scanned (fp # later) (Inl x) (t @ u)"
    if "\<exists>a. u = [EvNack (d_tag m) a]" for x u
    using that n by (auto intro: loop_ok_raise[OF D])
  show "does (bnd L (\<lambda>rs. ret (res # rs))) ((h @ t) @ u)
      (\<lambda>r w. loop_ok E q action target rh scanned (fp # later) r (t @ u @ w))"
    if "\<exists>a. u = [EvNack (d_tag m) a]" for x :: unit and u
  proof -
    from that obtain a where u: "u = [EvNack (d_tag m) a]" by blast
    have "result_true E q action target rh scanned (t @ u) fp res"
      by (rule result_true_grow[OF res]) (auto simp: u)
    then have "does (bnd L (\<lambda>rs. ret (res # rs))) ((h @ t) @ u)
        (\<lambda>r w. loop_ok E q action target rh scanned (fp # later) r ((t @ u) @ w))"
      using n unfolding u by (intro does_then_cons[OF IH] loop_ok_Cons[OF D]) auto
    then show ?thesis by simp
  qed
qed

lemma after_attempt:
  assumes D: "distinct (map d_tag scanned)" "fp \<notin> set later"
    and IH: "\<And>h'. does L h' (loop_ok E q action target rh scanned later)"
    and m: "unique_match E q fp scanned m"
    and facts: "attempt_facts E q action target rh m pub s t"
  shows "does (case s of
            Inr _ \<Rightarrow> bnd L (\<lambda>rs. ret (bulk_status fp ''success'' # rs))
          | Inl e \<Rightarrow>
              if exn_class e = DeliveryErr then
                bnd (nack E m) (\<lambda>_. bnd L (\<lambda>rs.
                  ret (bulk_failed fp (error_text e ''message was unroutable'') # rs)))
              else ret (halted fp e pub action # map (\<lambda>l. bulk_status l ''not_attempted'') later)) (h @ t)
           (\<lambda>r u. loop_ok E q action target rh scanned (fp # later) r (t @ u))"
proof (cases s)
  case (Inr x)
  then show ?thesis
    using attempt_result(1)[OF m facts]
    by (simp, intro does_then_cons[OF IH] loop_ok_Cons[OF D attempt_step_ok[OF m facts]]) auto
next
  case (Inl e)
  then show ?thesis
    using after_unroutable[OF D IH m attempt_step_ok[OF m facts] attempt_result(2)[OF m facts Inl]]
      loop_ok_halt[OF D attempt_step_ok[OF m facts] attempt_result(3)[OF m facts Inl]]
    by (auto intro!: does_ret)
qed

lemma bulk_loop_does:
  assumes "distinct (map d_tag scanned)" "distinct fps"
  shows "does (bulk_loop E q action target rh scanned fps) h (loop_ok E q action target rh scanned fps)"
  using assms(2)
proof (induction fps arbitrary: h)
  case Nil
  show ?case
    by (auto intro!: does_ret simp: loop_ok_def step_ok_def settles_only_def acks_justified_def)
next
  case (Cons fp later)
  let ?L = "bulk_loop E q action target rh scanned later"
  have fp: "fp \<notin> set later" and IH: "does ?L h' (loop_ok E q action target rh scanned later)" for h'
    using Cons by auto
  have nobody: "does (bnd ?L (\<lambda>rs. ret (bulk_status fp s # rs))) h
      (loop_ok E q action target rh scanned (fp # later))"
    if "\<And>m. matches_in E q fp scanned \<noteq> [m]" "s \<noteq> ''success''" for s
    using that
    by (intro does_then_cons[OF IH] loop_ok_skip[OF assms(1) fp])
       (auto simp: result_true_def unique_match_def bulk_status_def)
  show ?case
  proof (cases "\<exists>m. matches_in E q fp scanned = [m]")
    case False
    then show ?thesis by (auto intro!: nobody split: list.split)
  next
    case True
    then obtain m where m: "unique_match E q fp scanned m" by (auto simp: unique_match_def)
    show ?thesis
      using m[unfolded unique_match_def]
      by (auto intro!: does_bnd[OF attempt_does] after_attempt[OF assms(1) fp IH m] split: prod.splits)
  qed
qed


section \<open>The whole batch\<close>

definition batch_ok where
  "batch_ok E q action target rh fps scanned r t \<longleftrightarrow>
     acks_justified (fresh_ack E q action target rh scanned fps) t \<and> list_all (\<lambda>e. \<not> is_read e) t \<and>
     (\<forall>rs. r = Inr rs \<longrightarrow>
        list_all2 (result_true E q action target rh scanned t) (sorted_list_of_set fps) rs)"

lemma loop_ok_batch:
  assumes "loop_ok E q action target rh scanned (sorted_list_of_set fps) r t"
  shows "batch_ok E q action target rh fps scanned r t"
proof -
  have "set (sorted_list_of_set fps) \<subseteq> fps"
    by (cases "finite fps") auto
  then have "fresh_ack E q action target rh scanned fps b x"
    if "fresh_ack E q action target rh scanned (set (sorted_list_of_set fps)) b x" for b x
    using that by (force simp: fresh_ack_def bulk_ack_def)
  with assms show ?thesis
    by (auto simp: batch_ok_def loop_ok_def step_ok_def settles_only_def list_all_iff
        intro: acks_justified_mono)
qed

text \<open>Quiet events before and returned messages after change nothing of this.\<close>

lemma batch_ok_surround:
  assumes ok: "batch_ok E q action target rh fps scanned r t"
    and u: "list_all (\<lambda>e. quiet e \<and> \<not> is_read e) u" and v: "list_all (\<lambda>e. \<not> is_ack e \<and> \<not> is_read e) v"
    and r': "\<And>rs. r' = Inr rs \<Longrightarrow> r = Inr rs"
  shows "batch_ok E q action target rh fps scanned r' (u @ t @ v)"
proof -
  let ?J = "fresh_ack E q action target rh scanned fps"
  have uq: "settled_tag e = None \<and> \<not> is_close e \<and> \<not> is_ack e" if "e \<in> set u" for e
    using u that by (auto simp: list_all_iff settled_tag_quiet is_close_quiet quiet_ack)
  have "acks_justified ?J (t @ v)"
    using ok v
    by (intro acks_justified_append[where K = "\<lambda>_ _. False"])
       (auto simp: batch_ok_def list_all_iff intro!: acks_justified_none)
  then have "acks_justified ?J (u @ t @ v)"
    using uq by (intro acks_justified_append[where K = ?J and t = u and u = "t @ v"])
       (auto simp: list_all_iff fresh_ack_def intro!: acks_justified_none intro: bulk_ack_prepend)
  moreover have "list_all2 (result_true E q action target rh scanned (u @ t @ v)) (sorted_list_of_set fps) rs"
    if "r' = Inr rs" for rs
  proof -
    have "list_all2 (result_true E q action target rh scanned t) (sorted_list_of_set fps) rs"
      using ok r'[OF that] by (simp add: batch_ok_def)
    then show ?thesis
    proof (rule list_all2_mono)
      fix fp res assume "result_true E q action target rh scanned t fp res"
      then show "result_true E q action target rh scanned (u @ t @ v) fp res"
        by (rule result_true_grow) (use uq v in \<open>force simp: list_all_iff\<close>)+
    qed
  qed
  ultimately show ?thesis
    using ok u v by (auto simp: batch_ok_def list_all_iff)
qed


lemma batch_ok_fail:
  "list_all (\<lambda>e. \<not> is_ack e \<and> \<not> is_read e) t \<Longrightarrow> batch_ok E q action target rh fps scanned (Inl e) t"
  by (auto simp: batch_ok_def list_all_iff intro!: acks_justified_none)

lemma quiet_no_read_no_ack:
  "list_all (\<lambda>e. quiet e \<and> \<not> is_read e) t \<Longrightarrow> list_all (\<lambda>e. \<not> is_ack e \<and> \<not> is_read e) t"
  by (auto simp: list_all_iff quiet_ack)

lemma emits_bulk_target:
  "emits (\<lambda>e. quiet e \<and> \<not> is_read e)
     (if action \<in> PUBLISHING then
        (case target of None \<Rightarrow> raise x | Some tgt \<Rightarrow> ensure_target E tgt create) else ret ())"
  by (intro emits_intros emits_mono[OF emits_ensure_target]) simp_all

lemma unprocessed_returned:
  "does (requeue_unprocessed E ms) h (\<lambda>r t. list_all (\<lambda>e. \<not> is_ack e \<and> \<not> is_read e) t)"
  by (rule does_mono[OF does_emits[OF emits_requeue_unprocessed]]) (auto simp: list_all_iff)

lemma bulk_body_rest:
  assumes D: "distinct (map d_tag scanned)"
  shows "does (catch
         (bnd (lift fetched) (\<lambda>_.
          bnd (if action \<in> PUBLISHING then
                 (case target of
                    None \<Rightarrow> raise (value_error ''A publish target is required'')
                  | Some tgt \<Rightarrow> ensure_target E tgt (action = ''park''))
               else ret ()) (\<lambda>_.
          bnd (bulk_loop E q action target rh scanned (sorted_list_of_set fps)) (\<lambda>results.
          bnd (requeue_unprocessed E scanned) (\<lambda>_. ret results)))))
         (\<lambda>e. bnd (requeue_unprocessed E scanned) (\<lambda>_. raise e))) h
     (batch_ok E q action target rh fps scanned)"
proof -
  let ?ok = "batch_ok E q action target rh fps scanned"
  have after_loop: "does (bnd (requeue_unprocessed E scanned) (\<lambda>_. ret rs)) h'
      (\<lambda>r v. ?ok r (u @ t @ v))"
    if "?ok (Inr rs) t" "list_all (\<lambda>e. quiet e \<and> \<not> is_read e) u" for rs t u h'
    by (rule does_bnd[OF unprocessed_returned])
       (auto intro!: does_ret batch_ok_surround[OF that])
  have loop: "does (bnd (bulk_loop E q action target rh scanned (sorted_list_of_set fps)) (\<lambda>results.
          bnd (requeue_unprocessed E scanned) (\<lambda>_. ret results))) h' (\<lambda>r t. ?ok r (u @ t))"
    if u: "list_all (\<lambda>e. quiet e \<and> \<not> is_read e) u" for u h'
  proof (rule does_bnd[OF does_mono[OF bulk_loop_does[OF D distinct_sorted_list_of_set] loop_ok_batch]])
    show "?ok (Inl e) (u @ t)" if "?ok (Inl e) t" for e :: exn and t
      using batch_ok_surround[OF that u, of "[]" "Inl e"] by simp
    show "does (bnd (requeue_unprocessed E scanned) (\<lambda>_. ret rs)) (h' @ t) (\<lambda>r v. ?ok r (u @ t @ v))"
      if "?ok (Inr rs) t" for rs t
      using after_loop[OF that u] .
  qed
  show ?thesis
  proof (rule does_catch[where \<Theta> = ?ok])
    show "does (bnd (lift fetched) (\<lambda>_. bnd (if action \<in> PUBLISHING then
                 (case target of
                    None \<Rightarrow> raise (value_error ''A publish target is required'')
                  | Some tgt \<Rightarrow> ensure_target E tgt (action = ''park''))
               else ret ()) (\<lambda>_.
          bnd (bulk_loop E q action target rh scanned (sorted_list_of_set fps)) (\<lambda>results.
          bnd (requeue_unprocessed E scanned) (\<lambda>_. ret results))))) h ?ok"
    proof (rule does_bnd[OF does_lift[where \<Phi> = "\<lambda>_ t. t = []"]])
      fix x t assume "t = ([] :: event list)"
      then show "does (bnd (if action \<in> PUBLISHING then
                 (case target of
                    None \<Rightarrow> raise (value_error ''A publish target is required'')
                  | Some tgt \<Rightarrow> ensure_target E tgt (action = ''park''))
               else ret ()) (\<lambda>_.
          bnd (bulk_loop E q action target rh scanned (sorted_list_of_set fps)) (\<lambda>results.
          bnd (requeue_unprocessed E scanned) (\<lambda>_. ret results)))) (h @ t) (\<lambda>r u. ?ok r (t @ u))"
        by (intro does_bnd[OF does_emits[OF emits_bulk_target]])
           (auto intro: loop batch_ok_fail quiet_no_read_no_ack)
    qed (simp_all add: batch_ok_fail)
    show "does (bnd (requeue_unprocessed E scanned) (\<lambda>_. raise e)) (h @ t) (\<lambda>r v. ?ok r (t @ v))"
      if "?ok (Inl e) t" for e t
      by (rule does_bnd[OF unprocessed_returned])
         (auto intro!: does_raise batch_ok_surround[OF that, of "[]", simplified])
  qed
qed

lemma emits_bulk_loop: "emits (\<lambda>_. True) (bulk_loop E q action target rh scanned fps)"
  by (induction fps)
     (auto simp: attempt_def intro!: emits_intros emits_mono[OF emits_publish_record] split: list.split)

lemma emits_bulk_rest:
  "emits (\<lambda>_. True) (catch
         (bnd (lift fetched) (\<lambda>_.
          bnd (if action \<in> PUBLISHING then
                 (case target of
                    None \<Rightarrow> raise x
                  | Some tgt \<Rightarrow> ensure_target E tgt create)
               else ret ()) (\<lambda>_.
          bnd (bulk_loop E q action target rh scanned fps) (\<lambda>results.
          bnd (requeue_unprocessed E scanned) (\<lambda>_. ret results)))))
         (\<lambda>e. bnd (requeue_unprocessed E scanned) (\<lambda>_. raise e)))"
  by (intro emits_intros emits_bulk_loop emits_mono[OF emits_requeue_unprocessed]
      emits_mono[OF emits_ensure_target]) simp_all

text \<open>The batch reads first, then acts; while it reads nothing is settled.\<close>

definition batch_run where
  "batch_run E q action target rh fps r t \<longleftrightarrow>
     (\<exists>pre w. t = pre @ w \<and> list_all quiet pre \<and>
        (distinct (map d_tag (got pre)) \<longrightarrow> batch_ok E q action target rh fps (got pre) r w))"

lemma batch_runI:
  "list_all quiet pre \<Longrightarrow>
   (distinct (map d_tag (got pre)) \<Longrightarrow> batch_ok E q action target rh fps (got pre) r w) \<Longrightarrow>
   batch_run E q action target rh fps r (pre @ w)"
  by (auto simp: batch_run_def)

lemma batch_run_fail: "list_all quiet t \<Longrightarrow> batch_run E q action target rh fps (Inl e) t"
  using batch_runI[of t E q action target rh fps "Inl e" "[]"]
  by (simp add: batch_ok_fail)

lemma batch_run_surround:
  assumes "batch_run E q action target rh fps r t" "list_all (\<lambda>e. quiet e \<and> \<not> is_read e) u"
    and "list_all (\<lambda>e. \<not> is_ack e \<and> \<not> is_read e) v" and "\<And>rs. r' = Inr rs \<Longrightarrow> r = Inr rs"
  shows "batch_run E q action target rh fps r' (u @ t @ v)"
proof -
  obtain pre w where t: "t = pre @ w" "list_all quiet pre"
    "distinct (map d_tag (got pre)) \<longrightarrow> batch_ok E q action target rh fps (got pre) r w"
    using assms(1) by (auto simp: batch_run_def)
  have "got u = []"
    by (rule got_no_read) (use assms(2) in \<open>auto simp: list_all_iff\<close>)
  then have g: "got (u @ pre) = got pre" by simp
  have qu: "list_all quiet (u @ pre)"
    using assms(2) t(2) by (auto simp: list_all_iff)
  have "batch_run E q action target rh fps r' ((u @ pre) @ w @ v)"
    using batch_ok_surround[of E q action target rh fps "got pre" r w "[]" v r'] t(3) assms(3,4)
    by (intro batch_runI[OF qu]) (simp only: g append_Nil list.pred_inject simp_thms)
  then show ?thesis using t(1) by simp
qed

lemma bulk_body_does:
  "does (bulk_body E q fps action target rh ms whole) h (batch_run E q action target rh fps)"
  unfolding bulk_body_def
proof (rule does_bnd[where \<Theta> = "\<lambda>r t. \<exists>d. t = [EvDeclare q True d]"])
  show "does (declare_queue E q True) h (\<lambda>r t. \<exists>d. t = [EvDeclare q True d])"
    by (auto simp: declare_queue_def intro: does_ask)
  show "batch_run E q action target rh fps (Inl e) t" if "\<exists>d. t = [EvDeclare q True d]" for e t
    using that by (auto intro: batch_run_fail)
next
  fix declared t
  assume t: "\<exists>d. t = [EvDeclare q True d]"
  show "does (bnd (fetch E q declared ms whole None) (\<lambda>(fetched, scanned). catch
         (bnd (lift fetched) (\<lambda>_.
          bnd (if action \<in> PUBLISHING then
                 (case target of
                    None \<Rightarrow> raise (value_error ''A publish target is required'')
                  | Some tgt \<Rightarrow> ensure_target E tgt (action = ''park''))
               else ret ()) (\<lambda>_.
          bnd (bulk_loop E q action target rh scanned (sorted_list_of_set fps)) (\<lambda>results.
          bnd (requeue_unprocessed E scanned) (\<lambda>_. ret results)))))
         (\<lambda>e. bnd (requeue_unprocessed E scanned) (\<lambda>_. raise e)))) (h @ t)
       (\<lambda>r u. batch_run E q action target rh fps r (t @ u))"
  proof (rule does_bnd[OF fetch_does], goal_cases)
    case (1 e u)
    then show ?case by simp
  next
    case (2 x u)
    then obtain res where x: "x = (res, got u)" and u: "list_all (is_get q) u" by auto
    have qu: "list_all quiet (t @ u)"
      using t u by (auto intro: list_all_imp is_get_quiet)
    have g: "got (t @ u) = got u" using t by auto
    show ?case
    proof (cases "distinct (map d_tag (got u))")
      case True
      show ?thesis
        unfolding x prod.case
        by (rule does_mono[OF bulk_body_rest[OF True]]) (use batch_runI[OF qu] g in \<open>auto simp flip: append_assoc\<close>)
    next
      case False
      show ?thesis
        unfolding x prod.case
        by (rule does_mono[OF does_emits[OF emits_bulk_rest]])
           (use False batch_runI[OF qu] g in \<open>auto simp flip: append_assoc\<close>)
    qed
  qed
qed

lemma operate_bulk_does:
  "does (operate_bulk E q fps action target rh ms whole) h (batch_run E q action target rh fps)"
proof (cases "action \<in> {''copy'', ''move'', ''park'', ''delete''}")
  case False
  then show ?thesis by (auto simp: operate_bulk_def intro!: does_raise batch_run_fail)
next
  case True
  have "does (within_queue E q (bulk_body E q fps action target rh ms whole)) h (batch_run E q action target rh fps)"
  proof (rule does_within_queue[OF bulk_body_does])
    fix r :: "exn + bulk_result list" and t and c :: "exn option"
    assume "batch_run E q action target rh fps r t"
    then show "batch_run E q action target rh fps (case c of None \<Rightarrow> r | Some e \<Rightarrow> Inl e)
        ([EvLock (lock_names E q) None, EvOpen None] @ t @ [EvClose c, EvUnlock (lock_names E q)])"
      by (rule batch_run_surround) (auto split: option.splits)
  qed (auto intro: batch_run_fail)
  with True show ?thesis by (simp add: operate_bulk_def)
qed

text \<open>In terms of the trace alone.\<close>

lemma batch_run_facts:
  assumes "batch_run E q action target rh fps r t" and "distinct (map d_tag (got t))"
  shows "acks_justified (\<lambda>b x. fresh_ack E q action target rh (got b) fps b x) t"
    and "\<And>rs. r = Inr rs \<Longrightarrow>
           list_all2 (result_true E q action target rh (got t) t) (sorted_list_of_set fps) rs"
proof -
  obtain pre w where t: "t = pre @ w" "list_all quiet pre"
    "distinct (map d_tag (got pre)) \<longrightarrow> batch_ok E q action target rh fps (got pre) r w"
    using assms(1) by (auto simp: batch_run_def)
  then have ok: "batch_ok E q action target rh fps (got pre) r w"
    using assms(2) by simp
  then have g: "got t = got pre"
    using t(1) by (simp add: batch_ok_def got_no_read)
  have pq: "settled_tag e = None \<and> \<not> is_close e \<and> \<not> is_ack e" if "e \<in> set pre" for e
    using t(2) that by (auto simp: list_all_iff settled_tag_quiet is_close_quiet quiet_ack)
  show "acks_justified (\<lambda>b x. fresh_ack E q action target rh (got b) fps b x) t"
    unfolding acks_justified_def
  proof (intro allI impI)
    fix b x a c assume eq: "t = b @ EvAck x a # c"
    have "EvAck x a \<notin> set pre" using pq[of "EvAck x a"] by auto
    then obtain b' where b: "b = pre @ b'" "w = b' @ EvAck x a # c"
      using eq t(1) by (auto simp: append_eq_append_conv2 append_eq_Cons_conv)
    have fresh: "fresh_ack E q action target rh (got pre) fps b' x"
      using ok b(2) by (auto simp: batch_ok_def acks_justified_def)
    have "got b' = []" using ok b(2) by (auto simp: batch_ok_def intro: got_no_read)
    with fresh b(1) pq show "fresh_ack E q action target rh (got b) fps b x"
      by (auto simp: fresh_ack_def intro: bulk_ack_prepend)
  qed
  show "list_all2 (result_true E q action target rh (got t) t) (sorted_list_of_set fps) rs" if "r = Inr rs" for rs
  proof -
    have "list_all2 (result_true E q action target rh (got pre) w) (sorted_list_of_set fps) rs"
      using ok that by (simp add: batch_ok_def)
    then show ?thesis
      unfolding g
    proof (rule list_all2_mono)
      fix fp res assume "result_true E q action target rh (got pre) w fp res"
      then show "result_true E q action target rh (got pre) t fp res"
        by (rule result_true_grow) (use t(1) pq in force)+
    qed
  qed
qed


section \<open>What a batch leaves in the queue\<close>

lemma reads_only_bulk: "emits (reads_only q) (operate_bulk E q fps action target rh ms whole)"
proof -
  have loop: "emits (reads_only q) (bulk_loop E q action target rh scanned l)" for scanned l
    by (induction l)
       (auto simp: attempt_def intro!: emits_intros emits_mono[OF emits_publish_record]
         intro: not_read_reads_only split: list.split)
  show ?thesis
    unfolding operate_bulk_def bulk_body_def
    by (intro emits_within_queue emits_intros reads_only_fetch loop emits_mono[OF emits_ensure_target]
        emits_mono[OF emits_requeue_unprocessed])
       (auto intro: not_read_reads_only)
qed

lemma not_settled:
  "\<forall>e \<in> set b. settled_tag e \<noteq> Some x \<and> \<not> is_close e \<Longrightarrow>
     \<forall>e \<in> set b. (\<forall>c. e \<noteq> EvClose c) \<and> (\<forall>a. e \<noteq> EvAck x a) \<and> (\<forall>a. e \<noteq> EvNack x a)"
  by fastforce

context holding
begin

lemma bulk_got_tags:
  assumes sv: "serves put q s0 E" and own: "own_tags (queue_after put q s0 h)"
    and closed: "q_unacked (queue_after put q s0 h) = []"
    and run: "operate_bulk E q fps action target rh ms whole h = (r, h @ t)"
  shows "distinct (map d_tag (got t))"
proof -
  obtain pre w where t: "t = pre @ w" "list_all quiet pre"
    "distinct (map d_tag (got pre)) \<longrightarrow> batch_ok E q action target rh fps (got pre) r w"
    using doesD'[OF operate_bulk_does run] by (auto simp: batch_run_def)
  have tr: "traced (answered E q) h pre" and ro: "list_all (reads_only q) pre"
    using emits_atD[OF answered_bulk run] emitsD[OF reads_only_bulk run] t(1) by auto
  have "own_tags (queue_after put q s0 (h @ pre))"
    using live_trace[OF sv tr own] own_tags_subset[OF own] by blast
  then have "distinct (map d_tag (got pre))"
    using quiet_unacked[OF t(2) ro, of put "queue_after put q s0 h"] closed
    by (simp add: own_tags_def)
  with t show ?thesis by (simp add: batch_ok_def got_no_read)
qed

lemma operate_bulk_live:
  assumes sv: "serves put q s0 E" and own: "own_tags (queue_after put q s0 h)"
    and closed: "q_unacked (queue_after put q s0 h) = []"
    and run: "operate_bulk E q fps action target rh ms whole h = (r, h @ t)"
  shows "mset (q_ready (queue_after put q s0 (h @ t))) =
     filter_mset (\<lambda>m. \<not> acked_in t m) (mset (q_ready (queue_after put q s0 h)))"
    and "q_unacked (queue_after put q s0 (h @ t)) = []"
proof -
  show closed': "q_unacked (queue_after put q s0 (h @ t)) = []"
  proof (cases "action \<in> {''copy'', ''move'', ''park'', ''delete''}")
    case True
    then have "within_queue E q (bulk_body E q fps action target rh ms whole) h = (r, h @ t)"
      using run by (auto simp: operate_bulk_def)
    from within_queue_unacked[OF this] closed show ?thesis by simp
  next
    case False
    then show ?thesis using run closed by (auto simp: operate_bulk_def raise_def)
  qed
  have tr: "traced (answered E q) h t" using emits_atD[OF answered_bulk run] by auto
  have ro: "list_all (reads_only q) t" using emitsD[OF reads_only_bulk run] by auto
  have just: "acks_justified (\<lambda>b x. fresh_ack E q action target rh (got b) fps b x) t"
    using batch_run_facts(1)[OF doesD'[OF operate_bulk_does run] bulk_got_tags[OF assms]] .
  have "live (queue_after put q s0 (h @ t)) =
      filter_mset (\<lambda>m. \<not> acked_in t m) (live (queue_after put q s0 h))"
  proof (rule live_acks[OF sv tr own])
    fix b x c assume t: "t = b @ EvAck x None # c"
    then have fresh: "fresh_ack E q action target rh (got b) fps b x"
      using just by (simp add: acks_justified_def)
    then obtain m where m: "m \<in> set (got b)" "d_tag m = x"
      by (auto simp: fresh_ack_def bulk_ack_def dest: unique_match_in)
    have "m \<in> set (q_unacked (queue_after put q (queue_after put q s0 h) b))"
      by (rule still_unacked[OF m(1)])
         (use ro t fresh m(2) in \<open>auto simp: fresh_ack_def intro!: not_settled[rule_format]\<close>)
    then show "x \<in> d_tag ` set (q_unacked (queue_after put q s0 (h @ b)))"
      using m(2) by auto
  qed
  then show "mset (q_ready (queue_after put q s0 (h @ t))) =
     filter_mset (\<lambda>m. \<not> acked_in t m) (mset (q_ready (queue_after put q s0 h)))"
    using closed closed' by (simp add: live_def)
qed

end

context ordered
begin

lemma operate_bulk_order:
  assumes sv: "serves put q s0 E" and own: "own_tags (queue_after put q s0 h)"
    and so: "sorted (map d_tag (q_ready (queue_after put q s0 h)))"
    and closed: "q_unacked (queue_after put q s0 h) = []"
    and run: "operate_bulk E q fps action target rh ms whole h = (r, h @ t)"
  shows "q_ready (queue_after put q s0 (h @ t)) =
     filter (\<lambda>m. \<not> acked_in t m) (q_ready (queue_after put q s0 h))"
proof (rule same_list)
  show "mset (q_ready (queue_after put q s0 (h @ t))) =
    mset (filter (\<lambda>m. \<not> acked_in t m) (q_ready (queue_after put q s0 h)))"
    using operate_bulk_live(1)[OF sv own closed run] by simp
  show "sorted (map d_tag (q_ready (queue_after put q s0 (h @ t))))"
    using sorted_after[OF so] by simp
qed (use so own closed in \<open>auto simp: own_tags_def sorted_filter distinct_map_filter\<close>)

end


section \<open>Properties\<close>

text \<open>A batch that moves a and c, and a fingerprint no message has.\<close>

definition sample_batch :: "(exn + bulk_result list) \<times> hist" where
  "sample_batch = operate_bulk classic_env ''dlq'' {''a'', ''c'', ''z''} ''move''
     (Some (queue_target ''orders'')) [] 10 False []"

lemma sample_batch_run:
  "operate_bulk classic_env ''dlq'' {''a'', ''c'', ''z''} ''move'' (Some (queue_target ''orders'')) [] 10 False [] =
     (fst sample_batch, [] @ snd sample_batch)"
  by (simp add: sample_batch_def)

lemma sample_batch_result:
  "fst sample_batch = Inr [bulk_status ''a'' ''success'', bulk_status ''c'' ''success'', bulk_status ''z'' ''not_found'']"
  by code_simp

text \<open>
  C6. A batch acknowledges a message only if the action removes one, its fingerprint is in the
  approved set, it is the only message read with that fingerprint, it was not settled before, and
  its own copy has been published before, unless it is deleted.
\<close>

theorem bulk_ack_justified:
  assumes "operate_bulk E q fps action target rh ms whole h = (r, h @ before @ EvAck x a # after)"
    and "distinct (map d_tag (got (before @ EvAck x a # after)))"
  shows "action \<noteq> ''copy'' \<and>
    (\<exists>fp \<in> fps. \<exists>m. matches_in E q fp (got before) = [m] \<and> d_tag m = x \<and>
       (action \<in> PUBLISHING \<longrightarrow>
          (\<exists>tgt. target = Some tgt \<and> published tgt (bulk_copy E q action rh m) before))) \<and>
    (\<forall>e \<in> set before. settled_tag e \<noteq> Some x)"
proof -
  from batch_run_facts(1)[OF doesD'[OF operate_bulk_does assms(1)] assms(2)]
  have "fresh_ack E q action target rh (got before) fps before x"
    unfolding acks_justified_def by blast
  then show ?thesis by (auto simp: fresh_ack_def bulk_ack_def unique_match_def)
qed

theorem bulk_ack_justified_witness:
  "\<exists>before after. snd sample_batch = before @ EvAck 3 None # after \<and>
     (\<exists>fp \<in> {''a'', ''c'', ''z''}. \<exists>m. matches_in classic_env ''dlq'' fp (got before) = [m] \<and> d_tag m = 3)"
proof -
  let ?i = "length (takeWhile (\<lambda>e. e \<noteq> EvAck 3 None) (snd sample_batch))"
  have split: "snd sample_batch = take ?i (snd sample_batch) @ EvAck 3 None # drop (Suc ?i) (snd sample_batch)"
    by code_simp
  have tags: "distinct (map d_tag (got (take ?i (snd sample_batch) @ EvAck 3 None # drop (Suc ?i) (snd sample_batch))))"
    unfolding split[symmetric] by code_simp
  have run: "operate_bulk classic_env ''dlq'' {''a'', ''c'', ''z''} ''move'' (Some (queue_target ''orders'')) [] 10 False [] =
     (fst sample_batch, [] @ take ?i (snd sample_batch) @ EvAck 3 None # drop (Suc ?i) (snd sample_batch))"
    unfolding append_Nil split[symmetric] by (simp add: sample_batch_def)
  from bulk_ack_justified[OF run tags] split show ?thesis by blast
qed

text \<open>
  C7. The report of a batch is complete and true: one result per fingerprint, in order; a success
  means its unique message was acknowledged (unless the action is a copy) and its copy published;
  anything else means its message was not acknowledged.
\<close>

theorem bulk_report_true:
  assumes "operate_bulk E q fps action target rh ms whole h = (Inr rs, h @ t)"
    and "distinct (map d_tag (got t))"
  shows "list_all2 (result_true E q action target rh (got t) t) (sorted_list_of_set fps) rs"
  using batch_run_facts(2)[OF doesD'[OF operate_bulk_does assms(1)] assms(2)] by simp

theorem bulk_report_true_witness:
  "list_all2 (result_true classic_env ''dlq'' ''move'' (Some (queue_target ''orders'')) []
      (got (snd sample_batch)) (snd sample_batch)) [''a'', ''c'', ''z'']
     [bulk_status ''a'' ''success'', bulk_status ''c'' ''success'', bulk_status ''z'' ''not_found'']"
proof -
  have tags: "distinct (map d_tag (got (snd sample_batch)))" by code_simp
  have fps: "sorted_list_of_set {''a'', ''c'', ''z''} = [''a'', ''c'', ''z'']" by code_simp
  show ?thesis
    using bulk_report_true[OF sample_batch_run[unfolded sample_batch_result] tags] unfolding fps .
qed

text \<open>
  C8. A batch on a classic queue, whichever calls fail: the queue holds, in the order it had,
  every message but the acknowledged ones, and none is left unacked.
\<close>

theorem bulk_classic_queue:
  assumes "serves to_position q s0 E" and "own_tags (queue_after to_position q s0 h)"
    and "sorted (map d_tag (q_ready (queue_after to_position q s0 h)))"
    and "q_unacked (queue_after to_position q s0 h) = []"
    and "operate_bulk E q fps action target rh ms whole h = (r, h @ t)"
  shows "queue_after to_position q s0 (h @ t) =
     \<lparr>q_ready = filter (\<lambda>m. \<not> acked_in t m) (q_ready (queue_after to_position q s0 h)), q_unacked = []\<rparr>"
  using holds_classic.operate_bulk_order[OF assms] holds_classic.operate_bulk_live(2)[OF assms(1,2,4,5)]
  by (cases "queue_after to_position q s0 (h @ t)") simp

theorem bulk_classic_queue_witness:
  "q_ready (queue_after to_position ''dlq'' three_messages (snd sample_batch)) = [sample_message 2 ''b'']"
proof -
  have "filter (\<lambda>m. \<not> acked_in (snd sample_batch) m) (q_ready three_messages) = [sample_message 2 ''b'']"
    by code_simp
  then show ?thesis
    using bulk_classic_queue[OF sample_serves sample_own(2) _ _ sample_batch_run]
      sample_sorted sample_closed by simp
qed

text \<open>
  A batch on a quorum queue loses and duplicates nothing: it holds every message but the
  acknowledged ones.
\<close>

theorem bulk_quorum_queue:
  assumes "serves to_back q s0 E" and "own_tags (queue_after to_back q s0 h)"
    and "q_unacked (queue_after to_back q s0 h) = []"
    and "operate_bulk E q fps action target rh ms whole h = (r, h @ t)"
  shows "mset (q_ready (queue_after to_back q s0 (h @ t))) =
           filter_mset (\<lambda>m. \<not> acked_in t m) (mset (q_ready (queue_after to_back q s0 h))) \<and>
         q_unacked (queue_after to_back q s0 (h @ t)) = []"
  using holds_quorum.operate_bulk_live[OF assms] by blast

definition quorum_batch :: "(exn + bulk_result list) \<times> hist" where
  "quorum_batch = operate_bulk quorum_env ''dlq'' {''b''} ''delete'' None [] 10 True []"

theorem bulk_quorum_queue_witness:
  "mset (q_ready (queue_after to_back ''dlq'' three_messages (snd quorum_batch))) =
     {#sample_message 1 ''a'', sample_message 3 ''c''#}"
proof -
  have run: "operate_bulk quorum_env ''dlq'' {''b''} ''delete'' None [] 10 True [] =
      (fst quorum_batch, [] @ snd quorum_batch)"
    by (simp add: quorum_batch_def)
  have "filter (\<lambda>m. \<not> acked_in (snd quorum_batch) m) (q_ready three_messages) =
     [sample_message 1 ''a'', sample_message 3 ''c'']"
    by code_simp
  then have "filter_mset (\<lambda>m. \<not> acked_in (snd quorum_batch) m) (mset (q_ready three_messages)) =
     mset [sample_message 1 ''a'', sample_message 3 ''c'']"
    by (metis mset_filter)
  then show ?thesis
    using bulk_quorum_queue[OF sample_serves sample_own(2) _ run] sample_closed by simp
qed

end
