(* ===== verification/Browse_Properties.thy ===== *)
theory Browse_Properties
  imports Sample_World
begin

text \<open>
  Reading is not consuming: what a scan leaves in the queue, what it may do to the broker, how
  much it reads, and that a slim record gives back the payload it left out.
\<close>


section \<open>Lemmas\<close>

lemma emits_fetch_gets: "emits (is_get q) (fetch E q d limit whole mb)"
proof (rule emitsI)
  fix h
  obtain r h' where run: "fetch E q d limit whole mb h = (r, h')" by fastforce
  from doesD[OF fetch_does run] run show
    "\<exists>t. snd (fetch E q d limit whole mb h) = h @ t \<and> list_all (is_get q) t" by auto
qed

lemma scan_no_mutation:
  "emits (\<lambda>e. \<not> is_ack e \<and> \<not> is_publish e) (scan E q limit whole mb slim)"
  unfolding scan_def scan_body_def
  by (intro emits_within_queue emits_intros emits_mono[OF emits_fetch_gets] emits_mono[OF emits_requeue])
     (auto dest: is_get_kinds)

text \<open>The loop stops at the limit: one message past it at most, when the queue has to be read
  whole, none otherwise.\<close>

lemma fetch_loop_bound:
  assumes "fetch_loop E q limit whole mb ready held bytes h = (Inr (res, ms), h')"
    and "int (length held) \<le> limit"
  shows "int (length ms) \<le> limit + 1"
  using assms
proof (induction E q limit whole mb ready held bytes h arbitrary: res ms h' rule: fetch_loop.induct)
  case (1 E q limit whole mb ready held bytes h)
  note eq = "1.prems"(1)[unfolded fetch_loop_simp[of E q limit whole mb ready held bytes h]]
  show ?case
  proof (cases "\<exists>m. e_get E h q = Inr (Some m) \<and> \<not> int (length held) + 1 > limit
      \<and> \<not> (\<not> whole \<and> int (length held) + 1 = limit)
      \<and> \<not> (\<not> whole \<and> (case mb of None \<Rightarrow> False | Some b \<Rightarrow> bytes + int (length (d_body m)) \<ge> b))")
    case False
    with eq "1.prems"(2) show ?thesis
      by (auto split: sum.splits option.splits if_splits)
  next
    case True
    then obtain m where m: "e_get E h q = Inr (Some m)"
        "\<not> int (length held) + 1 > limit" "\<not> (\<not> whole \<and> int (length held) + 1 = limit)"
        "\<not> (\<not> whole \<and> (case mb of None \<Rightarrow> False | Some b \<Rightarrow> bytes + int (length (d_body m)) \<ge> b))"
      by blast
    then have eq': "fetch_loop E q limit whole mb ready (held @ [m]) (bytes + int (length (d_body m)))
        (h @ [EvGet q (Inr (Some m))]) = (Inr (res, ms), h')"
      using eq by (auto split: if_splits)
    then show ?thesis
      using "1.IH"[OF refl refl, of "Some m" m] m by (auto simp: add.commute)
  qed
qed

lemma fetch_bound:
  assumes "fetch E q d limit whole mb h = (Inr (res, ms), h')" and "0 \<le> limit"
  shows "int (length ms) \<le> limit + 1"
  using assms fetch_loop_bound[of E q limit whole mb _ "[]"]
  by (auto simp: fetch_def ret_def Let_def split: if_splits)

lemma scan_facts:
  "does (scan E q limit whole mb slim) h
     (\<lambda>r t. (0 \<le> limit \<longrightarrow> int (length (got t)) \<le> limit + 1) \<and>
        (\<forall>s. r = Inr s \<longrightarrow> sc_records s = map (to_record (e_lib E) q slim) (got t)))"
proof -
  let ?\<Phi> = "\<lambda>r t. (0 \<le> limit \<longrightarrow> int (length (got t)) \<le> limit + 1) \<and>
        (\<forall>s. r = Inr s \<longrightarrow> sc_records s = map (to_record (e_lib E) q slim) (got t))"
  have fetched: "does (fetch E q d limit whole mb) h'
     (\<lambda>r t. \<exists>res. r = Inr (res, got t) \<and> list_all (is_get q) t \<and> (0 \<le> limit \<longrightarrow> int (length (got t)) \<le> limit + 1))" for d h'
  proof (rule doesI)
    fix r h2 assume run: "fetch E q d limit whole mb h' = (r, h2)"
    from doesD[OF fetch_does run] obtain t res where
      "h2 = h' @ t" "r = Inr (res, got t)" "list_all (is_get q) t" by blast
    then show "\<exists>t. h2 = h' @ t \<and> (\<exists>res. r = Inr (res, got t) \<and> list_all (is_get q) t \<and> (0 \<le> limit \<longrightarrow> int (length (got t)) \<le> limit + 1))"
      using fetch_bound[of E q d limit whole mb h'] run by auto
  qed
  have rest: "does (finally_do
         (bnd (lift fetched) (\<lambda>(ready, stopped).
            ret \<lparr>sc_records = map (to_record (e_lib E) q slim) ms,
                 sc_ready = ready, sc_stopped = stopped\<rparr>))
         (requeue E ms None)) h'
      (\<lambda>r t. got t = [] \<and> (\<forall>s. r = Inr s \<longrightarrow> sc_records s = map (to_record (e_lib E) q slim) ms))"
    for fetched ms h'
    unfolding finally_bnd
  proof (rule does_bnd[where \<Theta> = "\<lambda>r t. t = [] \<and> (\<exists>x. r = Inr x \<and>
        (\<forall>s. x = Inr s \<longrightarrow> sc_records s = map (to_record (e_lib E) q slim) ms))"])
    show "does (bnd (requeue E ms None) (\<lambda>_. lift x)) (h' @ t)
        (\<lambda>r u. got (t @ u) = [] \<and> (\<forall>s. r = Inr s \<longrightarrow> sc_records s = map (to_record (e_lib E) q slim) ms))"
      if "t = [] \<and> (\<exists>y. (Inr x :: exn + (exn + scan_result)) = Inr y \<and>
        (\<forall>s. y = Inr s \<longrightarrow> sc_records s = map (to_record (e_lib E) q slim) ms))" for x t
      using that
      by (intro does_bnd[OF does_emits[OF emits_requeue]])
         (auto intro!: does_lift got_no_read elim!: list_all_imp)
  qed (auto simp: does_def bnd_def lift_def ret_def outcome_def split: sum.splits prod.splits)
  show ?thesis
    unfolding scan_def
  proof (rule does_within_queue[where \<Theta> = ?\<Phi>])
    show "does (scan_body E q limit whole mb slim) (h @ [EvLock (lock_names E q) None, EvOpen None]) ?\<Phi>"
      unfolding scan_body_def
    proof (rule does_bnd[where \<Theta> = "\<lambda>r t. \<exists>d. t = [EvDeclare q True d]"], goal_cases)
      case 1
      then show ?case by (auto simp: declare_queue_def intro: does_ask)
    next
      case (2 e t)
      then show ?case by auto
    next
      case (3 d t)
      then show ?case
        by (intro does_bnd[OF fetched]) (auto intro!: does_mono[OF rest])
    qed
  qed (auto split: option.splits)
qed

lemma scan_got_bound:
  assumes "0 \<le> limit"
  shows "does (scan E q limit whole mb slim) h
     (\<lambda>r t. int (length (got t)) \<le> limit + 1 \<and>
        (\<forall>s. r = Inr s \<longrightarrow> sc_records s = map (to_record (e_lib E) q slim) (got t)))"
  by (rule does_mono[OF scan_facts]) (use assms in blast)

lemma scan_refused:
  assumes "e_declare E (h @ [EvLock (lock_names E q) None, EvOpen None]) q True = Inr (Some n)"
    and "whole" "limit < n" "n \<noteq> 0"
    and "scan E q limit whole mb slim h = (r, h @ t)"
  shows "got t = [] \<and> list_all (\<lambda>e. \<not> is_read e) t \<and> (\<exists>e. r = Inl e)"
  using assms
  by (auto simp: scan_def within_queue_def with_lock_def with_channel_def bracket_def bnd_def
      finally_do_def perform_def scan_body_def declare_queue_def ask_def fetch_def int_or_def
      ret_def lift_def requeue_def split: option.splits)


section \<open>Properties\<close>

text \<open>
  A scan of a classic queue leaves it exactly as it was, message for message and in order,
  however far it reads, whatever it raises, and whichever of the calls fail.
\<close>

theorem scan_leaves_classic_queue:
  assumes "serves to_position q s0 E" and "honest_processed E" and "unsettled h R"
    and "queue_after to_position q s0 h = \<lparr>q_ready = R, q_unacked = []\<rparr>"
    and "sorted_wrt (\<lambda>a b. d_tag a < d_tag b) R"
    and "scan E q limit whole mb slim h = (r, h')"
  shows "queue_after to_position q s0 h' = \<lparr>q_ready = R, q_unacked = []\<rparr>"
  using assms(5) by (intro classic.scan_restores[OF assms(1-4,6)]) (simp add: in_position_def)

theorem scan_leaves_classic_queue_witness:
  "queue_after to_position ''dlq'' three_messages (snd (scan classic_env ''dlq'' 2 False None False [])) = three_messages"
proof -
  have run: "scan classic_env ''dlq'' 2 False None False [] =
      (fst (scan classic_env ''dlq'' 2 False None False []), snd (scan classic_env ''dlq'' 2 False None False []))"
    by simp
  have "sorted_wrt (\<lambda>a b. d_tag a < d_tag b) (q_ready three_messages)"
    by (simp add: three_messages_def sample_message_def)
  from scan_leaves_classic_queue[OF sample_serves sample_honest sample_unsettled _ this run]
  show ?thesis by (simp add: three_messages_def)
qed

text \<open>
  A scan of a quorum queue, which appends what is returned to it, leaves it exactly as it was
  provided it is scanned whole and the gets are answered: then it reads everything or nothing.
\<close>

theorem scan_leaves_quorum_queue:
  assumes "serves to_back q s0 E" and "honest_processed E" and "gets_answered q E" and "unsettled h R"
    and "queue_after to_back q s0 h = \<lparr>q_ready = R, q_unacked = []\<rparr>"
    and "scan E q limit True mb slim h = (r, h')"
  shows "queue_after to_back q s0 h' = \<lparr>q_ready = R, q_unacked = []\<rparr>"
  using assms(3) by (intro quorum.scan_restores[OF assms(1,2,4-6)]) simp

theorem scan_leaves_quorum_queue_witness:
  "queue_after to_back ''dlq'' three_messages (snd (scan quorum_env ''dlq'' 2 True None False [])) = three_messages"
proof -
  have run: "scan quorum_env ''dlq'' 2 True None False [] =
      (fst (scan quorum_env ''dlq'' 2 True None False []), snd (scan quorum_env ''dlq'' 2 True None False []))"
    by simp
  from scan_leaves_quorum_queue[OF sample_serves sample_honest sample_answers sample_unsettled _ run]
  show ?thesis by (simp add: three_messages_def)
qed

text \<open>
  A scan acknowledges nothing and publishes nothing, takes at most one message more than the
  limit, and its records are those of the messages it took, in order.
\<close>

theorem scan_reads_only:
  assumes "scan E q limit whole mb slim h = (r, h @ t)" and "0 \<le> limit"
  shows "(\<forall>e \<in> set t. \<not> is_ack e \<and> \<not> is_publish e) \<and> int (length (got t)) \<le> limit + 1 \<and>
         (\<forall>s. r = Inr s \<longrightarrow> sc_records s = map (to_record (e_lib E) q slim) (got t))"
proof -
  have "list_all (\<lambda>e. \<not> is_ack e \<and> \<not> is_publish e) t"
    using emitsD[OF scan_no_mutation assms(1)] by auto
  then show ?thesis
    using doesD'[OF scan_got_bound[OF assms(2)] assms(1)] by (auto simp: list_all_iff)
qed

definition sample_scan :: "(exn + scan_result) \<times> hist" where
  "sample_scan = scan classic_env ''dlq'' 2 False None False []"

theorem scan_reads_only_witness:
  "int (length (got (snd sample_scan))) \<le> 3 \<and> map d_tag (got (snd sample_scan)) = [1, 2]"
proof -
  have run: "scan classic_env ''dlq'' 2 False None False [] = (fst sample_scan, [] @ snd sample_scan)"
    by (simp add: sample_scan_def)
  have "map d_tag (got (snd sample_scan)) = [1, 2]" by code_simp
  then show ?thesis using scan_reads_only[OF run] by simp
qed

text \<open>
  A queue that has to be scanned whole and declares more messages than the depth is refused
  before any message is taken.
\<close>

theorem deep_quorum_queue_refused:
  assumes "e_declare E (h @ [EvLock (lock_names E q) None, EvOpen None]) q True = Inr (Some n)"
    and "whole" and "limit < n" and "n \<noteq> 0"
    and "scan E q limit whole mb slim h = (r, h @ t)"
  shows "list_all (\<lambda>e. \<not> is_read e) t \<and> (\<exists>e. r = Inl e)"
  using scan_refused[OF assms] by blast

definition refused_scan :: "(exn + scan_result) \<times> hist" where
  "refused_scan = scan quorum_env ''dlq'' 2 True None False []"

theorem deep_quorum_queue_refused_witness:
  "list_all (\<lambda>e. \<not> is_read e) (snd refused_scan)"
proof -
  have run: "scan quorum_env ''dlq'' 2 True None False [] = (fst refused_scan, [] @ snd refused_scan)"
    by (simp add: refused_scan_def)
  have d: "e_declare quorum_env ([] @ [EvLock (lock_names quorum_env ''dlq'') None, EvOpen None]) ''dlq'' True = Inr (Some 3)"
    by (simp add: sample_env_def three_messages_def)
  from deep_quorum_queue_refused[OF d TrueI _ _ run] show ?thesis by simp
qed

text \<open>
  A record scanned slim, without its payload, gives back exactly the full record when its
  payload is asked for.
\<close>

theorem slim_record_completes:
  "with_payload L (to_record L q True m) = to_record L q False m"
  by (auto simp: with_payload_def to_record_def Let_def split: prod.splits)

end
