(* ===== verification/Queue_Service.thy ===== *)
theory Queue_Service
  imports Sample_World
begin

text \<open>
  The queue service (app/application/queue_service.py): the delivery limit of a queue, the browse
  guard that keeps QueueLens off queues where a preview would destroy messages, and the queue list
  with its classification.

  The cached broker version is state: \<open>cached\<close> goes in and comes back.
\<close>


section \<open>The delivery limit\<close>

definition major :: "string option \<Rightarrow> int" where
  "major version =
     (case parse_int (hd (split_on CHR ''.'' (str_or version ''0''))) of None \<Rightarrow> 0 | Some n \<Rightarrow> n)"

text \<open>\<open>raw.get("type") or (raw.get("arguments") or {}).get("x-queue-type")\<close>\<close>

definition queue_kind :: "pyval dict \<Rightarrow> exn + pyval" where
  "queue_kind raw =
     (if truthy (py_get raw ''type'') then Inr (py_get raw ''type'')
      else or_raise (sub_dict raw ''arguments'') (\<lambda>args. Inr (py_get args ''x-queue-type'')))"

definition limit_sources :: "pyval dict \<Rightarrow> exn + int list" where
  "limit_sources raw =
     or_raise (sub_dict raw ''arguments'') (\<lambda>args.
       let policy = (case dict_get raw ''effective_policy_definition'' of Some (PDict p) \<Rightarrow> p | _ \<Rightarrow> [])
       in py_ints (filter (\<lambda>v. v \<noteq> PNone)
            [py_get args ''x-delivery-limit'', py_get policy ''delivery-limit'']))"

definition effective_limit_of :: "int list \<Rightarrow> int \<Rightarrow> int option" where
  "effective_limit_of values version =
     (if version < 4 then (if values \<noteq> [] then Some (max 0 (min_list values)) else None)
      else
        let limits = filter (\<lambda>v. v \<ge> 0) values
        in if limits \<noteq> [] then Some (min_list limits)
           else if values \<noteq> [] then None else Some 20)"

definition delivery_limit :: "pyval dict \<Rightarrow> string option \<Rightarrow> exn + int option" where
  "delivery_limit raw version =
     or_raise (queue_kind raw) (\<lambda>kind.
       if kind \<noteq> PStr ''quorum'' then Inr None
       else or_raise (limit_sources raw) (\<lambda>values. Inr (effective_limit_of values (major version))))"


section \<open>The browse guard\<close>

definition unsafe :: "string \<Rightarrow> exn" where
  "unsafe s = mk_exn UnsafeToBrowse s"

definition mebibytes :: "int \<Rightarrow> string" where
  "mebibytes n = int_text (n div (1024 * 1024))"

definition limit_fix :: "string option \<Rightarrow> string" where
  "limit_fix version =
     (if major version \<ge> 4
      then ''set the limit to -1 on dead-letter queues (policy delivery-limit or x-delivery-limit)''
      else ''remove x-delivery-limit / the delivery-limit policy from dead-letter '' @
           ''queues (on RabbitMQ 3.x, -1 is not unlimited '' @ em_dash @ '' it drops on the first return)'')"

text \<open>What the guard decides once it has the queue's statistics and the broker's version.\<close>

definition browsable :: "string \<Rightarrow> pyval dict \<Rightarrow> string option \<Rightarrow> exn + bool" where
  "browsable queue_name raw version =
     or_raise (queue_kind raw) (\<lambda>kind.
       let quorum = (kind = PStr ''quorum'')
       in if quorum \<and> dict_get raw ''messages'' = None
          then Inl (unsafe (queue_name @ '' is a quorum queue whose statistics aren't available yet, so its '' @
                 ''delivery limit can't be checked '' @ em_dash @ '' try again in a few seconds.''))
          else or_raise (delivery_limit raw version) (\<lambda>limit.
            case limit of
              Some n \<Rightarrow> Inl (unsafe (queue_name @ '' is a quorum queue with a delivery limit of '' @ int_text n @
                  '': every preview or scan counts as a delivery and would eventually drop messages, so QueueLens '' @
                  ''will not browse or act on it. To browse it, '' @ limit_fix version @ ''.''))
            | None \<Rightarrow>
                or_raise (py_int (py_or (dict_get raw ''message_bytes_ready'') (PInt 0))) (\<lambda>held.
                  if quorum \<and> held > SCAN_BYTES_BUDGET
                  then Inl (unsafe (queue_name @ '' is a quorum queue holding '' @ mebibytes held @
                      '' MiB of messages, more than one scan may hold ('' @ mebibytes SCAN_BYTES_BUDGET @
                      '' MiB). Quorum queues can only be browsed whole without reordering them '' @ em_dash @
                      '' shovel it to a classic queue to browse it.''))
                  else Inr quorum)))"

definition version_of :: "env \<Rightarrow> bool \<Rightarrow> string option \<Rightarrow> ((exn + string option) \<times> string option) io" where
  "version_of E strict cached =
     (case cached of
        Some v \<Rightarrow> ret (Inr (Some v), Some v)
      | None \<Rightarrow>
          bnd (outcome (overview E)) (\<lambda>r.
            case r of
              Inl e \<Rightarrow> ret (if strict then Inl e else Inr None, None)
            | Inr o' \<Rightarrow>
                let v = py_str (e_lib E) (py_get o' ''rabbitmq_version'')
                in ret (Inr (Some v), Some v)))"

definition assert_browsable :: "env \<Rightarrow> string option \<Rightarrow> string \<Rightarrow> ((exn + bool) \<times> string option) io" where
  "assert_browsable E cached q =
     bnd (outcome (mgmt_queue E q)) (\<lambda>r.
       case r of
         Inl e \<Rightarrow> ret (if exn_class e = ManagementErr (Some 404) then Inr False else Inl e, cached)
       | Inr raw \<Rightarrow>
           bnd (version_of E True cached) (\<lambda>(v, cached').
             ret (or_raise v (\<lambda>version. browsable q raw version), cached')))"

text \<open>As the guard the services are given: \<open>queue_service.assert_browsable\<close>.\<close>

definition service_guard :: "env \<Rightarrow> string option \<Rightarrow> browse_guard" where
  "service_guard E cached q = bnd (assert_browsable E cached q) (\<lambda>(r, _). lift r)"


section \<open>Listing and classification\<close>

fun dead_letter_targets :: "pylib \<Rightarrow> pyval dict list \<Rightarrow> exn + string set" where
  "dead_letter_targets L [] = Inr {}"
| "dead_letter_targets L (raw # rest) =
     or_raise (sub_dict raw ''arguments'') (\<lambda>args.
     or_raise (dead_letter_targets L rest) (\<lambda>targets.
       let rk = py_get args ''x-dead-letter-routing-key''
       in Inr (if py_get args ''x-dead-letter-exchange'' = PStr [] \<and> truthy rk
               then insert (py_str L rk) targets else targets)))"

definition looks_like_dlq :: "string \<Rightarrow> string set \<Rightarrow> bool" where
  "looks_like_dlq name targets =
     (let n = lower name
      in contains ''.dlq'' n \<or> contains ''_dlq'' n \<or> contains ''dead'' n \<or>
         ends_with n ''.parking'' \<or> ends_with n ''_parking'' \<or> name \<in> targets)"

definition classify :: "string \<Rightarrow> string" where
  "classify name =
     (let n = lower name
      in if ends_with n ''.parking'' \<or> ends_with n ''_parking'' then ''parking''
         else if contains ''retry'' n then ''retry'' else ''dlq'')"

text \<open>\<open>int(raw.get(key, 0))\<close>\<close>

definition count_of :: "pyval dict \<Rightarrow> string \<Rightarrow> exn + int" where
  "count_of raw key = py_int (case dict_get raw key of None \<Rightarrow> PInt 0 | Some v \<Rightarrow> v)"

definition publish_rate_of :: "pyval dict \<Rightarrow> exn + pyval option" where
  "publish_rate_of raw =
     or_raise (sub_dict raw ''message_stats'') (\<lambda>stats.
     or_raise (as_dict (case dict_get stats ''publish_details'' of None \<Rightarrow> PDict [] | Some v \<Rightarrow> v)) (\<lambda>details.
       Inr (dict_get details ''rate'')))"

definition to_queue_info :: "pylib \<Rightarrow> pyval dict \<Rightarrow> string set \<Rightarrow> string option \<Rightarrow> exn + queue_info" where
  "to_queue_info L raw targets version =
     (let name = py_str L (case dict_get raw ''name'' of None \<Rightarrow> PStr [] | Some v \<Rightarrow> v);
          is_dlq = looks_like_dlq name targets
      in or_raise (sub_dict raw ''arguments'') (\<lambda>arguments.
         or_raise (count_of raw ''messages'') (\<lambda>messages.
         or_raise (count_of raw ''messages_ready'') (\<lambda>ready.
         or_raise (count_of raw ''messages_unacknowledged'') (\<lambda>unacked.
         or_raise (count_of raw ''consumers'') (\<lambda>consumers.
         or_raise (publish_rate_of raw) (\<lambda>rate.
         or_raise (delivery_limit raw version) (\<lambda>limit.
           Inr \<lparr>qi_name = name,
                qi_vhost = py_str L (case dict_get raw ''vhost'' of None \<Rightarrow> PStr ''/'' | Some v \<Rightarrow> v),
                qi_messages = messages, qi_messages_ready = ready, qi_messages_unacked = unacked,
                qi_consumers = consumers, qi_durable = truthy (py_get raw ''durable''),
                qi_arguments = arguments, qi_is_dlq = is_dlq,
                qi_kind = (if is_dlq then classify name else ''normal''),
                qi_queue_type = py_str L (py_or (dict_get raw ''type'')
                    (py_or (dict_get arguments ''x-queue-type'') (PStr ''classic''))),
                qi_publish_rate = rate, qi_idle_since = dict_get raw ''idle_since'',
                qi_delivery_limit = limit\<rparr>))))))))"

fun to_queue_infos :: "pylib \<Rightarrow> string set \<Rightarrow> string option \<Rightarrow> pyval dict list \<Rightarrow> exn + queue_info list" where
  "to_queue_infos L targets version [] = Inr []"
| "to_queue_infos L targets version (raw # rest) =
     or_raise (to_queue_info L raw targets version) (\<lambda>i.
     or_raise (to_queue_infos L targets version rest) (\<lambda>infos. Inr (i # infos)))"

definition list_queues :: "env \<Rightarrow> string option \<Rightarrow> bool \<Rightarrow> (queue_info list \<times> string option) io" where
  "list_queues E cached dlq_only =
     bnd (mgmt_queues E) (\<lambda>raws.
     bnd (lift (dead_letter_targets (e_lib E) raws)) (\<lambda>targets.
     bnd (version_of E False cached) (\<lambda>(v, cached').
     bnd (lift v) (\<lambda>version.
     bnd (lift (to_queue_infos (e_lib E) targets version raws)) (\<lambda>queues.
       ret (sort_key (\<lambda>q. - qi_messages q)
              (if dlq_only then filter qi_is_dlq queues else queues), cached'))))))"

definition get_queue :: "env \<Rightarrow> string option \<Rightarrow> string \<Rightarrow> (queue_info \<times> string option) io" where
  "get_queue E cached q =
     bnd (mgmt_queue E q) (\<lambda>raw.
     bnd (version_of E False cached) (\<lambda>(v, cached').
     bnd (lift v) (\<lambda>version.
     bnd (lift (to_queue_info (e_lib E) raw {} version)) (\<lambda>i. ret (i, cached')))))"

definition severity :: "int \<Rightarrow> string" where
  "severity messages =
     (if messages = 0 then ''empty'' else if messages \<le> 10 then ''low''
      else if messages \<le> 100 then ''warning'' else ''attention'')"

definition queue_status :: "queue_info \<Rightarrow> string" where
  "queue_status q =
     (if qi_kind q = ''parking'' then ''parking''
      else if qi_is_dlq q then severity (qi_messages q)
      else if qi_consumers q > 0 then ''active'' else ''idle'')"

definition opt_value :: "pyval option \<Rightarrow> pyval" where
  "opt_value v = (case v of None \<Rightarrow> PNone | Some x \<Rightarrow> x)"

definition queue_to_dict :: "queue_info \<Rightarrow> pyval dict" where
  "queue_to_dict q =
     [(''name'', PStr (qi_name q)), (''vhost'', PStr (qi_vhost q)), (''messages'', PInt (qi_messages q)),
      (''messages_ready'', PInt (qi_messages_ready q)), (''messages_unacked'', PInt (qi_messages_unacked q)),
      (''consumers'', PInt (qi_consumers q)), (''durable'', PBool (qi_durable q)),
      (''arguments'', PDict (qi_arguments q)), (''is_dlq'', PBool (qi_is_dlq q)), (''kind'', PStr (qi_kind q)),
      (''queue_type'', PStr (qi_queue_type q)), (''severity'', PStr (severity (qi_messages q))),
      (''status'', PStr (queue_status q)), (''publish_rate'', opt_value (qi_publish_rate q)),
      (''idle_since'', opt_value (qi_idle_since q)), (''delivery_limit'', opt_int (qi_delivery_limit q)),
      (''browsable'', PBool (qi_delivery_limit q = None))]"

definition queues_to_dicts :: "queue_info list \<Rightarrow> pyval dict list" where
  "queues_to_dicts qs = map queue_to_dict qs"

end
