(* ===== verification/Queue_Guard.thy ===== *)
theory Queue_Guard
  imports Queue_Service Browse_Properties
begin

text \<open>
  The interface between the services and the browse guard, and what it buys. A guard only asks
  the Management API (locale \<open>scan_guard\<close>); the clients stop at its refusal before anything is
  sent to the queue. The queue service's guard and the default one are its two providers.
\<close>


section \<open>The interface\<close>

fun is_management :: "event \<Rightarrow> bool" where
  "is_management (EvMgmtQueue _ _) = True"
| "is_management (EvOverview _) = True"
| "is_management _ = False"

locale scan_guard =
  fixes guard :: browse_guard
  assumes asks_management: "emits is_management (guard q)"
begin

lemma guard_trace: "guard q h = (r, h1) \<Longrightarrow> \<exists>t. h1 = h @ t \<and> list_all is_management t"
  by (rule emitsD[OF asks_management])

text \<open>A refusal ends every client with the refusal, before the queue is touched.\<close>

lemma refusal_ends:
  assumes "guard q h = (Inl e, h1)"
  shows "list_messages E guard q limit depth h = (Inl e, h1)"
    and "snapshot E guard q d h = (Inl e, h1)"
    and "get_message E guard q fp limit depth h = (Inl e, h1)"
  using assms by (simp_all add: list_messages_def snapshot_def get_message_def bnd_def)

lemma refusal_untouched:
  assumes "guard q h = (Inl e, h1)"
  shows "\<exists>t. h1 = h @ t \<and> list_all is_management t"
  using guard_trace[OF assms] .

text \<open>What a guard asks does not change the queue.\<close>

lemma guard_queue:
  assumes "guard q h = (r, h1)"
  shows "queue_after put n s0 h1 = queue_after put n s0 h"
proof -
  obtain t where t: "h1 = h @ t" "list_all is_management t" using guard_trace[OF assms] by blast
  have "queue_after put n s t = s" for s
    using t(2)
  proof (induction t arbitrary: s)
    case (Cons e t)
    then show ?case by (cases e) auto
  qed simp
  with t(1) show ?thesis by simp
qed

lemma guard_unsettled:
  assumes "guard q h = (r, h1)" "unsettled h ms"
  shows "unsettled h1 ms"
proof -
  obtain t where "h1 = h @ t" "list_all is_management t" using guard_trace[OF assms(1)] by blast
  with assms(2) show ?thesis
    by (auto simp: unsettled_def list_all_iff)
qed

lemma snapshot_runs:
  assumes "snapshot E guard q d h = (r, h')"
  obtains (refused) e where "guard q h = (Inl e, h')" "r = Inl e"
  | (scanned) w h1 where "guard q h = (Inr w, h1)"
      "scan E q d w (Some SCAN_BYTES_BUDGET) True h1 = (r, h')"
  using assms by (auto simp: snapshot_def bnd_def split: prod.splits sum.splits)

lemma snapshot_classic:
  assumes "serves to_position q s0 E" "honest_processed E" "unsettled h R"
    and "queue_after to_position q s0 h = \<lparr>q_ready = R, q_unacked = []\<rparr>"
    and "sorted_wrt (\<lambda>a b. d_tag a < d_tag b) R"
    and "snapshot E guard q d h = (r, h')"
  shows "queue_after to_position q s0 h' = \<lparr>q_ready = R, q_unacked = []\<rparr>"
  using assms(6)
proof (cases rule: snapshot_runs)
  case (refused e)
  then show ?thesis using guard_queue assms(4) by metis
next
  case (scanned w h1)
  have "queue_after to_position q s0 h1 = \<lparr>q_ready = R, q_unacked = []\<rparr>"
    using guard_queue[OF scanned(1)] assms(4) by metis
  then show ?thesis
    using assms(5)
    by (intro classic.scan_restores[OF assms(1,2) guard_unsettled[OF scanned(1) assms(3)] _ scanned(2)])
       (simp_all add: in_position_def)
qed

lemma snapshot_quorum:
  assumes "serves to_back q s0 E" "honest_processed E" "gets_answered q E" "unsettled h R"
    and "queue_after to_back q s0 h = \<lparr>q_ready = R, q_unacked = []\<rparr>"
    and "snapshot E guard q d h = (r, h')"
    and whole: "\<And>w h1. guard q h = (Inr w, h1) \<Longrightarrow> w"
  shows "queue_after to_back q s0 h' = \<lparr>q_ready = R, q_unacked = []\<rparr>"
  using assms(6)
proof (cases rule: snapshot_runs)
  case (refused e)
  then show ?thesis using guard_queue assms(5) by metis
next
  case (scanned w h1)
  have "queue_after to_back q s0 h1 = \<lparr>q_ready = R, q_unacked = []\<rparr>"
    using guard_queue[OF scanned(1)] assms(5) by metis
  from quorum.scan_restores[OF assms(1,2) guard_unsettled[OF scanned(1) assms(4)] this scanned(2)]
  show ?thesis using assms(3) whole[OF scanned(1)] by simp
qed

end


section \<open>The providers\<close>

lemma emits_version_of: "emits is_management (version_of E strict cached)"
  unfolding version_of_def by (intro emits_intros) simp_all

lemma emits_assert_browsable: "emits is_management (assert_browsable E cached q)"
  unfolding assert_browsable_def by (intro emits_intros emits_version_of) simp_all

interpretation service_guard: scan_guard "service_guard E cached" for E cached
  by unfold_locales
     (simp add: service_guard_def emits_bnd emits_assert_browsable emits_case_prod emits_lift)

interpretation unguarded: scan_guard no_guard
  by unfold_locales (simp add: no_guard_def emits_ret)


section \<open>What the guard lets through\<close>

lemma browsable_Inr:
  "browsable q raw version = Inr w \<Longrightarrow>
     \<exists>kind held. queue_kind raw = Inr kind \<and> w = (kind = PStr ''quorum'') \<and>
       delivery_limit raw version = Inr None \<and>
       py_int (py_or (dict_get raw ''message_bytes_ready'') (PInt 0)) = Inr held \<and>
       (w \<longrightarrow> dict_get raw ''messages'' \<noteq> None \<and> held \<le> SCAN_BYTES_BUDGET)"
  by (auto simp: browsable_def or_raise_Inr_iff Let_def split: if_splits option.splits)

lemma assert_browsable_whole:
  assumes "assert_browsable E cached q h = (Inr (Inr w, c), h1)"
  shows "(\<exists>raw version. e_mgmt_queue E h q = Inr raw \<and> browsable q raw version = Inr w) \<or>
         (\<exists>e. e_mgmt_queue E h q = Inl e \<and> exn_class e = ManagementErr (Some 404) \<and> \<not> w)"
  using assms
  by (auto simp: assert_browsable_def bnd_def outcome_def mgmt_queue_def ask_def ret_def or_raise_Inr_iff
      split: sum.splits prod.splits if_splits)

lemma service_guard_whole:
  assumes "service_guard E cached q h = (Inr w, h1)"
    and "e_mgmt_queue E h q = Inr raw" "queue_kind raw = Inr (PStr ''quorum'')"
  shows w
proof -
  obtain c where "assert_browsable E cached q h = (Inr (Inr w, c), h1)"
    using assms(1)
    by (auto simp: service_guard_def bnd_def lift_def split: prod.splits sum.splits)
  from assert_browsable_whole[OF this] assms(2,3) show w
    by (auto dest!: browsable_Inr)
qed

text \<open>The limits a quorum queue can have, as the documentation of the broker states them.\<close>

definition documented_limit :: "int list \<Rightarrow> int \<Rightarrow> int \<Rightarrow> bool" where
  "documented_limit sources version n \<longleftrightarrow>
     (if version \<ge> 4
      then (n \<in> set sources \<and> 0 \<le> n \<and> (\<forall>m \<in> set sources. 0 \<le> m \<longrightarrow> n \<le> m)) \<or>
           (sources = [] \<and> n = 20)
      else sources \<noteq> [] \<and> (n = 0 \<and> (\<exists>m \<in> set sources. m \<le> 0) \<or>
           0 < n \<and> n \<in> set sources \<and> (\<forall>m \<in> set sources. n \<le> m)))"

lemma min_list_props: "xs \<noteq> [] \<Longrightarrow> min_list xs \<in> set xs \<and> (\<forall>x \<in> set xs. min_list xs \<le> (x :: int))"
  by (simp add: min_list_Min)

lemma effective_limit_documented:
  "effective_limit_of sources version = Some n \<longleftrightarrow> documented_limit sources version n"
proof (cases "version \<ge> 4")
  case True
  let ?l = "filter (\<lambda>v. v \<ge> 0) sources"
  show ?thesis
  proof (cases "?l = []")
    case True
    then have "\<forall>m \<in> set sources. \<not> 0 \<le> m" by (simp add: filter_empty_conv)
    with True \<open>version \<ge> 4\<close> show ?thesis
      by (auto simp: effective_limit_of_def documented_limit_def Let_def)
  next
    case False
    from min_list_props[OF this] have m: "min_list ?l \<in> set sources" "0 \<le> min_list ?l"
      "\<forall>x \<in> set sources. 0 \<le> x \<longrightarrow> min_list ?l \<le> x" by auto
    have "effective_limit_of sources version = Some (min_list ?l)"
      using False \<open>version \<ge> 4\<close> by (simp add: effective_limit_of_def Let_def)
    then show ?thesis
      using m \<open>version \<ge> 4\<close> False by (auto simp: documented_limit_def intro: order.antisym)
  qed
next
  case False
  show ?thesis
  proof (cases "sources = []")
    case True
    then show ?thesis using False by (simp add: effective_limit_of_def documented_limit_def)
  next
    case ne: False
    note m = min_list_props[OF ne]
    have "effective_limit_of sources version = Some (max 0 (min_list sources))"
      using False ne by (simp add: effective_limit_of_def)
    moreover have "(\<exists>x \<in> set sources. x \<le> 0) \<longleftrightarrow> min_list sources \<le> 0"
      using m by (meson order.trans)
    moreover have "n \<in> set sources \<and> (\<forall>x \<in> set sources. n \<le> x) \<longleftrightarrow> n = min_list sources"
      using m by (auto intro: order.antisym)
    ultimately show ?thesis
      using False ne by (auto simp: documented_limit_def max_def)
  qed
qed


section \<open>Properties\<close>

text \<open>
  When the browse guard refuses a queue, a browse, a snapshot and a lookup of a message all
  fail with that refusal, and nothing but Management API requests was made: the queue was never
  opened.
\<close>

theorem guard_refusal_untouched:
  assumes "service_guard E cached q h = (Inl e, h1)"
  shows "list_messages E (service_guard E cached) q limit depth h = (Inl e, h1) \<and>
         snapshot E (service_guard E cached) q d h = (Inl e, h1) \<and>
         get_message E (service_guard E cached) q fp limit depth h = (Inl e, h1) \<and>
         (\<exists>t. h1 = h @ t \<and> list_all is_management t)"
  using service_guard.refusal_ends[OF assms] service_guard.refusal_untouched[OF assms] by blast

text \<open>A quorum queue on a 4.x broker with no delivery limit configured: the default, 20, applies.\<close>

definition sample_stats :: "pyval dict" where
  "sample_stats = [(''type'', PStr ''quorum''), (''messages'', PInt 3), (''arguments'', PDict [])]"

definition sample_unlimited :: "pyval dict" where
  "sample_unlimited = [(''type'', PStr ''quorum''), (''messages'', PInt 3),
     (''arguments'', PDict [(''x-delivery-limit'', PInt (- 1))])]"

definition managed :: "pyval dict \<Rightarrow> env \<Rightarrow> env" where
  "managed raw E = E\<lparr>e_mgmt_queue := (\<lambda>_ _. Inr raw),
     e_overview := (\<lambda>_. Inr [(''rabbitmq_version'', PStr ''4.1.8'')])\<rparr>"

theorem guard_refusal_untouched_witness:
  "\<exists>e h1. snapshot (managed sample_stats quorum_env) (service_guard (managed sample_stats quorum_env) None)
     ''dlq'' 10 [] = (Inl e, h1) \<and> (\<exists>t. h1 = [] @ t \<and> list_all is_management t)"
proof -
  have "isl (fst (service_guard (managed sample_stats quorum_env) None ''dlq'' []))" by code_simp
  then obtain e h1 where "service_guard (managed sample_stats quorum_env) None ''dlq'' [] = (Inl e, h1)"
    by (metis isl_def prod.collapse)
  from guard_refusal_untouched[OF this, of 10 None 10 "[]"] show ?thesis
    by (intro exI[of _ e] exI[of _ h1]) simp
qed

text \<open>
  The guard lets a queue through only when returning its messages is harmless: it is no
  quorum queue, or a quorum queue without a delivery limit, with its statistics known and small
  enough to be held whole; and then it asks for whole scans exactly of quorum queues.
\<close>

theorem guard_lets_through:
  assumes "browsable q raw version = Inr whole"
  shows "\<exists>kind. queue_kind raw = Inr kind \<and> (whole \<longleftrightarrow> kind = PStr ''quorum'') \<and>
     (whole \<longrightarrow>
        (\<exists>sources. limit_sources raw = Inr sources \<and> \<not> (\<exists>n. documented_limit sources (major version) n)) \<and>
        dict_get raw ''messages'' \<noteq> None \<and>
        (\<exists>held. py_int (py_or (dict_get raw ''message_bytes_ready'') (PInt 0)) = Inr held \<and>
           held \<le> SCAN_BYTES_BUDGET))"
proof -
  obtain kind held where k: "queue_kind raw = Inr kind" "whole = (kind = PStr ''quorum'')"
    "delivery_limit raw version = Inr None"
    "py_int (py_or (dict_get raw ''message_bytes_ready'') (PInt 0)) = Inr held"
    "whole \<longrightarrow> dict_get raw ''messages'' \<noteq> None \<and> held \<le> SCAN_BYTES_BUDGET"
    using browsable_Inr[OF assms] by blast
  have "\<exists>sources. limit_sources raw = Inr sources \<and> \<not> (\<exists>n. documented_limit sources (major version) n)" if whole
    using k(1-3) that
    by (auto simp: delivery_limit_def or_raise_Inr_iff simp flip: effective_limit_documented)
  with k show ?thesis by blast
qed

theorem guard_lets_through_witness:
  "browsable ''dlq'' sample_unlimited (Some ''4.1.8'') = Inr True \<and>
   (\<exists>sources. limit_sources sample_unlimited = Inr sources \<and>
      \<not> (\<exists>n. documented_limit sources (major (Some ''4.1.8'')) n))"
proof -
  have run: "browsable ''dlq'' sample_unlimited (Some ''4.1.8'') = Inr True" by code_simp
  from guard_lets_through[OF run] run show ?thesis by blast
qed

text \<open>
  A snapshot taken through the service leaves a quorum queue exactly as it was: the broker
  reports it as a quorum queue, the guard refuses it or asks for a whole scan, and a whole scan
  returns everything in the order it was read.
\<close>

theorem snapshot_leaves_quorum_queue:
  assumes "serves to_back q s0 E" and "honest_processed E" and "gets_answered q E" and "unsettled h R"
    and "queue_after to_back q s0 h = \<lparr>q_ready = R, q_unacked = []\<rparr>"
    and "e_mgmt_queue E h q = Inr raw" and "queue_kind raw = Inr (PStr ''quorum'')"
    and "snapshot E (service_guard E cached) q depth h = (r, h')"
  shows "queue_after to_back q s0 h' = \<lparr>q_ready = R, q_unacked = []\<rparr>"
  by (rule service_guard.snapshot_quorum[OF assms(1-5,8)])
     (rule service_guard_whole[OF _ assms(6,7)])

definition managed_quorum_env :: env where
  "managed_quorum_env = managed sample_unlimited quorum_env"

lemma managed_quorum_serves:
  "serves to_back ''dlq'' three_messages managed_quorum_env" "honest_processed managed_quorum_env"
  "gets_answered q managed_quorum_env"
  by (simp_all add: managed_quorum_env_def managed_def sample_env_def serves_def honest_processed_def
      gets_answered_def)

theorem snapshot_leaves_quorum_queue_witness:
  "queue_after to_back ''dlq'' three_messages
     (snd (snapshot managed_quorum_env (service_guard managed_quorum_env None) ''dlq'' 10 [])) = three_messages \<and>
   \<not> isl (fst (snapshot managed_quorum_env (service_guard managed_quorum_env None) ''dlq'' 10 []))"
proof -
  have raw: "e_mgmt_queue managed_quorum_env [] ''dlq'' = Inr sample_unlimited"
    by (simp add: managed_quorum_env_def managed_def)
  have kind: "queue_kind sample_unlimited = Inr (PStr ''quorum'')"
    by (simp add: queue_kind_def sample_unlimited_def)
  have run: "snapshot managed_quorum_env (service_guard managed_quorum_env None) ''dlq'' 10 [] =
      (fst (snapshot managed_quorum_env (service_guard managed_quorum_env None) ''dlq'' 10 []),
       snd (snapshot managed_quorum_env (service_guard managed_quorum_env None) ''dlq'' 10 []))"
    by simp
  have "\<not> isl (fst (snapshot managed_quorum_env (service_guard managed_quorum_env None) ''dlq'' 10 []))"
    by code_simp
  with snapshot_leaves_quorum_queue[OF managed_quorum_serves sample_unsettled _ raw kind run]
  show ?thesis by (simp add: three_messages_def)
qed

end
