(* ===== verification/Rendering.thy ===== *)
theory Rendering
  imports Sample_World
begin

text \<open>
  What a client sees of a message: \<open>message_to_dict\<close> with masking and truncation
  (app/application/message_service.py, lines 61 to 131). The theorems say that a value
  under a masked key of the payload, the headers or the properties reaches no part of the answer, at
  any depth, and that the compressed original is withheld whenever it could give one away; the
  message's own fields, such as its correlation id, are shown whatever is masked.
\<close>


section \<open>Rendering\<close>

definition MASKED_VALUE :: string where
  "MASKED_VALUE = ''***''"

definition normalize_key :: "string \<Rightarrow> string" where
  "normalize_key key = filter (\<lambda>c. c \<noteq> CHR ''-'' \<and> c \<noteq> CHR ''_'') (lower (strip key))"

fun jsonable :: "pylib \<Rightarrow> string set \<Rightarrow> pyval \<Rightarrow> pyval" where
  "jsonable L masked (PTime t) = PStr (isoformat L t)"
| "jsonable L masked (PBytes b) = PStr (utf8_replace L b)"
| "jsonable L masked (PDict d) =
     PDict (map (\<lambda>(key, item).
       (key, if normalize_key key \<in> masked then PStr MASKED_VALUE else jsonable L masked item)) d)"
| "jsonable L masked (PList xs) = PList (map (jsonable L masked) xs)"
| "jsonable L masked v = v"

text \<open>\<open>a != b\<close>: a float that is not a number differs from itself.\<close>

definition py_differs :: "pyval \<Rightarrow> pyval \<Rightarrow> bool" where
  "py_differs a b \<longleftrightarrow> a \<noteq> b \<or> a = PFloat NotANumber"

definition payload_of :: "message_record \<Rightarrow> pyval" where
  "payload_of r = (case mr_payload r of None \<Rightarrow> PNone | Some v \<Rightarrow> v)"

definition masked_keys :: "string list \<Rightarrow> string set" where
  "masked_keys names = set (map normalize_key names)"

definition message_to_dict ::
  "pylib \<Rightarrow> message_record \<Rightarrow> int option \<Rightarrow> string list \<Rightarrow> exn + pyval dict"
where
  "message_to_dict L message max_size names =
     (let r = with_payload L message;
          masked = masked_keys names;
          payload = jsonable L masked (payload_of r);
          encoded = (if masked \<noteq> {} \<and> py_differs payload (jsonable L {} (payload_of r))
                     then None else mr_payload_encoded r);
          truncated = (case max_size of None \<Rightarrow> False | Some n \<Rightarrow> mr_payload_size r > n)
      in or_raise (deaths (mr_x_death r) (mr_headers r)) (\<lambda>died.
           Inr [(''fingerprint'', PStr (mr_fingerprint r)),
                (''queue'', PStr (mr_source_queue r)),
                (''payload'', case max_size of
                   Some n \<Rightarrow> if truncated then PStr (''[payload truncated at '' @ int_text n @ '' bytes]'') else payload
                 | None \<Rightarrow> payload),
                (''payload_truncated'', PBool truncated),
                (''payload_format'', PStr (mr_payload_format r)),
                (''payload_size'', PInt (mr_payload_size r)),
                (''decoded_from'', opt_str (mr_decoded_from r)),
                (''payload_encoded'', opt_str (if truncated then None else encoded)),
                (''content_type'', opt_str (mr_content_type r)),
                (''message_id'', opt_str (mr_message_id r)),
                (''correlation_id'', opt_str (mr_correlation_id r)),
                (''timestamp'', opt_str (map_option (isoformat L) (mr_timestamp r))),
                (''exchange'', PStr (mr_exchange r)),
                (''routing_key'', PStr (mr_routing_key r)),
                (''headers'', jsonable L masked (PDict (mr_headers r))),
                (''properties'', jsonable L masked (PDict (mr_properties r))),
                (''redelivered'', PBool (mr_redelivered r)),
                (''x_death'', jsonable L {} (PList (map PDict (mr_x_death r)))),
                (''deaths'', PInt died)]))"


section \<open>What can be seen of a value\<close>

text \<open>No value under a masked key, at any depth, other than the mask.\<close>

fun hides :: "string set \<Rightarrow> pyval \<Rightarrow> bool" where
  "hides masked (PDict d) \<longleftrightarrow>
     (\<forall>(k, v) \<in> set d. (normalize_key k \<in> masked \<longrightarrow> v = PStr MASKED_VALUE) \<and> hides masked v)"
| "hides masked (PList xs) \<longleftrightarrow> (\<forall>v \<in> set xs. hides masked v)"
| "hides masked _ \<longleftrightarrow> True"

text \<open>Two values that differ at most below masked keys.\<close>

inductive same_visible :: "string set \<Rightarrow> pyval \<Rightarrow> pyval \<Rightarrow> bool" for masked where
  same: "same_visible masked v v"
| in_list: "list_all2 (same_visible masked) xs ys \<Longrightarrow> same_visible masked (PList xs) (PList ys)"
| in_dict: "list_all2 (\<lambda>a b. fst a = fst b \<and> (normalize_key (fst a) \<in> masked \<or> same_visible masked (snd a) (snd b))) d e \<Longrightarrow>
     same_visible masked (PDict d) (PDict e)"

lemma jsonable_hides: "hides masked (jsonable L masked v)"
proof (induction L masked v rule: jsonable.induct)
  case (3 L masked d)
  then show ?case by (fastforce split: if_splits)
qed auto

text \<open>What is rendered does not depend on what is masked.\<close>

lemma jsonable_same_visible:
  "same_visible masked v w \<Longrightarrow> jsonable L masked v = jsonable L masked w"
proof (induction rule: same_visible.induct)
  case (in_list xs ys)
  then show ?case by (auto simp: list_all2_conv_all_nth intro: nth_equalityI)
next
  case (in_dict d e)
  then have "length d = length e"
    "\<And>i. i < length d \<Longrightarrow> (\<lambda>(k, v). (k, if normalize_key k \<in> masked then PStr MASKED_VALUE else jsonable L masked v)) (d ! i) =
        (\<lambda>(k, v). (k, if normalize_key k \<in> masked then PStr MASKED_VALUE else jsonable L masked v)) (e ! i)"
    by (auto simp: list_all2_conv_all_nth case_prod_unfold)
  then show ?case by (auto intro: nth_equalityI)
qed simp

text \<open>Without masked fields nothing changes but the types JSON does not have.\<close>

fun json_value :: "pyval \<Rightarrow> bool" where
  "json_value (PTime _) \<longleftrightarrow> False"
| "json_value (PBytes _) \<longleftrightarrow> False"
| "json_value (PDict d) \<longleftrightarrow> (\<forall>(k, v) \<in> set d. json_value v)"
| "json_value (PList xs) \<longleftrightarrow> (\<forall>v \<in> set xs. json_value v)"
| "json_value _ \<longleftrightarrow> True"

lemma jsonable_is_json: "json_value (jsonable L masked v)"
proof (induction L masked v rule: jsonable.induct)
  case (3 L masked d)
  then show ?case by (fastforce split: if_splits)
qed auto

lemma jsonable_id: "json_value v \<Longrightarrow> jsonable L {} v = v"
proof (induction v rule: json_value.induct)
  case (3 d)
  then show ?case by (auto intro!: map_idI)
next
  case (4 xs)
  then show ?case by (auto intro!: map_idI)
qed auto

lemma jsonable_idem: "jsonable L masked (jsonable L masked v) = jsonable L masked v"
proof (induction L masked v rule: jsonable.induct)
  case (3 L masked d)
  then show ?case by (auto simp: case_prod_unfold)
qed auto

lemma rendered_dict:
  assumes "message_to_dict L m max_size names = Inr d"
  shows "dict_get d ''headers'' = Some (jsonable L (masked_keys names) (PDict (mr_headers (with_payload L m))))"
    and "dict_get d ''properties'' = Some (jsonable L (masked_keys names) (PDict (mr_properties (with_payload L m))))"
    and "\<exists>s. dict_get d ''payload'' = Some (PStr s) \<or>
           dict_get d ''payload'' = Some (jsonable L (masked_keys names) (payload_of (with_payload L m)))"
    and "\<And>s. dict_get d ''payload_encoded'' = Some (PStr s) \<Longrightarrow>
           mr_payload_encoded (with_payload L m) = Some s \<and>
           (masked_keys names = {} \<or>
            jsonable L (masked_keys names) (payload_of (with_payload L m)) = jsonable L {} (payload_of (with_payload L m))) \<and>
           (\<forall>n. max_size = Some n \<longrightarrow> mr_payload_size (with_payload L m) \<le> n)"
proof -
  obtain died where d: "deaths (mr_x_death (with_payload L m)) (mr_headers (with_payload L m)) = Inr died"
    using assms by (auto simp: message_to_dict_def Let_def or_raise_Inr_iff)
  note eq = assms[unfolded message_to_dict_def Let_def d or_raise_simps, THEN sum.inject(2)[THEN iffD1], symmetric]
  show "dict_get d ''headers'' = Some (jsonable L (masked_keys names) (PDict (mr_headers (with_payload L m))))"
    "dict_get d ''properties'' = Some (jsonable L (masked_keys names) (PDict (mr_properties (with_payload L m))))"
    unfolding eq by (simp_all del: jsonable.simps)
  show "\<exists>s. dict_get d ''payload'' = Some (PStr s) \<or>
           dict_get d ''payload'' = Some (jsonable L (masked_keys names) (payload_of (with_payload L m)))"
    unfolding eq by (cases max_size) (auto simp del: jsonable.simps)
  show "mr_payload_encoded (with_payload L m) = Some s \<and>
           (masked_keys names = {} \<or>
            jsonable L (masked_keys names) (payload_of (with_payload L m)) = jsonable L {} (payload_of (with_payload L m))) \<and>
           (\<forall>n. max_size = Some n \<longrightarrow> mr_payload_size (with_payload L m) \<le> n)"
    if "dict_get d ''payload_encoded'' = Some (PStr s)" for s
    using that unfolding eq
    by (auto simp: py_differs_def opt_str_def simp del: jsonable.simps split: option.splits if_splits)
qed


text \<open>
  Two stored messages that differ at most in what masking hides: their payloads, headers and
  properties agree but below masked keys, and every other field a client sees is the same (the
  number of deaths is read from the \<open>x-queuelens-deaths\<close> header, so that one agrees too). Their
  compressed originals may differ where each payload has a hidden value.
\<close>

definition differ_in_hidden :: "pylib \<Rightarrow> string set \<Rightarrow> message_record \<Rightarrow> message_record \<Rightarrow> bool" where
  "differ_in_hidden L masked r r' \<longleftrightarrow>
     r' = r\<lparr>mr_body := mr_body r', mr_payload := mr_payload r', mr_headers := mr_headers r',
            mr_properties := mr_properties r', mr_payload_encoded := mr_payload_encoded r'\<rparr> \<and>
     same_visible masked (payload_of r) (payload_of r') \<and>
     same_visible masked (PDict (mr_headers r)) (PDict (mr_headers r')) \<and>
     same_visible masked (PDict (mr_properties r)) (PDict (mr_properties r')) \<and>
     dict_get (mr_headers r') DEATHS_HEADER = dict_get (mr_headers r) DEATHS_HEADER \<and>
     (payload_of r' = payload_of r \<and> mr_payload_encoded r' = mr_payload_encoded r \<or>
      \<not> hides masked (jsonable L {} (payload_of r)) \<and> \<not> hides masked (jsonable L {} (payload_of r')))"

lemma hides_nothing [simp]: "hides {} v"
  by (induction "{} :: string set" v rule: hides.induct) auto

lemma hidden_value_withholds_original:
  assumes "\<not> hides masked (jsonable L {} v)"
  shows "masked \<noteq> {}" "py_differs (jsonable L masked v) (jsonable L {} v)"
  using assms jsonable_hides[of masked L v] by (auto simp: py_differs_def)

lemma deaths_by_header:
  "dict_get h' DEATHS_HEADER = dict_get h DEATHS_HEADER \<Longrightarrow> deaths x h' = deaths x h"
  by (simp add: deaths_def stamped_deaths_def)

lemma rendered_alike:
  assumes "differ_in_hidden L (masked_keys names) (with_payload L m) (with_payload L m')"
  shows "message_to_dict L m' max_size names = message_to_dict L m max_size names"
proof -
  let ?M = "masked_keys names" and ?r = "with_payload L m" and ?r' = "with_payload L m'"
  let ?enc = "\<lambda>r. if ?M \<noteq> {} \<and> py_differs (jsonable L ?M (payload_of r)) (jsonable L {} (payload_of r))
                  then None else mr_payload_encoded r"
  note d = assms[unfolded differ_in_hidden_def]
  have shown: "jsonable L ?M (payload_of ?r') = jsonable L ?M (payload_of ?r)"
    "jsonable L ?M (PDict (mr_headers ?r')) = jsonable L ?M (PDict (mr_headers ?r))"
    "jsonable L ?M (PDict (mr_properties ?r')) = jsonable L ?M (PDict (mr_properties ?r))"
    using d jsonable_same_visible by metis+
  have enc: "?enc ?r' = ?enc ?r"
    using d hidden_value_withholds_original by metis
  have rest: "mr_fingerprint ?r' = mr_fingerprint ?r" "mr_source_queue ?r' = mr_source_queue ?r"
    "mr_payload_format ?r' = mr_payload_format ?r" "mr_payload_size ?r' = mr_payload_size ?r"
    "mr_content_type ?r' = mr_content_type ?r" "mr_message_id ?r' = mr_message_id ?r"
    "mr_correlation_id ?r' = mr_correlation_id ?r" "mr_timestamp ?r' = mr_timestamp ?r"
    "mr_exchange ?r' = mr_exchange ?r" "mr_routing_key ?r' = mr_routing_key ?r"
    "mr_redelivered ?r' = mr_redelivered ?r" "mr_x_death ?r' = mr_x_death ?r"
    "mr_decoded_from ?r' = mr_decoded_from ?r"
    by (subst d[THEN conjunct1], simp)+
  have "deaths (mr_x_death ?r') (mr_headers ?r') = deaths (mr_x_death ?r) (mr_headers ?r)"
    using d deaths_by_header rest by metis
  then show ?thesis
    unfolding message_to_dict_def Let_def by (simp only: shown enc[unfolded shown] rest)
qed


section \<open>Properties\<close>

text \<open>
  C9. No payload, header or property value under a masked key is shown, however deeply it is
  nested and however the key is spelt; the compressed original is shown only of a payload that
  has nothing to hide; and the whole answer is the same for any message that differs only in the
  hidden values. The message's other fields (its fingerprint, size, \<open>content_type\<close>, \<open>message_id\<close>,
  \<open>correlation_id\<close> and \<open>x_death\<close> among them) are shown as they are, whatever keys are masked.
\<close>

theorem masked_values_hidden:
  assumes "message_to_dict L m max_size names = Inr d"
  shows "(\<forall>k \<in> {''payload'', ''headers'', ''properties''}.
            \<exists>v. dict_get d k = Some v \<and> hides (masked_keys names) v) \<and>
         (\<forall>s. dict_get d ''payload_encoded'' = Some (PStr s) \<longrightarrow>
            hides (masked_keys names) (jsonable L {} (payload_of (with_payload L m)))) \<and>
         (\<forall>m'. differ_in_hidden L (masked_keys names) (with_payload L m) (with_payload L m') \<longrightarrow>
            message_to_dict L m' max_size names = Inr d)"
proof (intro conjI)
  obtain s where "dict_get d ''payload'' = Some (PStr s) \<or>
      dict_get d ''payload'' = Some (jsonable L (masked_keys names) (payload_of (with_payload L m)))"
    using rendered_dict(3)[OF assms] by blast
  then have "\<exists>v. dict_get d ''payload'' = Some v \<and> hides (masked_keys names) v"
    using jsonable_hides by auto
  with rendered_dict(1,2)[OF assms] jsonable_hides
  show "\<forall>k \<in> {''payload'', ''headers'', ''properties''}.
      \<exists>v. dict_get d k = Some v \<and> hides (masked_keys names) v" by blast
  show "\<forall>s. dict_get d ''payload_encoded'' = Some (PStr s) \<longrightarrow>
      hides (masked_keys names) (jsonable L {} (payload_of (with_payload L m)))"
    using rendered_dict(4)[OF assms] jsonable_hides[of "masked_keys names" L] by (metis hides_nothing)
  show "\<forall>m'. differ_in_hidden L (masked_keys names) (with_payload L m) (with_payload L m') \<longrightarrow>
      message_to_dict L m' max_size names = Inr d"
    using rendered_alike assms by simp
qed

definition secret_message :: message_record where
  "secret_message = (to_record sample_lib ''dlq'' False (sample_message 1 ''a''))
     \<lparr>mr_payload := Some (PDict [(''user'', PDict [(''API-Key'', PStr ''k''), (''name'', PStr ''n'')])]),
      mr_payload_encoded := Some ''H4sI'',
      mr_headers := [(''apiKey'', PStr ''k''), (''trace'', PInt 1)]\<rparr>"

definition secret_message' :: message_record where
  "secret_message' = secret_message
     \<lparr>mr_payload := Some (PDict [(''user'', PDict [(''API-Key'', PStr ''z''), (''name'', PStr ''n'')])]),
      mr_payload_encoded := Some ''H4sJ'',
      mr_headers := [(''apiKey'', PStr ''z''), (''trace'', PInt 1)]\<rparr>"

lemma secret_messages_differ_in_hidden:
  "differ_in_hidden sample_lib (masked_keys [''api_key''])
     (with_payload sample_lib secret_message) (with_payload sample_lib secret_message')"
proof -
  have k: "normalize_key ''API-Key'' \<in> masked_keys [''api_key'']"
    "normalize_key ''apiKey'' \<in> masked_keys [''api_key'']" by code_simp+
  show ?thesis
    by (auto simp: differ_in_hidden_def with_payload_def secret_message_def secret_message'_def
        payload_of_def DEATHS_HEADER_def MASKED_VALUE_def k intro!: same_visible.intros)
qed

theorem masked_values_hidden_witness:
  "\<exists>d. message_to_dict sample_lib secret_message None [''api_key''] = Inr d \<and>
     dict_get d ''payload'' = Some (PDict [(''user'', PDict [(''API-Key'', PStr ''***''), (''name'', PStr ''n'')])]) \<and>
     dict_get d ''payload_encoded'' = Some PNone \<and>
     message_to_dict sample_lib secret_message' None [''api_key''] = Inr d"
proof -
  have run: "\<not> isl (message_to_dict sample_lib secret_message None [''api_key''])" by code_simp
  then obtain d where d: "message_to_dict sample_lib secret_message None [''api_key''] = Inr d"
    by (cases "message_to_dict sample_lib secret_message None [''api_key'']") auto
  have "dict_get (projr (message_to_dict sample_lib secret_message None [''api_key''])) ''payload'' =
      Some (PDict [(''user'', PDict [(''API-Key'', PStr ''***''), (''name'', PStr ''n'')])])"
    "dict_get (projr (message_to_dict sample_lib secret_message None [''api_key''])) ''payload_encoded'' = Some PNone"
    by code_simp+
  with d masked_values_hidden[OF d] secret_messages_differ_in_hidden show ?thesis by auto
qed

text \<open>
  Rendering reveals nothing of the masked values: two messages that differ only in payload,
  header or property values below masked keys render the same payload, headers and properties.
\<close>

theorem masked_values_irrelevant:
  assumes "same_visible (masked_keys names) v w"
  shows "jsonable L (masked_keys names) v = jsonable L (masked_keys names) w"
  using jsonable_same_visible[OF assms] .

theorem masked_values_irrelevant_witness:
  "jsonable sample_lib (masked_keys [''password'']) (PDict [(''Password'', PStr ''one''), (''n'', PInt 1)]) =
   jsonable sample_lib (masked_keys [''password'']) (PDict [(''Password'', PStr ''two''), (''n'', PInt 1)])"
proof -
  have "normalize_key ''Password'' \<in> masked_keys [''password'']" by code_simp
  then have "same_visible (masked_keys [''password'']) (PDict [(''Password'', PStr ''one''), (''n'', PInt 1)])
      (PDict [(''Password'', PStr ''two''), (''n'', PInt 1)])"
    by (auto intro!: same_visible.intros)
  from masked_values_irrelevant[OF this] show ?thesis .
qed

text \<open>
  The undecoded original of a compressed payload is shown only where it gives nothing away:
  masking changed nothing in the payload, and the payload was not truncated.
\<close>

theorem encoded_payload_gives_nothing_away:
  assumes "message_to_dict L m max_size names = Inr d"
    and "dict_get d ''payload_encoded'' = Some (PStr s)"
  shows "(masked_keys names = {} \<or> hides (masked_keys names) (jsonable L {} (payload_of (with_payload L m)))) \<and>
         (\<forall>n. max_size = Some n \<longrightarrow> mr_payload_size (with_payload L m) \<le> n)"
  using rendered_dict(4)[OF assms] jsonable_hides[of "masked_keys names" L] by metis

definition packed_message :: message_record where
  "packed_message = (to_record sample_lib ''dlq'' False (sample_message 1 ''a''))
     \<lparr>mr_payload := Some (PDict [(''n'', PInt 1)]), mr_payload_encoded := Some ''H4sI''\<rparr>"

theorem encoded_payload_gives_nothing_away_witness:
  "\<exists>d. message_to_dict sample_lib packed_message (Some 10) [''api_key''] = Inr d \<and>
     dict_get d ''payload_encoded'' = Some (PStr ''H4sI'') \<and>
     mr_payload_size (with_payload sample_lib packed_message) \<le> 10"
proof -
  have run: "\<not> isl (message_to_dict sample_lib packed_message (Some 10) [''api_key''])" by code_simp
  then obtain d where d: "message_to_dict sample_lib packed_message (Some 10) [''api_key''] = Inr d"
    by (cases "message_to_dict sample_lib packed_message (Some 10) [''api_key'']") auto
  have "dict_get (projr (message_to_dict sample_lib packed_message (Some 10) [''api_key''])) ''payload_encoded'' =
      Some (PStr ''H4sI'')"
    by code_simp
  with d have e: "dict_get d ''payload_encoded'' = Some (PStr ''H4sI'')" by simp
  from encoded_payload_gives_nothing_away[OF d e] d e show ?thesis by auto
qed

end
