(* ===== verification/Config.thy ===== *)
theory Config
  imports Sample_World
begin

text \<open>
  The settings the components read (app/config.py), the overrides an Admin stores for the limits
  (\<open>effective_limit\<close>, app/api/routes/messages.py) and the configured replay target of a queue
  (app/application/action_service.py). pydantic's parsing of the environment is not modelled: a
  \<open>settings\<close> value is what it produced.
\<close>


section \<open>Settings\<close>

record settings =
  s_environment :: string
  s_auth_enabled :: bool
  s_admin_username :: string
  s_admin_password :: string
  s_rabbitmq_url :: string
  s_management_url :: string
  s_management_username :: string
  s_management_password :: string
  s_rabbitmq_vhost :: string
  s_max_preview_messages :: int
  s_max_message_size_bytes :: int
  s_refetch_window_size :: int
  s_max_browse_depth :: int
  s_replay_targets_json :: string
  s_max_bulk_size :: int
  s_bulk_dry_run_ttl_seconds :: int
  s_masking_enabled :: bool
  s_masked_fields :: string
  s_users_json :: string
  s_environments_json :: string
  s_auth_proxy_header :: string
  s_auth_proxy_groups_header :: string
  s_auth_proxy_roles_json :: string
  s_auth_proxy_default_role :: string
  s_trusted_proxies :: string
  s_app_name :: string
  s_connection_name :: string
  s_operation_timeout :: pyfloat

definition ROLES :: "string list" where
  "ROLES = [''Viewer'', ''Operator'', ''Admin'']"

definition entries :: "string \<Rightarrow> string list" where
  "entries value = filter (\<lambda>e. e \<noteq> []) (map strip (split_on CHR '','' value))"

definition masked_field_names :: "settings \<Rightarrow> string list" where
  "masked_field_names s = (if s_masking_enabled s then entries (s_masked_fields s) else [])"

text \<open>The JSON-valued settings: \<open>name\<close> is the environment variable the error names.\<close>

definition json_object :: "pylib \<Rightarrow> string \<Rightarrow> string \<Rightarrow> exn + pyval dict" where
  "json_object L name text =
     (case json_loads L text of
        None \<Rightarrow> Inl (mk_exn ValueErr (name @ '' must contain valid JSON''))
      | Some (PDict d) \<Rightarrow> Inr d
      | Some _ \<Rightarrow> Inl (mk_exn ValueErr (name @ '' must be an object'')))"

definition settings_users :: "pylib \<Rightarrow> settings \<Rightarrow> exn + string dict" where
  "settings_users L s =
     or_raise (json_object L ''QUEUELENS_USERS_JSON'' (s_users_json s)) (\<lambda>parsed.
       Inr (dict_set (s_admin_username s) (s_admin_password s)
              (map (\<lambda>(name, password). (name, py_str L password)) parsed)))"

definition settings_environments :: "pylib \<Rightarrow> settings \<Rightarrow> exn + pyval dict" where
  "settings_environments L s = json_object L ''QUEUELENS_ENVIRONMENTS_JSON'' (s_environments_json s)"

definition settings_replay_targets :: "pylib \<Rightarrow> settings \<Rightarrow> exn + pyval dict" where
  "settings_replay_targets L s = json_object L ''QUEUELENS_REPLAY_TARGETS_JSON'' (s_replay_targets_json s)"

definition valid_default_role :: "string \<Rightarrow> bool" where
  "valid_default_role value \<longleftrightarrow> value = [] \<or> value \<in> set ROLES"

definition valid_roles :: "pylib \<Rightarrow> string \<Rightarrow> bool" where
  "valid_roles L value \<longleftrightarrow>
     (case json_loads L value of
        Some (PDict d) \<Rightarrow> (\<forall>(_, v) \<in> set d. v \<in> PStr ` set ROLES)
      | _ \<Rightarrow> False)"


section \<open>The configured replay target\<close>

text \<open>Names in a configured target are strings; another JSON value counts as absent.\<close>

definition configured_target :: "pylib \<Rightarrow> settings \<Rightarrow> string \<Rightarrow> exn + replay_target option" where
  "configured_target L s source_queue =
     or_raise (settings_replay_targets L s) (\<lambda>targets.
       let raw = py_get targets source_queue
       in if \<not> truthy raw then Inr None
          else or_raise (as_dict raw) (\<lambda>t.
            Inr (Some \<lparr>target_type = py_str L (case dict_get t ''type'' of None \<Rightarrow> PStr [] | Some v \<Rightarrow> v),
                       target_queue = str_value (py_get t ''queue''),
                       target_exchange = str_value (py_get t ''exchange''),
                       target_routing_key = str_value (py_get t ''routing_key'')\<rparr>)))"


section \<open>Limits\<close>

definition HARD_CEILING :: int where
  "HARD_CEILING = 1000"

definition ceiling_of :: "string \<Rightarrow> int" where
  "ceiling_of key = (if key = ''max_browse_depth'' then 50000 else HARD_CEILING)"

definition default_limit :: "settings \<Rightarrow> string \<Rightarrow> int" where
  "default_limit s key =
     (if key = ''max_browse_depth'' then s_max_browse_depth s
      else if key = ''max_bulk_size'' then s_max_bulk_size s
      else if key = ''refetch_window_size'' then s_refetch_window_size s
      else s_max_preview_messages s)"

text \<open>\<open>settings_store.get_safe(key, d) or d\<close>: any failure gives the default.\<close>

definition get_safe :: "env \<Rightarrow> string \<Rightarrow> pyval \<Rightarrow> pyval io" where
  "get_safe E key dflt =
     bnd (outcome (read_setting E key)) (\<lambda>r.
       ret (case r of Inl _ \<Rightarrow> dflt | Inr v \<Rightarrow> if truthy v then v else dflt))"

definition clamp_limit :: "int \<Rightarrow> int \<Rightarrow> int" where
  "clamp_limit value upper = max 1 (min value upper)"

definition limit_from :: "pyval \<Rightarrow> string \<Rightarrow> int \<Rightarrow> int \<Rightarrow> exn + int" where
  "limit_from stored key dflt upper =
     or_raise (as_dict stored) (\<lambda>d.
     or_raise (py_int (py_or (dict_get d key) (PInt dflt))) (\<lambda>n. Inr (clamp_limit n upper)))"

definition effective_limit :: "env \<Rightarrow> settings \<Rightarrow> string \<Rightarrow> int io" where
  "effective_limit E s key =
     bnd (get_safe E ''limits'' (PDict [])) (\<lambda>stored.
       lift (limit_from stored key (default_limit s key) (ceiling_of key)))"


section \<open>Lemmas\<close>

lemma entries_clean: "e \<in> set (entries v) \<Longrightarrow> e \<noteq> [] \<and> (\<exists>p \<in> set (split_on CHR '','' v). e = strip p)"
  by (auto simp: entries_def)

lemma masking_off: "\<not> s_masking_enabled s \<Longrightarrow> masked_field_names s = []"
  by (simp add: masked_field_names_def)

text \<open>The admin account of the environment always has its configured password.\<close>

lemma admin_always_present:
  "settings_users L s = Inr u \<Longrightarrow> dict_get u (s_admin_username s) = Some (s_admin_password s)"
  by (auto simp: settings_users_def or_raise_Inr_iff AList.update_conv')

lemma clamp_limit_bounds: "1 \<le> upper \<Longrightarrow> 1 \<le> clamp_limit n upper \<and> clamp_limit n upper \<le> upper"
  by (auto simp: clamp_limit_def)

lemma limit_from_bounds: "1 \<le> upper \<Longrightarrow> limit_from v k d upper = Inr n \<Longrightarrow> 1 \<le> n \<and> n \<le> upper"
  using clamp_limit_bounds by (auto simp: limit_from_def or_raise_Inr_iff)

lemma ceiling_of_pos: "1 \<le> ceiling_of key"
  by (simp add: ceiling_of_def HARD_CEILING_def)

lemma effective_limit_Inr:
  "effective_limit E s key h = (Inr n, h') \<Longrightarrow>
     \<exists>stored. limit_from stored key (default_limit s key) (ceiling_of key) = Inr n"
  by (auto simp: effective_limit_def get_safe_def bnd_def lift_def ret_def outcome_def
      split: prod.splits sum.splits)

lemma emits_get_safe [emits_intros]: "(\<And>k r. P (EvSetting k r)) \<Longrightarrow> emits P (get_safe E key d)"
  unfolding get_safe_def by (intro emits_intros)

lemma emits_effective_limit [emits_intros]:
  "(\<And>k r. P (EvSetting k r)) \<Longrightarrow> emits P (effective_limit E s key)"
  unfolding effective_limit_def by (intro emits_intros)


section \<open>Properties\<close>

text \<open>
  A limit in force is always between 1 and its ceiling, whatever an Admin stored and whatever
  the environment variable says (50000 for the browse depth, 1000 for the others).
\<close>

theorem effective_limit_within_ceiling:
  assumes "effective_limit E s key h = (Inr n, h')"
  shows "1 \<le> n \<and> n \<le> ceiling_of key \<and> ceiling_of key \<le> 50000"
proof -
  obtain stored where "limit_from stored key (default_limit s key) (ceiling_of key) = Inr n"
    using effective_limit_Inr[OF assms] by blast
  from limit_from_bounds[OF ceiling_of_pos this] show ?thesis
    by (simp add: ceiling_of_def HARD_CEILING_def)
qed

definition sample_settings :: settings where
  "sample_settings =
     \<lparr>s_environment = ''prod'', s_auth_enabled = True, s_admin_username = ''admin'',
      s_admin_password = ''pw'', s_rabbitmq_url = ''amqp://h:1/'', s_management_url = ''http://h'',
      s_management_username = ''guest'', s_management_password = ''guest'', s_rabbitmq_vhost = ''/'',
      s_max_preview_messages = 100, s_max_message_size_bytes = 1048576, s_refetch_window_size = 100,
      s_max_browse_depth = 5000, s_replay_targets_json = ''{}'', s_max_bulk_size = 500,
      s_bulk_dry_run_ttl_seconds = 600, s_masking_enabled = True, s_masked_fields = ''password, api_key'',
      s_users_json = ''{}'', s_environments_json = ''{}'', s_auth_proxy_header = [],
      s_auth_proxy_groups_header = [], s_auth_proxy_roles_json = ''{}'',
      s_auth_proxy_default_role = ''Viewer'', s_trusted_proxies = ''127.0.0.1'',
      s_app_name = ''QueueLens'', s_connection_name = ''queuelens'', s_operation_timeout = Finite 10\<rparr>"

definition wild_env :: env where
  "wild_env = classic_env\<lparr>e_setting := (\<lambda>_ _. Inr (PDict [(''max_bulk_size'', PInt 99999)]))\<rparr>"

theorem effective_limit_within_ceiling_witness:
  "fst (effective_limit wild_env sample_settings ''max_bulk_size'' []) = Inr 1000 \<and>
   (1::int) \<le> 1000 \<and> 1000 \<le> ceiling_of ''max_bulk_size''"
proof -
  have v: "fst (effective_limit wild_env sample_settings ''max_bulk_size'' []) = Inr 1000" by code_simp
  then have run: "effective_limit wild_env sample_settings ''max_bulk_size'' [] =
      (Inr 1000, snd (effective_limit wild_env sample_settings ''max_bulk_size'' []))"
    by (metis prod.collapse)
  from effective_limit_within_ceiling[OF run] v show ?thesis by simp
qed

end
