(* ===== verification/Snapshots.thy ===== *)
theory Snapshots
  imports Config
begin

text \<open>
  Browse snapshots: one scan kept in memory for a few minutes and paged from there
  (app/application/snapshots.py), and how far an action has to scan to reach what a snapshot
  showed (\<open>scan_depth\<close>, app/api/routes/messages.py).

  The store is the ordered dictionary of the code, oldest use first. The clock is an argument
  (\<open>now\<close>, microseconds), and so is the random id of a new snapshot.
\<close>


section \<open>A snapshot\<close>

definition SNAPSHOT_TTL :: int where
  "SNAPSHOT_TTL = minutes 5"

definition MAX_SNAPSHOTS :: nat where
  "MAX_SNAPSHOTS = 4"

type_synonym scope = "string \<times> string"

record snap =
  sn_id :: string
  sn_scope :: scope
  sn_queue :: string
  sn_records :: "message_record list"
  sn_ready :: int
  sn_stopped :: "string option"
  sn_depth :: int
  sn_created_at :: int

text \<open>\<open>__post_init__\<close>: later copies of a fingerprint overwrite the position.\<close>

fun positions_from :: "int \<Rightarrow> message_record list \<Rightarrow> int dict \<Rightarrow> int dict" where
  "positions_from i [] d = d"
| "positions_from i (r # rs) d = positions_from (i + 1) rs (dict_set (mr_fingerprint r) i d)"

definition positions :: "message_record list \<Rightarrow> int dict" where
  "positions records = positions_from 0 records []"

definition expires_at :: "snap \<Rightarrow> int" where
  "expires_at s = sn_created_at s + SNAPSHOT_TTL"

definition snap_meta :: "pylib \<Rightarrow> snap \<Rightarrow> pyval dict" where
  "snap_meta L s =
     [(''id'', PStr (sn_id s)), (''scanned'', PInt (int (length (sn_records s)))),
      (''ready'', PInt (sn_ready s)), (''complete'', PBool (sn_stopped s = None)),
      (''stopped'', opt_str (sn_stopped s)), (''depth'', PInt (sn_depth s)),
      (''created_at'', PStr (isoformat L (Aware (sn_created_at s)))),
      (''expires_at'', PStr (isoformat L (Aware (expires_at s))))]"

definition haystack :: "pylib \<Rightarrow> message_record \<Rightarrow> string" where
  "haystack L r =
     lower (join_with '' '' [utf8_ignore L (mr_body r), str_or (mr_message_id r) [], mr_fingerprint r,
                             json_dumps L (PDict (mr_headers r))])"

text \<open>The three filters of one record, in the order of the code; counting deaths may raise.\<close>

definition matches_filters ::
  "pylib \<Rightarrow> string \<Rightarrow> string option \<Rightarrow> int option \<Rightarrow> message_record \<Rightarrow> exn + bool"
where
  "matches_filters L needle payload_format min_deaths r =
     (if str_or payload_format [] \<noteq> [] \<and> mr_payload_format r \<noteq> str_or payload_format [] then Inr False
      else if int_or min_deaths 0 \<noteq> 0
      then or_raise (deaths (mr_x_death r) (mr_headers r)) (\<lambda>n.
             Inr (\<not> n < int_or min_deaths 0 \<and> (needle = [] \<or> contains needle (haystack L r))))
      else Inr (needle = [] \<or> contains needle (haystack L r)))"

fun matching_from ::
  "pylib \<Rightarrow> string \<Rightarrow> string option \<Rightarrow> int option \<Rightarrow> message_record list \<Rightarrow> exn + message_record list"
where
  "matching_from L needle payload_format min_deaths [] = Inr []"
| "matching_from L needle payload_format min_deaths (r # rs) =
     or_raise (matches_filters L needle payload_format min_deaths r) (\<lambda>keep.
     or_raise (matching_from L needle payload_format min_deaths rs) (\<lambda>out.
       Inr (if keep then r # out else out)))"

definition matching ::
  "pylib \<Rightarrow> snap \<Rightarrow> string option \<Rightarrow> string option \<Rightarrow> int option \<Rightarrow> exn + message_record list"
where
  "matching L s text payload_format min_deaths =
     matching_from L (lower (strip (str_or text []))) payload_format min_deaths (sn_records s)"


section \<open>The store\<close>

type_synonym snap_store = "(string \<times> snap) list"

definition prune :: "int \<Rightarrow> snap_store \<Rightarrow> snap_store" where
  "prune now store = filter (\<lambda>(_, s). \<not> expires_at s \<le> now) store"

definition drop_oldest :: "snap_store \<Rightarrow> snap_store" where
  "drop_oldest store = drop (length store - MAX_SNAPSHOTS) store"

definition store_add ::
  "int \<Rightarrow> string \<Rightarrow> scope \<Rightarrow> string \<Rightarrow> message_record list \<Rightarrow> int \<Rightarrow> string option \<Rightarrow> int \<Rightarrow>
     snap_store \<Rightarrow> snap \<times> snap_store"
where
  "store_add now new_id scope queue records ready stopped depth store =
     (let s = \<lparr>sn_id = new_id, sn_scope = scope, sn_queue = queue, sn_records = records,
               sn_ready = ready, sn_stopped = stopped, sn_depth = depth, sn_created_at = now\<rparr>
      in (s, drop_oldest (dict_set new_id s (prune now store))))"

definition move_to_end :: "string \<Rightarrow> snap_store \<Rightarrow> snap_store" where
  "move_to_end key store =
     filter (\<lambda>(k, _). k \<noteq> key) store @ filter (\<lambda>(k, _). k = key) store"

definition store_get :: "int \<Rightarrow> string \<Rightarrow> scope \<Rightarrow> string \<Rightarrow> snap_store \<Rightarrow> snap option \<times> snap_store" where
  "store_get now key scope queue store =
     (let store' = prune now store
      in case dict_get store' key of
           None \<Rightarrow> (None, store')
         | Some s \<Rightarrow> if sn_scope s \<noteq> scope \<or> sn_queue s \<noteq> queue then (None, store')
                     else (Some s, move_to_end key store'))"


section \<open>How far an action scans\<close>

definition deepest :: "int dict \<Rightarrow> string list \<Rightarrow> int" where
  "deepest pos fps =
     (case map (\<lambda>fp. case dict_get pos fp of None \<Rightarrow> - 1 | Some i \<Rightarrow> i) fps of
        [] \<Rightarrow> - 1 | p # ps \<Rightarrow> fold max ps p)"

definition depth_to_reach :: "int \<Rightarrow> int \<Rightarrow> int dict \<Rightarrow> string list \<Rightarrow> int" where
  "depth_to_reach window depth pos fps = min depth (max window (deepest pos fps + 1 + window))"

definition scan_depth ::
  "env \<Rightarrow> settings \<Rightarrow> scope \<Rightarrow> string \<Rightarrow> string list \<Rightarrow> string option \<Rightarrow> snap_store \<Rightarrow>
     ((exn + int) \<times> snap_store) io"
where
  "scan_depth E cfg scope queue fps snapshot_id store =
     bnd (outcome (effective_limit E cfg ''refetch_window_size'')) (\<lambda>w.
       case w of
         Inl e \<Rightarrow> ret (Inl e, store)
       | Inr window \<Rightarrow>
           if str_or snapshot_id [] = [] then ret (Inr window, store)
           else
             bnd (clock E) (\<lambda>now.
               case store_get now (str_or snapshot_id []) scope queue store of
                 (None, store') \<Rightarrow> ret (Inr window, store')
               | (Some s, store') \<Rightarrow>
                   bnd (outcome (effective_limit E cfg ''max_browse_depth'')) (\<lambda>d.
                     ret (or_raise d (\<lambda>depth.
                       Inr (depth_to_reach window depth (positions (sn_records s)) fps)), store'))))"


section \<open>Invariant of the store\<close>

text \<open>Keys are distinct and name their snapshot, and there are at most four.\<close>

definition store_ok :: "snap_store \<Rightarrow> bool" where
  "store_ok store \<longleftrightarrow>
     distinct (map fst store) \<and> (\<forall>(k, s) \<in> set store. sn_id s = k) \<and> length store \<le> MAX_SNAPSHOTS"

definition live_at :: "int \<Rightarrow> snap_store \<Rightarrow> bool" where
  "live_at now store \<longleftrightarrow> (\<forall>(_, s) \<in> set store. now < expires_at s)"

lemma prune_ok: "store_ok store \<Longrightarrow> store_ok (prune now store)"
  by (auto simp: store_ok_def prune_def intro: distinct_filter_keys le_trans[OF length_filter_le])

lemma prune_live: "live_at now (prune now store)"
  by (auto simp: live_at_def prune_def)

lemma set_move_to_end: "set (move_to_end key store) = set store"
  by (auto simp: move_to_end_def)

lemma move_to_end_ok: "store_ok store \<Longrightarrow> store_ok (move_to_end key store)"
proof -
  assume ok: "store_ok store"
  have "length (move_to_end key store) = length store"
    using sum_length_filter_compl[of "\<lambda>(k, _). k \<noteq> key" store]
    by (simp add: move_to_end_def case_prod_unfold)
  moreover have "distinct (map fst (move_to_end key store))"
    using ok
    by (auto simp: store_ok_def move_to_end_def case_prod_unfold distinct_filter_keys)
  ultimately show ?thesis
    using ok set_move_to_end by (auto simp: store_ok_def)
qed

lemma drop_oldest_ok:
  "distinct (map fst store) \<Longrightarrow> \<forall>(k, s) \<in> set store. sn_id s = k \<Longrightarrow> store_ok (drop_oldest store)"
  by (auto simp: store_ok_def drop_oldest_def MAX_SNAPSHOTS_def drop_map[symmetric] dest: in_set_dropD
      intro!: distinct_drop)

lemma store_get_ok:
  "store_ok store \<Longrightarrow> store_ok (snd (store_get now key scope q store))"
  by (auto simp: store_get_def Let_def prune_ok move_to_end_ok split: option.splits)

lemma store_add_ok:
  assumes "store_ok store"
  shows "store_ok (snd (store_add now new_id scope q rs ready stopped depth store))"
proof -
  have ok: "store_ok (prune now store)" using prune_ok[OF assms] .
  show ?thesis
    unfolding store_add_def Let_def snd_conv
  proof (rule drop_oldest_ok)
    show "distinct (map fst (dict_set new_id s (prune now store)))" for s
      using ok by (simp add: store_ok_def AList.distinct_update)
    show "\<forall>(k, x) \<in> set (dict_set new_id \<lparr>sn_id = new_id, sn_scope = scope, sn_queue = q,
        sn_records = rs, sn_ready = ready, sn_stopped = stopped, sn_depth = depth,
        sn_created_at = now\<rparr> (prune now store)). sn_id x = k"
    proof -
      have "(k, x) \<in> set (dict_set j v d) \<Longrightarrow> (k, x) = (j, v) \<or> (k, x) \<in> set d" for k x j and v :: snap and d
        by (induction d) (auto split: if_splits)
      then show ?thesis using ok by (fastforce simp: store_ok_def)
    qed
  qed
qed

text \<open>The new snapshot is there, at the end.\<close>

lemma last_update_fresh:
  "k \<notin> fst ` set d \<Longrightarrow> dict_set k v d = d @ [(k, v)]"
  by (induction d) auto

lemma store_add_found:
  assumes "store_ok store" "new_id \<notin> fst ` set store"
    and "store_add now new_id scope q rs ready stopped depth store = (s, store')"
  shows "dict_get store' new_id = Some s \<and> expires_at s = now + SNAPSHOT_TTL"
proof -
  have fresh: "new_id \<notin> fst ` set (prune now store)" using assms(2) by (auto simp: prune_def)
  have s: "s = \<lparr>sn_id = new_id, sn_scope = scope, sn_queue = q, sn_records = rs, sn_ready = ready,
      sn_stopped = stopped, sn_depth = depth, sn_created_at = now\<rparr>"
    and st: "store' = drop_oldest (dict_set new_id s (prune now store))"
    using assms(3) by (auto simp: store_add_def Let_def)
  have "length (prune now store) \<le> MAX_SNAPSHOTS"
    using prune_ok[OF assms(1)] by (simp add: store_ok_def)
  then have "store' = drop (length (prune now store) + 1 - MAX_SNAPSHOTS) (prune now store) @ [(new_id, s)]"
    unfolding st drop_oldest_def last_update_fresh[OF fresh]
    by (simp add: MAX_SNAPSHOTS_def)
  moreover have "new_id \<notin> fst ` set (drop n (prune now store))" for n
    using fresh by (auto dest: in_set_dropD)
  ultimately show ?thesis
    using s by (simp add: map_of_append map_add_Some_iff expires_at_def dom_map_of_conv_image_fst
        map_of_eq_None_iff[THEN iffD2])
qed

lemma store_get_SomeD:
  assumes "store_get now key scope q store = (Some s, store')"
  shows "sn_scope s = scope \<and> sn_queue s = q \<and> now < expires_at s \<and> (key, s) \<in> set store"
  using assms
  by (auto simp: store_get_def prune_def Let_def dest!: map_of_SomeD split: option.splits if_splits)


section \<open>Positions and depth\<close>

lemma positions_from_get:
  "dict_get (positions_from i rs d) fp =
     (case last_index (\<lambda>r. mr_fingerprint r = fp) rs of
        None \<Rightarrow> dict_get d fp | Some j \<Rightarrow> Some (i + int j))"
proof (induction rs arbitrary: i d)
  case Nil
  then show ?case by simp
next
  case (Cons r rs)
  then show ?case by (auto simp: AList.update_conv' split: option.splits)
qed

lemma positions_get:
  "dict_get (positions rs) fp = map_option int (last_index (\<lambda>r. mr_fingerprint r = fp) rs)"
  by (auto simp: positions_def positions_from_get split: option.splits)

lemma fold_max_ge: "x \<in> set (p # ps) \<Longrightarrow> x \<le> fold max ps (p :: int)"
  by (simp only: Max.set_eq_fold[symmetric]) simp

lemma deepest_ge: "fp \<in> set fps \<Longrightarrow> dict_get pos fp = Some i \<Longrightarrow> i \<le> deepest pos fps"
proof -
  assume *: "fp \<in> set fps" "dict_get pos fp = Some i"
  then have "i \<in> set (map (\<lambda>fp. case dict_get pos fp of None \<Rightarrow> - 1 | Some i \<Rightarrow> i) fps)"
    by force
  then obtain p ps where "map (\<lambda>fp. case dict_get pos fp of None \<Rightarrow> - 1 | Some i \<Rightarrow> i) fps = p # ps"
      "i \<in> set (p # ps)"
    by (cases "map (\<lambda>fp. case dict_get pos fp of None \<Rightarrow> - 1 | Some i \<Rightarrow> i) fps") auto
  then show ?thesis
    unfolding deepest_def using fold_max_ge by simp
qed

lemma depth_reaches:
  assumes "fp \<in> set fps" "last_index (\<lambda>r. mr_fingerprint r = fp) rs = Some i" "0 \<le> window"
  shows "min depth (int i + 1 + window) \<le> depth_to_reach window depth (positions rs) fps"
  using deepest_ge[OF assms(1), of "positions rs" "int i"] assms(2,3)
  by (simp add: depth_to_reach_def positions_get)


section \<open>Histories of the store\<close>

inductive store_step :: "int \<Rightarrow> snap_store \<Rightarrow> snap_store \<Rightarrow> bool" where
  added: "store_step now store (snd (store_add now new_id scope q rs ready stopped depth store))"
| looked_up: "store_step now store (snd (store_get now key scope q store))"

inductive store_reachable :: "snap_store \<Rightarrow> bool" where
  empty: "store_reachable []"
| step: "store_reachable store \<Longrightarrow> store_step now store store' \<Longrightarrow> store_reachable store'"

inductive_cases store_stepE: "store_step now store store'"

lemma store_step_ok: "store_step now store store' \<Longrightarrow> store_ok store \<Longrightarrow> store_ok store'"
  by (erule store_stepE) (auto intro: store_add_ok store_get_ok)

lemma reachable_ok: "store_reachable store \<Longrightarrow> store_ok store"
proof (induction rule: store_reachable.induct)
  case empty
  show ?case by (simp add: store_ok_def)
next
  case (step store now store')
  then show ?case by (blast intro: store_step_ok)
qed


section \<open>Properties\<close>

text \<open>
  However the snapshot store was used, it holds at most four snapshots, each under its own
  id, and what it returns is a snapshot of exactly the environment, vhost and queue asked for that
  has not expired: another broker's copy is never served.
\<close>

theorem snapshots_stay_in_scope:
  assumes "store_reachable store" and "store_get now key scope q store = (Some s, store')"
  shows "length store \<le> 4 \<and> sn_id s = key \<and> sn_scope s = scope \<and> sn_queue s = q \<and> now < expires_at s \<and>
         store_reachable store'"
proof -
  have ok: "store_ok store" using reachable_ok[OF assms(1)] .
  have "(key, s) \<in> set store" using store_get_SomeD[OF assms(2)] by blast
  moreover have "store_reachable store'"
    using store_reachable.step[OF assms(1) store_step.looked_up[of now store key scope q]] assms(2) by simp
  ultimately show ?thesis
    using ok store_get_SomeD[OF assms(2)] by (auto simp: store_ok_def MAX_SNAPSHOTS_def)
qed

definition one_snapshot :: snap_store where
  "one_snapshot = snd (store_add 0 ''s1'' (''prod'', ''/'') ''dlq'' [] 0 None 10 [])"

theorem snapshots_stay_in_scope_witness:
  "length one_snapshot \<le> 4 \<and> fst (store_get 1 ''s1'' (''prod'', ''/'') ''dlq'' one_snapshot) \<noteq> None \<and>
   fst (store_get 1 ''s1'' (''staging'', ''/'') ''dlq'' one_snapshot) = None"
proof -
  have r: "store_reachable one_snapshot"
    unfolding one_snapshot_def
    by (rule store_reachable.step[OF store_reachable.empty store_step.added])
  have found: "fst (store_get 1 ''s1'' (''prod'', ''/'') ''dlq'' one_snapshot) \<noteq> None" by code_simp
  then obtain s where s: "store_get 1 ''s1'' (''prod'', ''/'') ''dlq'' one_snapshot =
      (Some s, snd (store_get 1 ''s1'' (''prod'', ''/'') ''dlq'' one_snapshot))"
    by (cases "store_get 1 ''s1'' (''prod'', ''/'') ''dlq'' one_snapshot") auto
  have other: "fst (store_get 1 ''s1'' (''staging'', ''/'') ''dlq'' one_snapshot) = None" by code_simp
  from snapshots_stay_in_scope[OF r s] found other show ?thesis by simp
qed

text \<open>
  An action on messages picked from a snapshot scans deep enough to reach every one of them,
  the deepest copy of each, with the refetch window to spare, or down to the browse depth.
\<close>

theorem scan_depth_reaches_selection:
  assumes "fp \<in> set fps" and "last_index (\<lambda>r. mr_fingerprint r = fp) (sn_records s) = Some i"
    and "0 \<le> window"
  shows "min depth (int i + 1 + window) \<le> depth_to_reach window depth (positions (sn_records s)) fps"
  using depth_reaches[OF assms] .

theorem scan_depth_reaches_selection_witness:
  "min 5000 (int 1 + 1 + 100) \<le> depth_to_reach 100 5000
     (positions [to_record sample_lib ''dlq'' True (sample_message 1 ''a''),
                 to_record sample_lib ''dlq'' True (sample_message 2 ''b'')]) [''b'']"
proof -
  let ?s = "fst (store_add 0 ''s1'' (''prod'', ''/'') ''dlq''
     [to_record sample_lib ''dlq'' True (sample_message 1 ''a''),
      to_record sample_lib ''dlq'' True (sample_message 2 ''b'')] 2 None 10 [])"
  have records: "sn_records ?s = [to_record sample_lib ''dlq'' True (sample_message 1 ''a''),
      to_record sample_lib ''dlq'' True (sample_message 2 ''b'')]"
    by (simp add: store_add_def Let_def)
  have "last_index (\<lambda>r. mr_fingerprint r = ''b'') [to_record sample_lib ''dlq'' True (sample_message 1 ''a''),
      to_record sample_lib ''dlq'' True (sample_message 2 ''b'')] = Some 1"
    by code_simp
  then show ?thesis
    using scan_depth_reaches_selection[of "''b''" "[''b'']" ?s 1 100 5000] unfolding records by simp
qed

end
