(* ===== verification/Actions.thy ===== *)
theory Actions
  imports Snapshots Queue_Guard Operator_Properties
begin

text \<open>
  Single actions from the request to the broker: the action service
  (app/application/action_service.py) and the routes that audit it (app/api/routes/actions.py:
  replay, park, delete, publish). Durations read the one clock of the model; the Prometheus
  counters are left out.
\<close>


section \<open>The action service\<close>

definition provenance_headers :: "env \<Rightarrow> string \<Rightarrow> string \<Rightarrow> string \<Rightarrow> pyval dict io" where
  "provenance_headers E action source_queue username =
     bnd (clock E) (\<lambda>t.
       let now = PStr (isoformat (e_lib E) (Aware t))
       in ret (if action = ''park''
               then [(''x-queuelens-action'', PStr ''park''), (''x-queuelens-parked-at'', now),
                     (''x-queuelens-parked-by'', PStr username),
                     (''x-queuelens-source-queue'', PStr source_queue)]
               else [(''x-queuelens-replayed'', PBool True),
                     (''x-queuelens-action'', PStr (''replay_'' @ action)),
                     (''x-queuelens-replayed-at'', now), (''x-queuelens-replayed-by'', PStr username),
                     (''x-queuelens-source-queue'', PStr source_queue)]))"

definition ORIGINAL_FINGERPRINT :: string where
  "ORIGINAL_FINGERPRINT = ''x-queuelens-original-fingerprint''"

text \<open>\<open>_scan\<close>: guard the queue, then how far the action scans.\<close>

definition action_scan ::
  "settings \<Rightarrow> browse_guard \<Rightarrow> string \<Rightarrow> int option \<Rightarrow> int option \<Rightarrow> (int \<times> bool) io"
where
  "action_scan cfg guard q max_scan depth =
     bnd (guard q) (\<lambda>whole.
       let window = int_or max_scan (s_refetch_window_size cfg)
       in ret (if whole then int_or depth window else window, whole))"

type_synonym action_result = "op_result \<times> pyval dict option"

definition service_replay ::
  "env \<Rightarrow> settings \<Rightarrow> browse_guard \<Rightarrow> string \<Rightarrow> string \<Rightarrow> string \<Rightarrow> replay_target option \<Rightarrow> string \<Rightarrow> bool \<Rightarrow>
     pyval dict \<Rightarrow> int option \<Rightarrow> int option \<Rightarrow> action_result io"
where
  "service_replay E cfg guard q fp mode target username annotate extra_headers max_scan depth =
     bnd (case target of Some tgt \<Rightarrow> ret (Some tgt) | None \<Rightarrow> lift (configured_target (e_lib E) cfg q)) (\<lambda>resolved.
       case resolved of
         None \<Rightarrow> raise (value_error ''No replay target configured for this queue'')
       | Some tgt \<Rightarrow>
           bnd (if annotate
                then bnd (provenance_headers E mode q username) (\<lambda>prov.
                       ret (dict_merge (dict_merge extra_headers prov) [(ORIGINAL_FINGERPRINT, PStr fp)]))
                else ret extra_headers) (\<lambda>headers.
           bnd (action_scan cfg guard q max_scan depth) (\<lambda>(scan_limit, whole).
           bnd (operate E q fp mode (Some tgt) headers annotate scan_limit whole) (\<lambda>res.
             ret (res, Some headers)))))"

definition parking_queue :: "string \<Rightarrow> replay_target" where
  "parking_queue q = queue_target (q @ ''.parking'')"

definition service_park ::
  "env \<Rightarrow> settings \<Rightarrow> browse_guard \<Rightarrow> string \<Rightarrow> string \<Rightarrow> string \<Rightarrow> pyval dict \<Rightarrow> int option \<Rightarrow> int option \<Rightarrow>
     action_result io"
where
  "service_park E cfg guard q fp username extra_headers max_scan depth =
     bnd (provenance_headers E ''park'' q username) (\<lambda>prov.
       let headers = dict_merge (dict_merge extra_headers prov) [(ORIGINAL_FINGERPRINT, PStr fp)]
       in bnd (action_scan cfg guard q max_scan depth) (\<lambda>(scan_limit, whole).
          bnd (operate E q fp ''park'' (Some (parking_queue q)) headers True scan_limit whole) (\<lambda>res.
            ret (res, Some headers))))"

definition service_delete ::
  "env \<Rightarrow> settings \<Rightarrow> browse_guard \<Rightarrow> string \<Rightarrow> string \<Rightarrow> int option \<Rightarrow> int option \<Rightarrow> action_result io"
where
  "service_delete E cfg guard q fp max_scan depth =
     bnd (action_scan cfg guard q max_scan depth) (\<lambda>(scan_limit, whole).
     bnd (operate E q fp ''delete'' None [] True scan_limit whole) (\<lambda>res. ret (res, None)))"


section \<open>Auditing an action (_run_action)\<close>

definition text_of :: "exn \<Rightarrow> string" where
  "text_of e = (case exn_text e of None \<Rightarrow> [] | Some s \<Rightarrow> s)"

text \<open>The response of a failed action.\<close>

definition action_http_error :: "string \<Rightarrow> exn \<Rightarrow> exn" where
  "action_http_error source_queue e =
     (if exn_class e = UnsafeToBrowse then http_error 409 (text_of e)
      else if is_lookup_error e
      then http_error 409 ''Message was not found uniquely; refresh and try again''
      else if exn_class e = ChannelNotFoundErr
      then http_error 404 ''Queue not found; check the source queue and replay target''
      else if exn_class e = DeliveryErr
      then http_error 400 ''Message was unroutable; the target does not route to any queue''
      else if is_refusal e
      then http_error 409 (refusal_text e @ ''. Nothing changed: the message is still in '' @ source_queue @ ''.'')
      else if exn_class e = ValueErr then http_error 400 (text_of e)
      else http_error 502 ''Message operation failed'')"

definition with_target :: "replay_target option \<Rightarrow> audit_entry \<Rightarrow> audit_entry" where
  "with_target target entry =
     (case target of
        None \<Rightarrow> entry
      | Some t \<Rightarrow> entry\<lparr>ae_target_type := Some (target_type t), ae_target_queue := target_queue t,
                  ae_target_exchange := target_exchange t, ae_target_routing_key := target_routing_key t\<rparr>)"

definition action_entry ::
  "string \<Rightarrow> string \<Rightarrow> string \<Rightarrow> string \<Rightarrow> replay_target option \<Rightarrow> int \<Rightarrow> string \<Rightarrow> string option \<Rightarrow> pyval dict \<Rightarrow>
     audit_entry"
where
  "action_entry user action q fp target t result err meta =
     with_target target
       ((audit_entry_of user action t)\<lparr>ae_source_queue := Some q, ae_message_fingerprint := Some fp,
          ae_result := result, ae_error_message := err, ae_metadata := meta\<rparr>)"

definition mode_meta :: "string option \<Rightarrow> pyval dict" where
  "mode_meta mode = (case mode of None \<Rightarrow> [] | Some m \<Rightarrow> if m = [] then [] else [(''mode'', PStr m)])"

definition duration_ms :: "int \<Rightarrow> int \<Rightarrow> int" where
  "duration_ms t0 t1 = py_round (of_int (t1 - t0) / 1000)"

definition success_meta :: "int \<Rightarrow> string option \<Rightarrow> action_result \<Rightarrow> pyval dict" where
  "success_meta elapsed mode r =
     dict_merge [(''duration_ms'', PInt elapsed)] (mode_meta mode) @
     (case snd r of Some hs \<Rightarrow> if hs \<noteq> [] then [(''headers_added'', PDict hs)] else [] | None \<Rightarrow> []) @
     (if or_x_death (fst r) \<noteq> [] then [(''x_death'', PList (map PDict (or_x_death (fst r))))] else [])"

definition run_action ::
  "env \<Rightarrow> string \<Rightarrow> string \<Rightarrow> string \<Rightarrow> string \<Rightarrow> action_result io \<Rightarrow> replay_target option \<Rightarrow> string option \<Rightarrow>
     action_result io"
where
  "run_action E user action q fp operation target mode =
     bnd (clock E) (\<lambda>t0.
     bnd (record_audit E (action_entry user action q fp target t0 ''started'' None (mode_meta mode))) (\<lambda>_.
     bnd (clock E) (\<lambda>t1.
     bnd (outcome operation) (\<lambda>r.
     bnd (clock E) (\<lambda>t2.
       case r of
         Inl e \<Rightarrow>
           bnd (record_audit E (action_entry user action q fp target t2 ''failed'' (Some (error_text e []))
                  (dict_merge [(''duration_ms'', PInt (duration_ms t1 t2))] (mode_meta mode)))) (\<lambda>_.
             raise (action_http_error q e))
       | Inr res \<Rightarrow>
           bnd (record_audit E (action_entry user action q fp target t2 ''success'' None
                  (success_meta (duration_ms t1 t2) mode res))) (\<lambda>_.
             ret res))))))"


section \<open>The routes\<close>

text \<open>\<open>_custom_headers\<close>: the headers an Admin configured. An item without a value raises.\<close>

fun header_items :: "pylib \<Rightarrow> pyval list \<Rightarrow> pyval dict \<Rightarrow> exn + pyval dict" where
  "header_items L [] acc = Inr acc"
| "header_items L (PDict item # rest) acc =
     (if truthy (py_get item ''key'') then
        (case dict_get item ''value'' of
           None \<Rightarrow> Inl (mk_exn KeyErr ''value'')
         | Some v \<Rightarrow> header_items L rest (dict_set (py_str L (py_get item ''key'')) (PStr (py_str L v)) acc))
      else header_items L rest acc)"
| "header_items L (_ # rest) acc = header_items L rest acc"

fun headers_from :: "pylib \<Rightarrow> pyval \<Rightarrow> exn + pyval dict" where
  "headers_from L (PList items) = header_items L items []"
| "headers_from L (PDict _) = Inr []"
| "headers_from L (PStr _) = Inr []"
| "headers_from L (PBytes _) = Inr []"
| "headers_from L _ = Inl (mk_exn TypeErr ''object is not iterable'')"

definition custom_headers :: "env \<Rightarrow> pyval dict io" where
  "custom_headers E =
     bnd (get_safe E ''custom_headers'' (PList [])) (\<lambda>stored. lift (headers_from (e_lib E) stored))"

record action_request =
  aq_source_queue :: string
  aq_fingerprint :: string
  aq_confirm :: bool
  aq_snapshot :: "string option"

record replay_request = action_request +
  aq_mode :: string
  aq_target :: "replay_target option"
  aq_annotate :: bool

text \<open>The routes hand the snapshot store back: looking a snapshot up prunes and reorders it.\<close>

definition route_replay ::
  "env \<Rightarrow> settings \<Rightarrow> browse_guard \<Rightarrow> scope \<Rightarrow> string \<Rightarrow> replay_request \<Rightarrow> snap_store \<Rightarrow>
     ((exn + action_result) \<times> snap_store) io"
where
  "route_replay E cfg guard scope user body store =
     (if \<not> aq_confirm body then ret (Inl (http_error 400 ''Replay confirmation is required''), store)
      else
        bnd (outcome (custom_headers E)) (\<lambda>hs.
          case hs of
            Inl e \<Rightarrow> ret (Inl e, store)
          | Inr extra \<Rightarrow>
              bnd (scan_depth E cfg scope (aq_source_queue body) [aq_fingerprint body] (aq_snapshot body) store) (\<lambda>(d, store').
                case d of
                  Inl e \<Rightarrow> ret (Inl e, store')
                | Inr max_scan \<Rightarrow>
                    bnd (outcome (bnd (effective_limit E cfg ''max_browse_depth'') (\<lambda>depth.
                      run_action E user ''replay'' (aq_source_queue body) (aq_fingerprint body)
                        (service_replay E cfg guard (aq_source_queue body) (aq_fingerprint body) (aq_mode body)
                           (aq_target body) user (aq_annotate body) extra (Some max_scan) (Some depth))
                        (aq_target body) (Some (aq_mode body))))) (\<lambda>r. ret (r, store')))))"

definition route_park ::
  "env \<Rightarrow> settings \<Rightarrow> browse_guard \<Rightarrow> scope \<Rightarrow> string \<Rightarrow> action_request \<Rightarrow> snap_store \<Rightarrow>
     ((exn + action_result) \<times> snap_store) io"
where
  "route_park E cfg guard scope user body store =
     (if \<not> aq_confirm body then ret (Inl (http_error 400 ''Park confirmation is required''), store)
      else
        bnd (outcome (custom_headers E)) (\<lambda>hs.
          case hs of
            Inl e \<Rightarrow> ret (Inl e, store)
          | Inr extra \<Rightarrow>
              bnd (scan_depth E cfg scope (aq_source_queue body) [aq_fingerprint body] (aq_snapshot body) store) (\<lambda>(d, store').
                case d of
                  Inl e \<Rightarrow> ret (Inl e, store')
                | Inr max_scan \<Rightarrow>
                    bnd (outcome (bnd (effective_limit E cfg ''max_browse_depth'') (\<lambda>depth.
                      run_action E user ''park'' (aq_source_queue body) (aq_fingerprint body)
                        (service_park E cfg guard (aq_source_queue body) (aq_fingerprint body) user extra
                           (Some max_scan) (Some depth))
                        (Some (parking_queue (aq_source_queue body))) None))) (\<lambda>r. ret (r, store')))))"

definition route_delete ::
  "env \<Rightarrow> settings \<Rightarrow> browse_guard \<Rightarrow> scope \<Rightarrow> string \<Rightarrow> action_request \<Rightarrow> snap_store \<Rightarrow>
     ((exn + action_result) \<times> snap_store) io"
where
  "route_delete E cfg guard scope user body store =
     (if \<not> aq_confirm body then ret (Inl (http_error 400 ''Delete confirmation is required''), store)
      else
        bnd (scan_depth E cfg scope (aq_source_queue body) [aq_fingerprint body] (aq_snapshot body) store) (\<lambda>(d, store').
          case d of
            Inl e \<Rightarrow> ret (Inl e, store')
          | Inr max_scan \<Rightarrow>
              bnd (outcome (bnd (effective_limit E cfg ''max_browse_depth'') (\<lambda>depth.
                run_action E user ''delete'' (aq_source_queue body) (aq_fingerprint body)
                  (service_delete E cfg guard (aq_source_queue body) (aq_fingerprint body)
                     (Some max_scan) (Some depth))
                  None None))) (\<lambda>r. ret (r, store'))))"

end
