(* ===== verification/Action_Properties.thy ===== *)
theory Action_Properties
  imports Actions
begin

text \<open>
  What a request for an action guarantees: it is on record before the broker is touched, its
  outcome is on record afterwards, and the copy it publishes is the original with the provenance
  headers and the death stamp.
\<close>


section \<open>The outgoing copy\<close>

lemma outgoing_of_Inr:
  assumes "outgoing_of r rh stamp = Inr out"
  shows "o_body out = mr_body r" "o_message_id out = mr_message_id r"
    "o_correlation_id out = mr_correlation_id r" "o_timestamp out = mr_timestamp r"
    "o_content_type out = mr_content_type r"
    "\<exists>d. (stamp \<longrightarrow> deaths (mr_x_death r) (mr_headers r) = Inr d) \<and>
       o_headers out = (if stamp then dict_set DEATHS_HEADER (PInt d) (dict_merge (mr_headers r) rh)
                        else dict_merge (mr_headers r) rh)"
  using assms by (auto simp: outgoing_of_def Let_def or_raise_Inr_iff split: if_splits)

lemma outgoing_header:
  assumes "outgoing_of r rh stamp = Inr out" "distinct (map fst rh)" "k \<noteq> DEATHS_HEADER"
  shows "dict_get (o_headers out) k =
     (case dict_get rh k of Some v \<Rightarrow> Some v | None \<Rightarrow> dict_get (mr_headers r) k)"
  using outgoing_of_Inr(6)[OF assms(1)] assms(2,3)
  by (auto simp: AList.update_conv' map_of_dict_merge map_add_def split: option.splits if_splits)

lemma outgoing_stamp:
  assumes "outgoing_of r rh True = Inr out"
  shows "\<exists>d. deaths (mr_x_death r) (mr_headers r) = Inr d \<and>
             dict_get (o_headers out) DEATHS_HEADER = Some (PInt d)"
  using outgoing_of_Inr(6)[OF assms] by (auto simp: AList.update_conv')

lemma stamped_deaths_int:
  "dict_get hs DEATHS_HEADER = Some (PInt n) \<Longrightarrow> stamped_deaths hs = Inr n"
  by (auto simp: stamped_deaths_def py_or_def)

text \<open>aio-pika turns the broker's milliseconds into seconds; \<open>_milliseconds\<close> recovers them.\<close>

lemma milliseconds_round_trip:
  "milliseconds (PFloat (Finite (of_int ms / 1000))) = Inr (Some (int_text ms))"
  by simp


section \<open>The audit trail of an action\<close>

lemma run_action_trace:
  assumes "run_action E user action q fp operation target mode h = (r, h @ t)"
  obtains (refused) e t0 where
      "t = [EvAudit (action_entry user action q fp target t0 ''started'' None (mode_meta mode)) (Some e)]"
      "r = Inl e"
  | (ran) res h1 t0 fin a where
      "operation (h @ [EvAudit (action_entry user action q fp target t0 ''started'' None (mode_meta mode)) None]) = (res, h1)"
      "h @ t = h1 @ [EvAudit fin a]"
      "ae_result fin = (case res of Inl _ \<Rightarrow> ''failed'' | Inr _ \<Rightarrow> ''success'')"
      "ae_action fin = action" "ae_username fin = user" "ae_source_queue fin = Some q"
      "r = (case a of Some e \<Rightarrow> Inl e
            | None \<Rightarrow> (case res of Inl e \<Rightarrow> Inl (action_http_error q e) | Inr x \<Rightarrow> Inr x))"
proof (cases "e_audit E h (action_entry user action q fp target (e_clock E h) ''started'' None (mode_meta mode))")
  case (Some e)
  then show ?thesis
    using assms by (intro refused) (auto simp: run_action_def bnd_def clock_def observe_def record_audit_def perform_def)
next
  case None
  define start where "start = action_entry user action q fp target (e_clock E h) ''started'' None (mode_meta mode)"
  obtain res h1 where run: "operation (h @ [EvAudit start None]) = (res, h1)" by fastforce
  have fields: "ae_result (action_entry user action q fp target n s err meta) = s"
    "ae_action (action_entry user action q fp target n s err meta) = action"
    "ae_username (action_entry user action q fp target n s err meta) = user"
    "ae_source_queue (action_entry user action q fp target n s err meta) = Some q" for n s err meta
    by (simp_all add: action_entry_def with_target_def audit_entry_of_def split: option.splits)
  show ?thesis
  proof (cases res)
    case (Inl e)
    let ?fin = "action_entry user action q fp target (e_clock E h1) ''failed'' (Some (error_text e []))
        (dict_merge [(''duration_ms'', PInt (duration_ms (e_clock E (h @ [EvAudit start None])) (e_clock E h1)))]
           (mode_meta mode))"
    show ?thesis
      by (rule ran[where fin = ?fin and a = "e_audit E h1 ?fin", OF run[unfolded start_def]])
         (use assms None run Inl in \<open>auto simp: run_action_def bnd_def clock_def observe_def record_audit_def
            perform_def outcome_def raise_def start_def fields split: option.splits\<close>)
  next
    case (Inr x)
    let ?fin = "action_entry user action q fp target (e_clock E h1) ''success'' None
        (success_meta (duration_ms (e_clock E (h @ [EvAudit start None])) (e_clock E h1)) mode x)"
    show ?thesis
      by (rule ran[where fin = ?fin and a = "e_audit E h1 ?fin", OF run[unfolded start_def]])
         (use assms None run Inr in \<open>auto simp: run_action_def bnd_def clock_def observe_def record_audit_def
            perform_def outcome_def ret_def start_def fields split: option.splits\<close>)
  qed
qed


section \<open>Nothing before the record\<close>

fun touches :: "event \<Rightarrow> bool" where
  "touches (EvAudit _ _) = False"
| "touches (EvSetting _ _) = False"
| "touches _ = True"

definition on_record :: "string \<Rightarrow> string \<Rightarrow> string \<Rightarrow> string \<Rightarrow> event list \<Rightarrow> bool" where
  "on_record user action q fp before \<longleftrightarrow>
     (\<exists>entry. EvAudit entry None \<in> set before \<and> ae_result entry = ''started'' \<and> ae_username entry = user \<and>
        ae_action entry = action \<and> ae_source_queue entry = Some q \<and> ae_message_fingerprint entry = Some fp)"

definition recorded_first :: "string \<Rightarrow> string \<Rightarrow> string \<Rightarrow> string \<Rightarrow> event list \<Rightarrow> bool" where
  "recorded_first user action q fp t \<longleftrightarrow>
     (\<forall>b e a. t = b @ e # a \<longrightarrow> touches e \<longrightarrow> on_record user action q fp b)"

lemma on_record_mono: "on_record user action q fp b \<Longrightarrow> set b \<subseteq> set c \<Longrightarrow> on_record user action q fp c"
  by (auto simp: on_record_def)

lemma recorded_first_none: "list_all (\<lambda>e. \<not> touches e) t \<Longrightarrow> recorded_first user action q fp t"
  by (auto simp: recorded_first_def)

lemma recorded_first_after:
  assumes "list_all (\<lambda>e. \<not> touches e) u" "recorded_first user action q fp t"
  shows "recorded_first user action q fp (u @ t)"
  unfolding recorded_first_def
proof (intro allI impI)
  fix b e a assume eq: "u @ t = b @ e # a" and e: "touches e"
  have "e \<notin> set u" using assms(1) e by (auto simp: list_all_iff)
  then obtain b' where "b = u @ b'" "t = b' @ e # a"
    using eq by (auto simp: append_eq_append_conv2 append_eq_Cons_conv)
  moreover from this have "on_record user action q fp b'"
    using assms(2) e unfolding recorded_first_def by blast
  ultimately show "on_record user action q fp b"
    by (auto intro: on_record_mono)
qed

lemma recorded_first_start:
  assumes "on_record user action q fp [s]" "\<not> touches s"
  shows "recorded_first user action q fp (s # t)"
  using assms
  by (auto simp: recorded_first_def Cons_eq_append_conv intro: on_record_mono)

lemma start_on_record:
  "on_record user action q fp [EvAudit (action_entry user action q fp target t0 ''started'' None meta) None]"
  by (simp add: on_record_def action_entry_def with_target_def audit_entry_of_def split: option.splits)

lemma run_action_recorded:
  assumes "emits (\<lambda>_. True) operation"
  shows "does (run_action E user action q fp operation target mode) h
           (\<lambda>r t. recorded_first user action q fp t)"
proof (rule doesI)
  fix r h' assume run: "run_action E user action q fp operation target mode h = (r, h')"
  have ext: "emits (\<lambda>_. True) (run_action E user action q fp operation target mode)"
    unfolding run_action_def by (intro emits_intros assms) simp_all
  from emitsD[OF ext run] obtain t where t: "h' = h @ t" by blast
  have "recorded_first user action q fp t"
    using run[unfolded t]
  proof (cases rule: run_action_trace)
    case (refused e t0)
    then show ?thesis by (auto intro!: recorded_first_none)
  next
    case (ran res h1 t0 fin a)
    define s where "s = EvAudit (action_entry user action q fp target t0 ''started'' None (mode_meta mode)) None"
    from emitsD[OF assms ran(1)] obtain u where "h1 = (h @ [s]) @ u" by (auto simp: s_def)
    then have "t = s # u @ [EvAudit fin a]" using ran(2) by simp
    then show ?thesis
      using start_on_record by (auto simp: s_def intro!: recorded_first_start)
  qed
  with t show "\<exists>t. h' = h @ t \<and> recorded_first user action q fp t" by blast
qed

lemma emits_operate_any: "emits (\<lambda>_. True) (operate E q fp action target rh stamp ms whole)"
  by (rule emits_mono[OF reads_only_operate]) simp

lemma emits_service_guard: "emits (\<lambda>_. True) (service_guard E cached q)"
  by (rule emits_mono[OF service_guard.asks_management]) simp

lemma emits_services:
  "emits (\<lambda>_. True) (service_replay E cfg (service_guard E c) q fp mode target user annotate extra ms d)"
  "emits (\<lambda>_. True) (service_park E cfg (service_guard E c) q fp user extra ms d)"
  "emits (\<lambda>_. True) (service_delete E cfg (service_guard E c) q fp ms d)"
  unfolding service_replay_def service_park_def service_delete_def action_scan_def provenance_headers_def
  by (intro emits_intros emits_operate_any emits_service_guard)+

lemma settings_untouched:
  "emits (\<lambda>e. \<not> touches e) (custom_headers E)"
  "emits (\<lambda>e. \<not> touches e) (effective_limit E cfg key)"
  "emits (\<lambda>e. \<not> touches e) (scan_depth E cfg scope q fps sid store)"
  unfolding custom_headers_def scan_depth_def
  by (intro emits_intros; simp)+

lemma does_after_untouched:
  assumes "emits (\<lambda>e. \<not> touches e) m"
    and "\<And>x h'. does (f x) h' (\<lambda>r t. recorded_first user action q fp t)"
  shows "does (bnd m f) h (\<lambda>r t. recorded_first user action q fp t)"
  by (rule does_bnd[OF does_emits[OF assms(1)]])
     (auto intro: recorded_first_none recorded_first_after does_mono[OF assms(2)])

lemma does_store:
  assumes "does m h (\<lambda>r t. recorded_first user action q fp t)"
  shows "does (bnd (outcome m) (\<lambda>r. ret (r, store))) h (\<lambda>r t. recorded_first user action q fp t)"
  by (rule does_bnd[OF does_outcome[OF assms]]) (auto intro: does_ret)

lemma routes_recorded:
  "does (route_replay E cfg (service_guard E c) scope user rbody store) h
     (\<lambda>r t. recorded_first user ''replay'' (aq_source_queue rbody) (aq_fingerprint rbody) t)"
  "does (route_park E cfg (service_guard E c) scope user body store) h
     (\<lambda>r t. recorded_first user ''park'' (aq_source_queue body) (aq_fingerprint body) t)"
  "does (route_delete E cfg (service_guard E c) scope user body store) h
     (\<lambda>r t. recorded_first user ''delete'' (aq_source_queue body) (aq_fingerprint body) t)"
proof -
  have finished: "does (ret x) h' (\<lambda>r t. recorded_first u a q f t)" for x :: "(exn + action_result) \<times> snap_store" and h' u a q f
    by (rule does_ret) (simp add: recorded_first_none)
  show "does (route_replay E cfg (service_guard E c) scope user rbody store) h
     (\<lambda>r t. recorded_first user ''replay'' (aq_source_queue rbody) (aq_fingerprint rbody) t)"
    unfolding route_replay_def
    by (auto intro!: does_after_untouched settings_untouched emits_outcome does_store
        run_action_recorded emits_services finished split: sum.split)
  show "does (route_park E cfg (service_guard E c) scope user body store) h
     (\<lambda>r t. recorded_first user ''park'' (aq_source_queue body) (aq_fingerprint body) t)"
    unfolding route_park_def
    by (auto intro!: does_after_untouched settings_untouched emits_outcome does_store
        run_action_recorded emits_services finished split: sum.split)
  show "does (route_delete E cfg (service_guard E c) scope user body store) h
     (\<lambda>r t. recorded_first user ''delete'' (aq_source_queue body) (aq_fingerprint body) t)"
    unfolding route_delete_def
    by (auto intro!: does_after_untouched settings_untouched emits_outcome does_store
        run_action_recorded emits_services finished split: sum.split)
qed


section \<open>Properties\<close>

text \<open>A replay request and the world it runs in.\<close>

definition sample_replay :: replay_request where
  "sample_replay = \<lparr>aq_source_queue = ''dlq'', aq_fingerprint = ''b'', aq_confirm = True, aq_snapshot = None,
     aq_mode = ''move'', aq_target = Some (queue_target ''orders''), aq_annotate = True\<rparr>"

definition managed_classic_env :: env where
  "managed_classic_env = managed [(''type'', PStr ''classic''), (''messages'', PInt 3)] classic_env"

definition replay_run :: "((exn + ((exn + action_result) \<times> snap_store)) \<times> hist)" where
  "replay_run = route_replay managed_classic_env sample_settings (service_guard managed_classic_env None)
     (''prod'', ''/'') ''ann'' sample_replay [] []"

lemma replay_run_eq:
  "route_replay managed_classic_env sample_settings (service_guard managed_classic_env None)
     (''prod'', ''/'') ''ann'' sample_replay [] [] = (fst replay_run, [] @ snd replay_run)"
  by (simp add: replay_run_def)

text \<open>
  C11. No audit, no action: in a replay, park or delete request, before anything is asked of the
  broker or its Management API the attempt is on record, under the user's name, with the action,
  the queue and the fingerprint.
\<close>

theorem action_recorded_first:
  assumes "route_replay E cfg (service_guard E c) scope user rbody store h = (r1, h @ before @ e # after) \<and>
             action = ''replay'' \<and> q = aq_source_queue rbody \<and> fp = aq_fingerprint rbody \<or>
           route_park E cfg (service_guard E c) scope user body store h = (r1, h @ before @ e # after) \<and>
             action = ''park'' \<and> q = aq_source_queue body \<and> fp = aq_fingerprint body \<or>
           route_delete E cfg (service_guard E c) scope user body store h = (r1, h @ before @ e # after) \<and>
             action = ''delete'' \<and> q = aq_source_queue body \<and> fp = aq_fingerprint body"
    and "touches e"
  shows "\<exists>entry. EvAudit entry None \<in> set before \<and> ae_result entry = ''started'' \<and> ae_username entry = user \<and>
     ae_action entry = action \<and> ae_source_queue entry = Some q \<and> ae_message_fingerprint entry = Some fp"
proof -
  have "recorded_first user action q fp (before @ e # after)"
    using assms(1) by (elim disjE conjE) (auto dest: doesD'[OF routes_recorded(1)] doesD'[OF routes_recorded(2)]
        doesD'[OF routes_recorded(3)])
  with assms(2) show ?thesis unfolding recorded_first_def on_record_def by blast
qed

theorem action_recorded_first_witness:
  "\<exists>before after. snd replay_run = before @ EvAck 2 None # after \<and>
     (\<exists>entry. EvAudit entry None \<in> set before \<and> ae_result entry = ''started'' \<and> ae_username entry = ''ann'')"
proof -
  let ?i = "length (takeWhile (\<lambda>e. e \<noteq> EvAck 2 None) (snd replay_run))"
  have split: "snd replay_run = take ?i (snd replay_run) @ EvAck 2 None # drop (Suc ?i) (snd replay_run)"
    by code_simp
  have "route_replay managed_classic_env sample_settings (service_guard managed_classic_env None)
      (''prod'', ''/'') ''ann'' sample_replay [] [] =
      (fst replay_run, [] @ take ?i (snd replay_run) @ EvAck 2 None # drop (Suc ?i) (snd replay_run))"
    unfolding split[symmetric] by (rule replay_run_eq)
  from action_recorded_first[OF disjI1, OF conjI[OF this]] split show ?thesis
    by (metis touches.simps(9))
qed

text \<open>
  C12. The audit trail tells how an action ended: either its start could not be recorded and
  nothing was done, or the operation ran and the last event is a record of it, \<open>success\<close> exactly
  if it returned, in the user's name; the response is the operation's, or the failure to record it.
\<close>

theorem action_outcome_audited:
  assumes "run_action E user action q fp operation target mode h = (r, h @ t)"
  shows "(\<exists>entry e. t = [EvAudit entry (Some e)] \<and> r = Inl e) \<or>
    (\<exists>start res h1 fin a. operation (h @ [EvAudit start None]) = (res, h1) \<and> ae_result start = ''started'' \<and>
       h @ t = h1 @ [EvAudit fin a] \<and> ae_result fin = (case res of Inl _ \<Rightarrow> ''failed'' | Inr _ \<Rightarrow> ''success'') \<and>
       ae_action fin = action \<and> ae_username fin = user \<and> ae_source_queue fin = Some q \<and>
       r = (case a of Some e \<Rightarrow> Inl e
            | None \<Rightarrow> (case res of Inl e \<Rightarrow> Inl (action_http_error q e) | Inr x \<Rightarrow> Inr x)))"
  using assms
proof (cases rule: run_action_trace)
  case (refused e t0)
  then show ?thesis by blast
next
  case (ran res h1 t0 fin a)
  have "ae_result (action_entry user action q fp target t0 ''started'' None (mode_meta mode)) = ''started''"
    by (simp add: action_entry_def with_target_def audit_entry_of_def split: option.splits)
  with ran show ?thesis by blast
qed

definition delete_operation :: "action_result io" where
  "delete_operation = service_delete managed_classic_env sample_settings (service_guard managed_classic_env None)
     ''dlq'' ''zzz'' (Some 10) None"

definition failed_delete :: "(exn + action_result) \<times> hist" where
  "failed_delete = run_action managed_classic_env ''ann'' ''delete'' ''dlq'' ''zzz'' delete_operation None None []"

theorem action_outcome_audited_witness:
  "\<exists>fin. last (snd failed_delete) = EvAudit fin None \<and> ae_result fin = ''failed''"
proof -
  have run: "run_action managed_classic_env ''ann'' ''delete'' ''dlq'' ''zzz'' delete_operation None None [] =
      (fst failed_delete, [] @ snd failed_delete)"
    by (simp add: failed_delete_def)
  have l: "(case last (snd failed_delete) of EvAudit fin a \<Rightarrow> a = None \<and> ae_result fin = ''failed'' | _ \<Rightarrow> False)"
    by code_simp
  have "length (snd failed_delete) \<noteq> 1" by code_simp
  with action_outcome_audited[OF run] obtain fin a where "snd failed_delete = butlast (snd failed_delete) @ [EvAudit fin a]"
    by auto
  then have "last (snd failed_delete) = EvAudit fin a" by (metis last_snoc)
  with l show ?thesis by auto
qed

text \<open>
  The copy an action publishes is the original: the same body, ids, timestamp and content
  type, every header of the original unless a provenance header replaces it, and every
  provenance header with its own value.
\<close>

theorem copy_is_faithful:
  assumes "outgoing_of r rh stamp = Inr out" and "distinct (map fst rh)"
  shows "o_body out = mr_body r \<and> o_message_id out = mr_message_id r \<and> o_correlation_id out = mr_correlation_id r \<and>
         o_timestamp out = mr_timestamp r \<and> o_content_type out = mr_content_type r \<and>
         (\<forall>k. k \<noteq> DEATHS_HEADER \<longrightarrow> dict_get (o_headers out) k =
            (case dict_get rh k of Some v \<Rightarrow> Some v | None \<Rightarrow> dict_get (mr_headers r) k))"
  using outgoing_of_Inr[OF assms(1)] outgoing_header[OF assms] by blast

definition stamped_copy :: "exn + outgoing" where
  "stamped_copy = outgoing_of ((to_record sample_lib ''dlq'' False (sample_message 1 ''a''))
       \<lparr>mr_headers := [(''k'', PInt 7)], mr_x_death := [[(''count'', PInt 2)]]\<rparr>)
     [(''x-queuelens-action'', PStr ''replay_move'')] True"

theorem copy_is_faithful_witness:
  "\<exists>out. stamped_copy = Inr out \<and> o_body out = ''a'' \<and> dict_get (o_headers out) ''k'' = Some (PInt 7)"
proof -
  have "\<not> isl stamped_copy" by code_simp
  then obtain out where out: "stamped_copy = Inr out" by (metis sum.collapse(2))
  from copy_is_faithful[OF out[unfolded stamped_copy_def]] out show ?thesis
    by (auto simp: to_record_def sample_message_def Let_def DEATHS_HEADER_def split: prod.splits)
qed

text \<open>
  Replays are counted: a stamped copy of a message that died comes back, whatever its new
  death history says, with a death count strictly above the original's. So a message that keeps
  dying reaches any limit on its deaths after that many replays.
\<close>

theorem replay_increases_deaths:
  assumes "outgoing_of r rh True = Inr out" and "deaths (mr_x_death r) (mr_headers r) = Inr d" and "0 < d"
    and "mr_headers r' = o_headers out" and "deaths (mr_x_death r') (mr_headers r') = Inr d'"
  shows "d < d'"
proof -
  have "dict_get (mr_headers r') DEATHS_HEADER = Some (PInt d)"
    using outgoing_stamp[OF assms(1)] assms(2,4) by auto
  from deaths_above_stamp[OF assms(5) stamped_deaths_int[OF this] assms(3)] show ?thesis .
qed

theorem replay_increases_deaths_witness:
  "\<exists>out. stamped_copy = Inr out \<and> deaths [] (o_headers out) = Inr 3 \<and> (2::int) < 3"
proof -
  let ?r = "(to_record sample_lib ''dlq'' False (sample_message 1 ''a''))
       \<lparr>mr_headers := [(''k'', PInt 7)], mr_x_death := [[(''count'', PInt 2)]]\<rparr>"
  have "\<not> isl stamped_copy" by code_simp
  then obtain out where out: "stamped_copy = Inr out" by (metis sum.collapse(2))
  have d: "deaths (mr_x_death ?r) (mr_headers ?r) = Inr 2" by code_simp
  have "(case stamped_copy of Inr out \<Rightarrow> deaths [] (o_headers out) = Inr 3 | Inl _ \<Rightarrow> False)" by code_simp
  then have d': "deaths [] (o_headers out) = Inr 3" unfolding out by simp
  have "(2::int) < 3"
    by (rule replay_increases_deaths[OF out[unfolded stamped_copy_def] d,
          where r' = "?r\<lparr>mr_headers := o_headers out, mr_x_death := []\<rparr>"]) (simp_all add: d')
  with d' out show ?thesis by blast
qed

end
