(* ===== verification/Bulk_Service.thy ===== *)
theory Bulk_Service
  imports Actions Bulk_Operation
begin

text \<open>
  Two-phase bulk actions (app/application/bulk_service.py): a dry run records which messages were
  seen behind a one-shot token, an execution acts on that approved set only. The approved batches
  live in process memory or in the database (\<open>BulkBatchRepository\<close>, persistence/store.py); both are
  states of \<open>batch_backend\<close>. \<open>execute_audited\<close> (bulk_runs.py) wraps an execution in its audit
  trail; the routes are app/api/routes/bulk.py.

  A database row keeps the JSON payload and the expiry; a failing database is not modelled here.
  The payload comes back as it was written (lists where lists were written); of payloads that
  \<open>batch_to_payload\<close> never writes (fingerprints that are not a list, a scope that is not two parts)
  the model only says that reading them raises. The asyncio lock of the service only serialises
  executions.
\<close>


section \<open>Batches\<close>

record bulk_batch =
  bb_id :: string
  bb_source_queue :: string
  bb_action :: string
  bb_operator_action :: string
  bb_target :: "replay_target option"
  bb_fingerprints :: "string set"
  bb_message_count :: int
  bb_duplicates :: int
  bb_samples :: "string list"
  bb_expires_at :: datetime
  bb_scan_limit :: int
  bb_scope :: scope

definition target_to_dict :: "replay_target option \<Rightarrow> pyval" where
  "target_to_dict target =
     (case target of
        None \<Rightarrow> PNone
      | Some t \<Rightarrow> PDict [(''type'', PStr (target_type t)), (''queue'', opt_str (target_queue t)),
                       (''exchange'', opt_str (target_exchange t)),
                       (''routing_key'', opt_str (target_routing_key t))])"

definition batch_to_payload :: "pylib \<Rightarrow> bulk_batch \<Rightarrow> pyval dict" where
  "batch_to_payload L b =
     [(''id'', PStr (bb_id b)), (''source_queue'', PStr (bb_source_queue b)),
      (''action'', PStr (bb_action b)), (''operator_action'', PStr (bb_operator_action b)),
      (''target'', target_to_dict (bb_target b)),
      (''fingerprints'', PList (map PStr (sorted_list_of_set (bb_fingerprints b)))),
      (''message_count'', PInt (bb_message_count b)),
      (''duplicate_fingerprints'', PInt (bb_duplicates b)),
      (''sample_fingerprints'', PList (map PStr (bb_samples b))),
      (''expires_at'', PStr (isoformat L (bb_expires_at b))),
      (''scan_limit'', PInt (bb_scan_limit b)),
      (''scope'', PList [PStr (fst (bb_scope b)), PStr (snd (bb_scope b))])]"

text \<open>\<open>payload[key]\<close>, as text.\<close>

definition required :: "pylib \<Rightarrow> pyval dict \<Rightarrow> string \<Rightarrow> exn + string" where
  "required L d key =
     (case dict_get d key of None \<Rightarrow> Inl (mk_exn KeyErr key) | Some v \<Rightarrow> Inr (py_str L v))"

fun as_list :: "pyval \<Rightarrow> exn + pyval list" where
  "as_list (PList xs) = Inr xs"
| "as_list _ = Inl (mk_exn TypeErr ''object is not a list'')"

definition or_default :: "pyval dict \<Rightarrow> string \<Rightarrow> pyval \<Rightarrow> pyval" where
  "or_default d key v = (case dict_get d key of None \<Rightarrow> v | Some x \<Rightarrow> x)"

text \<open>\<open>ReplayTarget(**target)\<close>: no other keyword, and \<open>type\<close> is required.\<close>

definition target_from_dict :: "pyval dict \<Rightarrow> exn + replay_target" where
  "target_from_dict d =
     (if fst ` set d \<subseteq> {''type'', ''queue'', ''exchange'', ''routing_key''} \<and> dict_get d ''type'' \<noteq> None
      then (case str_value (py_get d ''type'') of
              None \<Rightarrow> Inl (mk_exn TypeErr ''type must be text'')
            | Some ty \<Rightarrow> Inr \<lparr>target_type = ty, target_queue = str_value (py_get d ''queue''),
                  target_exchange = str_value (py_get d ''exchange''),
                  target_routing_key = str_value (py_get d ''routing_key'')\<rparr>)
      else Inl (mk_exn TypeErr ''ReplayTarget() got an unexpected or missing argument''))"

fun scope_of :: "pylib \<Rightarrow> pyval list \<Rightarrow> exn + scope" where
  "scope_of L [a, b] = Inr (py_str L a, py_str L b)"
| "scope_of L _ = Inl (mk_exn TypeErr ''scope must have two parts'')"

definition batch_from_payload :: "pylib \<Rightarrow> pyval dict \<Rightarrow> exn + bulk_batch" where
  "batch_from_payload L d =
     or_raise (required L d ''id'') (\<lambda>i.
     or_raise (required L d ''source_queue'') (\<lambda>q.
     or_raise (required L d ''action'') (\<lambda>act.
     or_raise (required L d ''operator_action'') (\<lambda>op.
     or_raise (case py_get d ''target'' of PDict t \<Rightarrow> or_raise (target_from_dict t) (\<lambda>x. Inr (Some x)) | _ \<Rightarrow> Inr None) (\<lambda>target.
     or_raise (as_list (or_default d ''fingerprints'' (PList []))) (\<lambda>fps.
     or_raise (py_int (or_default d ''message_count'' (PInt 0))) (\<lambda>count.
     or_raise (py_int (or_default d ''duplicate_fingerprints'' (PInt 0))) (\<lambda>dups.
     or_raise (as_list (or_default d ''sample_fingerprints'' (PList []))) (\<lambda>samples.
     or_raise (required L d ''expires_at'') (\<lambda>expires_text.
     or_raise (case fromisoformat L expires_text of None \<Rightarrow> Inl (mk_exn ValueErr ''Invalid isoformat string'') | Some t \<Rightarrow> Inr t) (\<lambda>expires.
     or_raise (py_int (or_default d ''scan_limit'' (PInt 0))) (\<lambda>limit.
     or_raise (as_list (py_or (dict_get d ''scope'') (PList [PStr [], PStr []]))) (\<lambda>parts.
     or_raise (scope_of L parts) (\<lambda>scope.
       Inr \<lparr>bb_id = i, bb_source_queue = q, bb_action = act, bb_operator_action = op, bb_target = target,
            bb_fingerprints = set (map (py_str L) fps), bb_message_count = count, bb_duplicates = dups,
            bb_samples = map (py_str L) samples, bb_expires_at = expires, bb_scan_limit = limit,
            bb_scope = scope\<rparr>))))))))))))))"


section \<open>Where batches are kept\<close>

datatype batch_backend =
    Memory "(string \<times> bulk_batch) list"
  | Database "(string \<times> (pyval dict \<times> datetime)) list"

definition integrity_error :: exn where
  "integrity_error = mk_exn (Other ''IntegrityError'') ''UNIQUE constraint failed: bulk_batches.id''"

fun store_batch :: "pylib \<Rightarrow> bulk_batch \<Rightarrow> batch_backend \<Rightarrow> exn + batch_backend" where
  "store_batch L b (Memory d) = Inr (Memory (dict_set (bb_id b) b d))"
| "store_batch L b (Database rows) =
     (if dict_get rows (bb_id b) \<noteq> None then Inl integrity_error
      else Inr (Database (rows @ [(bb_id b, (batch_to_payload L b, bb_expires_at b))])))"

definition decoded :: "pylib \<Rightarrow> pyval dict option \<Rightarrow> exn + bulk_batch option" where
  "decoded L payload =
     (case payload of
        None \<Rightarrow> Inr None
      | Some d \<Rightarrow> if d = [] then Inr None else or_raise (batch_from_payload L d) (\<lambda>b. Inr (Some b)))"

text \<open>\<open>BulkBatchRepository.take\<close>: one DELETE ... RETURNING.\<close>

definition repo_take :: "int \<Rightarrow> string \<Rightarrow> (string \<times> (pyval dict \<times> datetime)) list \<Rightarrow>
    pyval dict option \<times> (string \<times> (pyval dict \<times> datetime)) list" where
  "repo_take now batch_id rows =
     (case dict_get rows batch_id of
        Some (payload, expires) \<Rightarrow>
          if as_utc expires \<ge> now then (Some payload, filter (\<lambda>(k, _). k \<noteq> batch_id) rows) else (None, rows)
      | None \<Rightarrow> (None, rows))"

definition repo_peek :: "int \<Rightarrow> string \<Rightarrow> (string \<times> (pyval dict \<times> datetime)) list \<Rightarrow> pyval dict option" where
  "repo_peek now batch_id rows =
     (case dict_get rows batch_id of
        None \<Rightarrow> None
      | Some (payload, expires) \<Rightarrow> if as_utc expires < now then None else Some payload)"

definition repo_prune_expired :: "int \<Rightarrow> (string \<times> (pyval dict \<times> datetime)) list \<Rightarrow>
    int \<times> (string \<times> (pyval dict \<times> datetime)) list" where
  "repo_prune_expired now rows =
     (let kept = filter (\<lambda>(_, (_, expires)). \<not> as_utc expires < now) rows
      in (int (length rows - length kept), kept))"

definition memory_prune :: "int \<Rightarrow> (string \<times> bulk_batch) list \<Rightarrow> (string \<times> bulk_batch) list" where
  "memory_prune now d = filter (\<lambda>(_, b). \<not> as_utc (bb_expires_at b) < now) d"

fun take_batch :: "pylib \<Rightarrow> int \<Rightarrow> string \<Rightarrow> batch_backend \<Rightarrow> (exn + bulk_batch option) \<times> batch_backend" where
  "take_batch L now batch_id (Database rows) =
     (case repo_take now batch_id rows of (payload, rows') \<Rightarrow> (decoded L payload, Database rows'))"
| "take_batch L now batch_id (Memory d) =
     (let d' = memory_prune now d
      in (Inr (dict_get d' batch_id), Memory (filter (\<lambda>(k, _). k \<noteq> batch_id) d')))"

fun peek_batch :: "pylib \<Rightarrow> int \<Rightarrow> string \<Rightarrow> batch_backend \<Rightarrow> exn + bulk_batch option" where
  "peek_batch L now batch_id (Database rows) = decoded L (repo_peek now batch_id rows)"
| "peek_batch L now batch_id (Memory d) = Inr (dict_get d batch_id)"


section \<open>The dry run\<close>

record dry_run_request =
  dq_source_queue :: string
  dq_action :: string
  dq_mode :: string
  dq_target :: "replay_target option"
  dq_payload_contains :: "string option"
  dq_selected :: "string set option"
  dq_max_bulk :: "int option"
  dq_scan_limit :: "int option"
  dq_depth :: "int option"

record dry_run_report =
  dr_batch_id :: string
  dr_mode :: "string option"
  dr_target :: "replay_target option"
  dr_message_count :: int
  dr_unique :: int
  dr_duplicates :: int
  dr_not_seen :: int
  dr_samples :: "string list"
  dr_expires_at :: datetime
  dr_scan_limit :: int

definition resolve_bulk ::
  "pylib \<Rightarrow> settings \<Rightarrow> dry_run_request \<Rightarrow> exn + string \<times> replay_target option"
where
  "resolve_bulk L cfg rq =
     (if dq_action rq = ''replay'' then
        or_raise (case dq_target rq of Some t \<Rightarrow> Inr (Some t) | None \<Rightarrow> configured_target L cfg (dq_source_queue rq)) (\<lambda>t.
          if t = None then Inl (value_error ''No replay target configured for this queue'')
          else Inr (dq_mode rq, t))
      else if dq_action rq = ''park'' then Inr (''park'', Some (parking_queue (dq_source_queue rq)))
      else if dq_action rq = ''delete'' then Inr (''delete'', None)
      else Inl (value_error (''Unsupported bulk action: '' @ dq_action rq)))"

text \<open>Which of the scanned records the batch is about.\<close>

definition pick_records ::
  "dry_run_request \<Rightarrow> bool \<Rightarrow> int \<Rightarrow> message_record list \<Rightarrow> message_record list"
where
  "pick_records rq whole window records =
     (let head = (if whole \<and> dq_selected rq = None then slice_to window records else records);
          containing = (if str_or (dq_payload_contains rq) [] \<noteq> []
                        then filter (\<lambda>r. contains (str_or (dq_payload_contains rq) []) (mr_body r)) head
                        else head)
      in case dq_selected rq of
           None \<Rightarrow> containing
         | Some sel \<Rightarrow> filter (\<lambda>r. mr_fingerprint r \<in> sel) containing)"

definition batch_of ::
  "settings \<Rightarrow> dry_run_request \<Rightarrow> string \<Rightarrow> int \<Rightarrow> string \<times> replay_target option \<Rightarrow> int \<Rightarrow>
     message_record list \<Rightarrow> bulk_batch"
where
  "batch_of cfg rq batch_id now op_target limit records =
     (let fps = map mr_fingerprint records
      in \<lparr>bb_id = batch_id, bb_source_queue = dq_source_queue rq, bb_action = dq_action rq,
          bb_operator_action = fst op_target, bb_target = snd op_target, bb_fingerprints = set fps,
          bb_message_count = int (length records),
          bb_duplicates = int (length (filter (\<lambda>fp. count_list fps fp > 1) (sorted_list_of_set (set fps)))),
          bb_samples = take 10 (sorted_list_of_set (set fps)),
          bb_expires_at = Aware (now + seconds (s_bulk_dry_run_ttl_seconds cfg)),
          bb_scan_limit = limit, bb_scope = (s_environment cfg, s_rabbitmq_vhost cfg)\<rparr>)"

definition report_of :: "dry_run_request \<Rightarrow> bulk_batch \<Rightarrow> dry_run_report" where
  "report_of rq b =
     \<lparr>dr_batch_id = bb_id b, dr_mode = (if dq_action rq = ''replay'' then Some (dq_mode rq) else None),
      dr_target = bb_target b, dr_message_count = bb_message_count b,
      dr_unique = int (card (bb_fingerprints b)), dr_duplicates = bb_duplicates b,
      dr_not_seen = (case dq_selected rq of None \<Rightarrow> 0 | Some sel \<Rightarrow> int (card (sel - bb_fingerprints b))),
      dr_samples = bb_samples b, dr_expires_at = bb_expires_at b, dr_scan_limit = bb_scan_limit b\<rparr>"

definition dry_run ::
  "env \<Rightarrow> settings \<Rightarrow> browse_guard \<Rightarrow> dry_run_request \<Rightarrow> batch_backend \<Rightarrow> (dry_run_report \<times> batch_backend) io"
where
  "dry_run E cfg guard rq st =
     bnd (lift (resolve_bulk (e_lib E) cfg rq)) (\<lambda>op_target.
       let window = int_or (dq_max_bulk rq) (s_max_bulk_size cfg);
           requested = int_or (dq_scan_limit rq) window
       in bnd (guard (dq_source_queue rq)) (\<lambda>whole.
          let limit = (if whole then int_or (dq_depth rq) requested else requested)
          in bnd (browser_list_messages E (dq_source_queue rq) limit whole) (\<lambda>seen.
             let records = pick_records rq whole window seen
             in bnd (token_urlsafe E 16) (\<lambda>batch_id.
                bnd (clock E) (\<lambda>now.
                  let b = batch_of cfg rq batch_id now op_target limit records
                  in bnd (lift (store_batch (e_lib E) b st)) (\<lambda>st'.
                     ret (report_of rq b, st')))))))"


section \<open>The execution\<close>

definition unknown_batch :: "string \<Rightarrow> exn" where
  "unknown_batch s = mk_exn UnknownBatchErr s"

definition wrong_scope :: "settings \<Rightarrow> scope \<Rightarrow> exn" where
  "wrong_scope cfg s =
     unknown_batch (''This dry run was made against '' @ str_or (Some (fst s)) ''another environment'' @
       '' (vhost '' @ str_or (Some (snd s)) ''?'' @ ''), not '' @ s_environment cfg @ '' (vhost '' @
       s_rabbitmq_vhost cfg @ '') '' @ em_dash @ '' run the dry-run again here'')"

record bulk_summary =
  bs_requested :: int
  bs_succeeded :: int
  bs_failed :: int
  bs_skipped :: int
  bs_not_found :: int
  bs_not_attempted :: int

definition summary_of :: "bulk_batch \<Rightarrow> bulk_result list \<Rightarrow> bulk_summary" where
  "summary_of b results =
     (let n = (\<lambda>s. int (count_list (map bk_status results) s))
      in \<lparr>bs_requested = int (card (bb_fingerprints b)), bs_succeeded = n ''success'', bs_failed = n ''failed'',
          bs_skipped = n ''skipped_duplicate'', bs_not_found = n ''not_found'',
          bs_not_attempted = n ''not_attempted''\<rparr>)"

type_synonym bulk_outcome = "bulk_batch \<times> bulk_summary \<times> bulk_result list"

definition execute ::
  "env \<Rightarrow> settings \<Rightarrow> browse_guard \<Rightarrow> string \<Rightarrow> pyval dict \<Rightarrow> batch_backend \<Rightarrow>
     ((exn + bulk_outcome) \<times> batch_backend) io"
where
  "execute E cfg guard batch_id headers st =
     bnd (clock E) (\<lambda>now.
       case take_batch (e_lib E) now batch_id st of
         (Inl e, st') \<Rightarrow> ret (Inl e, st')
       | (Inr None, st') \<Rightarrow>
           ret (Inl (unknown_batch ''Unknown or expired dry-run batch; run the dry-run again''), st')
       | (Inr (Some b), st') \<Rightarrow>
           if bb_scope b \<noteq> (s_environment cfg, s_rabbitmq_vhost cfg) then ret (Inl (wrong_scope cfg (bb_scope b)), st')
           else
             bnd (outcome
               (bnd (guard (bb_source_queue b)) (\<lambda>whole.
                  operate_bulk E (bb_source_queue b) (bb_fingerprints b) (bb_operator_action b) (bb_target b)
                    headers (int_or (Some (bb_scan_limit b)) (s_max_bulk_size cfg)) whole))) (\<lambda>r.
               ret (or_raise r (\<lambda>results. Inr (b, summary_of b results, results)), st')))"


section \<open>With its audit trail\<close>

definition pending_target :: "bulk_batch option \<Rightarrow> replay_target option" where
  "pending_target b = (case b of None \<Rightarrow> None | Some x \<Rightarrow> bb_target x)"

definition batch_entry ::
  "string \<Rightarrow> string \<Rightarrow> bulk_batch option \<Rightarrow> int \<Rightarrow> string \<Rightarrow> string option \<Rightarrow> pyval dict \<Rightarrow> audit_entry"
where
  "batch_entry user action b t result err meta =
     with_target (pending_target b)
       ((audit_entry_of user action t)\<lparr>ae_source_queue := map_option bb_source_queue b,
          ae_result := result, ae_error_message := err, ae_metadata := meta\<rparr>)"

definition result_entry :: "string \<Rightarrow> bulk_batch \<Rightarrow> string \<Rightarrow> int \<Rightarrow> bulk_result \<Rightarrow> audit_entry" where
  "result_entry user b batch_id t r =
     (audit_entry_of user (bb_action b) t)\<lparr>ae_source_queue := Some (bb_source_queue b),
        ae_message_fingerprint := Some (bk_fingerprint r), ae_result := bk_status r,
        ae_error_message := bk_error r, ae_metadata := [(''batch_id'', PStr batch_id)]\<rparr>"

definition summary_meta :: "string \<Rightarrow> int \<Rightarrow> bulk_batch \<Rightarrow> bulk_summary \<Rightarrow> pyval dict" where
  "summary_meta batch_id elapsed b s =
     [(''batch_id'', PStr batch_id), (''duration_ms'', PInt elapsed), (''mode'', PStr (bb_operator_action b)),
      (''fingerprints_requested'', PInt (bs_requested s)), (''succeeded'', PInt (bs_succeeded s)),
      (''failed'', PInt (bs_failed s)), (''skipped_duplicates'', PInt (bs_skipped s)),
      (''not_found'', PInt (bs_not_found s)), (''not_attempted'', PInt (bs_not_attempted s))]"

definition bulk_result_word :: "bulk_summary \<Rightarrow> string" where
  "bulk_result_word s = (if bs_failed s = 0 then ''success'' else ''partial'')"

text \<open>The per-message records, then the batch's.\<close>

definition audit_results ::
  "env \<Rightarrow> string \<Rightarrow> string \<Rightarrow> bulk_batch \<Rightarrow> bulk_summary \<Rightarrow> bulk_result list \<Rightarrow> int \<Rightarrow> unit io"
where
  "audit_results E user batch_id b s results elapsed =
     bnd (for_each (\<lambda>r. bnd (clock E) (\<lambda>t. record_audit E (result_entry user b batch_id t r))) results) (\<lambda>_.
     bnd (clock E) (\<lambda>t.
       record_audit E (batch_entry user (''bulk_'' @ bb_action b) (Some b) t (bulk_result_word s) None
         (summary_meta batch_id elapsed b s))))"

definition execute_audited ::
  "env \<Rightarrow> settings \<Rightarrow> browse_guard \<Rightarrow> string \<Rightarrow> string \<Rightarrow> pyval dict \<Rightarrow> batch_backend \<Rightarrow>
     ((exn + bulk_outcome) \<times> batch_backend) io"
where
  "execute_audited E cfg guard batch_id user headers st =
     bnd (clock E) (\<lambda>t.
     case peek_batch (e_lib E) t batch_id st of
       Inl e \<Rightarrow> ret (Inl e, st)
     | Inr pending \<Rightarrow>
         bnd (case pending of
                None \<Rightarrow> ret headers
              | Some p \<Rightarrow> if bb_operator_action p = ''delete'' then ret headers
                          else bnd (provenance_headers E (bb_operator_action p) (bb_source_queue p) user) (\<lambda>prov.
                                 ret (dict_merge headers prov))) (\<lambda>replay_headers.
         bnd (clock E) (\<lambda>t0.
         bnd (outcome (case pending of
                None \<Rightarrow> ret ()
              | Some p \<Rightarrow> record_audit E (batch_entry user (''bulk_'' @ bb_action p) pending t0 ''started'' None
                  [(''batch_id'', PStr batch_id), (''mode'', PStr (bb_operator_action p)),
                   (''fingerprints'', PInt (int (card (bb_fingerprints p))))]))) (\<lambda>a.
         case a of
           Inl e \<Rightarrow> ret (Inl e, st)
         | Inr _ \<Rightarrow>
             bnd (clock E) (\<lambda>t1.
             bnd (execute E cfg guard batch_id replay_headers st) (\<lambda>(r, st').
             bnd (clock E) (\<lambda>t2.
             case r of
               Inl e \<Rightarrow>
                 if exn_class e = UnknownBatchErr then ret (Inl e, st')
                 else
                   bnd (outcome (record_audit E (batch_entry user
                         (case pending of None \<Rightarrow> ''bulk'' | Some p \<Rightarrow> ''bulk_'' @ bb_action p) pending t2
                         ''failed'' (Some (error_text e []))
                         [(''batch_id'', PStr batch_id),
                          (''mode'', opt_str (map_option bb_operator_action pending))]))) (\<lambda>f.
                     ret (case f of Inl e' \<Rightarrow> Inl e' | Inr _ \<Rightarrow> Inl e, st'))
             | Inr (b, s, results) \<Rightarrow>
                 bnd (outcome (audit_results E user batch_id b s results (duration_ms t1 t2))) (\<lambda>f.
                   ret (or_raise f (\<lambda>_. Inr (b, s, results)), st')))))))))"

end
