(* ===== verification/Bulk_Batches.thy ===== *)
theory Bulk_Batches
  imports Bulk_Service
begin

text \<open>
  What the bulk service relies on from its batch store, as the locale \<open>batch_store\<close>: a saved batch
  is found until it expires, taking it removes it, and nothing else is lost. Process memory and
  the database are its two providers; for the database this needs the payload to read back as it
  was written.
\<close>


section \<open>The payload reads back\<close>

definition storable :: "pylib \<Rightarrow> bulk_batch \<Rightarrow> bool" where
  "storable L b \<longleftrightarrow> finite (bb_fingerprints b) \<and>
     fromisoformat L (isoformat L (bb_expires_at b)) = Some (bb_expires_at b)"

lemma str_value_opt: "str_value (opt_str s) = s"
  by (cases s) (simp_all add: opt_str_def)

lemma target_from_to:
  "target_to_dict (Some t) = PDict d \<Longrightarrow> target_from_dict d = Inr t"
  by (cases t) (auto simp: target_to_dict_def target_from_dict_def str_value_opt)

lemma map_py_str [simp]: "map (py_str L) (map PStr xs) = xs"
  by (induction xs) auto

lemma payload_target:
  "(case target_to_dict t of PDict d \<Rightarrow> or_raise (target_from_dict d) (\<lambda>x. Inr (Some x)) | _ \<Rightarrow> Inr None) =
     (Inr t :: exn + replay_target option)"
proof (cases t)
  case None
  then show ?thesis by (simp add: target_to_dict_def)
next
  case (Some x)
  then obtain d where d: "target_to_dict t = PDict d" by (simp add: target_to_dict_def)
  with Some show ?thesis by (simp add: target_from_to)
qed

lemma payload_reads_back:
  assumes "storable L b"
  shows "batch_from_payload L (batch_to_payload L b) = Inr b"
proof -
  have "map (\<lambda>x. py_str L (PStr x)) xs = xs" for xs by (induction xs) auto
  then show ?thesis
    using assms
    by (cases b) (auto simp: batch_from_payload_def batch_to_payload_def storable_def required_def
        or_default_def py_or_def payload_target comp_def image_image)
qed


section \<open>The interface\<close>

abbreviation fresh :: "int \<Rightarrow> bulk_batch \<Rightarrow> bool" where
  "fresh now b \<equiv> now \<le> as_utc (bb_expires_at b)"

locale batch_store =
  fixes save :: "bulk_batch \<Rightarrow> 's \<Rightarrow> exn + 's"
    and take_out :: "int \<Rightarrow> string \<Rightarrow> 's \<Rightarrow> (exn + bulk_batch option) \<times> 's"
    and contents :: "'s \<Rightarrow> string \<Rightarrow> bulk_batch option"
    and good :: "'s \<Rightarrow> bool"
    and fits :: "bulk_batch \<Rightarrow> bool"
  assumes saved: "good s \<Longrightarrow> fits b \<Longrightarrow> save b s = Inr s' \<Longrightarrow>
      good s' \<and> contents s' = (contents s)(bb_id b \<mapsto> b)"
    and taken: "good s \<Longrightarrow> contents s i = Some b \<Longrightarrow> fresh now b \<Longrightarrow>
      \<exists>s'. take_out now i s = (Inr (Some b), s') \<and> contents s' i = None"
    and missed: "good s \<Longrightarrow> \<forall>b. contents s i = Some b \<longrightarrow> \<not> fresh now b \<Longrightarrow>
      \<exists>s'. take_out now i s = (Inr None, s')"
    and shrinks: "good s \<Longrightarrow> take_out now i s = (r, s') \<Longrightarrow> good s' \<and> contents s' \<subseteq>\<^sub>m contents s"
    and others_stay: "good s \<Longrightarrow> take_out now i s = (r, s') \<Longrightarrow> j \<noteq> i \<Longrightarrow> contents s j = Some b \<Longrightarrow>
      fresh now b \<Longrightarrow> contents s' j = Some b"
begin

lemma take_cases:
  assumes "good s" "take_out now i s = (r, s')"
  obtains (got_batch) b where "r = Inr (Some b)" "contents s i = Some b" "fresh now b" "contents s' i = None"
  | (absent) "r = Inr None" "\<forall>b. contents s i = Some b \<longrightarrow> \<not> fresh now b"
proof (cases "\<exists>b. contents s i = Some b \<and> fresh now b")
  case True
  then obtain b where "contents s i = Some b" "fresh now b" by blast
  with taken[OF assms(1) this] assms(2) show ?thesis by (auto intro: got_batch)
next
  case False
  then have none: "\<forall>b. contents s i = Some b \<longrightarrow> \<not> fresh now b" by blast
  with missed[OF assms(1) none] assms(2) show ?thesis by (intro absent) auto
qed

text \<open>One token, one execution: after a take, no later take finds a batch.\<close>

lemma one_shot:
  assumes "good s" "take_out now i s = (r, s')" "now \<le> now'"
  shows "\<exists>s''. take_out now' i s' = (Inr None, s'')"
proof -
  have "\<forall>b. contents s' i = Some b \<longrightarrow> \<not> fresh now' b"
    using assms(1,2)
  proof (cases rule: take_cases)
    case absent
    have "contents s' \<subseteq>\<^sub>m contents s" using shrinks[OF assms(1,2)] by blast
    with absent(2) assms(3) show ?thesis by (fastforce simp: map_le_def dom_def)
  qed simp
  with missed shrinks[OF assms(1,2)] show ?thesis by blast
qed

text \<open>What was saved is what is taken, while it has not expired.\<close>

lemma take_saved:
  assumes "good s" "fits b" "save b s = Inr s'" "fresh now b"
  shows "fst (take_out now (bb_id b) s') = Inr (Some b)"
proof -
  have "contents s' (bb_id b) = Some b" "good s'" using saved[OF assms(1-3)] by auto
  from taken[OF this(2,1) assms(4)] show ?thesis by auto
qed

end


section \<open>The providers\<close>

fun kept :: "pylib \<Rightarrow> batch_backend \<Rightarrow> string \<Rightarrow> bulk_batch option" where
  "kept L (Memory d) i = dict_get d i"
| "kept L (Database rows) i =
     (case dict_get rows i of
        None \<Rightarrow> None
      | Some (payload, _) \<Rightarrow> (case batch_from_payload L payload of Inl _ \<Rightarrow> None | Inr b \<Rightarrow> Some b))"

text \<open>A row is sound if it reads as a batch with the expiry of its column.\<close>

definition sound_row :: "pylib \<Rightarrow> pyval dict \<times> datetime \<Rightarrow> bool" where
  "sound_row L row \<longleftrightarrow> fst row \<noteq> [] \<and>
     (\<exists>b. batch_from_payload L (fst row) = Inr b \<and> bb_expires_at b = snd row)"

fun memory_store :: "batch_backend \<Rightarrow> bool" where
  "memory_store (Memory d) \<longleftrightarrow> distinct (map fst d)"
| "memory_store (Database _) \<longleftrightarrow> False"

fun database_store :: "pylib \<Rightarrow> batch_backend \<Rightarrow> bool" where
  "database_store L (Memory _) \<longleftrightarrow> False"
| "database_store L (Database rows) \<longleftrightarrow> distinct (map fst rows) \<and> (\<forall>(i, row) \<in> set rows. sound_row L row)"

definition good_backend :: "pylib \<Rightarrow> batch_backend \<Rightarrow> bool" where
  "good_backend L st \<longleftrightarrow> memory_store st \<or> database_store L st"

text \<open>Taking from memory prunes every expired batch and removes the one asked for.\<close>

lemma take_memory:
  assumes "distinct (map fst d)"
  shows "take_batch L now i (Memory d) =
     (Inr (case dict_get d i of None \<Rightarrow> None | Some b \<Rightarrow> if fresh now b then Some b else None),
      Memory (filter (\<lambda>(k, b). fresh now b \<and> k \<noteq> i) d))"
proof -
  have "memory_prune now d = filter (\<lambda>(k, b). fresh now b) d"
    unfolding memory_prune_def by (rule filter_cong) auto
  then show ?thesis
    using assms map_of_filter_values[OF assms, of "\<lambda>k b. fresh now b" i]
    by (simp add: Let_def case_prod_unfold conj_commute)
qed

lemma take_database:
  assumes "database_store L (Database rows)"
  shows "take_batch L now i (Database rows) =
     (case kept L (Database rows) i of
        None \<Rightarrow> (Inr None, Database rows)
      | Some b \<Rightarrow> if fresh now b then (Inr (Some b), Database (filter (\<lambda>(k, _). k \<noteq> i) rows))
                  else (Inr None, Database rows))"
proof (cases "dict_get rows i")
  case None
  then show ?thesis by (simp add: repo_take_def decoded_def)
next
  case (Some row)
  then have "(i, row) \<in> set rows" by (rule map_of_SomeD)
  then have "sound_row L row" using assms by auto
  then obtain b where "fst row \<noteq> []" "batch_from_payload L (fst row) = Inr b" "bb_expires_at b = snd row"
    by (auto simp: sound_row_def)
  with Some show ?thesis
    by (cases row) (auto simp: repo_take_def decoded_def)
qed

interpretation memory_batches: batch_store "store_batch L" "take_batch L" "kept L" memory_store "\<lambda>_. True" for L
proof
  fix s b s' assume "memory_store s" "store_batch L b s = Inr s'"
  then show "memory_store s' \<and> kept L s' = (kept L s)(bb_id b \<mapsto> b)"
    by (cases s) (auto simp: fun_eq_iff AList.distinct_update AList.update_conv')
next
  fix s i b now assume "memory_store s" "kept L s i = Some b" "fresh now b"
  then show "\<exists>s'. take_batch L now i s = (Inr (Some b), s') \<and> kept L s' i = None"
    by (cases s) (auto simp: take_memory map_of_filter_values simp del: take_batch.simps)
next
  fix s i now assume "memory_store s" "\<forall>b. kept L s i = Some b \<longrightarrow> \<not> fresh now b"
  then show "\<exists>s'. take_batch L now i s = (Inr None, s')"
    by (cases s) (auto simp: take_memory simp del: take_batch.simps split: option.splits)
next
  fix s now i r s' assume "memory_store s" "take_batch L now i s = (r, s')"
  then show "memory_store s' \<and> kept L s' \<subseteq>\<^sub>m kept L s"
    by (cases s) (auto simp: take_memory map_of_filter_values distinct_filter_keys map_le_def simp del: take_batch.simps
        split: option.splits if_splits)
next
  fix s now i r s' j b
  assume "memory_store s" "take_batch L now i s = (r, s')" "j \<noteq> i" "kept L s j = Some b" "fresh now b"
  then show "kept L s' j = Some b"
    by (cases s) (auto simp: take_memory map_of_filter_values simp del: take_batch.simps)
qed

lemma saved_database:
  assumes "database_store L s" "storable L b" "store_batch L b s = Inr s'"
  shows "database_store L s' \<and> kept L s' = (kept L s)(bb_id b \<mapsto> b)"
proof -
  obtain rows where s: "s = Database rows" using assms(1) by (cases s) auto
  then have new: "dict_get rows (bb_id b) = None"
      and s': "s' = Database (rows @ [(bb_id b, (batch_to_payload L b, bb_expires_at b))])"
    using assms(3) by (cases "dict_get rows (bb_id b)"; simp)+
  have row: "sound_row L (batch_to_payload L b, bb_expires_at b)"
    using payload_reads_back[OF assms(2)] by (auto simp: sound_row_def batch_to_payload_def)
  have "database_store L s'"
    using assms(1) s s' new row by (auto simp: map_of_eq_None_iff)
  moreover have "kept L s' i = ((kept L s)(bb_id b \<mapsto> b)) i" for i
    using s s' new payload_reads_back[OF assms(2)]
    by (cases "dict_get rows i") (auto simp: map_add_def split: option.splits)
  ultimately show ?thesis by blast
qed

interpretation database_batches: batch_store "store_batch L" "take_batch L" "kept L" "database_store L" "storable L" for L
proof
  fix s b s' assume "database_store L s" "storable L b" "store_batch L b s = Inr s'"
  then show "database_store L s' \<and> kept L s' = (kept L s)(bb_id b \<mapsto> b)" by (rule saved_database)
next
  fix s i b now assume "database_store L s" "kept L s i = Some b" "fresh now b"
  then show "\<exists>s'. take_batch L now i s = (Inr (Some b), s') \<and> kept L s' i = None"
    by (cases s) (simp_all add: take_database map_of_filter_values del: take_batch.simps split: option.splits)
next
  fix s i now assume "database_store L s" "\<forall>b. kept L s i = Some b \<longrightarrow> \<not> fresh now b"
  then show "\<exists>s'. take_batch L now i s = (Inr None, s')"
    by (cases s) (auto simp add: take_database simp del: take_batch.simps kept.simps split: option.splits)
next
  fix s now i r s' assume "database_store L s" "take_batch L now i s = (r, s')"
  then show "database_store L s' \<and> kept L s' \<subseteq>\<^sub>m kept L s"
    by (cases s) (auto simp: take_database distinct_filter_keys map_of_filter_values map_le_def simp del: take_batch.simps
        split: option.splits if_splits sum.splits)
next
  fix s now i r s' j b
  assume "database_store L s" "take_batch L now i s = (r, s')" "j \<noteq> i" "kept L s j = Some b" "fresh now b"
  then show "kept L s' j = Some b"
    by (cases s) (auto simp: take_database map_of_filter_values simp del: take_batch.simps
        split: option.splits if_splits sum.splits)
qed

text \<open>Whichever store is configured.\<close>

interpretation batches: batch_store "store_batch L" "take_batch L" "kept L" "good_backend L" "storable L" for L
proof
  fix s b s' assume "good_backend L s" "storable L b" "store_batch L b s = Inr s'"
  then show "good_backend L s' \<and> kept L s' = (kept L s)(bb_id b \<mapsto> b)"
    using memory_batches.saved[of s L b s'] database_batches.saved[of L s b s'] by (auto simp: good_backend_def)
next
  fix s i b now assume "good_backend L s" "kept L s i = Some b" "fresh now b"
  then show "\<exists>s'. take_batch L now i s = (Inr (Some b), s') \<and> kept L s' i = None"
    using memory_batches.taken[of s L i b now] database_batches.taken[of L s i b now] by (auto simp: good_backend_def)
next
  fix s i now assume "good_backend L s" "\<forall>b. kept L s i = Some b \<longrightarrow> \<not> fresh now b"
  then show "\<exists>s'. take_batch L now i s = (Inr None, s')"
    using memory_batches.missed[of s L i now] database_batches.missed[of L s i now] by (auto simp: good_backend_def)
next
  fix s now i r s' assume "good_backend L s" "take_batch L now i s = (r, s')"
  then show "good_backend L s' \<and> kept L s' \<subseteq>\<^sub>m kept L s"
    using memory_batches.shrinks[of s L now i r s'] database_batches.shrinks[of L s now i r s']
    by (auto simp: good_backend_def)
next
  fix s now i r s' j b
  assume "good_backend L s" "take_batch L now i s = (r, s')" "j \<noteq> i" "kept L s j = Some b" "fresh now b"
  then show "kept L s' j = Some b"
    using memory_batches.others_stay[of s L now i r s' j b] database_batches.others_stay[of L s now i r s' j b]
    by (auto simp: good_backend_def)
qed

end
