(* ===== verification/Bulk_Properties.thy ===== *)
theory Bulk_Properties
  imports Bulk_Batches Action_Properties
begin

text \<open>
  What the two phases of a bulk action guarantee: a dry run removes nothing and approves only what
  it saw; an execution acts on an approved, unexpired batch of its own broker, once; the attempt is
  on record before the queue is touched.
\<close>


section \<open>The execution\<close>

abbreviation own_scope :: "settings \<Rightarrow> scope" where
  "own_scope cfg \<equiv> (s_environment cfg, s_rabbitmq_vhost cfg)"

definition EXPIRED_TEXT :: string where
  "EXPIRED_TEXT = ''Unknown or expired dry-run batch; run the dry-run again''"

lemma execute_unfold:
  "execute E cfg guard i headers st h =
     (case take_batch (e_lib E) (e_clock E h) i st of
        (Inl e, st') \<Rightarrow> (Inr (Inl e, st'), h)
      | (Inr None, st') \<Rightarrow> (Inr (Inl (unknown_batch EXPIRED_TEXT), st'), h)
      | (Inr (Some b), st') \<Rightarrow>
          if bb_scope b \<noteq> own_scope cfg then (Inr (Inl (wrong_scope cfg (bb_scope b)), st'), h)
          else (case bnd (guard (bb_source_queue b)) (\<lambda>whole.
                  operate_bulk E (bb_source_queue b) (bb_fingerprints b) (bb_operator_action b) (bb_target b)
                    headers (int_or (Some (bb_scan_limit b)) (s_max_bulk_size cfg)) whole) h of
                  (r, h') \<Rightarrow> (Inr (or_raise r (\<lambda>results. Inr (b, summary_of b results, results)), st'), h')))"
  by (auto simp: execute_def EXPIRED_TEXT_def bnd_def clock_def observe_def ret_def outcome_def
      split: prod.splits sum.splits option.splits)

text \<open>An execution that adds anything to the history took an approved batch and ran it.\<close>

lemma execute_touched:
  assumes good: "good_backend (e_lib E) st"
    and run: "execute E cfg (service_guard E c) i headers st h = (res, h @ t)" and "t \<noteq> []"
  obtains b r u w where "kept (e_lib E) st i = Some b" "fresh (e_clock E h) b" "bb_scope b = own_scope cfg"
    "t = u @ w" "list_all is_management u"
    "w = [] \<or> (\<exists>whole. operate_bulk E (bb_source_queue b) (bb_fingerprints b) (bb_operator_action b) (bb_target b)
        headers (int_or (Some (bb_scan_limit b)) (s_max_bulk_size cfg)) whole (h @ u) = (r, (h @ u) @ w))"
proof -
  obtain tk st' where tk: "take_batch (e_lib E) (e_clock E h) i st = (tk, st')" by fastforce
  show ?thesis
    using good tk
  proof (cases rule: batches.take_cases)
    case absent
    with run tk assms(3) show ?thesis by (auto simp: execute_unfold)
  next
    case (got_batch b)
    obtain g h1 where g: "service_guard E c (bb_source_queue b) h = (g, h1)" by fastforce
    from service_guard.guard_trace[OF g] obtain u where u: "h1 = h @ u" "list_all is_management u" by blast
    have scope: "bb_scope b = own_scope cfg"
      using run tk got_batch(1) assms(3) by (auto simp: execute_unfold split: if_splits)
    show ?thesis
    proof (cases g)
      case (Inl e)
      then have "t = u @ []" using run tk got_batch(1) scope g u by (auto simp: execute_unfold bnd_def)
      from that[OF got_batch(2,3) scope this u(2)] show ?thesis by blast
    next
      case (Inr whole)
      obtain r h2 where op: "operate_bulk E (bb_source_queue b) (bb_fingerprints b) (bb_operator_action b)
          (bb_target b) headers (int_or (Some (bb_scan_limit b)) (s_max_bulk_size cfg)) whole (h @ u) = (r, h2)"
        by fastforce
      have "h2 = h @ t" using run tk got_batch(1) scope g u Inr op by (auto simp: execute_unfold bnd_def)
      moreover obtain w where w: "h2 = (h @ u) @ w" using doesD[OF operate_bulk_does op] by blast
      ultimately have "t = u @ w" by simp
      from that[OF got_batch(2,3) scope this u(2)] op w show ?thesis by blast
    qed
  qed
qed

lemma management_kinds: "is_management e \<Longrightarrow> \<not> is_ack e \<and> \<not> is_publish e \<and> \<not> is_read e"
  by (cases e) auto

lemma management_got: "list_all is_management u \<Longrightarrow> got u = []"
  by (rule got_no_read) (auto elim!: list_all_imp dest: management_kinds)


section \<open>The dry run\<close>

lemma dry_run_result:
  assumes "dry_run E cfg guard rq st h = (Inr (rep, st'), h')"
  obtains whole h1 limit records h2 op_target where
    "guard (dq_source_queue rq) h = (Inr whole, h1)"
    "browser_list_messages E (dq_source_queue rq) limit whole h1 = (Inr records, h2)" "h' = h2"
    "rep = report_of rq (batch_of cfg rq (e_token E h2 16) (e_clock E h2) op_target limit
       (pick_records rq whole (int_or (dq_max_bulk rq) (s_max_bulk_size cfg)) records))"
    "store_batch (e_lib E) (batch_of cfg rq (e_token E h2 16) (e_clock E h2) op_target limit
       (pick_records rq whole (int_or (dq_max_bulk rq) (s_max_bulk_size cfg)) records)) st = Inr st'"
  using assms
  by (auto simp: dry_run_def bnd_def lift_def Let_def token_urlsafe_def clock_def observe_def ret_def
      split: prod.splits sum.splits)

lemma set_slice_to: "set (slice_to n xs) \<subseteq> set xs"
  by (auto simp: slice_to_def dest: in_set_takeD)

lemma pick_records_subset:
  "set (pick_records rq whole window records) \<subseteq> set records \<and>
   (\<forall>sel. dq_selected rq = Some sel \<longrightarrow> mr_fingerprint ` set (pick_records rq whole window records) \<subseteq> sel)"
  using set_slice_to[of window records]
  by (auto simp: pick_records_def Let_def split: option.splits if_splits)

lemma list_messages_facts:
  assumes "browser_list_messages E q limit whole h = (Inr records, h2)"
  obtains t where "h2 = h @ t" "list_all (\<lambda>e. \<not> is_ack e \<and> \<not> is_publish e) t"
    "records = map (to_record (e_lib E) q False) (got t)"
proof -
  from assms obtain s where s: "scan E q limit whole None False h = (Inr s, h2)" "records = sc_records s"
    by (auto simp: browser_list_messages_def bnd_def ret_def split: prod.splits sum.splits)
  from doesD[OF does_conj[OF scan_facts does_emits[OF scan_no_mutation]] s(1)] s(2) show ?thesis
    by (auto intro: that)
qed


section \<open>The audited execution\<close>

lemma peek_cases:
  assumes "good_backend L st"
  obtains (found) b where "peek_batch L now i st = Inr (Some b)" "kept L st i = Some b"
  | (gone) "peek_batch L now i st = Inr None" "\<forall>b. kept L st i = Some b \<longrightarrow> \<not> fresh now b"
proof (cases st)
  case (Memory d)
  then show ?thesis by (cases "dict_get d i") (auto intro: found gone)
next
  case (Database rows)
  show ?thesis
  proof (cases "dict_get rows i")
    case None
    with Database show ?thesis by (intro gone) (simp_all add: repo_peek_def decoded_def)
  next
    case (Some row)
    then have "sound_row L row"
      using assms Database by (auto simp: good_backend_def dest: map_of_SomeD)
    then obtain b where "fst row \<noteq> []" "batch_from_payload L (fst row) = Inr b" "bb_expires_at b = snd row"
      by (auto simp: sound_row_def)
    with Some Database show ?thesis
      by (cases row, cases "fresh now b") (simp_all add: found gone repo_peek_def decoded_def)
  qed
qed

definition with_provenance :: "env \<Rightarrow> string \<Rightarrow> bulk_batch \<Rightarrow> pyval dict \<Rightarrow> hist \<Rightarrow> pyval dict" where
  "with_provenance E user p headers h =
     (if bb_operator_action p = ''delete'' then headers
      else dict_merge headers (case fst (provenance_headers E (bb_operator_action p) (bb_source_queue p) user h) of
             Inr prov \<Rightarrow> prov | Inl _ \<Rightarrow> []))"

lemma provenance_quiet: "\<exists>prov. provenance_headers E a q u h = (Inr prov, h)"
  by (simp add: provenance_headers_def bnd_def clock_def observe_def ret_def Let_def)

definition start_entry :: "env \<Rightarrow> string \<Rightarrow> string \<Rightarrow> bulk_batch \<Rightarrow> hist \<Rightarrow> audit_entry" where
  "start_entry E user i p h =
     batch_entry user (''bulk_'' @ bb_action p) (Some p) (e_clock E h) ''started'' None
       [(''batch_id'', PStr i), (''mode'', PStr (bb_operator_action p)),
        (''fingerprints'', PInt (int (card (bb_fingerprints p))))]"

lemma batch_entry_fields:
  "ae_result (batch_entry user act b t res err meta) = res" "ae_username (batch_entry user act b t res err meta) = user"
  "ae_action (batch_entry user act b t res err meta) = act"
  "ae_source_queue (batch_entry user act b t res err meta) = map_option bb_source_queue b"
  by (simp_all add: batch_entry_def with_target_def audit_entry_of_def split: option.splits)

lemma start_entry_fields:
  "ae_result (start_entry E user i p h) = ''started''" "ae_username (start_entry E user i p h) = user"
  "ae_action (start_entry E user i p h) = ''bulk_'' @ bb_action p"
  "ae_source_queue (start_entry E user i p h) = Some (bb_source_queue p)"
  by (simp_all add: start_entry_def batch_entry_fields)

text \<open>What follows the execution.\<close>

definition after_execution ::
  "env \<Rightarrow> string \<Rightarrow> string \<Rightarrow> bulk_batch option \<Rightarrow> int \<Rightarrow> exn + bulk_outcome \<Rightarrow> batch_backend \<Rightarrow>
     ((exn + bulk_outcome) \<times> batch_backend) io"
where
  "after_execution E user i pending t1 r st' =
     bnd (clock E) (\<lambda>t2.
       case r of
         Inl e \<Rightarrow>
           if exn_class e = UnknownBatchErr then ret (Inl e, st')
           else
             bnd (outcome (record_audit E (batch_entry user
                   (case pending of None \<Rightarrow> ''bulk'' | Some p \<Rightarrow> ''bulk_'' @ bb_action p) pending t2
                   ''failed'' (Some (error_text e []))
                   [(''batch_id'', PStr i), (''mode'', opt_str (map_option bb_operator_action pending))]))) (\<lambda>f.
               ret (case f of Inl e' \<Rightarrow> Inl e' | Inr _ \<Rightarrow> Inl e, st'))
       | Inr (b, s, results) \<Rightarrow>
           bnd (outcome (audit_results E user i b s results (duration_ms t1 t2))) (\<lambda>f.
             ret (or_raise f (\<lambda>_. Inr (b, s, results)), st')))"

lemma execute_returns: "\<exists>r st' t. execute E cfg (service_guard E c) i headers st h = (Inr (r, st'), h @ t)"
proof -
  have "emits (\<lambda>_. True) (bnd (service_guard E c q) (\<lambda>whole. operate_bulk E q fps act tgt headers lim whole))"
    for q fps act tgt lim
    by (intro emits_bnd emits_service_guard emits_True[OF reads_only_bulk])
  then have "\<exists>t. snd (bnd (service_guard E c q) (\<lambda>whole. operate_bulk E q fps act tgt headers lim whole) h) = h @ t"
    for q fps act tgt lim
    unfolding emits_def by blast
  then show ?thesis
    by (auto simp: execute_unfold split: prod.splits sum.splits option.splits) (metis snd_conv)+
qed

lemma execute_audited_cases:
  assumes "execute_audited E cfg (service_guard E c) i user headers st h = (res, h @ t)" and "good_backend (e_lib E) st"
  obtains
    (unknown) r st' u where "\<forall>b. kept (e_lib E) st i = Some b \<longrightarrow> \<not> fresh (e_clock E h) b"
      "execute E cfg (service_guard E c) i headers st h = (Inr (r, st'), h @ u)"
      "after_execution E user i None (e_clock E h) r st' (h @ u) = (res, h @ t)"
  | (refused) p e where "kept (e_lib E) st i = Some p" "t = [EvAudit (start_entry E user i p h) (Some e)]"
      "res = Inr (Inl e, st)"
  | (ran) p r st' u where "kept (e_lib E) st i = Some p"
      "execute E cfg (service_guard E c) i (with_provenance E user p headers h) st
         (h @ [EvAudit (start_entry E user i p h) None]) = (Inr (r, st'), h @ EvAudit (start_entry E user i p h) None # u)"
      "after_execution E user i (Some p) (e_clock E (h @ [EvAudit (start_entry E user i p h) None])) r st'
         (h @ EvAudit (start_entry E user i p h) None # u) = (res, h @ t)"
  using assms(2)
proof (cases rule: peek_cases[where now = "e_clock E h" and i = i])
  case gone
  obtain r st' u where x: "execute E cfg (service_guard E c) i headers st h = (Inr (r, st'), h @ u)"
    using execute_returns by blast
  have "after_execution E user i None (e_clock E h) r st' (h @ u) = (res, h @ t)"
    using assms(1) gone(1) x
    by (simp add: execute_audited_def after_execution_def bnd_def clock_def observe_def ret_def outcome_def)
  with unknown[OF gone(2) x] show ?thesis by blast
next
  case (found p)
  obtain prov where prov: "provenance_headers E (bb_operator_action p) (bb_source_queue p) user h = (Inr prov, h)"
    using provenance_quiet by blast
  have headers: "(case if bb_operator_action p = ''delete'' then ret headers
        else bnd (provenance_headers E (bb_operator_action p) (bb_source_queue p) user) (\<lambda>prov. ret (dict_merge headers prov)) of
        m \<Rightarrow> m h) = (Inr (with_provenance E user p headers h), h)"
    using prov by (simp add: with_provenance_def ret_def bnd_def)
  show ?thesis
  proof (cases "e_audit E h (start_entry E user i p h)")
    case (Some e)
    then show ?thesis
      using assms(1) found headers
      by (intro refused[OF found(2), of e])
         (auto simp: execute_audited_def bnd_def clock_def observe_def ret_def outcome_def record_audit_def
           perform_def start_entry_def)
  next
    case None
    obtain r st' u where x: "execute E cfg (service_guard E c) i (with_provenance E user p headers h) st
         (h @ [EvAudit (start_entry E user i p h) None]) = (Inr (r, st'), (h @ [EvAudit (start_entry E user i p h) None]) @ u)"
      using execute_returns by blast
    then have x': "execute E cfg (service_guard E c) i (with_provenance E user p headers h) st
         (h @ [EvAudit (start_entry E user i p h) None]) = (Inr (r, st'), h @ EvAudit (start_entry E user i p h) None # u)"
      by simp
    have "after_execution E user i (Some p) (e_clock E (h @ [EvAudit (start_entry E user i p h) None])) r st'
         (h @ EvAudit (start_entry E user i p h) None # u) = (res, h @ t)"
      using assms(1) found headers None x'
      by (simp add: execute_audited_def after_execution_def bnd_def clock_def observe_def ret_def outcome_def
          record_audit_def perform_def start_entry_def)
    from ran[OF found(2) x' this] show ?thesis .
  qed
qed

lemma execute_untouched:
  assumes "good_backend (e_lib E) st" "\<forall>b. kept (e_lib E) st i = Some b \<longrightarrow> \<not> fresh (e_clock E h) b"
    and "execute E cfg (service_guard E c) i headers st h = (Inr (r, st'), h @ u)"
  shows "u = [] \<and> (\<exists>e. r = Inl e \<and> exn_class e = UnknownBatchErr)"
  using batches.missed[OF assms(1,2)] assms(3)
  by (auto simp: execute_unfold unknown_batch_def)

lemma emits_audit_results:
  "emits (\<lambda>e. \<not> touches e) (audit_results E user i b s results ms)"
  unfolding audit_results_def by (intro emits_intros) simp_all

lemma for_each_audit:
  assumes "for_each (\<lambda>r. bnd (clock E) (\<lambda>t. record_audit E (f t r))) rs h = (Inr (), h')"
  shows "\<exists>ts. length ts = length rs \<and> h' = h @ map2 (\<lambda>t r. EvAudit (f t r) None) ts rs"
  using assms
proof (induction rs arbitrary: h)
  case Nil
  then show ?case by (simp add: ret_def)
next
  case (Cons r rs)
  then have ok: "e_audit E h (f (e_clock E h) r) = None"
    by (auto simp: bnd_def clock_def observe_def record_audit_def perform_def split: option.splits)
  with Cons.prems have "for_each (\<lambda>r. bnd (clock E) (\<lambda>t. record_audit E (f t r))) rs
      (h @ [EvAudit (f (e_clock E h) r) None]) = (Inr (), h')"
    by (simp add: bnd_def clock_def observe_def record_audit_def perform_def)
  from Cons.IH[OF this] obtain ts where "length ts = length rs"
    "h' = (h @ [EvAudit (f (e_clock E h) r) None]) @ map2 (\<lambda>t r. EvAudit (f t r) None) ts rs" by blast
  then show ?case by (intro exI[of _ "e_clock E h # ts"]) simp
qed

lemma after_execution_reported:
  assumes "after_execution E user i pending t1 r st' h = (Inr (Inr (b, s, results), st''), h')"
  obtains ts t2 ms where "length ts = length results"
    "h' = h @ map2 (\<lambda>t x. EvAudit (result_entry user b i t x) None) ts results @
       [EvAudit (batch_entry user (''bulk_'' @ bb_action b) (Some b) t2 (bulk_result_word s) None (summary_meta i ms b s)) None]"
    "r = Inr (b, s, results)"
proof (cases r)
  case (Inl e)
  then show ?thesis
    using assms by (auto simp: after_execution_def bnd_def clock_def observe_def ret_def outcome_def
        split: if_splits prod.splits sum.splits)
next
  case (Inr x)
  define ms where "ms = duration_ms t1 (e_clock E h)"
  from Inr assms have r: "r = Inr (b, s, results)" and aud: "audit_results E user i b s results ms h = (Inr (), h')"
    by (auto simp: after_execution_def bnd_def clock_def observe_def ret_def outcome_def ms_def or_raise_def
        split: prod.splits sum.splits)
  obtain x h1 where each: "for_each (\<lambda>r. bnd (clock E) (\<lambda>t. record_audit E (result_entry user b i t r))) results h = (x, h1)"
    by fastforce
  with aud have x: "x = Inr ()"
    by (cases x) (auto simp: audit_results_def bnd_def)
  let ?fin = "batch_entry user (''bulk_'' @ bb_action b) (Some b) (e_clock E h1) (bulk_result_word s) None (summary_meta i ms b s)"
  have "h' = h1 @ [EvAudit ?fin None]"
    using aud each x by (auto simp: audit_results_def bnd_def clock_def observe_def record_audit_def perform_def
        split: option.splits)
  moreover obtain ts where "length ts = length results"
      "h1 = h @ map2 (\<lambda>t x. EvAudit (result_entry user b i t x) None) ts results"
    using for_each_audit[of E "result_entry user b i" results h h1] each x by blast
  ultimately show ?thesis using r by (intro that) auto
qed


section \<open>Properties\<close>

text \<open>A library whose clock texts read back at the expiry of the sample batch, and that batch.\<close>

definition dated_lib :: pylib where
  "dated_lib = sample_lib\<lparr>fromisoformat := (\<lambda>_. Some (Aware (seconds 600)))\<rparr>"

definition approved_batch :: bulk_batch where
  "approved_batch =
     \<lparr>bb_id = ''token'', bb_source_queue = ''dlq'', bb_action = ''replay'', bb_operator_action = ''move'',
      bb_target = Some (queue_target ''orders''), bb_fingerprints = {''a'', ''c''}, bb_message_count = 2,
      bb_duplicates = 0, bb_samples = [''a'', ''c''], bb_expires_at = Aware (seconds 600), bb_scan_limit = 10,
      bb_scope = (''prod'', ''/'')\<rparr>"

definition bulk_env :: env where
  "bulk_env = managed_classic_env\<lparr>e_lib := dated_lib\<rparr>"

definition approved_rows :: batch_backend where
  "approved_rows = Database [(''token'', (batch_to_payload dated_lib approved_batch, Aware (seconds 600)))]"

lemma approved_storable: "storable dated_lib approved_batch"
  by (simp add: storable_def approved_batch_def dated_lib_def)

lemma approved_good: "good_backend (e_lib bulk_env) approved_rows"
  using payload_reads_back[OF approved_storable]
  by (simp add: good_backend_def approved_rows_def sound_row_def bulk_env_def batch_to_payload_def
      approved_batch_def)

definition approved_run :: "(exn + ((exn + bulk_outcome) \<times> batch_backend)) \<times> hist" where
  "approved_run = execute bulk_env sample_settings (service_guard bulk_env None) ''token'' [] approved_rows []"

text \<open>
  A batch kept in the database reads back as it was approved, to the last field: the set of
  fingerprints, the target, the expiry and the scope.
\<close>

theorem batch_reads_back:
  assumes "finite (bb_fingerprints b)"
    and "fromisoformat L (isoformat L (bb_expires_at b)) = Some (bb_expires_at b)"
  shows "batch_from_payload L (batch_to_payload L b) = Inr b"
  using assms by (intro payload_reads_back) (simp add: storable_def)

theorem batch_reads_back_witness:
  "batch_from_payload dated_lib (batch_to_payload dated_lib approved_batch) = Inr approved_batch"
  by (rule batch_reads_back) (simp_all add: approved_batch_def dated_lib_def)

text \<open>
  C13. One token, one execution. Whatever the first execution came to (a report, an error, a batch
  of another environment), a later one with the same token finds no batch and touches nothing,
  whether batches live in memory or in the database.
\<close>

theorem batch_executes_once:
  assumes "good_backend (e_lib E) st" and "execute E cfg guard i headers st h = (Inr (r, st'), h1)"
    and "e_clock E h \<le> e_clock E h2"
  shows "\<exists>st''. execute E cfg' guard' i headers' st' h2 =
     (Inr (Inl (unknown_batch ''Unknown or expired dry-run batch; run the dry-run again''), st''), h2)"
proof -
  obtain tk s' where tk: "take_batch (e_lib E) (e_clock E h) i st = (tk, s')" by fastforce
  then have "s' = st'"
    using assms(2) by (auto simp: execute_unfold split: sum.splits option.splits if_splits prod.splits)
  with batches.one_shot[OF assms(1) tk assms(3)] show ?thesis
    by (auto simp: execute_unfold EXPIRED_TEXT_def)
qed

theorem batch_executes_once_witness:
  "\<exists>r st' st''. fst approved_run = Inr (Inr r, st') \<and>
     execute bulk_env sample_settings (service_guard bulk_env None) ''token'' [] st' (snd approved_run) =
     (Inr (Inl (unknown_batch ''Unknown or expired dry-run batch; run the dry-run again''), st''), snd approved_run)"
proof -
  have "(case fst approved_run of Inr (Inr r, st') \<Rightarrow> True | _ \<Rightarrow> False)" by code_simp
  then obtain r st' where run: "fst approved_run = Inr (Inr r, st')"
    by (auto split: sum.splits prod.splits)
  then have "execute bulk_env sample_settings (service_guard bulk_env None) ''token'' [] approved_rows [] =
      (Inr (Inr r, st'), snd approved_run)"
    by (simp add: approved_run_def prod_eq_iff)
  moreover have "e_clock bulk_env [] \<le> e_clock bulk_env (snd approved_run)"
    by (simp add: bulk_env_def managed_classic_env_def managed_def sample_env_def)
  ultimately show ?thesis using batch_executes_once[OF approved_good] run by blast
qed

text \<open>
  C14. An execution removes a message only if a dry run approved it: the batch of the token is
  kept, has not expired and was made against this broker; the message is the only one read with
  one of its fingerprints, and its copy was published to the batch's target before, unless the
  batch deletes.
\<close>

theorem batch_acts_on_approved:
  assumes "good_backend (e_lib E) st"
    and "execute E cfg (service_guard E c) i headers st h = (res, h @ before @ EvAck x a # after)"
    and "distinct (map d_tag (got (before @ EvAck x a # after)))"
  shows "\<exists>b. kept (e_lib E) st i = Some b \<and> e_clock E h \<le> as_utc (bb_expires_at b) \<and>
    bb_scope b = (s_environment cfg, s_rabbitmq_vhost cfg) \<and> bb_operator_action b \<noteq> ''copy'' \<and>
    (\<exists>fp \<in> bb_fingerprints b. \<exists>m. matches_in E (bb_source_queue b) fp (got before) = [m] \<and> d_tag m = x \<and>
       (bb_operator_action b \<in> PUBLISHING \<longrightarrow>
          (\<exists>tgt. bb_target b = Some tgt \<and>
             published tgt (bulk_copy E (bb_source_queue b) (bb_operator_action b) headers m) before)))"
proof -
  obtain b r u w where b: "kept (e_lib E) st i = Some b" "fresh (e_clock E h) b" "bb_scope b = own_scope cfg"
      and split: "before @ EvAck x a # after = u @ w" and u: "list_all is_management u"
      and op: "w = [] \<or> (\<exists>whole. operate_bulk E (bb_source_queue b) (bb_fingerprints b) (bb_operator_action b) (bb_target b)
        headers (int_or (Some (bb_scan_limit b)) (s_max_bulk_size cfg)) whole (h @ u) = (r, (h @ u) @ w))"
    by (rule execute_touched[OF assms(1,2)]) simp
  have "EvAck x a \<notin> set u" using u by (auto simp: list_all_iff)
  then obtain b' where b': "before = u @ b'" "w = b' @ EvAck x a # after"
    using split by (cases "length u \<le> length before") (auto simp: append_eq_append_conv2 Cons_eq_append_conv)
  then obtain whole where run: "operate_bulk E (bb_source_queue b) (bb_fingerprints b) (bb_operator_action b)
      (bb_target b) headers (int_or (Some (bb_scan_limit b)) (s_max_bulk_size cfg)) whole (h @ u) =
      (r, (h @ u) @ b' @ EvAck x a # after)"
    using op by auto
  have tags: "distinct (map d_tag (got (b' @ EvAck x a # after)))"
    using assms(3) b' management_got[OF u] by simp
  have g: "got before = got b'" using b'(1) management_got[OF u] by simp
  from batch_run_facts(1)[OF doesD'[OF operate_bulk_does run] tags]
  have "bulk_ack E (bb_source_queue b) (bb_operator_action b) (bb_target b) headers (got b') (bb_fingerprints b) b' x"
    unfolding acks_justified_def fresh_ack_def by blast
  with b g b'(1) show ?thesis
    by (auto simp: bulk_ack_def unique_match_def intro: published_append)
qed

theorem batch_acts_on_approved_witness:
  "\<exists>before after b. snd approved_run = before @ EvAck 3 None # after \<and>
     kept dated_lib approved_rows ''token'' = Some b \<and> bb_scope b = (''prod'', ''/'')"
proof -
  let ?i = "length (takeWhile (\<lambda>e. e \<noteq> EvAck 3 None) (snd approved_run))"
  have split: "snd approved_run = take ?i (snd approved_run) @ EvAck 3 None # drop (Suc ?i) (snd approved_run)"
    by code_simp
  have tags: "distinct (map d_tag (got (take ?i (snd approved_run) @ EvAck 3 None # drop (Suc ?i) (snd approved_run))))"
    unfolding split[symmetric] by code_simp
  have run: "execute bulk_env sample_settings (service_guard bulk_env None) ''token'' [] approved_rows [] =
     (fst approved_run, [] @ take ?i (snd approved_run) @ EvAck 3 None # drop (Suc ?i) (snd approved_run))"
    unfolding append_Nil split[symmetric] by (simp add: approved_run_def)
  from batch_acts_on_approved[OF approved_good run tags] split show ?thesis
    by (auto simp: bulk_env_def sample_settings_def)
qed

text \<open>
  A dry run removes nothing and publishes nothing. The batch it leaves behind its token is of
  this broker and of the queue asked for, and holds only fingerprints of messages it was given,
  and only selected ones where messages were selected.
\<close>

theorem dry_run_only_looks:
  assumes "dry_run E cfg (service_guard E c) rq st h = (Inr (rep, st'), h @ t)"
    and "good_backend (e_lib E) st"
    and "fromisoformat (e_lib E) (isoformat (e_lib E) (dr_expires_at rep)) = Some (dr_expires_at rep)"
  shows "(\<forall>e \<in> set t. \<not> is_ack e \<and> \<not> is_publish e) \<and>
    (\<exists>b. kept (e_lib E) st' (dr_batch_id rep) = Some b \<and> bb_source_queue b = dq_source_queue rq \<and>
       bb_scope b = (s_environment cfg, s_rabbitmq_vhost cfg) \<and> bb_expires_at b = dr_expires_at rep \<and>
       bb_fingerprints b \<subseteq> (\<lambda>m. mr_fingerprint (to_record (e_lib E) (dq_source_queue rq) False m)) ` set (got t) \<and>
       (\<forall>sel. dq_selected rq = Some sel \<longrightarrow> bb_fingerprints b \<subseteq> sel))"
  using assms(1)
proof (cases rule: dry_run_result)
  case (1 whole h1 limit records h2 op_target)
  define picked where "picked = pick_records rq whole (int_or (dq_max_bulk rq) (s_max_bulk_size cfg)) records"
  define b where "b = batch_of cfg rq (e_token E h2 16) (e_clock E h2) op_target limit picked"
  from service_guard.guard_trace[OF 1(1)] obtain u where u: "h1 = h @ u" "list_all is_management u" by blast
  from list_messages_facts[OF 1(2)] obtain v where v: "h2 = h1 @ v"
      "list_all (\<lambda>e. \<not> is_ack e \<and> \<not> is_publish e) v"
      "records = map (to_record (e_lib E) (dq_source_queue rq) False) (got v)" by blast
  have t: "t = u @ v" using 1(3) u(1) v(1) by simp
  have rep: "rep = report_of rq b" and saved: "store_batch (e_lib E) b st = Inr st'"
    using 1(4,5) by (simp_all add: b_def picked_def)
  have fields: "bb_id b = dr_batch_id rep" "bb_expires_at b = dr_expires_at rep" "finite (bb_fingerprints b)"
    "bb_source_queue b = dq_source_queue rq" "bb_scope b = own_scope cfg" "bb_fingerprints b = mr_fingerprint ` set picked"
    by (simp_all add: rep report_of_def b_def batch_of_def Let_def)
  have "storable (e_lib E) b" using fields(2,3) assms(3) by (simp add: storable_def)
  from batches.saved[OF assms(2) this saved] have "kept (e_lib E) st' (dr_batch_id rep) = Some b"
    using fields(1) by simp
  moreover have "\<forall>e \<in> set t. \<not> is_ack e \<and> \<not> is_publish e"
    using t u(2) v(2) by (auto simp: list_all_iff dest: management_kinds)
  moreover have "bb_fingerprints b \<subseteq> (\<lambda>m. mr_fingerprint (to_record (e_lib E) (dq_source_queue rq) False m)) ` set (got t)"
    using pick_records_subset[of rq whole "int_or (dq_max_bulk rq) (s_max_bulk_size cfg)" records] v(3) t fields(6)
    by (force simp: picked_def simp del: to_record_fields)
  moreover have "\<forall>sel. dq_selected rq = Some sel \<longrightarrow> bb_fingerprints b \<subseteq> sel"
    using pick_records_subset[of rq whole "int_or (dq_max_bulk rq) (s_max_bulk_size cfg)" records] fields(6)
    by (auto simp: picked_def)
  ultimately show ?thesis using fields(2,4,5) by auto
qed

definition sample_request :: dry_run_request where
  "sample_request = \<lparr>dq_source_queue = ''dlq'', dq_action = ''delete'', dq_mode = ''copy'', dq_target = None,
     dq_payload_contains = None, dq_selected = Some {''a'', ''zzz''}, dq_max_bulk = None, dq_scan_limit = None,
     dq_depth = None\<rparr>"

definition looked :: "(exn + (dry_run_report \<times> batch_backend)) \<times> hist" where
  "looked = dry_run bulk_env sample_settings (service_guard bulk_env None) sample_request (Database []) []"

theorem dry_run_only_looks_witness:
  "\<exists>rep st' b. fst looked = Inr (rep, st') \<and> kept dated_lib st' (dr_batch_id rep) = Some b \<and>
     bb_fingerprints b \<subseteq> {''a'', ''zzz''} \<and> dr_unique rep = 1 \<and> dr_not_seen rep = 1"
proof -
  have v: "(case fst looked of Inr (rep, st') \<Rightarrow> dr_unique rep = 1 \<and> dr_not_seen rep = 1 \<and>
      dr_expires_at rep = Aware (seconds 600) | _ \<Rightarrow> False)" by code_simp
  then obtain rep st' where res: "fst looked = Inr (rep, st')" "dr_unique rep = 1" "dr_not_seen rep = 1"
      "dr_expires_at rep = Aware (seconds 600)"
    by (auto split: sum.splits prod.splits)
  have run: "dry_run bulk_env sample_settings (service_guard bulk_env None) sample_request (Database []) [] =
      (Inr (rep, st'), [] @ snd looked)"
    using res(1) by (simp add: looked_def prod_eq_iff)
  have "good_backend (e_lib bulk_env) (Database [])" by (simp add: good_backend_def)
  moreover have "fromisoformat (e_lib bulk_env) (isoformat (e_lib bulk_env) (dr_expires_at rep)) = Some (dr_expires_at rep)"
    using res(4) by (simp add: bulk_env_def dated_lib_def)
  ultimately obtain b where "kept (e_lib bulk_env) st' (dr_batch_id rep) = Some b" "bb_fingerprints b \<subseteq> {''a'', ''zzz''}"
    using dry_run_only_looks[OF run] by (auto simp: sample_request_def)
  with res show ?thesis by (auto simp: bulk_env_def)
qed

text \<open>
  No audit, no bulk action: before an audited execution asks anything of the broker or its
  Management API, the attempt is on record in the user's name, with the action and the queue of
  the approved batch.
\<close>

theorem bulk_recorded_first:
  assumes "execute_audited E cfg (service_guard E c) i user headers st h = (res, h @ before @ e # after)"
    and "good_backend (e_lib E) st" and "touches e"
  shows "\<exists>entry b. kept (e_lib E) st i = Some b \<and> EvAudit entry None \<in> set before \<and> ae_result entry = ''started'' \<and>
     ae_username entry = user \<and> ae_action entry = ''bulk_'' @ bb_action b \<and> ae_source_queue entry = Some (bb_source_queue b)"
  using assms(1,2)
proof (cases rule: execute_audited_cases)
  case (unknown r st' u)
  from execute_untouched[OF assms(2) unknown(1,2)] unknown(3) assms(3) show ?thesis
    by (auto simp: after_execution_def bnd_def clock_def observe_def ret_def)
next
  case (refused p er)
  with assms(3) show ?thesis by (auto simp: Cons_eq_append_conv append_eq_Cons_conv)
next
  case (ran p r st' u)
  have "emits (\<lambda>_. True) (after_execution E user i (Some p) t1 r st')" for t1
    unfolding after_execution_def
    by (intro emits_intros emits_True[OF emits_audit_results]) simp_all
  from emitsD[OF this ran(3)] obtain v where "before @ e # after = EvAudit (start_entry E user i p h) None # v"
    by auto
  then have "EvAudit (start_entry E user i p h) None \<in> set before"
    using assms(3) by (cases before) auto
  with ran(1) start_entry_fields[of E user i p h] show ?thesis by blast
qed

definition audited_run :: "(exn + ((exn + bulk_outcome) \<times> batch_backend)) \<times> hist" where
  "audited_run = execute_audited bulk_env sample_settings (service_guard bulk_env None) ''token'' ''ann'' [] approved_rows []"

lemma audited_run_eq:
  "execute_audited bulk_env sample_settings (service_guard bulk_env None) ''token'' ''ann'' [] approved_rows [] =
     (fst audited_run, [] @ snd audited_run)"
  by (simp add: audited_run_def)

theorem bulk_recorded_first_witness:
  "\<exists>before after entry. snd audited_run = before @ EvAck 1 None # after \<and> EvAudit entry None \<in> set before \<and>
     ae_result entry = ''started'' \<and> ae_username entry = ''ann''"
proof -
  let ?i = "length (takeWhile (\<lambda>e. e \<noteq> EvAck 1 None) (snd audited_run))"
  have split: "snd audited_run = take ?i (snd audited_run) @ EvAck 1 None # drop (Suc ?i) (snd audited_run)"
    by code_simp
  have "execute_audited bulk_env sample_settings (service_guard bulk_env None) ''token'' ''ann'' [] approved_rows [] =
     (fst audited_run, [] @ take ?i (snd audited_run) @ EvAck 1 None # drop (Suc ?i) (snd audited_run))"
    unfolding split[symmetric] by (rule audited_run_eq)
  from bulk_recorded_first[OF this approved_good] split show ?thesis
    by (metis touches.simps(9))
qed

text \<open>
  The audit trail of a reported batch is complete: the history ends with one record per
  result, in order, with its fingerprint, status and error, and then the record of the batch with
  its summary, all in the user's name and all accepted by the database.
\<close>

theorem bulk_results_audited:
  assumes "execute_audited E cfg (service_guard E c) i user headers st h = (Inr (Inr (b, s, results), st'), h @ t)"
    and "good_backend (e_lib E) st"
  shows "\<exists>u ts fin. t = u @ map2 (\<lambda>n x. EvAudit (result_entry user b i n x) None) ts results @ [EvAudit fin None] \<and>
     length ts = length results \<and> ae_username fin = user \<and> ae_action fin = ''bulk_'' @ bb_action b \<and>
     ae_result fin = (if bs_failed s = 0 then ''success'' else ''partial'')"
proof -
  have report: "\<exists>u ts fin. h @ t = (h @ u) @ map2 (\<lambda>n x. EvAudit (result_entry user b i n x) None) ts results @ [EvAudit fin None] \<and>
     length ts = length results \<and> ae_username fin = user \<and> ae_action fin = ''bulk_'' @ bb_action b \<and>
     ae_result fin = (if bs_failed s = 0 then ''success'' else ''partial'')"
    if run: "after_execution E user i pending t1 r st1 (h @ v) = (Inr (Inr (b, s, results), st'), h @ t)" for pending t1 r st1 v
  proof -
    from after_execution_reported[OF run] obtain ts t2 ms where "length ts = length results"
      "h @ t = (h @ v) @ map2 (\<lambda>n x. EvAudit (result_entry user b i n x) None) ts results @
        [EvAudit (batch_entry user (''bulk_'' @ bb_action b) (Some b) t2 (bulk_result_word s) None (summary_meta i ms b s)) None]"
      by blast
    then show ?thesis
      by (intro exI[of _ v] exI[of _ ts] exI[of _ "batch_entry user (''bulk_'' @ bb_action b) (Some b) t2
            (bulk_result_word s) None (summary_meta i ms b s)"])
         (simp add: batch_entry_fields bulk_result_word_def)
  qed
  from assms show ?thesis
  proof (cases rule: execute_audited_cases)
    case (unknown r st1 u)
    from report[OF unknown(3)] show ?thesis by simp
  next
    case (ran p r st1 u)
    from report[OF ran(3)] show ?thesis by simp
  qed simp
qed

theorem bulk_results_audited_witness:
  "\<exists>u ts fin b s results. snd audited_run = u @ map2 (\<lambda>n x. EvAudit (result_entry ''ann'' b ''token'' n x) None) ts results @
     [EvAudit fin None] \<and> results = [bulk_status ''a'' ''success'', bulk_status ''c'' ''success''] \<and> length ts = 2"
proof -
  have v: "(case fst audited_run of Inr (Inr (b, s, results), st') \<Rightarrow>
      results = [bulk_status ''a'' ''success'', bulk_status ''c'' ''success''] | _ \<Rightarrow> False)" by code_simp
  then obtain b s results st' where res: "fst audited_run = Inr (Inr (b, s, results), st')"
      "results = [bulk_status ''a'' ''success'', bulk_status ''c'' ''success'']"
    by (auto split: sum.splits prod.splits)
  from bulk_results_audited[OF audited_run_eq[unfolded res(1)] approved_good] res(2) show ?thesis
    by fastforce
qed

end
