(* ===== verification/Alerts.thy ===== *)
theory Alerts
  imports Queue_Service Config
begin

text \<open>
  Alert rules (app/application/alert_engine.py, app/infrastructure/mailer.py) and the two
  repositories they live in (\<open>AlertRuleRepository\<close>, \<open>NotificationRepository\<close> of
  persistence/store.py).

  The rule table and the engine's clocks on held conditions are explicit state; delivering and
  adding a notification are calls of the outside world. \<open>evaluate\<close> takes the rule as it was listed
  and the table as it is, so that an evaluation on a stale listing (a slow pass, another replica)
  is an argument like any other. File name matching (\<open>fnmatch\<close>) is the standard library's; it works
  on code points.
\<close>


section \<open>File name patterns (fnmatch)\<close>

text \<open>The code points of a text: a byte that is not a continuation byte starts one.\<close>

fun code_points :: "string \<Rightarrow> string list" where
  "code_points [] = []"
| "code_points (c # cs) =
     (case code_points cs of
        [] \<Rightarrow> [[c]]
      | w # ws \<Rightarrow> if (case w of [] \<Rightarrow> False | d # _ \<Rightarrow> continuation d) then (c # w) # ws else [c] # w # ws)"

datatype glob = Star | AnyOne | OneOf bool "(string \<times> string) list" | Lit string

fun range_items :: "string list \<Rightarrow> (string \<times> string) list" where
  "range_items (a # m # b # rest) =
     (if m = ''-'' then (a, b) # range_items rest else (a, a) # range_items (m # b # rest))"
| "range_items (a # rest) = (a, a) # range_items rest"
| "range_items [] = []"

text \<open>The part between \<open>[\<close> and its \<open>]\<close>, and what follows; a \<open>]\<close> in first place is literal.\<close>

definition literal_prefix :: "string list \<Rightarrow> nat" where
  "literal_prefix cs =
     (case cs of
        [] \<Rightarrow> 0
      | a # r \<Rightarrow> if a = ''!'' then (case r of b # _ \<Rightarrow> if b = '']'' then 2 else 1 | [] \<Rightarrow> 1)
                 else if a = '']'' then 1 else 0)"

definition bracket_split :: "string list \<Rightarrow> (string list \<times> string list) option" where
  "bracket_split cs =
     (let tail = drop (literal_prefix cs) cs
      in case dropWhile (\<lambda>c. c \<noteq> '']'') tail of
           [] \<Rightarrow> None
         | _ # rest \<Rightarrow> Some (take (literal_prefix cs) cs @ takeWhile (\<lambda>c. c \<noteq> '']'') tail, rest))"

lemma bracket_split_shorter:
  assumes "bracket_split cs = Some (inner, rest)"
  shows "length rest < length cs"
proof -
  define tail where "tail = drop (literal_prefix cs) cs"
  obtain x where "dropWhile (\<lambda>c. c \<noteq> '']'') tail = x # rest"
    using assms unfolding bracket_split_def Let_def tail_def[symmetric] by (simp split: list.splits)
  then have "length (x # rest) \<le> length tail"
    by (metis length_dropWhile_le)
  then show ?thesis by (simp add: tail_def)
qed

fun glob_of :: "string list \<Rightarrow> glob list" where
  "glob_of [] = []"
| "glob_of (c # cs) =
     (if c = ''*'' then Star # glob_of cs
      else if c = ''?'' then AnyOne # glob_of cs
      else if c = ''['' then
        (case bracket_split cs of
           None \<Rightarrow> Lit c # glob_of cs
         | Some (inner, rest) \<Rightarrow>
             (if \<not> length rest < length cs then []
              else (case inner of
                      [] \<Rightarrow> OneOf True []
                    | a # members \<Rightarrow> if a = ''!'' then OneOf False (range_items members)
                                else OneOf True (range_items inner)) # glob_of rest))
      else Lit c # glob_of cs)"

fun glob_matches :: "glob list \<Rightarrow> string list \<Rightarrow> bool" where
  "glob_matches [] s \<longleftrightarrow> s = []"
| "glob_matches (Star # p) s \<longleftrightarrow> (case s of [] \<Rightarrow> glob_matches p [] | _ # t \<Rightarrow> glob_matches p s \<or> glob_matches (Star # p) t)"
| "glob_matches (AnyOne # p) s \<longleftrightarrow> (case s of [] \<Rightarrow> False | _ # t \<Rightarrow> glob_matches p t)"
| "glob_matches (OneOf pos items # p) s \<longleftrightarrow>
     (case s of [] \<Rightarrow> False
      | c # t \<Rightarrow> (list_ex (\<lambda>(a, b). a \<le> c \<and> c \<le> b) items = pos) \<and> glob_matches p t)"
| "glob_matches (Lit x # p) s \<longleftrightarrow> (case s of [] \<Rightarrow> False | c # t \<Rightarrow> c = x \<and> glob_matches p t)"

definition fnmatch :: "string \<Rightarrow> string \<Rightarrow> bool" where
  "fnmatch name pat = glob_matches (glob_of (code_points pat)) (code_points name)"


section \<open>The rule table (AlertRuleRepository)\<close>

record alert_rule =
  ar_id :: int
  ar_name :: string
  ar_pattern :: string
  ar_environment :: "string option"
  ar_vhost :: "string option"
  ar_metric :: string
  ar_operator :: string
  ar_threshold :: int
  ar_duration :: int
  ar_severity :: string
  ar_channels :: "string list"
  ar_enabled :: bool
  ar_created_by :: string
  ar_last_fired :: "datetime option"
  ar_fired :: bool

definition rules_list :: "alert_rule list \<Rightarrow> alert_rule list" where
  "rules_list rows = sort_key (\<lambda>r. - ar_id r) rows"

text \<open>The database chooses the id.\<close>

definition rules_create :: "int \<Rightarrow> alert_rule \<Rightarrow> alert_rule list \<Rightarrow> alert_rule \<times> alert_rule list" where
  "rules_create new_id r rows = (r\<lparr>ar_id := new_id\<rparr>, rows @ [r\<lparr>ar_id := new_id\<rparr>])"

definition rules_update ::
  "int \<Rightarrow> (alert_rule \<Rightarrow> alert_rule) \<Rightarrow> alert_rule list \<Rightarrow> alert_rule option \<times> alert_rule list"
where
  "rules_update i change rows =
     (map_option change (find (\<lambda>r. ar_id r = i) rows), map (\<lambda>r. if ar_id r = i then change r else r) rows)"

definition rules_delete :: "int \<Rightarrow> alert_rule list \<Rightarrow> bool \<times> alert_rule list" where
  "rules_delete i rows = (list_ex (\<lambda>r. ar_id r = i) rows, filter (\<lambda>r. ar_id r \<noteq> i) rows)"

text \<open>\<open>UPDATE ... WHERE id = :id AND fired != :fired\<close>: only the caller that changed it gets True.\<close>

definition set_fired :: "pylib \<Rightarrow> int \<Rightarrow> bool \<Rightarrow> datetime option \<Rightarrow> alert_rule list \<Rightarrow> bool \<times> alert_rule list" where
  "set_fired L i fired stamp rows =
     (list_ex (\<lambda>r. ar_id r = i \<and> ar_fired r \<noteq> fired) rows,
      map (\<lambda>r. if ar_id r = i \<and> ar_fired r \<noteq> fired
               then (case stamp of None \<Rightarrow> r\<lparr>ar_fired := fired\<rparr>
                     | Some d \<Rightarrow> r\<lparr>ar_fired := fired, ar_last_fired := Some (db_time L d)\<rparr>)
               else r) rows)"

definition mark_fired :: "pylib \<Rightarrow> int \<Rightarrow> int \<Rightarrow> alert_rule list \<Rightarrow> bool \<times> alert_rule list" where
  "mark_fired L i now rows = set_fired L i True (Some (Aware now)) rows"

definition adopt_unscoped :: "string \<Rightarrow> string \<Rightarrow> alert_rule list \<Rightarrow> alert_rule list" where
  "adopt_unscoped environment vhost rows =
     map (\<lambda>r. if ar_environment r = None then r\<lparr>ar_environment := Some environment, ar_vhost := Some vhost\<rparr> else r) rows"


section \<open>Conditions\<close>

text \<open>\<open>float(value)\<close>, and the comparisons of floats: nothing compares with not-a-number.\<close>

fun py_float :: "pylib \<Rightarrow> pyval \<Rightarrow> exn + pyfloat" where
  "py_float L (PBool b) = Inr (Finite (if b then 1 else 0))"
| "py_float L (PInt n) = Inr (Finite (of_int n))"
| "py_float L (PFloat f) = Inr f"
| "py_float L (PStr s) =
     (case parse_float L s of Some f \<Rightarrow> Inr f | None \<Rightarrow> Inl (mk_exn ValueErr ''could not convert string to float''))"
| "py_float L _ = Inl (mk_exn TypeErr ''float() argument must be a string or a real number'')"

fun float_less :: "pyfloat \<Rightarrow> pyfloat \<Rightarrow> bool" where
  "float_less (Finite a) (Finite b) \<longleftrightarrow> a < b"
| "float_less (Finite _) (Infinite pos) \<longleftrightarrow> pos"
| "float_less (Infinite pos) (Finite _) \<longleftrightarrow> \<not> pos"
| "float_less (Infinite p) (Infinite q) \<longleftrightarrow> \<not> p \<and> q"
| "float_less _ _ \<longleftrightarrow> False"

definition float_eq :: "pyfloat \<Rightarrow> pyfloat \<Rightarrow> bool" where
  "float_eq a b \<longleftrightarrow> a = b \<and> a \<noteq> NotANumber"

definition at_least_sign :: string where
  "at_least_sign = [CHR 0xE2, CHR 0x89, CHR 0xA5]"

definition condition_holds :: "pyfloat \<Rightarrow> string \<Rightarrow> pyfloat \<Rightarrow> bool" where
  "condition_holds value operator threshold =
     (if operator = ''>'' then float_less threshold value
      else if operator = ''>='' \<or> operator = at_least_sign then float_less threshold value \<or> float_eq threshold value
      else if operator = ''='' \<or> operator = ''=='' then float_eq value threshold
      else if operator = ''<'' then float_less value threshold
      else False)"

definition metric_value :: "string \<Rightarrow> queue_info \<Rightarrow> pyval" where
  "metric_value metric q =
     (if metric = ''messages_ready'' then PInt (qi_messages_ready q)
      else if metric = ''messages'' then PInt (qi_messages q)
      else if metric = ''consumers'' then PInt (qi_consumers q)
      else if metric = ''publish_rate'' then py_or (qi_publish_rate q) (PInt 0)
      else PInt 0)"

fun offenders_in :: "pylib \<Rightarrow> alert_rule \<Rightarrow> queue_info list \<Rightarrow> exn + (string \<times> pyval) list" where
  "offenders_in L r [] = Inr []"
| "offenders_in L r (q # qs) =
     or_raise (py_float L (metric_value (ar_metric r) q)) (\<lambda>v.
     or_raise (offenders_in L r qs) (\<lambda>rest.
       Inr (if condition_holds v (ar_operator r) (Finite (of_int (ar_threshold r)))
            then (qi_name q, metric_value (ar_metric r) q) # rest else rest)))"

definition offenders :: "pylib \<Rightarrow> alert_rule \<Rightarrow> queue_info list \<Rightarrow> exn + (string \<times> pyval) list" where
  "offenders L r queues = offenders_in L r (filter (\<lambda>q. fnmatch (qi_name q) (ar_pattern r)) queues)"


section \<open>Incident keys\<close>

datatype fired_at = FiredTime datetime | FiredText string

definition incident_key :: "pylib \<Rightarrow> int \<Rightarrow> fired_at option \<Rightarrow> exn + string" where
  "incident_key L rule_id fired_on =
     or_raise (case fired_on of
         Some (FiredText s) \<Rightarrow> (case fromisoformat L s of
            None \<Rightarrow> Inl (mk_exn ValueErr ''Invalid isoformat string'') | Some d \<Rightarrow> Inr (Some d))
       | Some (FiredTime d) \<Rightarrow> Inr (Some d)
       | None \<Rightarrow> Inr None) (\<lambda>d.
       Inr (''queuelens-rule-'' @ int_text rule_id @
            (case d of None \<Rightarrow> [] | Some t \<Rightarrow> ''-'' @ int_text (trunc (of_int (as_utc t) / 1000000)))))"


section \<open>Delivery\<close>

definition DELIVERY_ATTEMPTS :: nat where
  "DELIVERY_ATTEMPTS = 3"

definition delivery_report :: "bool \<Rightarrow> int \<Rightarrow> string list \<Rightarrow> pyval dict" where
  "delivery_report ok attempts errors =
     [(''ok'', PBool ok), (''attempts'', PInt attempts), (''errors'', PList (map PStr errors))]"

text \<open>Up to three attempts; the sleeps between them are not modelled.\<close>

fun attempts_left :: "unit io \<Rightarrow> nat \<Rightarrow> string list \<Rightarrow> pyval dict io" where
  "attempts_left m 0 errors = ret (delivery_report False (int DELIVERY_ATTEMPTS) errors)"
| "attempts_left m (Suc n) errors =
     bnd (outcome m) (\<lambda>r.
       case r of
         Inr _ \<Rightarrow> ret (delivery_report True (int (DELIVERY_ATTEMPTS - n)) errors)
       | Inl e \<Rightarrow> attempts_left m n (errors @ [case exn_text e of None \<Rightarrow> [] | Some s \<Rightarrow> s]))"

definition post_webhook :: "env \<Rightarrow> pyval \<Rightarrow> pyval \<Rightarrow> pyval dict io" where
  "post_webhook E url payload =
     attempts_left
       (case url of PStr u \<Rightarrow> http_post E u payload | _ \<Rightarrow> raise (mk_exn TypeErr ''Invalid type for url''))
       DELIVERY_ATTEMPTS []"

definition text_default :: "pyval dict \<Rightarrow> string \<Rightarrow> string \<Rightarrow> pylib \<Rightarrow> string" where
  "text_default d k v L = (case dict_get d k of None \<Rightarrow> v | Some x \<Rightarrow> py_str L x)"

text \<open>\<open>_send_sync\<close> (mailer.py): how the connection is secured.\<close>

definition mail_of :: "pylib \<Rightarrow> pyval dict \<Rightarrow> string \<Rightarrow> string \<Rightarrow> exn + mail" where
  "mail_of L config subject body =
     or_raise (py_int (case dict_get config ''smtp_port'' of None \<Rightarrow> PInt 1025 | Some v \<Rightarrow> v)) (\<lambda>port.
       let username = py_or (dict_get config ''username'') (PStr []);
           password = py_or (dict_get config ''password'') (PStr []);
           use_ssl = (truthy (py_get config ''use_ssl'') \<or> port = 465);
           use_tls = (case py_get config ''use_tls'' of PNone \<Rightarrow> truthy username \<and> \<not> use_ssl | v \<Rightarrow> truthy v)
       in Inr \<lparr>ml_from = text_default config ''from'' ''queuelens@localhost'' L,
               ml_to = text_default config ''to'' ''sre@localhost'' L,
               ml_subject = subject, ml_body = body,
               ml_host = text_default config ''smtp_host'' ''localhost'' L, ml_port = port, ml_ssl = use_ssl,
               ml_starttls = (use_tls \<and> \<not> use_ssl),
               ml_login = (if truthy username then Some (py_str L username, py_str L password) else None)\<rparr>)"

definition send_email :: "env \<Rightarrow> pyval dict \<Rightarrow> string \<Rightarrow> string \<Rightarrow> pyval dict io" where
  "send_email E config subject body =
     attempts_left (bnd (lift (mail_of (e_lib E) config subject body)) (smtp_send E)) DELIVERY_ATTEMPTS []"


section \<open>Quiet hours\<close>

definition local_now :: "pylib \<Rightarrow> int \<Rightarrow> pyval dict \<Rightarrow> string" where
  "local_now L t ui =
     (case local_hhmm L (py_str L (py_or (dict_get ui ''quiet_tz'') (PStr ''UTC''))) t of
        Some s \<Rightarrow> s
      | None \<Rightarrow> (case local_hhmm L ''UTC'' t of Some s \<Rightarrow> s | None \<Rightarrow> []))"

definition in_quiet_hours :: "pylib \<Rightarrow> pyval dict \<Rightarrow> string \<Rightarrow> bool" where
  "in_quiet_hours L ui now =
     (truthy (py_get ui ''quiet_hours'') \<and>
      (let start = py_str L (py_or (dict_get ui ''quiet_from'') (PStr ''22:00''));
           finish = py_str L (py_or (dict_get ui ''quiet_until'') (PStr ''07:00''))
       in if start \<le> finish then start \<le> now \<and> now < finish else start \<le> now \<or> now < finish))"


section \<open>Channels (_deliver)\<close>

definition get_setting :: "env \<Rightarrow> string \<Rightarrow> pyval \<Rightarrow> pyval io" where
  "get_setting E key dflt = bnd (read_setting E key) (\<lambda>v. ret (if truthy v then v else dflt))"

definition not_configured :: "string \<Rightarrow> pyval dict" where
  "not_configured channel =
     [(''ok'', PBool False), (''errors'', PList [PStr (channel @ '' channel not configured'')])]"

definition dash :: "string \<Rightarrow> string \<Rightarrow> string" where
  "dash a b = a @ '' '' @ em_dash @ '' '' @ b"

record alert =
  al_title :: string
  al_message :: string
  al_severity :: string
  al_dedup_key :: "string option"
  al_resolve :: bool

definition pagerduty_event :: "pyval \<Rightarrow> alert \<Rightarrow> pyval" where
  "pagerduty_event routing_key a =
     PDict ([(''routing_key'', routing_key),
             (''event_action'', PStr (if al_resolve a then ''resolve'' else ''trigger''))] @
            (case al_dedup_key a of Some k \<Rightarrow> if k \<noteq> [] then [(''dedup_key'', PStr k)] else [] | None \<Rightarrow> []) @
            (if al_resolve a then []
             else [(''payload'', PDict
               [(''summary'', PStr (utf8_take 1024 (dash (al_title a) (al_message a)))),
                (''source'', PStr ''queuelens''),
                (''severity'', PStr (if al_severity a = ''Alert'' then ''critical'' else ''warning''))])]))"

definition deliver_to :: "env \<Rightarrow> alert \<Rightarrow> string \<Rightarrow> pyval dict \<Rightarrow> pyval dict io" where
  "deliver_to E a channel config =
     (if channel = ''email'' then
        if \<not> truthy (py_get config ''smtp_host'') then ret (not_configured ''email'')
        else send_email E config (''[QueueLens] '' @ al_title a) (al_title a @ [CHR 0x0A, CHR 0x0A] @ al_message a)
      else if channel = ''pagerduty'' \<and> truthy (py_get config ''routing_key'') then
        post_webhook E (PStr ''https://events.pagerduty.com/v2/enqueue'')
          (pagerduty_event (py_get config ''routing_key'') a)
      else if channel \<in> {''webhook'', ''slack'', ''pagerduty''} then
        if \<not> truthy (py_get config ''url'') then ret (not_configured channel)
        else post_webhook E (py_get config ''url'')
          (if channel = ''slack'' then PDict [(''text'', PStr (dash (al_title a) (al_message a)))]
           else PDict [(''title'', PStr (al_title a)), (''message'', PStr (al_message a)),
                       (''source'', PStr ''queuelens'')])
      else ret [(''ok'', PBool False), (''errors'', PList [PStr (''unknown channel '' @ channel)])])"

primrec deliver_each :: "env \<Rightarrow> alert \<Rightarrow> pyval dict \<Rightarrow> string list \<Rightarrow> pyval dict \<Rightarrow> pyval dict io" where
  "deliver_each E a config [] outcomes = ret outcomes"
| "deliver_each E a config (channel # rest) outcomes =
     bnd (lift (sub_dict config channel)) (\<lambda>channel_config.
     bnd (deliver_to E a channel channel_config) (\<lambda>r.
       deliver_each E a config rest (dict_set channel (PDict r) outcomes)))"

definition muted :: "string list \<Rightarrow> pyval dict" where
  "muted channels =
     fold (\<lambda>c. dict_set c (PDict [(''ok'', PBool False), (''skipped'', PStr ''quiet_hours''), (''errors'', PList [])]))
       channels []"

definition dispatch :: "env \<Rightarrow> string list \<Rightarrow> alert \<Rightarrow> pyval dict io" where
  "dispatch E channels a =
     bnd (get_setting E ''channels'' (PDict [])) (\<lambda>stored.
     bnd (get_setting E ''ui'' (PDict [])) (\<lambda>stored_ui.
     bnd (clock E) (\<lambda>t.
     bnd (lift (if al_severity a = ''Alert'' then Inr False
                else or_raise (as_dict stored_ui) (\<lambda>ui. Inr (in_quiet_hours (e_lib E) ui (local_now (e_lib E) t ui))))) (\<lambda>quiet.
       if quiet then ret (muted channels)
       else if channels = [] then ret []
       else bnd (lift (as_dict stored)) (\<lambda>config. deliver_each E a config channels [])))))"


section \<open>Evaluation\<close>

text \<open>The engine's clocks on held conditions, and the table.\<close>

type_synonym engine = "(int \<times> int) list \<times> alert_rule list"

definition fire ::
  "env \<Rightarrow> alert_rule \<Rightarrow> string \<Rightarrow> string \<Rightarrow> string \<Rightarrow> bool \<Rightarrow> fired_at option \<Rightarrow> notice io"
where
  "fire E r level title message resolve fired_on =
     bnd (lift (incident_key (e_lib E) (ar_id r) fired_on)) (\<lambda>key.
     bnd (dispatch E (ar_channels r)
            \<lparr>al_title = title, al_message = message, al_severity = ar_severity r, al_dedup_key = Some key,
             al_resolve = resolve\<rparr>) (\<lambda>delivery.
       let n = \<lparr>no_level = level, no_title = title, no_message = message, no_source = ''Alert Engine'',
                no_rule = Some (ar_id r), no_delivery = delivery\<rparr>
       in bnd (add_notification E n) (\<lambda>_. ret n)))"

definition middle_dot :: string where
  "middle_dot = [CHR 0x20, CHR 0xC2, CHR 0xB7, CHR 0x20]"

definition where_text :: "pylib \<Rightarrow> alert_rule \<Rightarrow> string" where
  "where_text L r =
     (if str_or (ar_environment r) [] = [] then []
      else '' in '' @ str_or (ar_environment r) [] @ middle_dot @ py_str L (opt_str (ar_vhost r)))"

definition fired_message :: "pylib \<Rightarrow> alert_rule \<Rightarrow> (string \<times> pyval) list \<Rightarrow> string" where
  "fired_message L r offs =
     dash (ar_pattern r @ where_text L r @ middle_dot @ ar_metric r @ '' '' @ ar_operator r @ '' '' @
           int_text (ar_threshold r))
       (join_with '', '' (map (\<lambda>(n, v). n @ ''='' @ py_str L v) (take 5 offs)))"

definition recovered_message :: "pylib \<Rightarrow> alert_rule \<Rightarrow> string" where
  "recovered_message L r = ar_pattern r @ where_text L r @ middle_dot @ ''condition no longer holds''"

text \<open>\<open>_fire\<close> after the table changed: what it raises leaves the table changed.\<close>

definition fired_then :: "notice io \<Rightarrow> engine \<Rightarrow> ((exn + notice option) \<times> engine) io" where
  "fired_then m st = bnd (outcome m) (\<lambda>r. ret (or_raise r (\<lambda>n. Inr (Some n)), st))"

definition evaluate ::
  "env \<Rightarrow> alert_rule \<Rightarrow> queue_info list \<Rightarrow> int \<Rightarrow> engine \<Rightarrow> ((exn + notice option) \<times> engine) io"
where
  "evaluate E r queues now st =
     (case offenders (e_lib E) r queues of
        Inl e \<Rightarrow> ret (Inl e, st)
      | Inr offs \<Rightarrow>
          if offs \<noteq> [] then
            let first = (case map_of (fst st) (ar_id r) of Some t \<Rightarrow> t | None \<Rightarrow> now);
                pending = (case map_of (fst st) (ar_id r) of Some _ \<Rightarrow> fst st | None \<Rightarrow> fst st @ [(ar_id r, now)])
            in if now - first \<ge> seconds (ar_duration r) \<and> \<not> ar_fired r then
                 (case mark_fired (e_lib E) (ar_id r) now (snd st) of
                    (won, rows) \<Rightarrow>
                      if won then
                        fired_then (fire E r (ar_severity r) (''Rule fired: '' @ ar_name r)
                            (fired_message (e_lib E) r offs) False (Some (FiredTime (Aware now)))) (pending, rows)
                      else ret (Inr None, (pending, rows)))
               else ret (Inr None, (pending, snd st))
          else
            let pending = AList.delete (ar_id r) (fst st)
            in if ar_fired r then
                 (case set_fired (e_lib E) (ar_id r) False None (snd st) of
                    (won, rows) \<Rightarrow>
                      if won then
                        fired_then (fire E r ''Success'' (''Recovered: '' @ ar_name r)
                            (recovered_message (e_lib E) r) True
                            (map_option (\<lambda>d. FiredText (isoformat (e_lib E) d)) (ar_last_fired r))) (pending, rows)
                      else ret (Inr None, (pending, rows)))
               else ret (Inr None, (pending, snd st)))"

fun evaluate_all ::
  "env \<Rightarrow> alert_rule list \<Rightarrow> queue_info list \<Rightarrow> int \<Rightarrow> engine \<Rightarrow> ((exn + notice list) \<times> engine) io"
where
  "evaluate_all E [] queues now st = ret (Inr [], st)"
| "evaluate_all E (r # rs) queues now st =
     bnd (evaluate E r queues now st) (\<lambda>(x, st').
       case x of
         Inl e \<Rightarrow> ret (Inl e, st')
       | Inr n \<Rightarrow>
           bnd (evaluate_all E rs queues now st') (\<lambda>(y, st'').
             ret (or_raise y (\<lambda>ns. Inr ((case n of None \<Rightarrow> [] | Some k \<Rightarrow> [k]) @ ns)), st'')))"

type_synonym wanted_scope = "string option \<times> string option"

text \<open>\<open>by_scope.setdefault(...).append(...)\<close>: scopes in the order of their first rule.\<close>

fun by_scope :: "alert_rule list \<Rightarrow> (wanted_scope \<times> alert_rule list) list" where
  "by_scope [] = []"
| "by_scope (r # rs) =
     (let k = (ar_environment r, ar_vhost r); others = by_scope rs
      in (k, r # (case map_of others k of None \<Rightarrow> [] | Some l \<Rightarrow> l)) # filter (\<lambda>(k', _). k' \<noteq> k) others)"

text \<open>\<open>brokers\<close> is the queue service of a scope (\<open>queue_service_for\<close>), or the error that there is none.\<close>

fun evaluate_scopes ::
  "env \<Rightarrow> (wanted_scope \<Rightarrow> exn + env) \<Rightarrow> (wanted_scope \<times> alert_rule list) list \<Rightarrow> int \<Rightarrow> engine \<Rightarrow>
     ((exn + notice list) \<times> engine) io"
where
  "evaluate_scopes E brokers [] now st = ret (Inr [], st)"
| "evaluate_scopes E brokers ((k, rs) # rest) now st =
     bnd (outcome (bnd (lift (brokers k)) (\<lambda>B. list_queues B None False))) (\<lambda>q.
       case q of
         Inl _ \<Rightarrow> evaluate_scopes E brokers rest now st
       | Inr (queues, _) \<Rightarrow>
           bnd (evaluate_all E rs queues now st) (\<lambda>(x, st').
             case x of
               Inl e \<Rightarrow> ret (Inl e, st')
             | Inr ns \<Rightarrow>
                 bnd (evaluate_scopes E brokers rest now st') (\<lambda>(y, st'').
                   ret (or_raise y (\<lambda>ms. Inr (ns @ ms)), st''))))"

definition evaluate_once ::
  "env \<Rightarrow> (wanted_scope \<Rightarrow> exn + env) \<Rightarrow> engine \<Rightarrow> ((exn + notice list) \<times> engine) io"
where
  "evaluate_once E brokers st =
     (let rules = filter ar_enabled (rules_list (snd st))
      in if rules = [] then ret (Inr [], ([], snd st))
         else bnd (clock E) (\<lambda>now. evaluate_scopes E brokers (by_scope rules) now st))"

text \<open>One round of the loop (\<open>_run\<close>): a replica that does not lead forgets its clocks, and an error of
  a pass is logged.\<close>

definition engine_round :: "env \<Rightarrow> (wanted_scope \<Rightarrow> exn + env) \<Rightarrow> bool \<Rightarrow> engine \<Rightarrow> engine io" where
  "engine_round E brokers leads st =
     (if leads then bnd (evaluate_once E brokers st) (\<lambda>(_, st'). ret st') else ret ([], snd st))"

end
