(* ===== verification/Alert_Properties.thy ===== *)
theory Alert_Properties
  imports Alerts
begin

text \<open>
  What the alert engine guarantees: however many replicas evaluate however stale a listing of the
  rules, a rule that fired is not announced again before it recovered; it fires only after its
  condition was observed for its whole duration; and a recovery closes the incident its firing
  opened.
\<close>


section \<open>One evaluation\<close>

definition held :: "pylib \<Rightarrow> alert_rule \<Rightarrow> queue_info list \<Rightarrow> bool" where
  "held L r queues \<longleftrightarrow> (\<exists>offs. offenders L r queues = Inr offs \<and> offs \<noteq> [])"

definition readable :: "pylib \<Rightarrow> alert_rule \<Rightarrow> queue_info list \<Rightarrow> bool" where
  "readable L r queues \<longleftrightarrow> (\<exists>offs. offenders L r queues = Inr offs)"

lemma fired_then_result:
  "fired_then m st h = (res, h') \<Longrightarrow> \<exists>x. res = Inr (x, st) \<and> x \<noteq> Inr None"
  by (auto simp: fired_then_def bnd_def outcome_def ret_def or_raise_def split: prod.splits sum.splits)

text \<open>The four ways an evaluation goes: unreadable numbers, nothing to announce, a firing, a recovery.\<close>

lemma evaluate_cases:
  assumes "evaluate E r queues now st h = (res, h')"
  obtains
    (unreadable) e where "offenders (e_lib E) r queues = Inl e" "res = Inr (Inl e, st)" "h' = h"
  | (silent) clocks where "readable (e_lib E) r queues" "res = Inr (Inr None, (clocks, snd st))" "h' = h"
      "clocks = (if held (e_lib E) r queues
                 then (case map_of (fst st) (ar_id r) of Some _ \<Rightarrow> fst st | None \<Rightarrow> fst st @ [(ar_id r, now)])
                 else AList.delete (ar_id r) (fst st))"
  | (fires) first x where "held (e_lib E) r queues"
      "map_of (fst st) (ar_id r) = Some first \<or> map_of (fst st) (ar_id r) = None \<and> first = now"
      "seconds (ar_duration r) \<le> now - first"
      "fst (mark_fired (e_lib E) (ar_id r) now (snd st))" "x \<noteq> Inr None"
      "res = Inr (x, ((case map_of (fst st) (ar_id r) of Some _ \<Rightarrow> fst st | None \<Rightarrow> fst st @ [(ar_id r, now)]),
                      snd (mark_fired (e_lib E) (ar_id r) now (snd st))))"
  | (recovers) x where "readable (e_lib E) r queues" "\<not> held (e_lib E) r queues"
      "fst (set_fired (e_lib E) (ar_id r) False None (snd st))" "x \<noteq> Inr None"
      "res = Inr (x, (AList.delete (ar_id r) (fst st), snd (set_fired (e_lib E) (ar_id r) False None (snd st))))"
proof (cases "offenders (e_lib E) r queues")
  case (Inl e)
  then show ?thesis using assms by (intro unreadable) (auto simp: evaluate_def ret_def)
next
  case (Inr offs)
  have lost: "snd (set_fired L i f stamp rows) = rows" if "\<not> fst (set_fired L i f stamp rows)" for L i f stamp rows
    using that by (auto simp: set_fired_def list_ex_iff intro!: map_idI)
  have rd: "readable (e_lib E) r queues" and hd: "held (e_lib E) r queues \<longleftrightarrow> offs \<noteq> []"
    using Inr by (auto simp: readable_def held_def)
  show ?thesis
  proof (cases "offs = []")
    case True
    then have nh: "\<not> held (e_lib E) r queues" using hd by simp
    show ?thesis
    proof (cases "ar_fired r \<and> fst (set_fired (e_lib E) (ar_id r) False None (snd st))")
      case won: True
      then have "\<exists>m. fired_then m (AList.delete (ar_id r) (fst st), snd (set_fired (e_lib E) (ar_id r) False None (snd st))) h = (res, h')"
        using assms Inr True by (auto simp: evaluate_def Let_def split: prod.splits)
      then obtain x where "res = Inr (x, (AList.delete (ar_id r) (fst st), snd (set_fired (e_lib E) (ar_id r) False None (snd st))))"
          "x \<noteq> Inr None"
        by (blast dest: fired_then_result)
      with recovers rd nh won show ?thesis by blast
    next
      case lose: False
      then have "res = Inr (Inr None, (AList.delete (ar_id r) (fst st), snd st)) \<and> h' = h"
        using assms Inr True lost[of "e_lib E" "ar_id r" False None "snd st"]
        by (auto simp: evaluate_def Let_def ret_def split: prod.splits if_splits)
      with silent rd nh show ?thesis by simp
    qed
  next
    case False
    define first where "first = (case map_of (fst st) (ar_id r) of Some t \<Rightarrow> t | None \<Rightarrow> now)"
    have f: "map_of (fst st) (ar_id r) = Some first \<or> map_of (fst st) (ar_id r) = None \<and> first = now"
      by (auto simp: first_def split: option.splits)
    show ?thesis
    proof (cases "seconds (ar_duration r) \<le> now - first \<and> \<not> ar_fired r \<and> fst (mark_fired (e_lib E) (ar_id r) now (snd st))")
      case True
      then show ?thesis
        using assms Inr False hd f
        by (auto simp: evaluate_def Let_def first_def[symmetric] split: prod.splits dest!: fired_then_result intro!: fires)
    next
      case won: False
      then show ?thesis
        using assms Inr False rd hd f lost[of "e_lib E" "ar_id r" True "Some (Aware now)" "snd st"]
        by (auto simp: evaluate_def Let_def first_def[symmetric] ret_def mark_fired_def split: prod.splits if_splits intro!: silent)
    qed
  qed
qed


section \<open>Interleaved evaluations\<close>

text \<open>
  What happens to the table and what is announced, in any order: evaluations by any replica (its
  own clocks, its own listing of the rule, any time), and rules created, changed and deleted.
\<close>

datatype alert_log = Announced int bool | Removed int

inductive alert_reach :: "alert_rule list \<Rightarrow> alert_log list \<Rightarrow> bool" where
  start: "alert_reach [] []"
| evaluated: "alert_reach rows seen \<Longrightarrow>
    evaluate E r queues now (clocks, rows) h = (Inr (x, (clocks', rows')), h') \<Longrightarrow>
    seen' = (if (x = Inr None \<or> \<not> readable (e_lib E) r queues) then seen
            else seen @ [Announced (ar_id r) (held (e_lib E) r queues)]) \<Longrightarrow>
    alert_reach rows' seen'"
| created: "alert_reach rows seen \<Longrightarrow> new_id \<notin> ar_id ` set rows \<Longrightarrow> \<not> ar_fired r \<Longrightarrow>
    alert_reach (snd (rules_create new_id r rows)) seen"
| changed: "alert_reach rows seen \<Longrightarrow> \<forall>r. ar_id (change r) = ar_id r \<and> ar_fired (change r) = ar_fired r \<Longrightarrow>
    alert_reach (snd (rules_update i change rows)) seen"
| deleted: "alert_reach rows seen \<Longrightarrow> alert_reach (snd (rules_delete i rows)) (seen @ [Removed i])"

inductive_cases alert_reachE: "alert_reach rows seen"

text \<open>Whether a rule is announced as firing, after a log; and that every announcement changes it.\<close>

fun announced :: "int \<Rightarrow> bool \<Rightarrow> alert_log list \<Rightarrow> bool" where
  "announced i b [] = b"
| "announced i b (Announced j f # l) = announced i (if j = i then f else b) l"
| "announced i b (Removed j # l) = announced i (if j = i then False else b) l"

fun edges :: "int \<Rightarrow> bool \<Rightarrow> alert_log list \<Rightarrow> bool" where
  "edges i b [] = True"
| "edges i b (Announced j f # l) \<longleftrightarrow> (j = i \<longrightarrow> f \<noteq> b) \<and> edges i (if j = i then f else b) l"
| "edges i b (Removed j # l) \<longleftrightarrow> edges i (if j = i then False else b) l"

lemma announced_append [simp]: "announced i b (l @ m) = announced i (announced i b l) m"
  by (induction i b l rule: announced.induct) auto

lemma edges_append [simp]: "edges i b (l @ m) \<longleftrightarrow> edges i b l \<and> edges i (announced i b l) m"
  by (induction i b l rule: edges.induct) auto

lemma edges_between:
  assumes "edges i b l" "announced i b l \<noteq> b"
  shows "Announced i (\<not> b) \<in> set l \<or> Removed i \<in> set l"
  using assms by (induction i b l rule: edges.induct) (auto split: if_splits)

definition table_ok :: "alert_rule list \<Rightarrow> alert_log list \<Rightarrow> bool" where
  "table_ok rows seen \<longleftrightarrow> distinct (map ar_id rows) \<and>
     (\<forall>i. edges i False seen \<and>
        (announced i False seen \<longleftrightarrow> (\<exists>r \<in> set rows. ar_id r = i \<and> ar_fired r)))"

lemma set_fired_ids: "map ar_id (snd (set_fired L i f stamp rows)) = map ar_id rows"
  by (auto simp: set_fired_def split: option.splits)

lemma set_fired_fired:
  "(\<exists>r \<in> set (snd (set_fired L i f stamp rows)). ar_id r = j \<and> ar_fired r) \<longleftrightarrow>
     (if j = i then f \<and> i \<in> ar_id ` set rows else (\<exists>r \<in> set rows. ar_id r = j \<and> ar_fired r))"
proof -
  define g where "g r = (if ar_id r = i \<and> ar_fired r \<noteq> f
               then (case stamp of None \<Rightarrow> r\<lparr>ar_fired := f\<rparr>
                     | Some d \<Rightarrow> r\<lparr>ar_fired := f, ar_last_fired := Some (db_time L d)\<rparr>)
               else r)" for r :: alert_rule
  have g: "ar_id (g r) = ar_id r" "ar_fired (g r) = (if ar_id r = i then f else ar_fired r)" for r
    by (auto simp: g_def split: option.splits)
  have "snd (set_fired L i f stamp rows) = map g rows"
    by (simp add: set_fired_def g_def)
  then show ?thesis by (auto simp: g)
qed

lemma set_fired_won:
  "distinct (map ar_id rows) \<Longrightarrow> fst (set_fired L i f stamp rows) \<Longrightarrow>
     i \<in> ar_id ` set rows \<and> ((\<exists>r \<in> set rows. ar_id r = i \<and> ar_fired r) \<longleftrightarrow> \<not> f)"
  by (auto simp: set_fired_def list_ex_iff distinct_map inj_on_def)

lemma table_ok_won:
  assumes ok: "table_ok rows seen" and won: "fst (set_fired L i f stamp rows)"
  shows "table_ok (snd (set_fired L i f stamp rows)) (seen @ [Announced i f])"
proof -
  have d: "distinct (map ar_id rows)" using ok by (simp add: table_ok_def)
  note w = set_fired_won[OF d won]
  show ?thesis
    using ok w d unfolding table_ok_def set_fired_fired set_fired_ids by auto
qed

lemma reach_ok: "alert_reach rows seen \<Longrightarrow> table_ok rows seen"
proof (induction rule: alert_reach.induct)
  case start
  then show ?case by (simp add: table_ok_def)
next
  case (evaluated rows seen E r queues now clocks h x clocks' rows' h' seen')
  from evaluated.hyps(2) show ?case
  proof (cases rule: evaluate_cases)
    case (unreadable e)
    then show ?thesis using evaluated by (auto simp: readable_def)
  next
    case (silent c)
    then show ?thesis using evaluated by auto
  next
    case (fires first y)
    then have "readable (e_lib E) r queues" by (auto simp: held_def readable_def)
    with fires evaluated show ?thesis by (auto simp: mark_fired_def intro: table_ok_won)
  next
    case (recovers y)
    with evaluated show ?thesis by (auto intro: table_ok_won)
  qed
next
  case (created rows seen new_id r)
  then show ?case by (auto simp: table_ok_def rules_create_def)
next
  case (changed rows seen change i)
  have ids: "map ar_id (map (\<lambda>r. if ar_id r = i then change r else r) rows) = map ar_id rows"
    using changed.hyps(2) by simp
  have fired: "(\<exists>r \<in> set (map (\<lambda>r. if ar_id r = i then change r else r) rows). ar_id r = j \<and> ar_fired r) \<longleftrightarrow>
      (\<exists>r \<in> set rows. ar_id r = j \<and> ar_fired r)" for j
    using changed.hyps(2) by auto
  show ?case
    using changed.IH unfolding table_ok_def rules_update_def snd_conv ids fired .
next
  case (deleted rows seen i)
  then show ?case by (auto simp: table_ok_def rules_delete_def distinct_map_filter)
qed


section \<open>Held for its duration\<close>

text \<open>
  The passes of one engine over one rule, oldest first: each an evaluation with whatever the table
  and the history were by then; a round in which the replica does not lead forgets its clocks.
\<close>

type_synonym pass = "alert_rule \<times> queue_info list \<times> int"

inductive passes :: "pylib \<Rightarrow> int \<Rightarrow> pass list \<Rightarrow> (int \<times> int) list \<Rightarrow> bool" for L :: pylib and i :: int where
  none: "passes L i [] []"
| one: "passes L i ps clocks \<Longrightarrow> e_lib E = L \<Longrightarrow> ar_id r = i \<Longrightarrow> readable L r queues \<Longrightarrow>
    evaluate E r queues now (clocks, rows) h = (Inr (x, (clocks', rows')), h') \<Longrightarrow>
    passes L i (ps @ [(r, queues, now)]) clocks'"
| another: "passes L i ps clocks \<Longrightarrow> ar_id r \<noteq> i \<Longrightarrow>
    evaluate E r queues now (clocks, rows) h = (Inr (x, (clocks', rows')), h') \<Longrightarrow>
    passes L i ps clocks'"
| follows: "passes L i ps clocks \<Longrightarrow> engine_round E brokers False (clocks, rows) h = (Inr (clocks', rows'), h') \<Longrightarrow>
    passes L i [] clocks'"

definition pass_held :: "pylib \<Rightarrow> pass \<Rightarrow> bool" where
  "pass_held L p = (case p of (r, queues, now) \<Rightarrow> held L r queues)"

definition pass_time :: "pass \<Rightarrow> int" where
  "pass_time p = snd (snd p)"

text \<open>The clock of the rule runs since the first of the latest unbroken row of passes that held.\<close>

definition clock_ok :: "pylib \<Rightarrow> int \<Rightarrow> pass list \<Rightarrow> (int \<times> int) list \<Rightarrow> bool" where
  "clock_ok L i ps clocks \<longleftrightarrow>
     (\<forall>t. map_of clocks i = Some t \<longrightarrow>
        (\<exists>earlier p later. ps = earlier @ p # later \<and> pass_time p = t \<and> list_all (pass_held L) (p # later)))"

lemma clock_after:
  assumes "evaluate E r queues now st h = (Inr (x, (clocks', rows')), h')" "readable (e_lib E) r queues"
  shows "clocks' = (if held (e_lib E) r queues
           then (case map_of (fst st) (ar_id r) of Some _ \<Rightarrow> fst st | None \<Rightarrow> fst st @ [(ar_id r, now)])
           else AList.delete (ar_id r) (fst st))"
  using assms(1)
proof (cases rule: evaluate_cases)
  case (unreadable e)
  with assms(2) show ?thesis by (simp add: readable_def)
qed auto

lemma clock_other:
  assumes "evaluate E r queues now st h = (Inr (x, (clocks', rows')), h')" "ar_id r \<noteq> i"
  shows "map_of clocks' i = map_of (fst st) i"
  using assms(1)
proof (cases rule: evaluate_cases)
  case (unreadable e)
  then show ?thesis by (cases st) auto
next
  case (silent c)
  with assms(2) show ?thesis
    by (auto simp: map_add_def AList.delete_conv' split: option.splits)
qed (use assms(2) in \<open>auto simp: map_add_def AList.delete_conv' split: option.splits\<close>)

lemma clock_ok_pass:
  assumes ok: "clock_ok L i ps clocks"
    and after: "clocks' = (if held L r queues
           then (case map_of clocks i of Some _ \<Rightarrow> clocks | None \<Rightarrow> clocks @ [(i, now)])
           else AList.delete i clocks)"
  shows "clock_ok L i (ps @ [(r, queues, now)]) clocks'"
proof (cases "held L r queues")
  case False
  then show ?thesis using after by (simp add: clock_ok_def AList.delete_conv')
next
  case True
  show ?thesis
  proof (cases "map_of clocks i")
    case None
    then have "map_of clocks' i = Some now" using True after by (simp add: map_add_def)
    then show ?thesis
      using True unfolding clock_ok_def
      by (intro allI impI exI[of _ ps] exI[of _ "(r, queues, now)"] exI[of _ "[]"])
         (simp add: pass_time_def pass_held_def)
  next
    case (Some t)
    then obtain earlier p later where p: "ps = earlier @ p # later" "pass_time p = t" "list_all (pass_held L) (p # later)"
      using ok by (auto simp: clock_ok_def)
    have "clocks' = clocks" using True Some after by simp
    then show ?thesis
      using Some p True unfolding clock_ok_def
      by (intro allI impI exI[of _ earlier] exI[of _ p] exI[of _ "later @ [(r, queues, now)]"])
         (simp add: pass_held_def)
  qed
qed

lemma passes_clock: "passes L i ps clocks \<Longrightarrow> clock_ok L i ps clocks"
proof (induction rule: passes.induct)
  case none
  then show ?case by (simp add: clock_ok_def)
next
  case (one ps clocks E r queues now rows h x clocks' rows' h')
  have "readable (e_lib E) r queues" using one.hyps(2,4) by simp
  from clock_after[OF one.hyps(5) this, unfolded one.hyps(2,3) fst_conv]
  show ?case by (rule clock_ok_pass[OF one.IH])
next
  case (another ps clocks r E queues now rows h x clocks' rows' h')
  from clock_other[OF another.hyps(3,2)] another.IH show ?case by (simp add: clock_ok_def)
next
  case (follows ps clocks E brokers rows h clocks' rows' h')
  then show ?case by (simp add: engine_round_def ret_def clock_ok_def)
qed


section \<open>Properties\<close>

text \<open>
  C15. No double announcement. Whatever the order in which replicas evaluate, on listings however
  stale, and rules are created, edited and deleted: between two announcements of the same kind
  for a rule (two firings, or two recoveries) there is one of the other kind, or the rule was
  deleted.
\<close>

theorem announcements_alternate:
  assumes "alert_reach rows (a @ Announced i f # b @ Announced i f # c)"
  shows "Announced i (\<not> f) \<in> set b \<or> Removed i \<in> set b"
proof -
  have "edges i False (a @ Announced i f # b @ Announced i f # c)"
    using reach_ok[OF assms] unfolding table_ok_def by blast
  then have "edges i f b" "announced i f b \<noteq> f" by auto
  then show ?thesis by (rule edges_between)
qed

definition busy_rule :: alert_rule where
  "busy_rule = \<lparr>ar_id = 7, ar_name = ''busy'', ar_pattern = ''*.dlq'', ar_environment = None, ar_vhost = None,
     ar_metric = ''messages'', ar_operator = ''>'', ar_threshold = 2, ar_duration = 0, ar_severity = ''Alert'',
     ar_channels = [], ar_enabled = True, ar_created_by = ''ann'', ar_last_fired = None, ar_fired = False\<rparr>"

definition queue_with :: "int \<Rightarrow> queue_info" where
  "queue_with n = \<lparr>qi_name = ''a.dlq'', qi_vhost = ''/'', qi_messages = n, qi_messages_ready = n,
     qi_messages_unacked = 0, qi_consumers = 0, qi_durable = True, qi_arguments = [], qi_is_dlq = True,
     qi_kind = ''dlq'', qi_queue_type = ''classic'', qi_publish_rate = None, qi_idle_since = None,
     qi_delivery_limit = None\<rparr>"

text \<open>The rule fires, recovers and fires again.\<close>

definition after_pass :: "alert_rule list \<Rightarrow> int \<Rightarrow> int \<Rightarrow> alert_rule list" where
  "after_pass rows n now = (case fst (evaluate classic_env (hd rows) [queue_with n] now ([], rows) []) of
      Inr (_, (_, rows')) \<Rightarrow> rows' | Inl _ \<Rightarrow> [])"

lemma announced_pass:
  assumes "alert_reach rows seen"
    and "case fst (evaluate classic_env (hd rows) [queue_with n] now ([], rows) []) of
           Inr (x, _) \<Rightarrow> x \<noteq> Inr None | Inl _ \<Rightarrow> False"
    and "readable sample_lib (hd rows) [queue_with n]" and "held sample_lib (hd rows) [queue_with n] = f"
    and "ar_id (hd rows) = i"
  shows "alert_reach (after_pass rows n now) (seen @ [Announced i f])"
proof -
  obtain x cs rows' h' where run:
    "evaluate classic_env (hd rows) [queue_with n] now ([], rows) [] = (Inr (x, (cs, rows')), h')" and "x \<noteq> Inr None"
    using assms(2) by (cases "evaluate classic_env (hd rows) [queue_with n] now ([], rows) []")
      (auto split: sum.splits prod.splits)
  moreover have "e_lib classic_env = sample_lib" by (simp add: sample_env_def)
  ultimately show ?thesis
    using alert_reach.evaluated[OF assms(1) run refl] assms(3-5) by (simp add: after_pass_def)
qed

theorem announcements_alternate_witness:
  "\<exists>rows. alert_reach rows [Announced 7 True, Announced 7 False, Announced 7 True] \<and>
     Announced 7 False \<in> set [Announced 7 False]"
proof -
  have created: "alert_reach [busy_rule] []"
    using alert_reach.created[OF alert_reach.start, of 7 busy_rule] by (simp add: rules_create_def busy_rule_def)
  have holds: "readable L r qs" "held L r qs = f"
    if "case offenders L r qs of Inr offs \<Rightarrow> (offs \<noteq> []) = f | Inl _ \<Rightarrow> False" for L r qs f
    using that by (auto simp: readable_def held_def split: sum.splits)
  let ?one = "after_pass [busy_rule] 5 0"
  let ?two = "after_pass ?one 1 1"
  let ?three = "after_pass ?two 9 2"
  have offs: "case offenders sample_lib (hd [busy_rule]) [queue_with 5] of Inr offs \<Rightarrow> (offs \<noteq> []) = True | Inl _ \<Rightarrow> False"
    "case offenders sample_lib (hd ?one) [queue_with 1] of Inr offs \<Rightarrow> (offs \<noteq> []) = False | Inl _ \<Rightarrow> False"
    "case offenders sample_lib (hd ?two) [queue_with 9] of Inr offs \<Rightarrow> (offs \<noteq> []) = True | Inl _ \<Rightarrow> False"
    by code_simp+
  have results: "case fst (evaluate classic_env (hd [busy_rule]) [queue_with 5] 0 ([], [busy_rule]) []) of Inr (x, _) \<Rightarrow> x \<noteq> Inr None | Inl _ \<Rightarrow> False"
    "case fst (evaluate classic_env (hd ?one) [queue_with 1] 1 ([], ?one) []) of Inr (x, _) \<Rightarrow> x \<noteq> Inr None | Inl _ \<Rightarrow> False"
    "case fst (evaluate classic_env (hd ?two) [queue_with 9] 2 ([], ?two) []) of Inr (x, _) \<Rightarrow> x \<noteq> Inr None | Inl _ \<Rightarrow> False"
    by code_simp+
  have ids: "ar_id (hd [busy_rule]) = 7" "ar_id (hd ?one) = 7" "ar_id (hd ?two) = 7" by code_simp+
  note first = announced_pass[OF created results(1) holds[OF offs(1)] ids(1)]
  note second = announced_pass[OF first results(2) holds[OF offs(2)] ids(2)]
  note third = announced_pass[OF second results(3) holds[OF offs(3)] ids(3)]
  have "Announced 7 (\<not> True) \<in> set [Announced 7 False] \<or> Removed 7 \<in> set [Announced 7 False]"
    by (rule announcements_alternate[where a = "[]" and c = "[]" and f = True]) (use third in simp)
  with third show ?thesis by auto
qed

text \<open>
  A rule fires only after its condition was observed for its whole duration: the engine's own
  passes over it end with an unbroken row, begun at least the duration before, in every one of
  which the condition held. (A pass that skips the rule, because it was disabled, does not break
  the row.)
\<close>

theorem fires_only_when_held:
  assumes "passes (e_lib E) (ar_id r) ps clocks"
    and "evaluate E r queues now (clocks, rows) h = (Inr (x, (clocks', rows')), h')"
    and "held (e_lib E) r queues" and "x \<noteq> Inr None"
  shows "\<exists>earlier p later. ps @ [(r, queues, now)] = earlier @ p # later \<and>
     list_all (pass_held (e_lib E)) (p # later) \<and> seconds (ar_duration r) \<le> now - pass_time p"
  using assms(2)
proof (cases rule: evaluate_cases)
  case (unreadable e)
  then show ?thesis using assms(3) by (auto simp: held_def)
next
  case (fires first y)
  show ?thesis
  proof (cases "map_of clocks (ar_id r)")
    case None
    with fires assms(3) show ?thesis
      by (intro exI[of _ ps] exI[of _ "(r, queues, now)"] exI[of _ "[]"]) (auto simp: pass_time_def pass_held_def)
  next
    case (Some t)
    then obtain earlier p later where
      "ps = earlier @ p # later" "pass_time p = t" "list_all (pass_held (e_lib E)) (p # later)"
      using passes_clock[OF assms(1)] by (auto simp: clock_ok_def)
    with fires Some assms(3) show ?thesis
      by (intro exI[of _ earlier] exI[of _ p] exI[of _ "later @ [(r, queues, now)]"]) (auto simp: pass_held_def)
  qed
qed (use assms(3,4) in auto)

definition slow_rule :: alert_rule where
  "slow_rule = busy_rule\<lparr>ar_duration := 60\<rparr>"

definition second_pass :: "(exn + ((exn + notice option) \<times> engine)) \<times> hist" where
  "second_pass = evaluate classic_env slow_rule [queue_with 5] (seconds 90) ([(7, 0)], [slow_rule]) []"

theorem fires_only_when_held_witness:
  "\<exists>n clocks' rows'. fst second_pass = Inr (Inr (Some n), (clocks', rows')) \<and>
     (\<exists>earlier p later. [(slow_rule, [queue_with 5], 0), (slow_rule, [queue_with 5], seconds 90)] = earlier @ p # later \<and>
        seconds 60 \<le> seconds 90 - pass_time p)"
proof -
  have lib: "e_lib classic_env = sample_lib" by (simp add: sample_env_def)
  have id: "ar_id slow_rule = 7" by code_simp
  have offs: "case offenders sample_lib slow_rule [queue_with 5] of Inr offs \<Rightarrow> offs \<noteq> [] | Inl _ \<Rightarrow> False" by code_simp
  then have held: "held sample_lib slow_rule [queue_with 5]" and rd: "readable sample_lib slow_rule [queue_with 5]"
    by (auto simp: held_def readable_def split: sum.splits)
  have "evaluate classic_env slow_rule [queue_with 5] 0 ([], [slow_rule]) [] = (Inr (Inr None, ([(7, 0)], [slow_rule])), [])"
    by code_simp
  from passes.one[OF passes.none lib id rd this] have ps: "passes sample_lib 7 [(slow_rule, [queue_with 5], 0)] [(7, 0)]"
    by simp
  have "(case fst second_pass of Inr (Inr (Some n), _) \<Rightarrow> True | _ \<Rightarrow> False)" by code_simp
  then obtain n clocks' rows' where res: "fst second_pass = Inr (Inr (Some n), (clocks', rows'))"
    by (auto split: sum.splits prod.splits option.splits)
  then have run: "evaluate classic_env slow_rule [queue_with 5] (seconds 90) ([(7, 0)], [slow_rule]) [] =
      (Inr (Inr (Some n), (clocks', rows')), snd second_pass)"
    by (simp add: second_pass_def prod_eq_iff)
  have "ar_duration slow_rule = 60" by code_simp
  moreover have "passes (e_lib classic_env) (ar_id slow_rule) [(slow_rule, [queue_with 5], 0)] [(7, 0)]"
    unfolding lib id by (rule ps)
  ultimately show ?thesis
    using fires_only_when_held[OF _ run held[folded lib]] res by fastforce
qed

text \<open>
  A recovery closes the incident its firing opened: after a firing is marked, the key computed
  from the time the database hands back is the key the firing was announced under, whether the
  database keeps time zones or not.
\<close>

theorem recovery_closes_incident:
  assumes "mark_fired L i now rows = (True, rows')" and "distinct (map ar_id rows)"
    and "r \<in> set rows'" and "ar_id r = i"
    and "\<forall>d. as_utc (db_time L d) = as_utc d" and "\<forall>d. fromisoformat L (isoformat L d) = Some d"
  shows "ar_fired r \<and>
    incident_key L i (map_option (\<lambda>d. FiredText (isoformat L d)) (ar_last_fired r)) =
    incident_key L i (Some (FiredTime (Aware now)))"
proof -
  define g where "g r = (if ar_id r = i \<and> ar_fired r \<noteq> True
      then r\<lparr>ar_fired := True, ar_last_fired := Some (db_time L (Aware now))\<rparr> else r)" for r :: alert_rule
  obtain s where s: "s \<in> set rows" "ar_id s = i" "\<not> ar_fired s" and rows': "rows' = map g rows"
    using assms(1) by (auto simp: mark_fired_def set_fired_def list_ex_iff g_def)
  obtain s' where s': "s' \<in> set rows" "r = g s'" using assms(3) rows' by auto
  have "ar_id (g s') = ar_id s'" by (simp add: g_def)
  then have "s' = s" using assms(2,4) s s' by (simp add: distinct_map inj_on_def)
  then have "r = s\<lparr>ar_fired := True, ar_last_fired := Some (db_time L (Aware now))\<rparr>"
    using s s' by (simp add: g_def)
  then show ?thesis
    using assms(5,6) by (simp add: incident_key_def)
qed

text \<open>A library that writes times in unary and a database that drops time zones.\<close>

definition unary_lib :: pylib where
  "unary_lib = sample_lib\<lparr>
     isoformat := (\<lambda>d. (case d of Aware _ \<Rightarrow> ''+'' | Naive _ \<Rightarrow> '' '') @ (if as_utc d < 0 then ''-'' else ''p'') @
       replicate (nat \<bar>as_utc d\<bar>) CHR ''1''),
     fromisoformat := (\<lambda>s. case s of
       z # sign # ones \<Rightarrow> Some ((if z = CHR ''+'' then Aware else Naive)
          ((if sign = CHR ''-'' then - 1 else 1) * int (length ones))) | _ \<Rightarrow> None)\<rparr>"

lemma unary_reads_back: "fromisoformat unary_lib (isoformat unary_lib d) = Some d"
  by (cases d) (auto simp: unary_lib_def)

theorem recovery_closes_incident_witness:
  "\<exists>r rows'. mark_fired unary_lib 7 5 [busy_rule] = (True, rows') \<and> r \<in> set rows' \<and> ar_fired r \<and>
     incident_key unary_lib 7 (map_option (\<lambda>d. FiredText (isoformat unary_lib d)) (ar_last_fired r)) =
     incident_key unary_lib 7 (Some (FiredTime (Aware 5)))"
proof -
  let ?r = "busy_rule\<lparr>ar_fired := True, ar_last_fired := Some (Naive 5)\<rparr>"
  have run: "mark_fired unary_lib 7 5 [busy_rule] = (True, [?r])"
    by (simp add: mark_fired_def set_fired_def busy_rule_def unary_lib_def sample_lib_def)
  have utc: "\<forall>d. as_utc (db_time unary_lib d) = as_utc d"
    by (simp add: unary_lib_def sample_lib_def)
  have ids: "distinct (map ar_id [busy_rule])" "ar_id ?r = 7" by (simp_all add: busy_rule_def)
  have "?r \<in> set [?r]" by simp
  from recovery_closes_incident[OF run ids(1) this ids(2) utc] unary_reads_back run this show ?thesis
    by blast
qed

end
