(* ===== verification/Policies.thy ===== *)
theory Policies
  imports Bulk_Service Alerts
begin

text \<open>
  Replay policies: QueueLens retries a dead-letter queue by itself
  (app/application/replay_policies.py), and the table the policies live in
  (\<open>ReplayPolicyRepository\<close>, persistence/store.py).

  \<open>plan\<close> sorts one scan; \<open>run\<close> reads, plans and acts through the same bulk path a person uses;
  \<open>run_due\<close> runs what is due. A run is given the policy as it was listed and the table as it is,
  so that a policy changed meanwhile is an argument like any other. It finishes in two transactions,
  \<open>record_finished\<close> and \<open>pause_failing\<close>, each a definition of its own, between which the table may
  change; \<open>run\<close> is the two in a row. The broker a policy runs on is what the environment manager
  gives for its environment and vhost (an argument here; the text of its KeyError is the error's
  first argument): where its services were not started yet, resolving starts them, which is an
  event (\<open>EvStart\<close>) like any other effect. Metrics counters are not modelled. The queue named by
  a death entry is text; another value counts as absent.
\<close>


section \<open>The policy table (ReplayPolicyRepository)\<close>

record run_result =
  rr_at :: string
  rr_scanned :: int
  rr_waiting :: int
  rr_no_history :: int
  rr_no_target :: int
  rr_capped :: int
  rr_replayed :: int
  rr_parked :: int
  rr_failed :: int
  rr_skipped :: int
  rr_targets :: "pyval dict"
  rr_errors :: "string list"
  rr_to_park :: "int option"

record policy =
  pl_id :: int
  pl_name :: string
  pl_queue :: string
  pl_max_deaths :: int
  pl_backoff :: int
  pl_interval :: int
  pl_cap :: int
  pl_enabled :: bool
  pl_environment :: "string option"
  pl_vhost :: "string option"
  pl_created_by :: string
  pl_last_run :: "datetime option"
  pl_last_result :: "run_result option"
  pl_failures :: int

text \<open>The listed \<open>last_run_at\<close>: the stored time as UTC, in ISO format.\<close>

definition last_run_text :: "pylib \<Rightarrow> policy \<Rightarrow> string option" where
  "last_run_text L p = map_option (\<lambda>d. isoformat L (Aware (as_utc d))) (pl_last_run p)"

definition policies_list :: "policy list \<Rightarrow> policy list" where
  "policies_list rows = sort_key pl_id rows"

definition policies_get :: "int \<Rightarrow> policy list \<Rightarrow> policy option" where
  "policies_get i rows = find (\<lambda>p. pl_id p = i) rows"

definition policies_create :: "int \<Rightarrow> policy \<Rightarrow> policy list \<Rightarrow> policy \<times> policy list" where
  "policies_create new_id p rows = (p\<lparr>pl_id := new_id\<rparr>, rows @ [p\<lparr>pl_id := new_id\<rparr>])"

text \<open>\<open>enables\<close>: the change sets \<open>enabled\<close> to true, and the count of failures starts over.\<close>

definition policies_update ::
  "int \<Rightarrow> (policy \<Rightarrow> policy) \<Rightarrow> bool \<Rightarrow> policy list \<Rightarrow> policy option \<times> policy list"
where
  "policies_update i change enables rows =
     (let g = (\<lambda>p. if enables then (change p)\<lparr>pl_failures := 0\<rparr> else change p)
      in (map_option g (policies_get i rows), map (\<lambda>p. if pl_id p = i then g p else p) rows))"

definition policies_delete :: "int \<Rightarrow> policy list \<Rightarrow> bool \<times> policy list" where
  "policies_delete i rows = (list_ex (\<lambda>p. pl_id p = i) rows, filter (\<lambda>p. pl_id p \<noteq> i) rows)"

definition policies_adopt :: "string \<Rightarrow> string \<Rightarrow> policy list \<Rightarrow> policy list" where
  "policies_adopt environment vhost rows =
     map (\<lambda>p. if pl_environment p = None then p\<lparr>pl_environment := Some environment, pl_vhost := Some vhost\<rparr> else p) rows"

text \<open>\<open>record_run\<close>: the failed runs in a row so far, 0 for a policy that is gone.\<close>

definition record_run ::
  "pylib \<Rightarrow> int \<Rightarrow> int \<Rightarrow> run_result \<Rightarrow> bool \<Rightarrow> policy list \<Rightarrow> int \<times> policy list"
where
  "record_run L i now result failed rows =
     (let g = (\<lambda>p. p\<lparr>pl_last_run := Some (db_time L (Aware now)), pl_last_result := Some result,
                      pl_failures := (if failed then pl_failures p + 1 else 0)\<rparr>)
      in (case policies_get i rows of None \<Rightarrow> 0 | Some p \<Rightarrow> pl_failures (g p),
          map (\<lambda>p. if pl_id p = i then g p else p) rows))"


section \<open>When a message last died\<close>

text \<open>\<open>datetime.min\<close> in UTC.\<close>

definition DATETIME_MIN :: int where
  "DATETIME_MIN = - 62135596800000000"

definition death_time :: "pyval dict \<Rightarrow> int option" where
  "death_time entry = (case dict_get entry ''time'' of Some (PTime d) \<Rightarrow> Some (as_utc d) | _ \<Rightarrow> None)"

definition death_key :: "int option \<Rightarrow> int" where
  "death_key t = (case t of None \<Rightarrow> DATETIME_MIN | Some x \<Rightarrow> x)"

text \<open>\<open>max(timed, key=...)\<close>: the first entry with the largest key.\<close>

definition latest_death :: "pyval dict \<Rightarrow> pyval dict list \<Rightarrow> pyval dict" where
  "latest_death e es =
     fold (\<lambda>x best. if death_key (death_time x) > death_key (death_time best) then x else best) es e"

definition last_death :: "pyval dict list \<Rightarrow> exn + int option \<times> string option" where
  "last_death x_death =
     (case x_death of
        [] \<Rightarrow> Inl (mk_exn ValueErr ''max() iterable argument is empty'')
      | e # es \<Rightarrow> let latest = latest_death e es in Inr (death_time latest, str_value (py_get latest ''queue'')))"


section \<open>The plan\<close>

text \<open>\<open>timedelta(minutes=m)\<close> for an integer: at most 999999999 days either way.\<close>

definition timedelta_minutes :: "int \<Rightarrow> exn + int" where
  "timedelta_minutes m =
     (if \<bar>m div 1440\<bar> > 999999999 then Inl (mk_exn OverflowErr ''days; must have magnitude <= 999999999'')
      else Inr (minutes m))"

text \<open>\<open>timedelta(minutes=backoff_minutes * 2 ** (died - 1))\<close>; a negative exponent gives a float.\<close>

definition backoff_wait :: "int \<Rightarrow> int \<Rightarrow> exn + int" where
  "backoff_wait backoff died =
     (if died \<ge> 1 then timedelta_minutes (backoff * 2 ^ nat (died - 1))
      else Inr (py_round (of_int (minutes backoff) / 2 ^ nat (1 - died))))"

datatype verdict = No_History | Waiting | No_Target | Park | Replay replay_target

definition origin_target :: "string \<Rightarrow> string option \<Rightarrow> replay_target option \<Rightarrow> replay_target option" where
  "origin_target dlq origin fallback =
     (if str_or origin [] \<noteq> [] \<and> origin \<noteq> Some dlq then Some (queue_target (str_or origin [])) else fallback)"

definition verdict_of ::
  "string \<Rightarrow> int \<Rightarrow> int \<Rightarrow> int \<Rightarrow> replay_target option \<Rightarrow> message_record \<Rightarrow> exn + verdict"
where
  "verdict_of dlq now max_deaths backoff fallback r =
     or_raise (deaths (mr_x_death r) (mr_headers r)) (\<lambda>died.
       if died = 0 then Inr No_History
       else if \<not> died < max_deaths then Inr Park
       else
         or_raise (last_death (mr_x_death r)) (\<lambda>(died_at, origin).
         or_raise (backoff_wait backoff died) (\<lambda>wait.
           if died_at \<noteq> None \<and> now - the died_at < wait then Inr Waiting
           else Inr (case origin_target dlq origin fallback of None \<Rightarrow> No_Target | Some t \<Rightarrow> Replay t))))"

record plan =
  pn_replay :: "(replay_target \<times> string list) list"
  pn_park :: "string list"
  pn_waiting :: int
  pn_no_history :: int
  pn_no_target :: int
  pn_capped :: int

definition empty_plan :: plan where
  "empty_plan = \<lparr>pn_replay = [], pn_park = [], pn_waiting = 0, pn_no_history = 0, pn_no_target = 0, pn_capped = 0\<rparr>"

text \<open>\<open>out.replay.setdefault(target, []).append(fp)\<close>.\<close>

definition add_replay :: "replay_target \<Rightarrow> string \<Rightarrow> (replay_target \<times> string list) list \<Rightarrow> (replay_target \<times> string list) list" where
  "add_replay t fp d = AList.update t ((case map_of d t of None \<Rightarrow> [] | Some fps \<Rightarrow> fps) @ [fp]) d"

definition plan_step :: "int \<Rightarrow> message_record \<Rightarrow> verdict \<Rightarrow> int \<times> plan \<Rightarrow> int \<times> plan" where
  "plan_step cap r v = (\<lambda>(acted, out).
     case v of
       No_History \<Rightarrow> (acted, out\<lparr>pn_no_history := pn_no_history out + 1\<rparr>)
     | Waiting \<Rightarrow> (acted, out\<lparr>pn_waiting := pn_waiting out + 1\<rparr>)
     | No_Target \<Rightarrow> (acted, out\<lparr>pn_no_target := pn_no_target out + 1\<rparr>)
     | Park \<Rightarrow> if acted \<ge> cap then (acted, out\<lparr>pn_capped := pn_capped out + 1\<rparr>)
               else (acted + 1, out\<lparr>pn_park := pn_park out @ [mr_fingerprint r]\<rparr>)
     | Replay t \<Rightarrow> if acted \<ge> cap then (acted, out\<lparr>pn_capped := pn_capped out + 1\<rparr>)
               else (acted + 1, out\<lparr>pn_replay := add_replay t (mr_fingerprint r) (pn_replay out)\<rparr>))"

fun plan_from ::
  "(message_record \<Rightarrow> exn + verdict) \<Rightarrow> int \<Rightarrow> message_record list \<Rightarrow> int \<times> plan \<Rightarrow> exn + int \<times> plan"
where
  "plan_from judge cap [] st = Inr st"
| "plan_from judge cap (r # rs) st =
     or_raise (judge r) (\<lambda>v. plan_from judge cap rs (plan_step cap r v st))"

definition plan ::
  "message_record list \<Rightarrow> string \<Rightarrow> int \<Rightarrow> int \<Rightarrow> int \<Rightarrow> int \<Rightarrow> replay_target option \<Rightarrow> exn + plan"
where
  "plan records dlq now max_deaths backoff cap fallback =
     or_raise (plan_from (verdict_of dlq now max_deaths backoff fallback) cap records (0, empty_plan)) (\<lambda>(_, out).
       Inr out)"


section \<open>A run\<close>

definition PAUSE_AFTER_FAILED_RUNS :: int where
  "PAUSE_AFTER_FAILED_RUNS = 3"

record broker =
  bk_env :: env
  bk_settings :: settings
  bk_version :: "string option"

text \<open>\<open>scope\<close> and \<open>resolve\<close> of the environment manager: the broker's services, and whether they are
  started now.\<close>

type_synonym manager = "hist \<Rightarrow> wanted_scope \<Rightarrow> exn + bool \<times> broker"

definition resolve_broker :: "manager \<Rightarrow> wanted_scope \<Rightarrow> broker io" where
  "resolve_broker manager wanted =
     bnd (observe (\<lambda>h. manager h wanted)) (\<lambda>m.
     bnd (lift m) (\<lambda>(starts, b).
       if starts then bnd (perform (\<lambda>_. None) (\<lambda>_. EvStart wanted)) (\<lambda>_. ret b) else ret b))"

type_synonym policy_state = "policy list \<times> batch_backend"

definition empty_result :: "pylib \<Rightarrow> int \<Rightarrow> run_result" where
  "empty_result L t =
     \<lparr>rr_at = isoformat L (Aware t), rr_scanned = 0, rr_waiting = 0, rr_no_history = 0, rr_no_target = 0,
      rr_capped = 0, rr_replayed = 0, rr_parked = 0, rr_failed = 0, rr_skipped = 0, rr_targets = [],
      rr_errors = [], rr_to_park = None\<rparr>"

text \<open>\<open>str(error)\<close>, which may itself raise.\<close>

definition exn_str :: "exn \<Rightarrow> exn + string" where
  "exn_str e = (case exn_text e of Some s \<Rightarrow> Inr s | None \<Rightarrow> Inl (mk_exn TypeErr ''__str__ returned non-string''))"

definition policy_limit :: "env \<Rightarrow> settings \<Rightarrow> string \<Rightarrow> int \<Rightarrow> int io" where
  "policy_limit E cfg key upper =
     bnd (get_safe E ''limits'' (PDict [])) (\<lambda>stored.
       lift (limit_from stored key (default_limit cfg key) upper))"

definition target_name :: "pylib \<Rightarrow> replay_target \<Rightarrow> string" where
  "target_name L t =
     str_or (target_queue t) (py_str L (opt_str (target_exchange t)) @ '' / '' @ str_or (target_routing_key t) [])"

text \<open>Who consumes from each target: nobody for a queue that cannot be read, unknown for an exchange.\<close>

type_synonym consumer_counts = "(replay_target \<times> int option) list"

fun consumers_of ::
  "env \<Rightarrow> string option \<Rightarrow> replay_target list \<Rightarrow> consumer_counts \<Rightarrow> string list \<Rightarrow> (consumer_counts \<times> string list) io"
where
  "consumers_of B version [] counts errors = ret (counts, errors)"
| "consumers_of B version (t # ts) counts errors =
     (if target_type t = ''queue'' \<and> str_or (target_queue t) [] \<noteq> [] then
        bnd (outcome (get_queue B version (str_or (target_queue t) []))) (\<lambda>r.
          case r of
            Inr (q, version') \<Rightarrow> consumers_of B version' ts (counts @ [(t, Some (qi_consumers q))]) errors
          | Inl e \<Rightarrow>
              bnd (lift (exn_str e)) (\<lambda>s.
                consumers_of B version ts (counts @ [(t, Some 0)]) (errors @ [str_or (target_queue t) [] @ '': '' @ s])))
      else consumers_of B version ts (counts @ [(t, None)]) errors)"

definition count_for :: "consumer_counts \<Rightarrow> replay_target \<Rightarrow> int option" where
  "count_for counts t = (case map_of counts t of None \<Rightarrow> None | Some c \<Rightarrow> c)"

definition preview_targets ::
  "pylib \<Rightarrow> consumer_counts \<Rightarrow> (replay_target \<times> string list) list \<Rightarrow> pyval dict"
where
  "preview_targets L counts replay =
     fold (\<lambda>(t, fps). dict_set (target_name L t)
             (PDict [(''due'', PInt (int (length fps))), (''consumers'', opt_int (count_for counts t))])) replay []"

text \<open>The summary of a batch, as the run's result shows it.\<close>

definition summary_dict :: "bulk_summary \<Rightarrow> pyval dict" where
  "summary_dict s =
     [(''fingerprints_requested'', PInt (bs_requested s)), (''succeeded'', PInt (bs_succeeded s)),
      (''failed'', PInt (bs_failed s)), (''skipped_duplicates'', PInt (bs_skipped s)),
      (''not_found'', PInt (bs_not_found s)), (''not_attempted'', PInt (bs_not_attempted s))]"

definition policy_request ::
  "policy \<Rightarrow> string \<Rightarrow> string list \<Rightarrow> replay_target option \<Rightarrow> int \<Rightarrow> dry_run_request"
where
  "policy_request p action fps target depth =
     \<lparr>dq_source_queue = pl_queue p, dq_action = action, dq_mode = ''move'', dq_target = target,
      dq_payload_contains = None, dq_selected = Some (set fps), dq_max_bulk = Some (int (length fps)),
      dq_scan_limit = Some depth, dq_depth = Some depth\<rparr>"

text \<open>
  \<open>_bulk\<close>: a dry run of exactly these fingerprints, executed at once. A failure counts all of them
  as failed and the run goes on. The value is what succeeded, and what to show.
\<close>

definition policy_bulk ::
  "env \<Rightarrow> broker \<Rightarrow> policy \<Rightarrow> string \<Rightarrow> string list \<Rightarrow> replay_target option \<Rightarrow> int \<Rightarrow> string \<Rightarrow> pyval dict \<Rightarrow>
     run_result \<Rightarrow> batch_backend \<Rightarrow> ((exn + int \<times> pyval dict \<times> run_result) \<times> batch_backend) io"
where
  "policy_bulk E b p action fps target depth user headers result st =
     (let B = bk_env b; guard = service_guard B (bk_version b);
          failed = (\<lambda>e. or_raise (exn_str e) (\<lambda>s.
             Inr (0, [(''failed'', PInt (int (length fps)))],
                  result\<lparr>rr_failed := rr_failed result + int (length fps),
                         rr_errors := rr_errors result @ [action @ '': '' @ s]\<rparr>)))
      in bnd (outcome (dry_run B (bk_settings b) guard (policy_request p action fps target depth) st)) (\<lambda>d.
           case d of
             Inl e \<Rightarrow> ret (failed e, st)
           | Inr (report, st') \<Rightarrow>
               bnd (execute_audited B (bk_settings b) guard (dr_batch_id report) user headers st') (\<lambda>(x, st'').
                 ret (case x of
                        Inl e \<Rightarrow> failed e
                      | Inr (_, s, _) \<Rightarrow>
                          Inr (bs_succeeded s, summary_dict s, result\<lparr>rr_failed := rr_failed result + bs_failed s\<rparr>),
                      st''))))"

fun replay_each ::
  "env \<Rightarrow> broker \<Rightarrow> policy \<Rightarrow> consumer_counts \<Rightarrow> int \<Rightarrow> string \<Rightarrow> pyval dict \<Rightarrow>
     (replay_target \<times> string list) list \<Rightarrow> run_result \<Rightarrow> batch_backend \<Rightarrow> ((exn + run_result) \<times> batch_backend) io"
where
  "replay_each E b p counts depth user headers [] result st = ret (Inr result, st)"
| "replay_each E b p counts depth user headers ((t, fps) # rest) result st =
     (let name = target_name (e_lib E) t
      in if count_for counts t = Some 0 then
           replay_each E b p counts depth user headers rest
             (result\<lparr>rr_skipped := rr_skipped result + int (length fps),
                rr_targets := dict_set name
                  (PDict [(''skipped'', PStr ''no consumers''), (''due'', PInt (int (length fps)))]) (rr_targets result)\<rparr>) st
         else
           bnd (policy_bulk E b p ''replay'' fps (Some t) depth user headers result st) (\<lambda>(x, st').
             case x of
               Inl e \<Rightarrow> ret (Inl e, st')
             | Inr (n, shown, result') \<Rightarrow>
                 replay_each E b p counts depth user headers rest
                   (result'\<lparr>rr_replayed := rr_replayed result' + n,
                      rr_targets := dict_set name (PDict shown) (rr_targets result')\<rparr>) st'))"

definition park_all ::
  "env \<Rightarrow> broker \<Rightarrow> policy \<Rightarrow> int \<Rightarrow> string \<Rightarrow> pyval dict \<Rightarrow> string list \<Rightarrow> run_result \<Rightarrow> batch_backend \<Rightarrow>
     ((exn + run_result) \<times> batch_backend) io"
where
  "park_all E b p depth user headers fps result st =
     (if fps = [] then ret (Inr result, st)
      else bnd (policy_bulk E b p ''park'' fps None depth user headers result st) (\<lambda>(x, st').
             ret (or_raise x (\<lambda>(n, _, result'). Inr (result'\<lparr>rr_parked := rr_parked result' + n\<rparr>)), st')))"


section \<open>Finishing a run\<close>

definition run_outcome :: "run_result \<Rightarrow> bool \<Rightarrow> string" where
  "run_outcome r unreachable =
     (if unreachable then ''failed'' else if rr_failed r > 0 then ''partial''
      else if rr_replayed r \<noteq> 0 \<or> rr_parked r \<noteq> 0 then ''success'' else ''idle'')"

definition run_entry :: "policy \<Rightarrow> string \<Rightarrow> int \<Rightarrow> run_result \<Rightarrow> bool \<Rightarrow> audit_entry" where
  "run_entry p user t r unreachable =
     (audit_entry_of user ''run_replay_policy'' t)\<lparr>ae_source_queue := Some (pl_queue p),
        ae_result := (if unreachable \<or> rr_failed r > 0 then run_outcome r unreachable else ''success''),
        ae_error_message := (if unreachable then Some (join_with ''; '' (rr_errors r)) else None),
        ae_metadata := [(''policy'', PInt (pl_id p)), (''replayed'', PInt (rr_replayed r)),
          (''parked'', PInt (rr_parked r)), (''failed'', PInt (rr_failed r)), (''waiting'', PInt (rr_waiting r)),
          (''skipped_no_consumers'', PInt (rr_skipped r)), (''capped'', PInt (rr_capped r))]\<rparr>"

definition pause_entry :: "policy \<Rightarrow> string \<Rightarrow> int \<Rightarrow> int \<Rightarrow> audit_entry" where
  "pause_entry p user t failed_runs =
     (audit_entry_of user ''pause_replay_policy'' t)\<lparr>ae_source_queue := Some (pl_queue p), ae_result := ''success'',
        ae_metadata := [(''policy'', PInt (pl_id p)), (''failed_runs'', PInt failed_runs)]\<rparr>"

definition pause_message :: "policy \<Rightarrow> run_result \<Rightarrow> int \<Rightarrow> string" where
  "pause_message p r failed_runs =
     int_text failed_runs @ '' runs in a row failed for '' @ pl_queue p @ '' in '' @
     str_or (pl_environment p) ''the default environment'' @ '' / '' @
     str_or (pl_vhost p) ''its default vhost'' @ ''; the policy is disabled until an Admin enables it again. '' @
     ''Last errors: '' @
     str_or (Some (join_with ''; '' (drop (length (rr_errors r) - 3) (rr_errors r)))) ''see the audit log''"

text \<open>The channels that are set up.\<close>

definition ready_channels :: "pyval dict \<Rightarrow> string list" where
  "ready_channels d =
     map fst (filter (\<lambda>(_, v). case v of
       PDict c \<Rightarrow> truthy (py_get c ''url'') \<or> truthy (py_get c ''routing_key'') \<or> truthy (py_get c ''smtp_host'')
     | _ \<Rightarrow> False) d)"

definition notify_paused :: "env \<Rightarrow> policy \<Rightarrow> run_result \<Rightarrow> int \<Rightarrow> string \<Rightarrow> unit io" where
  "notify_paused E p r failed_runs user =
     bnd (clock E) (\<lambda>t.
     bnd (record_audit E (pause_entry p user t failed_runs)) (\<lambda>_.
     bnd (get_setting E ''channels'' (PDict [])) (\<lambda>stored.
     bnd (lift (as_dict stored)) (\<lambda>d.
       let title = ''Replay policy paused: '' @ pl_name p; message = pause_message p r failed_runs
       in bnd (dispatch E (ready_channels d)
                 \<lparr>al_title = title, al_message = message, al_severity = ''Alert'', al_dedup_key = None,
                  al_resolve = False\<rparr>) (\<lambda>delivery.
            add_notification E \<lparr>no_level = ''Alert'', no_title = title, no_message = message,
               no_source = ''Replay policy'', no_rule = None, no_delivery = delivery\<rparr>)))))"

text \<open>The first transaction of \<open>_finish\<close>, and the audit row: the failed runs in a row.\<close>

definition record_finished ::
  "env \<Rightarrow> policy \<Rightarrow> run_result \<Rightarrow> string \<Rightarrow> bool \<Rightarrow> policy list \<Rightarrow> ((exn + int) \<times> policy list) io"
where
  "record_finished E p result user unreachable rows =
     (let failed_run = (unreachable \<or> rr_failed result > 0);
          moved = (rr_replayed result \<noteq> 0 \<or> rr_parked result \<noteq> 0)
      in bnd (clock E) (\<lambda>t.
         case record_run (e_lib E) (pl_id p) t result failed_run rows of
           (failed_runs, rows') \<Rightarrow>
             bnd (outcome (if moved \<or> failed_run
                           then bnd (clock E) (\<lambda>t'. record_audit E (run_entry p user t' result unreachable))
                           else ret ())) (\<lambda>a. ret (or_raise a (\<lambda>_. Inr failed_runs), rows'))))"

text \<open>The second: after three failed runs in a row the policy is switched off.\<close>

definition pause_failing ::
  "env \<Rightarrow> policy \<Rightarrow> run_result \<Rightarrow> string \<Rightarrow> int \<Rightarrow> policy list \<Rightarrow> ((exn + unit) \<times> policy list) io"
where
  "pause_failing E p result user failed_runs rows =
     (if failed_runs \<ge> PAUSE_AFTER_FAILED_RUNS then
        (case policies_update (pl_id p) (\<lambda>q. q\<lparr>pl_enabled := False\<rparr>) False rows of
           (_, rows') \<Rightarrow> bnd (outcome (notify_paused E p result failed_runs user)) (\<lambda>n. ret (n, rows')))
      else ret (Inr (), rows))"

definition finish_run ::
  "env \<Rightarrow> policy \<Rightarrow> run_result \<Rightarrow> string \<Rightarrow> bool \<Rightarrow> policy list \<Rightarrow> ((exn + unit) \<times> policy list) io"
where
  "finish_run E p result user unreachable rows =
     bnd (record_finished E p result user unreachable rows) (\<lambda>(r, rows').
       case r of Inl e \<Rightarrow> ret (Inl e, rows') | Inr failed_runs \<Rightarrow> pause_failing E p result user failed_runs rows')"


section \<open>The runner\<close>

text \<open>What a run reads before it acts: the scan sorted into a plan, and who consumes from each target.\<close>

definition survey ::
  "env \<Rightarrow> settings \<Rightarrow> broker \<Rightarrow> policy \<Rightarrow> (int \<times> plan \<times> consumer_counts \<times> run_result) io"
where
  "survey E cfg b p =
     bnd (policy_limit E cfg ''max_browse_depth'' 50000) (\<lambda>depth.
     bnd (policy_limit E cfg ''max_bulk_size'' 1000) (\<lambda>bulk.
     bnd (clock E) (\<lambda>now.
     bnd (snapshot (bk_env b) (service_guard (bk_env b) (bk_version b)) (pl_queue p) depth) (\<lambda>sc.
     bnd (lift (configured_target (e_lib E) (bk_settings b) (pl_queue p))) (\<lambda>fallback.
     bnd (lift (plan (sc_records sc) (pl_queue p) now (pl_max_deaths p) (pl_backoff p) (min (pl_cap p) bulk) fallback)) (\<lambda>pn.
     bnd (consumers_of (bk_env b) (bk_version b) (map fst (pn_replay pn)) [] []) (\<lambda>(counts, errors).
       ret (depth, pn, counts,
            (empty_result (e_lib E) now)\<lparr>rr_scanned := int (length (sc_records sc)), rr_waiting := pn_waiting pn,
               rr_no_history := pn_no_history pn, rr_no_target := pn_no_target pn, rr_capped := pn_capped pn,
               rr_errors := errors\<rparr>))))))))"

definition run_preview :: "env \<Rightarrow> settings \<Rightarrow> broker \<Rightarrow> policy \<Rightarrow> run_result io" where
  "run_preview E cfg b p =
     bnd (survey E cfg b p) (\<lambda>(depth, pn, counts, result).
       ret (result\<lparr>rr_targets := preview_targets (e_lib E) counts (pn_replay pn),
                   rr_to_park := Some (int (length (pn_park pn)))\<rparr>))"

definition run_act ::
  "env \<Rightarrow> settings \<Rightarrow> broker \<Rightarrow> policy \<Rightarrow> string \<Rightarrow> batch_backend \<Rightarrow> ((exn + run_result) \<times> batch_backend) io"
where
  "run_act E cfg b p user batches =
     bnd (outcome (bnd (survey E cfg b p) (\<lambda>s. bnd (custom_headers E) (\<lambda>headers. ret (s, headers))))) (\<lambda>r.
       case r of
         Inl e \<Rightarrow> ret (Inl e, batches)
       | Inr ((depth, pn, counts, result), headers) \<Rightarrow>
           bnd (replay_each E b p counts depth user headers (pn_replay pn) result batches) (\<lambda>(x, batches').
             case x of
               Inl e \<Rightarrow> ret (Inl e, batches')
             | Inr result' \<Rightarrow> park_all E b p depth user headers (pn_park pn) result' batches'))"

definition policy_user :: "policy \<Rightarrow> string" where
  "policy_user p = ''policy:'' @ pl_name p"

text \<open>\<open>except KeyError\<close>: the policy's environment or vhost was removed.\<close>

definition unknown_scope :: "env \<Rightarrow> exn \<Rightarrow> run_result io" where
  "unknown_scope E e =
     (if exn_class e \<noteq> KeyErr then raise e
      else bnd (clock E) (\<lambda>t. ret ((empty_result (e_lib E) t)\<lparr>rr_errors := [str_or (exn_text e) []]\<rparr>)))"

text \<open>A run up to \<open>_finish\<close>: its result, and whether its scope is gone (\<open>unreachable\<close>).\<close>

definition run_until_finish ::
  "env \<Rightarrow> settings \<Rightarrow> manager \<Rightarrow> policy \<Rightarrow> batch_backend \<Rightarrow> ((exn + run_result \<times> bool) \<times> batch_backend) io"
where
  "run_until_finish E cfg manager p batches =
     bnd (outcome (resolve_broker manager (pl_environment p, pl_vhost p))) (\<lambda>m.
       case m of
         Inr b \<Rightarrow>
           bnd (run_act E cfg b p (policy_user p) batches) (\<lambda>(x, batches').
             ret (or_raise x (\<lambda>r. Inr (r, False)), batches'))
       | Inl e \<Rightarrow> bnd (outcome (unknown_scope E e)) (\<lambda>x. ret (or_raise x (\<lambda>r. Inr (r, True)), batches)))"

definition run ::
  "env \<Rightarrow> settings \<Rightarrow> manager \<Rightarrow> policy \<Rightarrow> bool \<Rightarrow> policy_state \<Rightarrow> ((exn + run_result) \<times> policy_state) io"
where
  "run E cfg manager p preview st =
     (if preview then
        bnd (outcome (bnd (outcome (resolve_broker manager (pl_environment p, pl_vhost p))) (\<lambda>m.
               case m of Inr b \<Rightarrow> run_preview E cfg b p | Inl e \<Rightarrow> unknown_scope E e))) (\<lambda>r. ret (r, st))
      else
        bnd (run_until_finish E cfg manager p (snd st)) (\<lambda>(x, batches).
          case x of
            Inl e \<Rightarrow> ret (Inl e, (fst st, batches))
          | Inr (result, unreachable) \<Rightarrow>
              bnd (finish_run E p result (policy_user p) unreachable (fst st)) (\<lambda>(z, rows).
                ret (or_raise z (\<lambda>_. Inr result), (rows, batches)))))"

text \<open>Whether a listed policy is to run: the last run's time is read back from its text.\<close>

definition is_due :: "pylib \<Rightarrow> int \<Rightarrow> policy \<Rightarrow> exn + bool" where
  "is_due L now p =
     (case last_run_text L p of
        None \<Rightarrow> Inr (pl_enabled p)
      | Some s \<Rightarrow>
          if s = [] then Inr (pl_enabled p)
          else (case fromisoformat L s of
             None \<Rightarrow> Inl (mk_exn ValueErr ''Invalid isoformat string'')
           | Some (Naive _) \<Rightarrow> if pl_enabled p
               then Inl (mk_exn TypeErr ''can't subtract offset-naive and offset-aware datetimes'') else Inr False
           | Some (Aware earlier) \<Rightarrow>
               if pl_enabled p then or_raise (timedelta_minutes (pl_interval p)) (\<lambda>wait. Inr (wait \<le> now - earlier))
               else Inr False))"

fun run_each ::
  "env \<Rightarrow> settings \<Rightarrow> manager \<Rightarrow> int \<Rightarrow> policy list \<Rightarrow> policy_state \<Rightarrow> ((exn + unit) \<times> policy_state) io"
where
  "run_each E cfg manager now [] st = ret (Inr (), st)"
| "run_each E cfg manager now (p # ps) st =
     (case is_due (e_lib E) now p of
        Inl e \<Rightarrow> ret (Inl e, st)
      | Inr due \<Rightarrow>
          if due then bnd (run E cfg manager p False st) (\<lambda>(_, st'). run_each E cfg manager now ps st')
          else run_each E cfg manager now ps st)"

definition run_due ::
  "env \<Rightarrow> settings \<Rightarrow> manager \<Rightarrow> policy_state \<Rightarrow> ((exn + unit) \<times> policy_state) io"
where
  "run_due E cfg manager st =
     bnd (clock E) (\<lambda>now. run_each E cfg manager now (policies_list (fst st)) st)"

text \<open>One pass of the loop: only the leader runs policies, and an error of a pass is logged.\<close>

definition runner_pass :: "env \<Rightarrow> settings \<Rightarrow> manager \<Rightarrow> bool \<Rightarrow> policy_state \<Rightarrow> policy_state io" where
  "runner_pass E cfg manager leads st =
     (if leads then bnd (run_due E cfg manager st) (\<lambda>(_, st'). ret st') else ret st)"

end
