(* ===== verification/Policy_Properties.thy ===== *)
theory Policy_Properties
  imports Policies Bulk_Properties
begin

text \<open>
  What replay policies guarantee: a plan acts on the oldest messages that qualify, up to the cap,
  and on nothing else; a message is replayed only when its back-off is over and parked only when it
  died too often; a preview moves nothing, whatever starting the policy's scope takes; and a policy
  whose last three runs failed is switched off, or its pausing is under way.
\<close>


section \<open>Plans\<close>

definition is_act :: "verdict \<Rightarrow> bool" where
  "is_act v \<longleftrightarrow> v \<notin> {No_History, Waiting, No_Target}"

text \<open>The fingerprints of the records judged \<open>v\<close>; and a list as a dictionary entry.\<close>

definition fps_with :: "verdict \<Rightarrow> (message_record \<times> verdict) list \<Rightarrow> string list" where
  "fps_with v zs = map (\<lambda>(r, _). mr_fingerprint r) (filter (\<lambda>(_, w). w = v) zs)"

definition counted :: "verdict \<Rightarrow> (message_record \<times> verdict) list \<Rightarrow> int" where
  "counted v zs = int (length (fps_with v zs))"

definition entry_for :: "'a list \<Rightarrow> 'a list option" where
  "entry_for l = (if l = [] then None else Some l)"

lemma fps_with_simps [simp]:
  "fps_with v [] = []"
  "fps_with v ((r, w) # zs) = (if w = v then [mr_fingerprint r] else []) @ fps_with v zs"
  by (simp_all add: fps_with_def)

lemma counted_simps [simp]:
  "counted v [] = 0"
  "counted v ((r, w) # zs) = (if w = v then 1 else 0) + counted v zs"
  by (simp_all add: counted_def)

lemma add_replay_entry:
  assumes "\<forall>t. map_of d t = entry_for (l t)"
  shows "map_of (add_replay t0 fp d) t = entry_for (l t @ (if t = t0 then [fp] else []))"
  using assms by (auto simp: add_replay_def entry_for_def AList.update_conv' split: option.splits)

lemma add_replay_distinct: "distinct (map fst d) \<Longrightarrow> distinct (map fst (add_replay t fp d))"
  by (simp add: add_replay_def AList.distinct_update)

lemma plan_from_fold:
  "plan_from judge cap rs st = Inr st' \<Longrightarrow>
     \<exists>vs. map judge rs = map Inr vs \<and> st' = fold (\<lambda>(r, v). plan_step cap r v) (zip rs vs) st"
proof (induction rs arbitrary: st)
  case Nil
  then show ?case by simp
next
  case (Cons r rs)
  then obtain v where v: "judge r = Inr v" "plan_from judge cap rs (plan_step cap r v st) = Inr st'"
    by (auto simp: or_raise_Inr_iff)
  from Cons.IH[OF v(2)] obtain vs where "map judge rs = map Inr vs"
      "st' = fold (\<lambda>(r, v). plan_step cap r v) (zip rs vs) (plan_step cap r v st)" by blast
  with v(1) show ?case by (intro exI[of _ "v # vs"]) simp
qed

text \<open>The records acted on when \<open>n\<close> were acted on before.\<close>

definition taken :: "int \<Rightarrow> int \<Rightarrow> (message_record \<times> verdict) list \<Rightarrow> (message_record \<times> verdict) list" where
  "taken cap n zs = take (nat (cap - n)) (filter (\<lambda>(_, v). is_act v) zs)"

lemma taken_simps:
  "taken cap n [] = []"
  "\<not> is_act v \<Longrightarrow> taken cap n ((r, v) # zs) = taken cap n zs"
  "is_act v \<Longrightarrow> cap \<le> n \<Longrightarrow> taken cap n ((r, v) # zs) = []"
  "cap \<le> n \<Longrightarrow> taken cap n zs = []"
  "is_act v \<Longrightarrow> n < cap \<Longrightarrow> taken cap n ((r, v) # zs) = (r, v) # taken cap (n + 1) zs"
proof -
  assume *: "is_act v" "n < cap"
  then have "nat (cap - n) = Suc (nat (cap - (n + 1)))" by simp
  with * show "taken cap n ((r, v) # zs) = (r, v) # taken cap (n + 1) zs"
    by (simp only: taken_def filter.simps case_prod_conv if_True take_Suc_Cons)
qed (simp_all add: taken_def)

lemma is_act_simps [simp]:
  "\<not> is_act No_History" "\<not> is_act Waiting" "\<not> is_act No_Target" "is_act Park" "is_act (Replay t)"
  by (simp_all add: is_act_def)

lemma plan_fold:
  assumes "fold (\<lambda>(r, v). plan_step cap r v) zs (n, out) = (n', out')"
    and "\<forall>t. map_of (pn_replay out) t = entry_for (l t)" and "distinct (map fst (pn_replay out))"
  shows "pn_park out' = pn_park out @ fps_with Park (taken cap n zs) \<and>
    (\<forall>t. map_of (pn_replay out') t = entry_for (l t @ fps_with (Replay t) (taken cap n zs))) \<and>
    distinct (map fst (pn_replay out')) \<and>
    pn_waiting out' = pn_waiting out + counted Waiting zs \<and>
    pn_no_history out' = pn_no_history out + counted No_History zs \<and>
    pn_no_target out' = pn_no_target out + counted No_Target zs \<and>
    pn_capped out' = pn_capped out +
      int (length (filter (\<lambda>(_, v). is_act v) zs)) - int (length (taken cap n zs))"
  using assms
proof (induction zs arbitrary: n out l)
  case Nil
  then show ?case by (simp add: taken_def)
next
  case (Cons z zs)
  obtain r v where z: "z = (r, v)" by (cases z)
  show ?case
  proof (cases "is_act v \<and> n < cap")
    case False
    then have t: "taken cap n (z # zs) = taken cap n zs"
      using z by (cases "is_act v") (simp_all add: taken_simps)
    define out1 where "out1 = snd (plan_step cap r v (n, out))"
    have step: "plan_step cap r v (n, out) = (n, out1)"
        "pn_park out1 = pn_park out" "pn_replay out1 = pn_replay out"
        "pn_waiting out1 = pn_waiting out + (if v = Waiting then 1 else 0)"
        "pn_no_history out1 = pn_no_history out + (if v = No_History then 1 else 0)"
        "pn_no_target out1 = pn_no_target out + (if v = No_Target then 1 else 0)"
        "pn_capped out1 = pn_capped out + (if is_act v then 1 else 0)"
      using False by (cases v; simp add: plan_step_def out1_def)+
    have "fold (\<lambda>(r, v). plan_step cap r v) zs (n, out1) = (n', out')"
      using Cons.prems(1) step(1) z by simp
    from Cons.IH[OF this, of l] show ?thesis
      using Cons.prems(2,3) step t z by auto
  next
    case True
    then have t: "taken cap n (z # zs) = (r, v) # taken cap (n + 1) zs" using z by (simp add: taken_simps)
    define l' where "l' = (\<lambda>t. l t @ (if v = Replay t then [mr_fingerprint r] else []))"
    define out1 where "out1 = snd (plan_step cap r v (n, out))"
    have step: "plan_step cap r v (n, out) = (n + 1, out1)"
        "pn_park out1 = pn_park out @ (if v = Park then [mr_fingerprint r] else [])"
        "\<forall>t. map_of (pn_replay out1) t = entry_for (l' t)" "distinct (map fst (pn_replay out1))"
        "pn_waiting out1 = pn_waiting out" "pn_no_history out1 = pn_no_history out"
        "pn_no_target out1 = pn_no_target out" "pn_capped out1 = pn_capped out"
      using True Cons.prems(2,3)
      by (cases v; auto simp: plan_step_def out1_def l'_def add_replay_entry[OF Cons.prems(2)] add_replay_distinct)+
    have "fold (\<lambda>(r, v). plan_step cap r v) zs (n + 1, out1) = (n', out')"
      using Cons.prems(1) step(1) z by simp
    from Cons.IH[OF this step(3,4)] show ?thesis
      using step t z True unfolding l'_def by (cases v) auto
  qed
qed

lemma plan_spec:
  assumes "plan records dlq now md bo cap fallback = Inr p"
  obtains vs where "map (verdict_of dlq now md bo fallback) records = map Inr vs"
    "pn_park p = fps_with Park (taken cap 0 (zip records vs))"
    "\<And>t. map_of (pn_replay p) t = entry_for (fps_with (Replay t) (taken cap 0 (zip records vs)))"
    "distinct (map fst (pn_replay p))"
    "pn_waiting p = counted Waiting (zip records vs)" "pn_no_history p = counted No_History (zip records vs)"
    "pn_no_target p = counted No_Target (zip records vs)"
    "pn_capped p = int (length (filter (\<lambda>(_, v). is_act v) (zip records vs))) - int (length (taken cap 0 (zip records vs)))"
proof -
  obtain n where "plan_from (verdict_of dlq now md bo fallback) cap records (0, empty_plan) = Inr (n, p)"
    using assms by (auto simp: plan_def or_raise_Inr_iff)
  from plan_from_fold[OF this] obtain vs where vs: "map (verdict_of dlq now md bo fallback) records = map Inr vs"
      "fold (\<lambda>(r, v). plan_step cap r v) (zip records vs) (0, empty_plan) = (n, p)" by auto
  from plan_fold[OF vs(2), of "\<lambda>_. []"] vs(1) show ?thesis
    by (intro that) (auto simp: empty_plan_def entry_for_def)
qed


text \<open>The message died less than \<open>max_deaths\<close> times, its back-off, doubled per death, is over, and \<open>t\<close> is
  the queue it last died in or the configured target.\<close>

definition due_for :: "string \<Rightarrow> int \<Rightarrow> int \<Rightarrow> int \<Rightarrow> replay_target option \<Rightarrow> message_record \<Rightarrow> replay_target \<Rightarrow> bool" where
  "due_for dlq now max_deaths backoff fallback r t \<longleftrightarrow>
     (\<exists>n died_at origin wait. deaths (mr_x_death r) (mr_headers r) = Inr n \<and> n < max_deaths \<and>
     last_death (mr_x_death r) = Inr (died_at, origin) \<and> backoff_wait backoff n = Inr wait \<and>
     (1 \<le> n \<longrightarrow> wait = minutes (backoff * 2 ^ nat (n - 1))) \<and>
     (\<forall>d. died_at = Some d \<longrightarrow> wait \<le> now - d) \<and>
     ((\<exists>q. origin = Some q \<and> q \<noteq> dlq \<and> t = queue_target q) \<or> fallback = Some t))"

lemma replay_verdict:
  assumes "verdict_of dlq now max_deaths backoff fallback r = Inr (Replay t)"
  shows "due_for dlq now max_deaths backoff fallback r t"
proof -
  from assms obtain n died_at origin wait where
    "deaths (mr_x_death r) (mr_headers r) = Inr n" "n < max_deaths"
    "last_death (mr_x_death r) = Inr (died_at, origin)" "backoff_wait backoff n = Inr wait"
    "\<not> (died_at \<noteq> None \<and> now - the died_at < wait)" "origin_target dlq origin fallback = Some t"
    by (auto simp: verdict_of_def or_raise_Inr_iff split: if_splits option.splits prod.splits)
  moreover have "1 \<le> n \<longrightarrow> wait = minutes (backoff * 2 ^ nat (n - 1))"
    using calculation(4) by (auto simp: backoff_wait_def timedelta_minutes_def split: if_splits)
  ultimately show ?thesis
    unfolding due_for_def
    by (intro exI[of _ n] exI[of _ died_at] exI[of _ origin] exI[of _ wait])
       (auto simp: origin_target_def str_or_def split: if_splits option.splits)
qed


section \<open>What a run does to the table\<close>

definition ran_row :: "pylib \<Rightarrow> int \<Rightarrow> run_result \<Rightarrow> bool \<Rightarrow> policy \<Rightarrow> policy" where
  "ran_row L t result failed p =
     p\<lparr>pl_last_run := Some (db_time L (Aware t)), pl_last_result := Some result,
       pl_failures := (if failed then pl_failures p + 1 else 0)\<rparr>"

lemma record_run_rows:
  "record_run L i t result failed rows =
     (case policies_get i rows of None \<Rightarrow> 0 | Some p \<Rightarrow> pl_failures (ran_row L t result failed p),
      map (\<lambda>p. if pl_id p = i then ran_row L t result failed p else p) rows)"
  by (simp add: record_run_def ran_row_def Let_def split: option.splits)

text \<open>A run leaves the table alone, or records the run; after three failures it also pauses the
  policy, unless the audit row could not be written.\<close>

definition paused_row :: "policy \<Rightarrow> policy" where
  "paused_row p = p\<lparr>pl_enabled := False\<rparr>"

lemma record_finished_cases:
  assumes "record_finished E p result user unreachable rows h = (res, h')"
  obtains t x where
    "res = Inr (x, snd (record_run (e_lib E) (pl_id p) t result (unreachable \<or> rr_failed result > 0) rows))"
    "x = Inr (fst (record_run (e_lib E) (pl_id p) t result (unreachable \<or> rr_failed result > 0) rows)) \<or>
       (\<exists>e y. x = Inl e \<and> h' = h @ [EvAudit y (Some e)])"
proof -
  define n rows' where "n = fst (record_run (e_lib E) (pl_id p) (e_clock E h) result (unreachable \<or> rr_failed result > 0) rows)"
    and "rows' = snd (record_run (e_lib E) (pl_id p) (e_clock E h) result (unreachable \<or> rr_failed result > 0) rows)"
  define mid where "mid = (if (rr_replayed result \<noteq> 0 \<or> rr_parked result \<noteq> 0) \<or> unreachable \<or> rr_failed result > 0
      then bnd (clock E) (\<lambda>t'. record_audit E (run_entry p user t' result unreachable)) else ret ())"
  obtain a h1 where a: "mid h = (a, h1)" by fastforce
  have mid: "a = Inl e \<Longrightarrow> \<exists>x. h1 = h @ [EvAudit x (Some e)]" for e
    using a by (auto simp: mid_def bnd_def clock_def observe_def record_audit_def perform_def ret_def
        split: if_splits option.splits)
  have "record_finished E p result user unreachable rows h = (Inr (or_raise a (\<lambda>_. Inr n), rows'), h1)"
    using a unfolding record_finished_def Let_def mid_def[symmetric] n_def rows'_def
    by (auto simp: bnd_def clock_def observe_def outcome_def ret_def split: prod.splits)
  with assms mid show ?thesis
    by (intro that[of "or_raise a (\<lambda>_. Inr n)" "e_clock E h"])
       (cases a; auto simp: n_def rows'_def)+
qed

lemma pause_failing_rows:
  assumes "pause_failing E p result user n rows h = (res, h')"
  shows "\<exists>x. res = Inr (x, if 3 \<le> n then map (\<lambda>q. if pl_id q = pl_id p then paused_row q else q) rows else rows)"
  using assms
  by (auto simp: pause_failing_def PAUSE_AFTER_FAILED_RUNS_def policies_update_def paused_row_def Let_def
      bnd_def outcome_def ret_def split: prod.splits if_splits)

lemma finish_run_cases:
  assumes "finish_run E p result user unreachable rows h = (res, h')"
  obtains
    (unaudited) x e t where "res = Inr (Inl e, snd (record_run (e_lib E) (pl_id p) t result (unreachable \<or> rr_failed result > 0) rows))"
      "h' = h @ [EvAudit x (Some e)]"
  | (counted) t where "res = Inr (Inr (), snd (record_run (e_lib E) (pl_id p) t result (unreachable \<or> rr_failed result > 0) rows))"
      "fst (record_run (e_lib E) (pl_id p) t result (unreachable \<or> rr_failed result > 0) rows) < 3"
  | (paused) t n where "3 \<le> fst (record_run (e_lib E) (pl_id p) t result (unreachable \<or> rr_failed result > 0) rows)"
      "res = Inr (n, map (\<lambda>q. if pl_id q = pl_id p then paused_row q else q)
         (snd (record_run (e_lib E) (pl_id p) t result (unreachable \<or> rr_failed result > 0) rows)))"
proof -
  obtain r1 h1 where first: "record_finished E p result user unreachable rows h = (r1, h1)" by fastforce
  from this show ?thesis
  proof (cases rule: record_finished_cases)
    case (1 t x)
    let ?n = "fst (record_run (e_lib E) (pl_id p) t result (unreachable \<or> rr_failed result > 0) rows)"
    let ?rows = "snd (record_run (e_lib E) (pl_id p) t result (unreachable \<or> rr_failed result > 0) rows)"
    show ?thesis
    proof (cases x)
      case (Inl e)
      with 1 first assms show ?thesis
        by (auto simp: finish_run_def bnd_def ret_def intro: unaudited)
    next
      case (Inr n)
      with 1 have n: "n = ?n" by auto
      have run: "pause_failing E p result user ?n ?rows h1 = (res, h')"
        using assms 1 first Inr n by (simp add: finish_run_def bnd_def)
      show ?thesis
      proof (cases "3 \<le> ?n")
        case True
        with pause_failing_rows[OF run] paused show ?thesis by auto
      next
        case False
        with run have "res = Inr (Inr (), ?rows)"
          by (simp add: pause_failing_def PAUSE_AFTER_FAILED_RUNS_def ret_def)
        with False counted show ?thesis by auto
      qed
    qed
  qed
qed

text \<open>A run leaves the table as it was or finishes, as the last thing it does.\<close>

lemma run_cases:
  assumes "run E cfg manager p preview (rows, batches) h = (Inr (x, (rows', batches')), h')"
  obtains (apart) "rows' = rows"
  | (finished) r u z h1 where "finish_run E p r (policy_user p) u rows h1 = (Inr (z, rows'), h')"
  using assms unfolding run_def
  by (auto simp: bnd_def outcome_def ret_def split: prod.splits sum.splits if_splits)

text \<open>The scope is gone exactly when the manager does not know it.\<close>

lemma run_until_finish_unreachable:
  assumes "run_until_finish E cfg manager p batches h = (Inr (Inr (result, unreachable), batches'), h')"
  shows "unreachable \<longleftrightarrow> isl (manager h (pl_environment p, pl_vhost p))"
  using assms unfolding run_until_finish_def
  by (cases "manager h (pl_environment p, pl_vhost p)")
     (auto simp: resolve_broker_def bnd_def observe_def outcome_def lift_def ret_def perform_def or_raise_Inr_iff
       split: prod.splits sum.splits if_splits)


section \<open>Histories of the table\<close>

text \<open>
  A run that failed: its environment or vhost was removed, or it failed to move some message.
\<close>

definition run_failed :: "manager \<Rightarrow> hist \<Rightarrow> policy \<Rightarrow> run_result \<Rightarrow> bool" where
  "run_failed manager h p result \<longleftrightarrow> isl (manager h (pl_environment p, pl_vhost p)) \<or> rr_failed result > 0"

text \<open>The failed runs in a row at the end of a record, which has the newest run first.\<close>

definition failed_in_a_row :: "bool list \<Rightarrow> int" where
  "failed_in_a_row runs = int (length (takeWhile (\<lambda>failed. failed) runs))"

lemma failed_in_a_row_simps [simp]:
  "failed_in_a_row [] = 0"
  "failed_in_a_row (failed # runs) = (if failed then failed_in_a_row runs + 1 else 0)"
  by (simp_all add: failed_in_a_row_def)

text \<open>
  The table through time, one transaction at a time. Next to it go two records that the program does
  not keep: \<open>past\<close>, which runs of a policy failed since it was created or an Admin last switched it
  on (newest first), and \<open>due\<close>, the runs that are recorded and whose pausing is still to come.
  A run is of a policy as it was listed, however stale; its audit row can be written. Policies are
  created, changed (\<open>enables\<close>: by the Admin who turns it on; otherwise the change leaves it off),
  deleted and adopted in between.
\<close>

inductive policy_reach :: "policy list \<Rightarrow> (int \<Rightarrow> bool list) \<Rightarrow> (policy \<times> run_result \<times> int) multiset \<Rightarrow> bool" where
  start: "policy_reach [] (\<lambda>_. []) {#}"
| ran: "policy_reach rows past due \<Longrightarrow>
    run_until_finish E cfg manager p batches h = (Inr (Inr (result, unreachable), batches'), h1) \<Longrightarrow>
    record_finished E p result (policy_user p) unreachable rows h2 = (Inr (Inr n, rows'), h3) \<Longrightarrow>
    policy_reach rows' (past(pl_id p := run_failed manager h p result # past (pl_id p))) (add_mset (p, result, n) due)"
| paused: "policy_reach rows past due \<Longrightarrow> (p, result, n) \<in># due \<Longrightarrow>
    pause_failing E p result (policy_user p) n rows h = (Inr (x, rows'), h') \<Longrightarrow>
    policy_reach rows' past (due - {#(p, result, n)#})"
| created: "policy_reach rows past due \<Longrightarrow> new_id \<notin> pl_id ` set rows \<Longrightarrow> pl_failures p = 0 \<Longrightarrow>
    policy_reach (snd (policies_create new_id p rows)) (past(new_id := [])) due"
| changed: "policy_reach rows past due \<Longrightarrow> (\<And>q. pl_id (change q) = pl_id q \<and> pl_failures (change q) = pl_failures q) \<Longrightarrow>
    (\<And>q. enables \<or> \<not> pl_enabled (change q)) \<Longrightarrow>
    policy_reach (snd (policies_update i change enables rows)) (if enables then past(i := []) else past) due"
| deleted: "policy_reach rows past due \<Longrightarrow> policy_reach (snd (policies_delete i rows)) past due"
| adopted: "policy_reach rows past due \<Longrightarrow> policy_reach (policies_adopt environment vhost rows) past due"

text \<open>Distinct ids; the count of a row is the record's; a policy that is on has failed less than three
  times in a row, or is about to be paused.\<close>

definition pausing :: "(policy \<times> run_result \<times> int) multiset \<Rightarrow> int \<Rightarrow> bool" where
  "pausing due i \<longleftrightarrow> (\<exists>q r n. (q, r, n) \<in># due \<and> pl_id q = i \<and> 3 \<le> n)"

lemma pausing_add [simp]:
  "pausing (add_mset (p, r, n) due) i \<longleftrightarrow> i = pl_id p \<and> 3 \<le> n \<or> pausing due i"
  by (auto simp: pausing_def)

lemma in_remove_other: "x \<in># A \<Longrightarrow> x \<noteq> y \<Longrightarrow> x \<in># A - {#y#}"
  by (simp add: in_diff_count)

lemma pausing_remove:
  assumes "pausing due i" and "i \<noteq> pl_id p \<or> n < 3"
  shows "pausing (due - {#(p, r, n)#}) i"
proof -
  from assms(1) obtain q s k where q: "(q, s, k) \<in># due" "pl_id q = i" "3 \<le> k" by (auto simp: pausing_def)
  with assms(2) have "(q, s, k) \<noteq> (p, r, n)" by auto
  from in_remove_other[OF q(1) this] q show ?thesis by (auto simp: pausing_def)
qed

definition row_ok :: "(int \<Rightarrow> bool list) \<Rightarrow> (policy \<times> run_result \<times> int) multiset \<Rightarrow> policy \<Rightarrow> bool" where
  "row_ok past due p \<longleftrightarrow> pl_failures p = failed_in_a_row (past (pl_id p)) \<and>
     (pl_enabled p \<longrightarrow> pl_failures p < 3 \<or> pausing due (pl_id p))"

definition policies_ok :: "policy list \<Rightarrow> (int \<Rightarrow> bool list) \<Rightarrow> (policy \<times> run_result \<times> int) multiset \<Rightarrow> bool" where
  "policies_ok rows past due \<longleftrightarrow> distinct (map pl_id rows) \<and> (\<forall>p \<in> set rows. row_ok past due p)"

lemma policies_ok_map:
  assumes ok: "policies_ok rows past due" and ids: "\<And>q. pl_id (g q) = pl_id q"
    and hit: "\<And>q. q \<in> set rows \<Longrightarrow> pl_id q = i \<Longrightarrow> row_ok past due q \<Longrightarrow> row_ok past' due' (g q)"
    and miss: "\<And>q. q \<in> set rows \<Longrightarrow> pl_id q \<noteq> i \<Longrightarrow> row_ok past due q \<Longrightarrow> row_ok past' due' q"
  shows "policies_ok (map (\<lambda>q. if pl_id q = i then g q else q) rows) past' due'"
proof -
  have "map pl_id (map (\<lambda>q. if pl_id q = i then g q else q) rows) = map pl_id rows" by (simp add: ids)
  with ok have "distinct (map pl_id (map (\<lambda>q. if pl_id q = i then g q else q) rows))" by (simp only: policies_ok_def)
  moreover have "\<forall>q \<in> set (map (\<lambda>q. if pl_id q = i then g q else q) rows). row_ok past' due' q"
    using ok hit miss by (auto simp: policies_ok_def)
  ultimately show ?thesis unfolding policies_ok_def by blast
qed

lemma policies_get_unique:
  "distinct (map pl_id rows) \<Longrightarrow> p \<in> set rows \<Longrightarrow> policies_get (pl_id p) rows = Some p"
  unfolding policies_get_def by (induction rows) (auto simp: rev_image_eqI)

lemma recorded_ok:
  assumes ok: "policies_ok rows past due"
    and ended: "run_until_finish E cfg manager p batches h = (Inr (Inr (result, unreachable), batches'), h1)"
    and rec: "record_finished E p result user unreachable rows h2 = (Inr (Inr n, rows'), h3)"
  shows "policies_ok rows' (past(pl_id p := run_failed manager h p result # past (pl_id p))) (add_mset (p, result, n) due)"
proof -
  let ?failed = "unreachable \<or> rr_failed result > 0"
  have failed: "run_failed manager h p result \<longleftrightarrow> ?failed"
    using run_until_finish_unreachable[OF ended] by (simp add: run_failed_def)
  from rec show ?thesis
  proof (cases rule: record_finished_cases)
    case (1 t x)
    define g where "g = ran_row (e_lib E) t result ?failed"
    have rows': "rows' = map (\<lambda>q. if pl_id q = pl_id p then g q else q) rows"
      and n: "n = (case policies_get (pl_id p) rows of None \<Rightarrow> 0 | Some q \<Rightarrow> pl_failures (g q))"
      using 1 by (auto simp: record_run_rows g_def split: option.splits)
    show ?thesis
      unfolding rows'
    proof (rule policies_ok_map[OF ok])
      fix q assume q: "q \<in> set rows" "pl_id q = pl_id p" "row_ok past due q"
      from policies_get_unique[OF _ q(1)] ok q(2) n have "n = pl_failures (g q)" by (simp add: policies_ok_def)
      with q show "row_ok (past(pl_id p := run_failed manager h p result # past (pl_id p))) (add_mset (p, result, n) due) (g q)"
        by (auto simp: row_ok_def failed g_def ran_row_def)
    qed (auto simp: row_ok_def g_def ran_row_def)
  qed
qed

lemma paused_ok:
  assumes ok: "policies_ok rows past due" and run: "pause_failing E p result user n rows h = (Inr (x, rows'), h')"
  shows "policies_ok rows' past (due - {#(p, result, n)#})"
proof -
  have other: "row_ok past due q \<Longrightarrow> pl_id q \<noteq> pl_id p \<or> n < 3 \<Longrightarrow> row_ok past (due - {#(p, result, n)#}) q" for q
    by (auto simp: row_ok_def pausing_remove)
  show ?thesis
  proof (cases "3 \<le> n")
    case True
    then have rows': "rows' = map (\<lambda>q. if pl_id q = pl_id p then paused_row q else q) rows"
      using pause_failing_rows[OF run] by simp
    show ?thesis
      unfolding rows' by (rule policies_ok_map[OF ok]) (auto simp: paused_row_def row_ok_def pausing_remove)
  next
    case False
    then have "rows' = rows" using pause_failing_rows[OF run] by simp
    with ok other False show ?thesis by (auto simp: policies_ok_def)
  qed
qed

lemma policy_reach_ok: "policy_reach rows past due \<Longrightarrow> policies_ok rows past due"
proof (induction rule: policy_reach.induct)
  case start
  then show ?case by (simp add: policies_ok_def)
next
  case (ran rows past due E cfg manager p batches h result unreachable batches' h1 h2 n rows' h3)
  then show ?case by (blast intro: recorded_ok)
next
  case (paused rows past due p result n E h x rows' h')
  then show ?case by (blast intro: paused_ok)
next
  case (created rows past due new_id p)
  then show ?case by (auto simp: policies_ok_def policies_create_def row_ok_def)
next
  case (changed rows past due change enables i)
  define g where "g = (\<lambda>q. if enables then (change q)\<lparr>pl_failures := 0\<rparr> else change q)"
  have "policies_ok (map (\<lambda>q. if pl_id q = i then g q else q) rows) (if enables then past(i := []) else past) due"
    using changed.hyps(2,3) by (intro policies_ok_map[OF changed.IH]) (auto simp: g_def row_ok_def)
  then show ?case unfolding policies_update_def g_def Let_def snd_conv .
next
  case (deleted rows past due i)
  then show ?case by (auto simp: policies_ok_def policies_delete_def distinct_map_filter)
next
  case (adopted rows past due environment vhost)
  have "map pl_id (policies_adopt environment vhost rows) = map pl_id rows"
    by (simp add: policies_adopt_def)
  then have "distinct (map pl_id (policies_adopt environment vhost rows))"
    using adopted.IH by (simp only: policies_ok_def)
  moreover have "\<forall>p \<in> set (policies_adopt environment vhost rows). row_ok past due p"
    using adopted.IH by (auto simp: policies_ok_def policies_adopt_def row_ok_def)
  ultimately show ?case unfolding policies_ok_def by blast
qed


section \<open>Previews\<close>

text \<open>What reading a queue takes: statistics, settings, a passive declare, gets and requeues.\<close>

fun looks :: "event \<Rightarrow> bool" where
  "looks (EvDeclare _ passive _) = passive"
| "looks (EvAck _ _) = False"
| "looks (EvPublish _ _ _ _) = False"
| "looks (EvExchange _ _ _) = False"
| "looks (EvAudit _ _) = False"
| "looks (EvPost _ _ _) = False"
| "looks (EvMail _ _) = False"
| "looks (EvNotify _ _) = False"
| "looks (EvStart _) = False"
| "looks _ = True"

lemma looks_management: "is_management e \<Longrightarrow> looks e"
  by (cases e) simp_all

lemma looks_get: "is_get q e \<Longrightarrow> looks e"
  by (auto simp: is_get_def)

lemma emits_requeue_looks: "emits looks (requeue E ms keep)"
  unfolding requeue_def requeue_one_def by (intro emits_intros) simp_all

lemma emits_scan_looks: "emits looks (scan E q limit whole mb slim)"
  unfolding scan_def scan_body_def
  by (intro emits_within_queue emits_intros emits_mono[OF emits_fetch_gets] emits_requeue_looks)
     (auto dest: looks_get)

lemma emits_get_queue_looks: "emits looks (get_queue E version q)"
  unfolding get_queue_def
  by (intro emits_intros emits_mono[OF emits_version_of]) (simp_all add: looks_management)

lemma emits_consumers_of: "emits looks (consumers_of E version ts counts errors)"
proof (induction ts arbitrary: version counts errors)
  case Nil
  then show ?case by (simp add: emits_ret)
next
  case (Cons t ts)
  then show ?case
    unfolding consumers_of.simps by (intro emits_intros emits_get_queue_looks)
qed

lemma emits_survey: "emits looks (survey E cfg b p)"
  unfolding survey_def snapshot_def policy_limit_def
  by (intro emits_intros emits_scan_looks emits_consumers_of emits_mono[OF service_guard.asks_management])
     (simp_all add: looks_management)


section \<open>Properties\<close>

text \<open>
  C16. A plan is what the documentation says: of the messages that qualify, it acts on the oldest
  ones up to the cap, parks those judged exhausted and replays those judged due, in the order they
  were read and to their own target; everything else is only counted.
\<close>

theorem plan_takes_oldest:
  assumes "plan records dlq now max_deaths backoff cap fallback = Inr p"
  shows "\<exists>vs. map (verdict_of dlq now max_deaths backoff fallback) records = map Inr vs \<and>
    (let judged = zip records vs; acts = filter (\<lambda>(_, v). is_act v) judged; acted = take (nat cap) acts
     in pn_park p = fps_with Park acted \<and>
        (\<forall>t. map_of (pn_replay p) t = entry_for (fps_with (Replay t) acted)) \<and>
        distinct (map fst (pn_replay p)) \<and>
        pn_capped p = int (length acts) - int (length acted) \<and>
        pn_waiting p = counted Waiting judged \<and> pn_no_history p = counted No_History judged \<and>
        pn_no_target p = counted No_Target judged)"
  using plan_spec[OF assms] by (simp add: taken_def Let_def) metis

definition dead_record :: "string \<Rightarrow> int \<Rightarrow> int \<Rightarrow> message_record" where
  "dead_record fp died at_time =
     \<lparr>mr_fingerprint = fp, mr_source_queue = ''jobs.dlq'', mr_body = [], mr_payload = None,
      mr_payload_format = ''text'', mr_payload_size = 0, mr_content_type = None, mr_message_id = None,
      mr_correlation_id = None, mr_timestamp = None, mr_exchange = [], mr_routing_key = ''jobs.dlq'',
      mr_headers = [], mr_properties = [], mr_redelivered = False,
      mr_x_death = (if died = 0 then []
        else [[(''count'', PInt died), (''queue'', PStr ''jobs''), (''time'', PTime (Naive at_time))]]),
      mr_decoded_from = None, mr_payload_encoded = None\<rparr>"

definition dead_records :: "message_record list" where
  "dead_records = [dead_record ''a'' 5 0, dead_record ''b'' 0 0, dead_record ''c'' 1 0,
     dead_record ''d'' 1 (minutes 9), dead_record ''e'' 2 (- minutes 60)]"

definition sample_plan :: "exn + plan" where
  "sample_plan = plan dead_records ''jobs.dlq'' (minutes 10) 3 5 2 None"

theorem plan_takes_oldest_witness:
  "\<exists>p vs. sample_plan = Inr p \<and> pn_park p = [''a''] \<and> pn_replay p = [(queue_target ''jobs'', [''c''])] \<and>
     pn_capped p = 1 \<and> pn_waiting p = 1 \<and> pn_no_history p = 1 \<and>
     map (verdict_of ''jobs.dlq'' (minutes 10) 3 5 None) dead_records = map Inr vs"
proof -
  have v: "case sample_plan of Inr p \<Rightarrow> pn_park p = [''a''] \<and> pn_replay p = [(queue_target ''jobs'', [''c''])] \<and>
     pn_capped p = 1 \<and> pn_waiting p = 1 \<and> pn_no_history p = 1 | Inl _ \<Rightarrow> False" by code_simp
  then obtain p where p: "sample_plan = Inr p" by (auto split: sum.splits)
  obtain vs where "map (verdict_of ''jobs.dlq'' (minutes 10) 3 5 None) dead_records = map Inr vs"
    using plan_takes_oldest[OF p[unfolded sample_plan_def]] by blast
  with p v[unfolded p sum.case] show ?thesis by (intro exI[of _ p] exI[of _ vs]) blast
qed

text \<open>
  A policy parks a message only when it died \<open>max_deaths\<close> times or more, and replays one only
  when it died less often, its back-off of \<open>backoff_minutes\<close> doubled per death is over, and the
  target is the queue it last died in, or the configured one.
\<close>

theorem policy_acts_when_due:
  assumes "plan records dlq now max_deaths backoff cap fallback = Inr p"
  shows "(\<forall>fp \<in> set (pn_park p). \<exists>r \<in> set records. mr_fingerprint r = fp \<and>
      (\<exists>n. deaths (mr_x_death r) (mr_headers r) = Inr n \<and> max_deaths \<le> n)) \<and>
    (\<forall>(t, fps) \<in> set (pn_replay p). \<forall>fp \<in> set fps. \<exists>r \<in> set records. mr_fingerprint r = fp \<and>
      due_for dlq now max_deaths backoff fallback r t)"
proof -
  let ?judge = "verdict_of dlq now max_deaths backoff fallback"
  obtain vs where vs: "map ?judge records = map Inr vs"
      and park: "pn_park p = fps_with Park (taken cap 0 (zip records vs))"
      and replay: "\<And>t. map_of (pn_replay p) t = entry_for (fps_with (Replay t) (taken cap 0 (zip records vs)))"
      and dist: "distinct (map fst (pn_replay p))"
    by (rule plan_spec[OF assms]) blast
  have judged: "\<exists>r \<in> set records. mr_fingerprint r = fp \<and> ?judge r = Inr v"
    if fp: "fp \<in> set (fps_with v (taken cap 0 (zip records vs)))" for fp v
  proof -
    obtain r where r: "mr_fingerprint r = fp" "(r, v) \<in> set (zip records vs)"
      using fp by (auto simp: fps_with_def taken_def dest!: in_set_takeD)
    then obtain i where "i < length records" "i < length vs" "records ! i = r" "vs ! i = v"
      by (auto simp: set_zip)
    moreover from this vs have "?judge (records ! i) = Inr (vs ! i)"
      by (metis length_map nth_map)
    ultimately show ?thesis using r(1) by auto
  qed
  show ?thesis
  proof (intro conjI ballI)
    fix fp assume "fp \<in> set (pn_park p)"
    with judged[of fp Park] park obtain r where "r \<in> set records" "mr_fingerprint r = fp" "?judge r = Inr Park" by auto
    then show "\<exists>r \<in> set records. mr_fingerprint r = fp \<and> (\<exists>n. deaths (mr_x_death r) (mr_headers r) = Inr n \<and> max_deaths \<le> n)"
      by (intro bexI[of _ r])
         (auto simp: verdict_of_def or_raise_Inr_iff split: if_splits option.splits prod.splits)
  next
    fix e assume "e \<in> set (pn_replay p)"
    then obtain t fps where e: "e = (t, fps)" "map_of (pn_replay p) t = Some fps"
      using dist by (metis map_of_is_SomeI surj_pair)
    then have fps: "fps = fps_with (Replay t) (taken cap 0 (zip records vs))"
      using replay by (simp add: entry_for_def split: if_splits)
    show "case e of (t, fps) \<Rightarrow> \<forall>fp \<in> set fps. \<exists>r \<in> set records. mr_fingerprint r = fp \<and>
      due_for dlq now max_deaths backoff fallback r t"
      unfolding e(1) prod.case
    proof
      fix fp assume "fp \<in> set fps"
      with judged[of fp "Replay t"] fps obtain r where r: "r \<in> set records" "mr_fingerprint r = fp"
          "?judge r = Inr (Replay t)" by auto
      with replay_verdict show "\<exists>r \<in> set records. mr_fingerprint r = fp \<and>
      due_for dlq now max_deaths backoff fallback r t"
        by blast
    qed
  qed
qed

theorem policy_acts_when_due_witness:
  "\<exists>p. sample_plan = Inr p \<and> ''a'' \<in> set (pn_park p) \<and>
     (\<exists>r \<in> set dead_records. mr_fingerprint r = ''a'' \<and> (\<exists>n. deaths (mr_x_death r) (mr_headers r) = Inr n \<and> 3 \<le> n))"
proof -
  have v: "case sample_plan of Inr p \<Rightarrow> ''a'' \<in> set (pn_park p) | Inl _ \<Rightarrow> False" by code_simp
  then obtain p where p: "sample_plan = Inr p" by (auto split: sum.splits)
  have park: "''a'' \<in> set (pn_park p)" using v[unfolded p] by simp
  with policy_acts_when_due[OF p[unfolded sample_plan_def]] p show ?thesis by blast
qed

lemma emits_resolve_broker: "emits (\<lambda>e. e = EvStart wanted) (resolve_broker manager wanted)"
  unfolding resolve_broker_def by (intro emits_intros emits_perform) simp_all

lemma preview_looks:
  "\<exists>r t. run E cfg manager p True st h = (Inr (r, st), h @ t) \<and>
     list_all (\<lambda>e. looks e \<or> e = EvStart (pl_environment p, pl_vhost p)) t"
proof -
  let ?P = "\<lambda>e. looks e \<or> e = EvStart (pl_environment p, pl_vhost p)"
  define m where "m = bnd (outcome (resolve_broker manager (pl_environment p, pl_vhost p)))
     (\<lambda>m. case m of Inr b \<Rightarrow> run_preview E cfg b p | Inl e \<Rightarrow> unknown_scope E e)"
  have "emits ?P m"
    unfolding m_def run_preview_def unknown_scope_def clock_def
    by (intro emits_intros emits_mono[OF emits_resolve_broker] emits_mono[OF emits_survey]) auto
  moreover obtain r h' where run: "m h = (r, h')" by fastforce
  ultimately obtain t where "h' = h @ t" "list_all ?P t" by (blast dest: emitsD)
  moreover have "run E cfg manager p True st h = (Inr (r, st), h')"
    unfolding run_def if_P[OF TrueI] m_def[symmetric] using run by (simp add: bnd_def ret_def outcome_def)
  ultimately show ?thesis by blast
qed

text \<open>
  A preview of a policy moves nothing: it never publishes, acknowledges, declares, notifies or
  writes an audit row, and leaves the policy table and the approved batches as they were. The
  services of the policy's own scope may be started for it, which can create its vhost.
\<close>

theorem policy_preview_looks_only:
  "\<exists>r t. run E cfg manager p True st h = (Inr (r, st), h @ t) \<and>
     list_all (\<lambda>e. looks e \<or> e = EvStart (pl_environment p, pl_vhost p)) t"
  by (rule preview_looks)

text \<open>
  C17. A policy that keeps failing is paused. In whatever order runs, with listings however stale,
  and changes by people go: the failures counted for a policy are its failed runs in a row since it
  was created or last switched on (a run fails when its environment was removed or some message
  could not be moved), and where they are three or more, the policy is off or the run that counted
  the third is about to pause it (as long as the audit rows of the runs can be written).
\<close>

theorem failing_policy_is_paused:
  assumes "policy_reach rows past due" and "p \<in> set rows"
  shows "pl_failures p = failed_in_a_row (past (pl_id p)) \<and>
    (3 \<le> failed_in_a_row (past (pl_id p)) \<longrightarrow>
       \<not> pl_enabled p \<or> (\<exists>q result n. (q, result, n) \<in># due \<and> pl_id q = pl_id p \<and> 3 \<le> n))"
  using policy_reach_ok[OF assms(1)] assms(2) by (auto simp: policies_ok_def row_ok_def pausing_def)

definition sample_policy :: policy where
  "sample_policy = \<lparr>pl_id = 7, pl_name = ''retry'', pl_queue = ''jobs.dlq'', pl_max_deaths = 3, pl_backoff = 5,
     pl_interval = 10, pl_cap = 100, pl_enabled = True, pl_environment = Some ''gone'', pl_vhost = Some ''/'',
     pl_created_by = ''ann'', pl_last_run = None, pl_last_result = None, pl_failures = 0\<rparr>"

text \<open>Its environment was removed: every run fails.\<close>

definition no_manager :: manager where
  "no_manager = (\<lambda>_ _. Inl (mk_exn KeyErr ''Unknown environment: gone''))"

definition gone_result :: run_result where
  "gone_result = (empty_result (e_lib classic_env) (e_clock classic_env []))\<lparr>rr_errors := [''Unknown environment: gone'']\<rparr>"

lemma gone_run:
  "run_until_finish classic_env sample_settings no_manager sample_policy (Memory []) [] =
     (Inr (Inr (gone_result, True), Memory []), [])"
  by (simp add: run_until_finish_def resolve_broker_def no_manager_def gone_result_def unknown_scope_def mk_exn_def
      str_or_def bnd_def observe_def outcome_def lift_def ret_def clock_def)

definition counted_pass :: "policy list \<Rightarrow> (exn + int) \<times> policy list" where
  "counted_pass rows =
     projr (fst (record_finished classic_env sample_policy gone_result (policy_user sample_policy) True rows []))"

lemma counted_pass_reach:
  assumes "policy_reach rows past due" and "\<not> isl (fst (counted_pass rows))"
  shows "policy_reach (snd (counted_pass rows)) (past(7 := True # past 7))
     (add_mset (sample_policy, gone_result, projr (fst (counted_pass rows))) due)"
proof -
  obtain r h where r: "record_finished classic_env sample_policy gone_result (policy_user sample_policy) True rows [] = (r, h)"
    by fastforce
  then obtain x rows' where x: "r = Inr (x, rows')" by (cases rule: record_finished_cases) auto
  with r assms(2) obtain n where n: "x = Inr n" by (cases x) (auto simp: counted_pass_def)
  from policy_reach.ran[OF assms(1) gone_run r[unfolded x n]] r x n show ?thesis
    by (simp add: counted_pass_def run_failed_def no_manager_def sample_policy_def)
qed

definition passes :: "policy list" where
  "passes = snd (counted_pass (snd (counted_pass (snd (counted_pass [sample_policy])))))"

theorem failing_policy_is_paused_witness:
  "\<exists>past due p rows'. policy_reach passes past due \<and> p \<in> set passes \<and> pl_enabled p \<and> past 7 = [True, True, True] \<and>
     pl_failures p = 3 \<and> (\<exists>q result n. (q, result, n) \<in># due \<and> pl_id q = 7 \<and> 3 \<le> n) \<and>
     (\<exists>past' due'. policy_reach rows' past' due') \<and> map pl_enabled rows' = [False]"
proof -
  let ?a = "snd (counted_pass [sample_policy])"
  let ?b = "snd (counted_pass ?a)"
  have created: "policy_reach [sample_policy] ((\<lambda>_. [])(7 := [])) {#}"
    using policy_reach.created[OF policy_reach.start, of 7 sample_policy]
    by (simp add: policies_create_def sample_policy_def)
  have counts: "map pl_failures passes = [3]" "map pl_enabled passes = [True]" "map pl_id passes = [7]"
    "fst (counted_pass [sample_policy]) = Inr 1" "fst (counted_pass ?a) = Inr 2" "fst (counted_pass ?b) = Inr 3"
    by code_simp+
  note first = counted_pass_reach[OF created, unfolded counts, simplified]
  note second = counted_pass_reach[OF first, unfolded counts, simplified]
  note third = counted_pass_reach[OF second, unfolded counts, simplified, folded passes_def]
  obtain p where passes: "passes = [p]" using counts(1) by auto
  have p: "pl_id p = 7" "pl_enabled p" using counts(2,3)[unfolded passes] by simp_all
  have mem: "p \<in> set passes" by (simp add: passes)
  have "\<exists>past due. policy_reach passes past due \<and> past 7 = [True, True, True]"
    by (intro exI conjI, rule third) simp
  then obtain past due where reach: "policy_reach passes past due" "past 7 = [True, True, True]" by blast
  have three: "pl_failures p = 3 \<and> (\<exists>q result n. (q, result, n) \<in># due \<and> pl_id q = 7 \<and> 3 \<le> n)"
    using failing_policy_is_paused[OF reach(1) mem] p reach(2) by auto
  obtain r h where r: "pause_failing classic_env sample_policy gone_result (policy_user sample_policy) 3 passes [] = (r, h)"
    by fastforce
  define rows' where "rows' = map (\<lambda>q. if pl_id q = pl_id sample_policy then paused_row q else q) passes"
  from pause_failing_rows[OF r] obtain x where x: "r = Inr (x, rows')" by (auto simp: rows'_def)
  have off: "map pl_enabled rows' = [False]"
    by (simp add: rows'_def passes p sample_policy_def paused_row_def)
  have again: "\<exists>past' due'. policy_reach rows' past' due'"
    by (intro exI, rule policy_reach.paused[OF third _ r[unfolded x]]) simp
  show ?thesis
    by (rule exI[of _ past], rule exI[of _ due], rule exI[of _ p], rule exI[of _ rows'])
       (simp only: reach mem p(2) three off again simp_thms)
qed

end
