(* ===== verification/Accounts.thy ===== *)
theory Accounts
  imports Config
begin

text \<open>
  Local accounts and signing in: the account table with its password hashes and the failed-login
  table (\<open>UserRepository\<close>, \<open>LoginFailureRepository\<close> of persistence/store.py), HTTP Basic with its
  limiter and the role gates (app/auth/basic.py), and the user an authenticating proxy vouches for
  (app/auth/proxy.py).

  The tables and the replica's cache of verified passwords are explicit state; times and random
  salts are arguments. Header names are looked up without regard to case, as Starlette does.
\<close>


section \<open>Roles\<close>

text \<open>Roles are text in the code, ordered by their place in \<open>ROLES\<close>; as a type they are a chain.\<close>

datatype role = Viewer | Operator | Admin

fun role_rank :: "role \<Rightarrow> nat" where
  "role_rank Viewer = 0"
| "role_rank Operator = 1"
| "role_rank Admin = 2"

instantiation role :: linorder
begin

definition less_eq_role :: "role \<Rightarrow> role \<Rightarrow> bool" where
  "less_eq_role a b \<longleftrightarrow> role_rank a \<le> role_rank b"

definition less_role :: "role \<Rightarrow> role \<Rightarrow> bool" where
  "less_role a b \<longleftrightarrow> role_rank a < role_rank b"

instance
proof
  fix a b c :: role
  show "a < b \<longleftrightarrow> a \<le> b \<and> \<not> b \<le> a" by (auto simp: less_eq_role_def less_role_def)
  show "a \<le> a" by (simp add: less_eq_role_def)
  show "a \<le> b \<Longrightarrow> b \<le> c \<Longrightarrow> a \<le> c" by (simp add: less_eq_role_def)
  show "a \<le> b \<Longrightarrow> b \<le> a \<Longrightarrow> a = b" by (cases a; cases b) (simp_all add: less_eq_role_def)
  show "a \<le> b \<or> b \<le> a" by (auto simp: less_eq_role_def)
qed

end

fun role_name :: "role \<Rightarrow> string" where
  "role_name Viewer = ''Viewer''"
| "role_name Operator = ''Operator''"
| "role_name Admin = ''Admin''"

definition role_of :: "string \<Rightarrow> role option" where
  "role_of s = (if s = ''Viewer'' then Some Viewer else if s = ''Operator'' then Some Operator
     else if s = ''Admin'' then Some Admin else None)"

text \<open>\<open>ROLES.index\<close>\<close>

definition role_index :: "string \<Rightarrow> exn + nat" where
  "role_index s =
     (case role_of s of Some r \<Rightarrow> Inr (role_rank r) | None \<Rightarrow> Inl (mk_exn ValueErr ''tuple.index(x): x not in tuple''))"

record current_user =
  cu_username :: string
  cu_role :: string
  cu_must_change :: bool

definition is_admin :: "current_user \<Rightarrow> bool" where
  "is_admin u \<longleftrightarrow> cu_role u = ''Admin''"

definition can_operate :: "current_user \<Rightarrow> bool" where
  "can_operate u \<longleftrightarrow> cu_role u \<in> {''Admin'', ''Operator''}"

definition require_operator :: "current_user \<Rightarrow> exn + current_user" where
  "require_operator u =
     (if \<not> can_operate u
      then Inl (http_error 403 (''Viewer accounts are read-only '' @ em_dash @ '' ask an Admin for the Operator role''))
      else Inr u)"

definition require_admin :: "current_user \<Rightarrow> exn + current_user" where
  "require_admin u =
     (if \<not> is_admin u then Inl (http_error 403 ''This action requires the Admin role'') else Inr u)"


section \<open>Passwords\<close>

definition is_ascii :: "string \<Rightarrow> bool" where
  "is_ascii s \<longleftrightarrow> list_all (\<lambda>c. c \<le> CHR 0x7F) s"

text \<open>\<open>hmac.compare_digest\<close> on text: ASCII only.\<close>

definition compare_digest :: "string \<Rightarrow> string \<Rightarrow> exn + bool" where
  "compare_digest a b =
     (if is_ascii a \<and> is_ascii b then Inr (a = b)
      else Inl (mk_exn TypeErr ''comparing strings with non-ASCII characters is not supported''))"

text \<open>\<open>salt or secrets.token_hex(16)\<close>: \<open>fresh\<close> is the random salt.\<close>

definition hash_password :: "pylib \<Rightarrow> string \<Rightarrow> string option \<Rightarrow> string \<Rightarrow> string" where
  "hash_password L fresh salt password =
     (let s = str_or salt fresh in s @ ''$'' @ pbkdf2_hex L password s)"

text \<open>\<open>stored.split("$", 1)\<close>; the stored hashes are ASCII.\<close>

definition salt_of :: "string \<Rightarrow> string option" where
  "salt_of stored =
     (if CHR ''$'' \<in> set stored then Some (takeWhile (\<lambda>c. c \<noteq> CHR ''$'') stored) else None)"

definition verify_password :: "pylib \<Rightarrow> string \<Rightarrow> string \<Rightarrow> string \<Rightarrow> bool" where
  "verify_password L fresh password stored =
     (case salt_of stored of
        None \<Rightarrow> False
      | Some salt \<Rightarrow> hash_password L fresh (Some salt) password = stored)"


section \<open>The account table (UserRepository)\<close>

record user_row =
  us_name :: string
  us_hash :: string
  us_role :: string
  us_email :: "string option"
  us_invited_by :: "string option"
  us_active :: bool
  us_must_change :: bool

definition user_get :: "string \<Rightarrow> user_row list \<Rightarrow> user_row option" where
  "user_get name rows = find (\<lambda>u. us_name u = name) rows"

definition users_list :: "user_row list \<Rightarrow> user_row list" where
  "users_list rows = sort_key us_name rows"

definition new_user :: "string \<Rightarrow> string \<Rightarrow> string \<Rightarrow> string option \<Rightarrow> string option \<Rightarrow> bool \<Rightarrow> user_row" where
  "new_user name hash role email invited_by must_change =
     \<lparr>us_name = name, us_hash = hash, us_role = role, us_email = email, us_invited_by = invited_by,
      us_active = True, us_must_change = must_change\<rparr>"

text \<open>\<open>salts\<close> gives each new account its random salt.\<close>

definition seed_env_users ::
  "pylib \<Rightarrow> (string \<Rightarrow> string) \<Rightarrow> string dict \<Rightarrow> string \<Rightarrow> user_row list \<Rightarrow> user_row list"
where
  "seed_env_users L salts users admin rows =
     fold (\<lambda>(name, password) rows.
       if user_get name rows = None
       then rows @ [new_user name (hash_password L (salts name) None password)
                      (if name = admin then ''Admin'' else ''Operator'') None None False]
       else rows) users rows"

definition users_create ::
  "pylib \<Rightarrow> string \<Rightarrow> string \<Rightarrow> string \<Rightarrow> string \<Rightarrow> string option \<Rightarrow> string \<Rightarrow> bool \<Rightarrow> user_row list \<Rightarrow>
     bool \<times> user_row list"
where
  "users_create L fresh name password role email invited_by must_change rows =
     (if user_get name rows \<noteq> None then (False, rows)
      else (True, rows @ [new_user name (hash_password L fresh None password) role email (Some invited_by) must_change]))"

definition map_user :: "string \<Rightarrow> (user_row \<Rightarrow> user_row) \<Rightarrow> user_row list \<Rightarrow> user_row list" where
  "map_user name f rows = map (\<lambda>u. if us_name u = name then f u else u) rows"

definition users_update :: "string \<Rightarrow> string option \<Rightarrow> bool option \<Rightarrow> user_row list \<Rightarrow> bool \<times> user_row list" where
  "users_update name role active rows =
     (if user_get name rows = None then (False, rows)
      else (True, map_user name (\<lambda>u.
              u\<lparr>us_role := (case role of None \<Rightarrow> us_role u | Some r \<Rightarrow> r),
                us_active := (case active of None \<Rightarrow> us_active u | Some a \<Rightarrow> a)\<rparr>) rows))"

definition users_delete :: "string \<Rightarrow> user_row list \<Rightarrow> bool \<times> user_row list" where
  "users_delete name rows =
     (if user_get name rows = None then (False, rows) else (True, filter (\<lambda>u. us_name u \<noteq> name) rows))"

definition change_password ::
  "pylib \<Rightarrow> string \<Rightarrow> string \<Rightarrow> string \<Rightarrow> string \<Rightarrow> user_row list \<Rightarrow> bool \<times> user_row list"
where
  "change_password L fresh name current new rows =
     (case user_get name rows of
        None \<Rightarrow> (False, rows)
      | Some u \<Rightarrow>
          if \<not> verify_password L fresh current (us_hash u) then (False, rows)
          else (True, map_user name (\<lambda>u. u\<lparr>us_hash := hash_password L fresh None new, us_must_change := False\<rparr>) rows))"

text \<open>A replica's cache: (user, keyed MAC of the password) to (the hash it matched, until when).\<close>

definition VERIFIED_FOR :: int where
  "VERIFIED_FOR = seconds 60"

type_synonym verified_cache = "((string \<times> string) \<times> (string \<times> int)) list"

definition verify ::
  "pylib \<Rightarrow> string \<Rightarrow> string \<Rightarrow> int \<Rightarrow> string \<Rightarrow> string \<Rightarrow> user_row list \<Rightarrow> verified_cache \<Rightarrow> bool \<times> verified_cache"
where
  "verify L cache_key fresh ticks name password rows cache =
     (case user_get name rows of
        None \<Rightarrow> (False, cache)
      | Some u \<Rightarrow>
          if \<not> us_active u then (False, cache)
          else
            let key = (name, hmac_sha256 L cache_key password);
                (verified_hash, until) = (case map_of cache key of None \<Rightarrow> ([], 0) | Some v \<Rightarrow> v)
            in if verified_hash = us_hash u \<and> until > ticks then (True, cache)
               else if verify_password L fresh password (us_hash u)
               then (True, AList.update key (us_hash u, ticks + VERIFIED_FOR) cache)
               else (False, cache))"


section \<open>The limiter (LoginFailureRepository, _check_rate_limit)\<close>

definition MAX_FAILURES :: int where
  "MAX_FAILURES = 10"

definition MAX_IP_FAILURES :: int where
  "MAX_IP_FAILURES = 50"

definition WINDOW :: int where
  "WINDOW = seconds 60"

type_synonym failures = "(string \<times> int) list"

definition failure_count :: "string \<Rightarrow> int \<Rightarrow> failures \<Rightarrow> int" where
  "failure_count key since rows = int (length (filter (\<lambda>(k, t). k = key \<and> t > since) rows))"

definition failures_add :: "string list \<Rightarrow> int \<Rightarrow> int \<Rightarrow> failures \<Rightarrow> failures" where
  "failures_add keys now forget_before rows =
     filter (\<lambda>(_, t). \<not> t < forget_before) (rows @ map (\<lambda>k. (k, now)) keys)"

text \<open>\<open>_keys\<close>: limiter key to its limit.\<close>

definition limiter_keys :: "pylib \<Rightarrow> string \<Rightarrow> string \<Rightarrow> int dict" where
  "limiter_keys L ip username =
     dict_set (sha256_hex L ip) MAX_IP_FAILURES
       [(sha256_hex L (join_with [CHR 0x00] [ip, username]), MAX_FAILURES)]"

definition check_rate_limit :: "pylib \<Rightarrow> int \<Rightarrow> string \<Rightarrow> string \<Rightarrow> failures \<Rightarrow> exn + unit" where
  "check_rate_limit L now ip username rows =
     (if list_ex (\<lambda>(key, limit). failure_count key (now - WINDOW) rows \<ge> limit) (limiter_keys L ip username)
      then Inl (http_error 429 ''Too many failed login attempts; try again in a minute'')
      else Inr ())"

definition record_failure :: "pylib \<Rightarrow> int \<Rightarrow> string \<Rightarrow> string \<Rightarrow> failures \<Rightarrow> failures" where
  "record_failure L now ip username rows =
     failures_add (map fst (limiter_keys L ip username)) now (now - WINDOW) rows"


section \<open>The proxy (proxy.py)\<close>

record request =
  rq_headers :: "string dict"
  rq_client :: "string option"
  rq_peer :: "string option"
  rq_path :: string
  rq_credentials :: "(string \<times> string) option"

definition header :: "request \<Rightarrow> string \<Rightarrow> string option" where
  "header rq name = map_option snd (find (\<lambda>(k, _). lower k = lower name) (rq_headers rq))"

definition trusted :: "pylib \<Rightarrow> string option \<Rightarrow> string list \<Rightarrow> bool" where
  "trusted L host proxies \<longleftrightarrow>
     ip_valid L (str_or host []) \<and> list_ex (\<lambda>net. ip_in L (str_or host []) net) proxies"

definition proxy_roles :: "pylib \<Rightarrow> settings \<Rightarrow> exn + string dict" where
  "proxy_roles L cfg =
     (case json_loads L (s_auth_proxy_roles_json cfg) of
        Some (PDict d) \<Rightarrow> Inr (map (\<lambda>(k, v). (k, py_str L v)) d)
      | _ \<Rightarrow> Inl (mk_exn ValueErr ''must map group names to roles''))"

text \<open>\<open>max(mapped, key=ROLES.index)\<close>: the first of the highest.\<close>

fun highest_role :: "string \<Rightarrow> string list \<Rightarrow> exn + string" where
  "highest_role best [] = or_raise (role_index best) (\<lambda>_. Inr best)"
| "highest_role best (r # rs) =
     or_raise (role_index best) (\<lambda>n. or_raise (role_index r) (\<lambda>m. highest_role (if m > n then r else best) rs))"

definition mapped_roles :: "string dict \<Rightarrow> string \<Rightarrow> string list" where
  "mapped_roles roles groups = List.map_filter (\<lambda>g. dict_get roles (strip g)) (split_on CHR '','' groups)"

definition group_role :: "pylib \<Rightarrow> settings \<Rightarrow> request \<Rightarrow> exn + string" where
  "group_role L cfg rq =
     (let groups = (if s_auth_proxy_groups_header cfg = [] then []
                    else str_or (header rq (s_auth_proxy_groups_header cfg)) [])
      in or_raise (proxy_roles L cfg) (\<lambda>roles.
           case mapped_roles roles groups of
             [] \<Rightarrow> Inr (s_auth_proxy_default_role cfg)
           | r # rs \<Rightarrow> highest_role r rs))"

definition proxy_user ::
  "pylib \<Rightarrow> settings \<Rightarrow> request \<Rightarrow> user_row list \<Rightarrow> exn + (string \<times> string) option"
where
  "proxy_user L cfg rq users =
     (let username = strip (str_or (header rq (s_auth_proxy_header cfg)) [])
      in if username = [] then Inr None
         else if \<not> trusted L (rq_peer rq) (entries (s_trusted_proxies cfg)) then Inr None
         else (case user_get username (users_list users) of
             Some account \<Rightarrow>
               if \<not> us_active account then Inl (http_error 403 ''This account is deactivated'')
               else Inr (Some (username, us_role account))
           | None \<Rightarrow>
               or_raise (group_role L cfg rq) (\<lambda>role.
                 if role = [] then Inl (http_error 403 ''Signed in, but in no group that has a QueueLens role'')
                 else Inr (Some (username, role)))))"

text \<open>\<open>KeepPeer\<close>: what the middleware remembers is the TCP peer, before proxy headers apply.\<close>

definition keep_peer :: "string option \<Rightarrow> request \<Rightarrow> request" where
  "keep_peer tcp_peer rq = rq\<lparr>rq_peer := tcp_peer\<rparr>"


section \<open>Authentication (basic.py)\<close>

definition FIRST_LOGIN_PATHS :: "string list" where
  "FIRST_LOGIN_PATHS = [''/api/me'', ''/api/users/me/password'', ''/app'', ''/'']"

definition unauthorized :: exn where
  "unauthorized = http_error 401 ''Invalid authentication credentials''"

text \<open>Every account of the environment is compared.\<close>

fun env_match :: "string \<Rightarrow> string \<Rightarrow> string dict \<Rightarrow> exn + bool" where
  "env_match username password [] = Inr False"
| "env_match username password ((name, secret) # rest) =
     or_raise (compare_digest username name) (\<lambda>same.
     or_raise (if same then compare_digest password secret else Inr False) (\<lambda>hit.
     or_raise (env_match username password rest) (\<lambda>later. Inr (hit \<or> later))))"

record auth_state =
  au_users :: "user_row list"
  au_failures :: failures
  au_cache :: verified_cache

text \<open>\<open>_client_ip\<close>\<close>

definition client_ip :: "request \<Rightarrow> string" where
  "client_ip rq = (case rq_client rq of None \<Rightarrow> ''unknown'' | Some h \<Rightarrow> h)"

text \<open>The moments an attempt reads the clocks, and its random salt.\<close>

record moment =
  mo_check :: int
  mo_record :: int
  mo_mono :: int
  mo_fresh :: string

definition basic_login ::
  "pylib \<Rightarrow> settings \<Rightarrow> string \<Rightarrow> moment \<Rightarrow> request \<Rightarrow> string \<times> string \<Rightarrow> auth_state \<Rightarrow>
     (exn + current_user) \<times> auth_state"
where
  "basic_login L cfg cache_key m rq creds st =
     (case or_raise (settings_users L cfg) (env_match (fst creds) (snd creds)) of
        Inl e \<Rightarrow> (Inl e, st)
      | Inr matched \<Rightarrow>
          if matched then
            (Inr \<lparr>cu_username = fst creds,
                  cu_role = (if fst creds = s_admin_username cfg then ''Admin'' else ''Operator''),
                  cu_must_change = False\<rparr>, st)
          else (case verify L cache_key (mo_fresh m) (mo_mono m) (fst creds) (snd creds) (au_users st) (au_cache st) of
            (True, cache) \<Rightarrow>
              (let st' = st\<lparr>au_cache := cache\<rparr>;
                   account = user_get (fst creds) (users_list (au_users st));
                   must_change = (case account of None \<Rightarrow> False | Some u \<Rightarrow> us_must_change u)
               in if must_change \<and> rq_path rq \<notin> set FIRST_LOGIN_PATHS
                  then (Inl (http_error 403 ''Change your one-time password first (POST /api/users/me/password)''), st')
                  else (Inr \<lparr>cu_username = fst creds,
                             cu_role = (case account of None \<Rightarrow> ''Operator'' | Some u \<Rightarrow> us_role u),
                             cu_must_change = must_change\<rparr>, st'))
          | (False, cache) \<Rightarrow>
              (Inl unauthorized,
               st\<lparr>au_cache := cache,
                  au_failures := record_failure L (mo_record m) (client_ip rq) (fst creds)
                    (au_failures st)\<rparr>)))"

definition authenticate ::
  "pylib \<Rightarrow> settings \<Rightarrow> string \<Rightarrow> moment \<Rightarrow> request \<Rightarrow> auth_state \<Rightarrow> (exn + current_user) \<times> auth_state"
where
  "authenticate L cfg cache_key m rq st =
     (if \<not> s_auth_enabled cfg
      then (Inr \<lparr>cu_username = ''local'', cu_role = ''Admin'', cu_must_change = False\<rparr>, st)
      else (case (if s_auth_proxy_header cfg = [] then Inr None else proxy_user L cfg rq (au_users st)) of
          Inl e \<Rightarrow> (Inl e, st)
        | Inr (Some (name, role)) \<Rightarrow> (Inr \<lparr>cu_username = name, cu_role = role, cu_must_change = False\<rparr>, st)
        | Inr None \<Rightarrow>
            (let ip = client_ip rq;
                 username = (case rq_credentials rq of None \<Rightarrow> [] | Some (n, _) \<Rightarrow> n)
             in case check_rate_limit L (mo_check m) ip username (au_failures st) of
                  Inl e \<Rightarrow> (Inl e, st)
                | Inr _ \<Rightarrow>
                    (case rq_credentials rq of
                       None \<Rightarrow> (Inl unauthorized, st)
                     | Some creds \<Rightarrow> basic_login L cfg cache_key m rq creds st))))"

end
