(* ===== verification/Account_Properties.thy ===== *)
theory Account_Properties
  imports Accounts
begin

text \<open>
  What signing in guarantees: roles gate as their order says, a forged proxy header changes
  nothing, a remembered password never outlives the account's current one, and no more than ten
  wrong passwords a minute are tried for one user from one address.
\<close>


section \<open>Roles\<close>

lemma role_of_simps [simp]:
  "role_of (role_name r) = Some r"
  by (cases r) (simp_all add: role_of_def)

lemma role_of_SomeD: "role_of s = Some r \<Longrightarrow> s = role_name r"
  by (auto simp: role_of_def split: if_splits)

lemma role_index_Inr: "role_index s = Inr n \<longleftrightarrow> (\<exists>r. s = role_name r \<and> n = role_rank r)"
  by (auto simp: role_index_def split: option.splits dest: role_of_SomeD)

lemma role_order_rank: "(a :: role) \<le> b \<longleftrightarrow> role_rank a \<le> role_rank b"
  by (simp add: less_eq_role_def)

lemma highest_role_max:
  "highest_role best rs = Inr s \<Longrightarrow>
     \<exists>b ros. best = role_name b \<and> rs = map role_name ros \<and> s = role_name (foldl max b ros)"
proof (induction best rs rule: highest_role.induct)
  case (1 best)
  then show ?case by (auto simp: or_raise_Inr_iff role_index_Inr intro!: exI[of _ "[]"])
next
  case (2 best r rs)
  from "2.prems" obtain b c where bc: "best = role_name b" "r = role_name c"
      and rest: "highest_role (if role_rank c > role_rank b then r else best) rs = Inr s"
    by (auto simp: or_raise_Inr_iff role_index_Inr)
  have top: "(if role_rank c > role_rank b then r else best) = role_name (max b c)"
    using bc by (cases b; cases c) (simp_all add: max_def role_order_rank)
  from "2.IH"[of "role_rank b" "role_rank c"] rest bc obtain b' ros where
    "(if role_rank c > role_rank b then r else best) = role_name b'" "rs = map role_name ros"
    "s = role_name (foldl max b' ros)"
    by auto
  moreover from this(1) top have "b' = max b c"
    by (metis role_of_simps option.inject)
  ultimately show ?case
    using bc by (intro exI[of _ b] exI[of _ "c # ros"]) simp
qed

lemma foldl_max_Max: "foldl max (b :: role) rs = Max (set (b # rs))"
proof (induction rs arbitrary: b)
  case Nil
  then show ?case by simp
next
  case (Cons r rs)
  have "foldl max b (r # rs) = Max (insert (max b r) (set rs))" using Cons.IH[of "max b r"] by simp
  also have "\<dots> = Max (insert b (insert r (set rs)))"
    by (cases "rs = []") (simp_all add: max.assoc)
  finally show ?case by simp
qed


section \<open>Remembered passwords\<close>

text \<open>Some check of the password against the stored hash succeeded.\<close>

definition matches :: "pylib \<Rightarrow> string \<Rightarrow> string \<Rightarrow> bool" where
  "matches L password stored \<longleftrightarrow> (\<exists>fresh. verify_password L fresh password stored)"

inductive cache_reach :: "pylib \<Rightarrow> string \<Rightarrow> verified_cache \<Rightarrow> bool" for L key where
  empty: "cache_reach L key []"
| verified: "cache_reach L key cache \<Longrightarrow>
    verify L key fresh ticks name password rows cache = (ok, cache') \<Longrightarrow> cache_reach L key cache'"

definition cache_ok :: "pylib \<Rightarrow> string \<Rightarrow> verified_cache \<Rightarrow> bool" where
  "cache_ok L key cache \<longleftrightarrow>
     (\<forall>name mac stored until. map_of cache (name, mac) = Some (stored, until) \<longrightarrow>
        (\<exists>password. mac = hmac_sha256 L key password \<and> matches L password stored))"

lemma verify_cases:
  assumes "verify L key fresh ticks name password rows cache = (ok, cache')"
  obtains
    (refused) "\<not> ok" "cache' = cache"
  | (remembered) u until where "ok" "cache' = cache" "user_get name rows = Some u" "us_active u"
      "map_of cache (name, hmac_sha256 L key password) = Some (us_hash u, until)" "until > ticks"
  | (early) u where "ok" "cache' = cache" "user_get name rows = Some u" "us_active u" "ticks < 0"
  | (checked) u where "ok" "user_get name rows = Some u" "us_active u" "verify_password L fresh password (us_hash u)"
      "cache' = AList.update (name, hmac_sha256 L key password) (us_hash u, ticks + VERIFIED_FOR) cache"
  using assms
  by (auto simp: verify_def Let_def split: option.splits if_splits prod.splits)

lemma cache_reach_ok: "cache_reach L key cache \<Longrightarrow> cache_ok L key cache"
proof (induction rule: cache_reach.induct)
  case empty
  then show ?case by (simp add: cache_ok_def)
next
  case (verified cache fresh ticks name password rows ok cache')
  from verified.hyps(2) show ?case
  proof (cases rule: verify_cases)
    case (checked u)
    then have "matches L password (us_hash u)" by (auto simp: matches_def)
    with checked(5) verified.IH show ?thesis
      by (auto simp: cache_ok_def AList.update_conv' split: if_splits)
  qed (use verified.IH in simp_all)
qed

lemma verify_current:
  assumes "cache_reach L key cache" "verify L key fresh ticks name password rows cache = (True, cache')" "0 \<le> ticks"
  shows "\<exists>u p. user_get name rows = Some u \<and> us_active u \<and>
    hmac_sha256 L key p = hmac_sha256 L key password \<and> matches L p (us_hash u)"
  using assms(2)
proof (cases rule: verify_cases)
  case (remembered u until)
  with cache_reach_ok[OF assms(1)] obtain p where
    "hmac_sha256 L key password = hmac_sha256 L key p" "matches L p (us_hash u)"
    unfolding cache_ok_def by blast
  with remembered show ?thesis by auto
qed (use assms(3) in \<open>auto simp: matches_def\<close>)


section \<open>The limiter\<close>

text \<open>A log of the wrong passwords: address, user name, time recorded.\<close>

type_synonym tried = "(string \<times> string \<times> int) list"

definition tried_since :: "(string \<times> string \<Rightarrow> bool) \<Rightarrow> int \<Rightarrow> tried \<Rightarrow> nat" where
  "tried_since who t tries = length (filter (\<lambda>(ip, name, s). who (ip, name) \<and> t < s) tries)"

text \<open>Those in the window of a minute that ends at \<open>t\<close>.\<close>

definition tried_within :: "(string \<times> string \<Rightarrow> bool) \<Rightarrow> int \<Rightarrow> tried \<Rightarrow> nat" where
  "tried_within who t tries = length (filter (\<lambda>(ip, name, s). who (ip, name) \<and> t - WINDOW < s \<and> s \<le> t) tries)"

definition wrong_password :: "(exn + current_user) \<Rightarrow> request \<Rightarrow> int \<Rightarrow> tried" where
  "wrong_password r rq t =
     (case rq_credentials rq of
        Some (name, _) \<Rightarrow> if r = Inl unauthorized then [(client_ip rq, name, t)] else []
      | None \<Rightarrow> [])"

text \<open>
  Attempts one after another, the clock never going back; in between, accounts may change and any
  replica may answer (its cache is its own).
\<close>

inductive attempts :: "pylib \<Rightarrow> settings \<Rightarrow> int \<Rightarrow> failures \<Rightarrow> tried \<Rightarrow> bool" for L cfg where
  start: "attempts L cfg t [] []"
| attempt: "attempts L cfg t failures tries \<Longrightarrow> t \<le> mo_check m \<Longrightarrow> mo_check m \<le> mo_record m \<Longrightarrow>
    au_failures st = failures \<Longrightarrow> authenticate L cfg key m rq st = (r, st') \<Longrightarrow>
    attempts L cfg (mo_record m) (au_failures st') (tries @ wrong_password r rq (mo_record m))"

lemma basic_login_failures:
  assumes "basic_login L cfg key m rq creds st = (r, st')"
  shows "if r = Inl unauthorized
         then au_failures st' = record_failure L (mo_record m) (client_ip rq) (fst creds) (au_failures st)
         else au_failures st' = au_failures st"
proof -
  have users: "settings_users L cfg = Inl e \<Longrightarrow> e \<noteq> unauthorized" for e
    by (auto simp: settings_users_def json_object_def unauthorized_def http_error_def mk_exn_def or_raise_def
        split: option.splits pyval.splits sum.splits)
  have match: "env_match a b d = Inl e \<Longrightarrow> e \<noteq> unauthorized" for a b d e
    by (induction a b d arbitrary: e rule: env_match.induct)
       (auto simp: compare_digest_def unauthorized_def http_error_def mk_exn_def or_raise_def
         split: sum.splits if_splits)
  have early: "or_raise (settings_users L cfg) (env_match (fst creds) (snd creds)) = Inl e \<Longrightarrow> e \<noteq> unauthorized" for e
    using users match by (auto simp: or_raise_def split: sum.splits)
  show ?thesis
    using assms early
    by (auto simp: basic_login_def Let_def unauthorized_def http_error_def mk_exn_def
        split: sum.splits prod.splits if_splits bool.splits)
qed

lemma authenticate_failures:
  assumes "authenticate L cfg key m rq st = (r, st')"
  obtains
    (kept) "au_failures st' = au_failures st" "wrong_password r rq t = []"
  | (failed) name pw where "rq_credentials rq = Some (name, pw)" "r = Inl unauthorized"
      "check_rate_limit L (mo_check m) (client_ip rq) name (au_failures st) = Inr ()"
      "au_failures st' = record_failure L (mo_record m) (client_ip rq) name (au_failures st)"
proof -
  have proxy: "proxy_user L cfg rq us = Inl e \<Longrightarrow> e \<noteq> unauthorized" for us e
  proof -
    have "highest_role a rs = Inl e \<Longrightarrow> e \<noteq> unauthorized" for a rs
      by (induction a rs rule: highest_role.induct)
         (auto simp: role_index_def unauthorized_def http_error_def mk_exn_def or_raise_def
           split: sum.splits option.splits if_splits)
    then have "group_role L cfg rq = Inl e \<Longrightarrow> e \<noteq> unauthorized"
      by (auto simp: group_role_def Let_def proxy_roles_def unauthorized_def http_error_def mk_exn_def or_raise_def
          split: sum.splits option.splits pyval.splits list.splits)
    moreover assume "proxy_user L cfg rq us = Inl e"
    ultimately show ?thesis
      by (auto simp: proxy_user_def Let_def unauthorized_def http_error_def mk_exn_def or_raise_def
          split: sum.splits option.splits if_splits)
  qed
  show ?thesis
  proof (cases "\<not> s_auth_enabled cfg \<or>
      (if s_auth_proxy_header cfg = [] then Inr None else proxy_user L cfg rq (au_users st)) \<noteq> Inr None")
    case True
    then have "st' = st" "r \<noteq> Inl unauthorized"
      using assms proxy by (auto simp: authenticate_def split: sum.splits option.splits if_splits)
    then show ?thesis by (intro kept) (auto simp: wrong_password_def split: option.splits)
  next
    case False
    show ?thesis
    proof (cases "rq_credentials rq")
      case None
      then have "st' = st"
        using assms False by (auto simp: authenticate_def Let_def split: sum.splits if_splits)
      with None show ?thesis by (intro kept) (simp_all add: wrong_password_def)
    next
      case (Some creds)
      obtain name pw where creds: "creds = (name, pw)" by (cases creds)
      show ?thesis
      proof (cases "check_rate_limit L (mo_check m) (client_ip rq) name (au_failures st)")
        case (Inl e)
        then have "e \<noteq> unauthorized"
          by (auto simp: check_rate_limit_def unauthorized_def http_error_def mk_exn_def split: if_splits)
        moreover have "st' = st" "r = Inl e"
          using assms False Some creds Inl by (auto simp: authenticate_def Let_def split: if_splits)
        ultimately show ?thesis by (intro kept) (auto simp: wrong_password_def split: option.splits)
      next
        case (Inr x)
        then have "basic_login L cfg key m rq creds st = (r, st')"
          using assms False Some creds by (auto simp: authenticate_def Let_def split: if_splits)
        from basic_login_failures[OF this] show ?thesis
          using Inr Some creds kept failed
          by (cases "r = Inl unauthorized") (auto simp: wrong_password_def)
      qed
    qed
  qed
qed


text \<open>Which attempts a limiter key counts, and its limit; \<open>sha256\<close> has no collisions.\<close>

definition no_collisions :: "pylib \<Rightarrow> bool" where
  "no_collisions L \<longleftrightarrow> (\<forall>a b. sha256_hex L a = sha256_hex L b \<longrightarrow> a = b)"

definition pair_key :: "pylib \<Rightarrow> string \<Rightarrow> string \<Rightarrow> string" where
  "pair_key L ip name = sha256_hex L (join_with [CHR 0x00] [ip, name])"

definition counts_for :: "pylib \<Rightarrow> string \<Rightarrow> (string \<times> string \<Rightarrow> bool) \<Rightarrow> int \<Rightarrow> bool" where
  "counts_for L k who limit \<longleftrightarrow>
     (\<exists>ip name. k = pair_key L ip name \<and> who = (\<lambda>p. p = (ip, name)) \<and> limit = MAX_FAILURES) \<or>
     (\<exists>ip. k = sha256_hex L ip \<and> who = (\<lambda>p. fst p = ip) \<and> limit = MAX_IP_FAILURES)"

lemma limiter_keys_two:
  "no_collisions L \<Longrightarrow>
     limiter_keys L ip name = [(pair_key L ip name, MAX_FAILURES), (sha256_hex L ip, MAX_IP_FAILURES)]"
  by (auto simp: limiter_keys_def no_collisions_def pair_key_def)

lemma failure_count_add:
  assumes "no_collisions L" "counts_for L k who limit" "r - WINDOW \<le> s"
  shows "failure_count k s rows + (if who (ip, name) \<and> s < r then 1 else 0)
    \<le> failure_count k s (record_failure L r ip name rows)"
proof -
  have "failure_count k s (record_failure L r ip name rows) =
      failure_count k s rows + failure_count k s (map (\<lambda>k. (k, r)) (map fst (limiter_keys L ip name)))"
  proof -
    have "filter (\<lambda>(k', t). k' = k \<and> t > s) (filter (\<lambda>(_, t). \<not> t < r - WINDOW) xs) = filter (\<lambda>(k', t). k' = k \<and> t > s) xs"
      for xs :: failures
      using assms(3) by (induction xs) auto
    then show ?thesis by (simp add: failure_count_def record_failure_def failures_add_def del: filter_filter)
  qed
  moreover have "(if who (ip, name) \<and> s < r then 1 else 0) \<le>
      failure_count k s (map (\<lambda>k. (k, r)) (map fst (limiter_keys L ip name)))"
    using assms(1,2) by (auto simp: failure_count_def limiter_keys_two counts_for_def)
  ultimately show ?thesis by linarith
qed

lemma check_rate_limit_below:
  assumes "no_collisions L" "counts_for L k who limit" "who (ip, name)"
    and "check_rate_limit L c ip name rows = Inr ()"
  shows "failure_count k (c - WINDOW) rows < limit"
  using assms by (auto simp: check_rate_limit_def limiter_keys_two counts_for_def split: if_splits)

definition limiter_ok :: "pylib \<Rightarrow> int \<Rightarrow> failures \<Rightarrow> tried \<Rightarrow> bool" where
  "limiter_ok L t failures tries \<longleftrightarrow>
     (\<forall>(_, _, s) \<in> set tries. s \<le> t) \<and>
     (\<forall>k who limit. counts_for L k who limit \<longrightarrow>
        (\<forall>s \<ge> t - WINDOW. int (tried_since who s tries) \<le> failure_count k s failures) \<and>
        (\<forall>u. int (tried_within who u tries) \<le> limit))"

lemma counts_for_limit: "counts_for L k who limit \<Longrightarrow> 1 \<le> limit"
  by (auto simp: counts_for_def MAX_FAILURES_def MAX_IP_FAILURES_def)

lemma tried_since_snoc [simp]:
  "tried_since who s (tries @ [(ip, name, r)]) = tried_since who s tries + (if who (ip, name) \<and> s < r then 1 else 0)"
  by (simp add: tried_since_def)

lemma tried_within_snoc [simp]:
  "tried_within who u (tries @ [(ip, name, r)]) =
     tried_within who u tries + (if who (ip, name) \<and> u - WINDOW < r \<and> r \<le> u then 1 else 0)"
  by (simp add: tried_within_def)

lemma tried_within_since: "s \<le> u - WINDOW \<Longrightarrow> tried_within who u tries \<le> tried_since who s tries"
  unfolding tried_within_def tried_since_def
  by (induction tries) (auto split: if_splits)

lemma limiter_failed:
  assumes nc: "no_collisions L" and ok: "limiter_ok L t rows tries" and times: "t \<le> c" "c \<le> r"
    and passed: "check_rate_limit L c ip name rows = Inr ()"
  shows "limiter_ok L r (record_failure L r ip name rows) (tries @ [(ip, name, r)])"
  unfolding limiter_ok_def
proof (intro conjI allI impI)
  show "\<forall>(_, _, s) \<in> set (tries @ [(ip, name, r)]). s \<le> r"
    using ok times by (fastforce simp: limiter_ok_def)
next
  fix k who limit s assume cf: "counts_for L k who limit" and s: "r - WINDOW \<le> s"
  have "int (tried_since who s tries) \<le> failure_count k s rows"
    using ok cf s times by (simp add: limiter_ok_def)
  with failure_count_add[OF nc cf s, of rows ip name] show
    "int (tried_since who s (tries @ [(ip, name, r)])) \<le> failure_count k s (record_failure L r ip name rows)"
    by (auto split: if_splits)
next
  fix k who limit u assume cf: "counts_for L k who limit"
  have old: "int (tried_within who u tries) \<le> limit" using ok cf by (auto simp: limiter_ok_def)
  show "int (tried_within who u (tries @ [(ip, name, r)])) \<le> limit"
  proof (cases "who (ip, name) \<and> u - WINDOW < r \<and> r \<le> u")
    case True
    have "int (tried_since who (c - WINDOW) tries) \<le> failure_count k (c - WINDOW) rows"
      using ok cf times by (simp add: limiter_ok_def)
    moreover have "tried_within who u tries \<le> tried_since who (c - WINDOW) tries"
      using True times by (intro tried_within_since) simp
    moreover have "failure_count k (c - WINDOW) rows < limit"
      using check_rate_limit_below[OF nc cf _ passed] True by blast
    ultimately show ?thesis using True by simp
  next
    case False
    with old show ?thesis by auto
  qed
qed

lemma attempts_ok: "attempts L cfg t rows tries \<Longrightarrow> no_collisions L \<Longrightarrow> limiter_ok L t rows tries"
proof (induction rule: attempts.induct)
  case (start t)
  then show ?case
    by (auto simp: limiter_ok_def tried_since_def tried_within_def failure_count_def dest: counts_for_limit)
next
  case (attempt t failures tries m st key rq r st')
  have ok: "limiter_ok L t (au_failures st) tries" using attempt by simp
  from attempt.hyps(5) show ?case
  proof (cases rule: authenticate_failures[where t = "mo_record m"])
    case kept
    have "limiter_ok L (mo_record m) (au_failures st) tries"
      using ok attempt.hyps(2,3) unfolding limiter_ok_def by (fastforce intro: order_trans)
    with kept show ?thesis by simp
  next
    case (failed name pw)
    then have "wrong_password r rq (mo_record m) = [(client_ip rq, name, mo_record m)]"
      by (simp add: wrong_password_def)
    with limiter_failed[OF attempt.prems ok attempt.hyps(2,3) failed(3)] failed(4) show ?thesis by simp
  qed
qed


section \<open>Properties\<close>

text \<open>The gates of the routes are the order of the roles.\<close>

lemma gates_follow_roles:
  "require_operator u = Inr v \<longleftrightarrow> v = u \<and> (\<exists>r. role_of (cu_role u) = Some r \<and> Operator \<le> r)"
  "require_admin u = Inr v \<longleftrightarrow> v = u \<and> (\<exists>r. role_of (cu_role u) = Some r \<and> Admin \<le> r)"
  by (auto simp: require_operator_def can_operate_def require_admin_def is_admin_def role_of_def
      role_order_rank)

text \<open>
  C18. A forged proxy header is worth nothing: for a connection whose TCP peer is not a trusted
  proxy, the outcome of authentication does not depend on any header it sends.
\<close>

theorem untrusted_headers_ignored:
  assumes "\<not> trusted L (rq_peer rq) (entries (s_trusted_proxies cfg))"
  shows "authenticate L cfg key m (rq\<lparr>rq_headers := forged\<rparr>) st = authenticate L cfg key m rq st"
proof -
  have "proxy_user L cfg rq' us = Inr None" if "rq_peer rq' = rq_peer rq" for rq' us
    using assms that by (simp add: proxy_user_def Let_def)
  then have proxy: "proxy_user L cfg (rq\<lparr>rq_headers := forged\<rparr>) us = Inr None" "proxy_user L cfg rq us = Inr None" for us
    by simp_all
  have ip: "client_ip (rq\<lparr>rq_headers := forged\<rparr>) = client_ip rq" by (simp add: client_ip_def)
  have path: "rq_path (rq\<lparr>rq_headers := forged\<rparr>) = rq_path rq" by simp
  have "basic_login L cfg key m (rq\<lparr>rq_headers := forged\<rparr>) creds st = basic_login L cfg key m rq creds st" for creds
    unfolding basic_login_def ip path ..
  moreover have "rq_credentials (rq\<lparr>rq_headers := forged\<rparr>) = rq_credentials rq" by simp
  ultimately show ?thesis unfolding authenticate_def proxy ip by (simp only:)
qed

definition sso_settings :: settings where
  "sso_settings = sample_settings\<lparr>s_auth_proxy_header := ''X-Forwarded-User'', s_trusted_proxies := ''10.0.0.1''\<rparr>"

definition login_lib :: pylib where
  "login_lib = sample_lib\<lparr>json_loads := (\<lambda>_. Some (PDict [])), ip_valid := (\<lambda>_. True), ip_in := (\<lambda>a n. a = n)\<rparr>"

definition sample_login :: request where
  "sample_login = \<lparr>rq_headers = [(''x-forwarded-user'', ''root'')], rq_client = Some ''10.9.9.9'', rq_peer = Some ''10.9.9.9'',
     rq_path = ''/api/queues'', rq_credentials = Some (''bob'', ''secret'')\<rparr>"

definition sample_moment :: moment where
  "sample_moment = \<lparr>mo_check = 0, mo_record = 0, mo_mono = 0, mo_fresh = ''f''\<rparr>"

definition bob :: user_row where
  "bob = new_user ''bob'' (hash_password login_lib ''5a17'' None ''secret'') ''Operator'' None None False"

definition one_account :: auth_state where
  "one_account = \<lparr>au_users = [bob], au_failures = [], au_cache = []\<rparr>"

theorem untrusted_headers_ignored_witness:
  "fst (authenticate login_lib sso_settings ''k'' sample_moment (sample_login\<lparr>rq_headers := []\<rparr>) one_account) =
     Inr \<lparr>cu_username = ''bob'', cu_role = ''Operator'', cu_must_change = False\<rparr> \<and>
   fst (authenticate login_lib sso_settings ''k'' sample_moment sample_login one_account) =
     Inr \<lparr>cu_username = ''bob'', cu_role = ''Operator'', cu_must_change = False\<rparr> \<and>
   fst (authenticate login_lib sso_settings ''k'' sample_moment (sample_login\<lparr>rq_peer := Some ''10.0.0.1''\<rparr>) one_account) =
     Inr \<lparr>cu_username = ''root'', cu_role = ''Viewer'', cu_must_change = False\<rparr>"
proof -
  have untrusted: "\<not> trusted login_lib (rq_peer sample_login) (entries (s_trusted_proxies sso_settings))" by code_simp
  have v: "fst (authenticate login_lib sso_settings ''k'' sample_moment sample_login one_account) =
      Inr \<lparr>cu_username = ''bob'', cu_role = ''Operator'', cu_must_change = False\<rparr>"
    "fst (authenticate login_lib sso_settings ''k'' sample_moment (sample_login\<lparr>rq_peer := Some ''10.0.0.1''\<rparr>) one_account) =
      Inr \<lparr>cu_username = ''root'', cu_role = ''Viewer'', cu_must_change = False\<rparr>" by code_simp+
  from untrusted_headers_ignored[OF untrusted, of "''k''" sample_moment "[]" one_account] v show ?thesis by simp
qed

text \<open>
  The role an SSO user gets from its groups is the highest its groups map to.
\<close>

theorem group_role_is_highest:
  assumes "group_role L cfg rq = Inr role" and "proxy_roles L cfg = Inr roles"
    and "mapped_roles roles (if s_auth_proxy_groups_header cfg = [] then []
           else str_or (header rq (s_auth_proxy_groups_header cfg)) []) = mapped" and "mapped \<noteq> []"
  shows "\<exists>rs. mapped = map role_name rs \<and> role_of role = Some (Max (set rs))"
proof -
  obtain m ms where m: "mapped = m # ms" using assms(4) by (cases mapped) auto
  then have "highest_role m ms = Inr role"
    using assms(1-3) by (simp add: group_role_def Let_def)
  from highest_role_max[OF this] obtain b ros where
    "m = role_name b" "ms = map role_name ros" "role = role_name (foldl max b ros)" by blast
  with m show ?thesis by (intro exI[of _ "b # ros"]) (simp add: foldl_max_Max)
qed

definition grouped :: "(exn + string) \<times> (exn + string dict)" where
  "grouped =
     (let L = login_lib\<lparr>json_loads := (\<lambda>_. Some (PDict [(''dev'', PStr ''Operator''), (''ops'', PStr ''Admin''), (''all'', PStr ''Viewer'')]))\<rparr>;
          cfg = sso_settings\<lparr>s_auth_proxy_groups_header := ''X-Groups''\<rparr>;
          rq = sample_login\<lparr>rq_headers := [(''x-groups'', ''all, dev,nobody'')]\<rparr>
      in (group_role L cfg rq, proxy_roles L cfg))"

theorem group_role_is_highest_witness:
  "\<exists>rs. fst grouped = Inr ''Operator'' \<and> [''Viewer'', ''Operator''] = map role_name rs \<and>
     role_of ''Operator'' = Some (Max (set rs))"
proof -
  let ?L = "login_lib\<lparr>json_loads := (\<lambda>_. Some (PDict [(''dev'', PStr ''Operator''), (''ops'', PStr ''Admin''), (''all'', PStr ''Viewer'')]))\<rparr>"
  let ?cfg = "sso_settings\<lparr>s_auth_proxy_groups_header := ''X-Groups''\<rparr>"
  let ?rq = "sample_login\<lparr>rq_headers := [(''x-groups'', ''all, dev,nobody'')]\<rparr>"
  let ?roles = "[(''dev'', ''Operator''), (''ops'', ''Admin''), (''all'', ''Viewer'')]"
  have g: "group_role ?L ?cfg ?rq = Inr ''Operator''" "proxy_roles ?L ?cfg = Inr ?roles"
    "mapped_roles ?roles (if s_auth_proxy_groups_header ?cfg = [] then []
       else str_or (header ?rq (s_auth_proxy_groups_header ?cfg)) []) = [''Viewer'', ''Operator'']" by code_simp+
  have "fst grouped = Inr ''Operator''" by code_simp
  with group_role_is_highest[OF g] show ?thesis by auto
qed

text \<open>
  C19. A sign-in with HTTP Basic is backed by what is stored now: an environment account with this
  password, or a local account that is active at this moment and whose current hash this password
  was checked against. What a replica remembers of earlier checks never keeps an old password or a
  deactivated account alive.
\<close>

theorem login_means_current_password:
  assumes "basic_login L cfg key m rq (name, password) st = (Inr u, st')"
    and "cache_reach L key (au_cache st)" and "0 \<le> mo_mono m"
    and "\<forall>a b. hmac_sha256 L key a = hmac_sha256 L key b \<longrightarrow> a = b"
  shows "cu_username u = name \<and>
    ((\<exists>users. settings_users L cfg = Inr users \<and> (name, password) \<in> set users) \<or>
     (\<exists>row. user_get name (au_users st) = Some row \<and> us_active row \<and> matches L password (us_hash row)))"
proof -
  obtain users hit where env: "settings_users L cfg = Inr users" "env_match name password users = Inr hit"
    using assms(1) by (auto simp: basic_login_def or_raise_def split: sum.splits)
  have member: "env_match name password d = Inr True \<Longrightarrow> (name, password) \<in> set d" for d
    by (induction name password d rule: env_match.induct)
       (auto simp: or_raise_Inr_iff compare_digest_def split: if_splits)
  show ?thesis
  proof (cases hit)
    case True
    with env member assms(1) show ?thesis by (auto simp: basic_login_def)
  next
    case False
    obtain ok cache where v: "verify L key (mo_fresh m) (mo_mono m) name password (au_users st) (au_cache st) = (ok, cache)"
      by fastforce
    note login = assms(1)[unfolded basic_login_def env or_raise_simps sum.case fst_conv snd_conv v prod.case]
    from login False have ok by (cases ok) simp_all
    moreover from login False this have "cu_username u = name"
      by (simp add: Let_def split: if_splits) auto
    moreover note v
    ultimately have "ok" "cu_username u = name"
      "verify L key (mo_fresh m) (mo_mono m) name password (au_users st) (au_cache st) = (True, cache)" by simp_all
    with verify_current[OF assms(2) this(3) assms(3)] assms(4) show ?thesis by blast
  qed
qed

theorem login_means_current_password_witness:
  "\<exists>row. fst (basic_login login_lib sample_settings ''k'' sample_moment sample_login (''bob'', ''secret'') one_account) =
       Inr \<lparr>cu_username = ''bob'', cu_role = ''Operator'', cu_must_change = False\<rparr> \<and>
     user_get ''bob'' (au_users one_account) = Some row \<and> us_active row \<and> matches login_lib ''secret'' (us_hash row)"
proof -
  let ?run = "basic_login login_lib sample_settings ''k'' sample_moment sample_login (''bob'', ''secret'') one_account"
  have v: "fst ?run = Inr \<lparr>cu_username = ''bob'', cu_role = ''Operator'', cu_must_change = False\<rparr>" by code_simp
  then have run: "?run = (Inr \<lparr>cu_username = ''bob'', cu_role = ''Operator'', cu_must_change = False\<rparr>, snd ?run)"
    by (simp add: prod_eq_iff)
  have cache: "cache_reach login_lib ''k'' (au_cache one_account)" by (simp add: one_account_def cache_reach.empty)
  have mono: "0 \<le> mo_mono sample_moment" by (simp add: sample_moment_def)
  have mac: "\<forall>a b. hmac_sha256 login_lib ''k'' a = hmac_sha256 login_lib ''k'' b \<longrightarrow> a = b"
    by (simp add: login_lib_def sample_lib_def)
  have "settings_users login_lib sample_settings = Inr [(''admin'', ''pw'')]" by code_simp
  then have "\<not> (\<exists>users. settings_users login_lib sample_settings = Inr users \<and> (''bob'', ''secret'') \<in> set users)"
    by simp
  with login_means_current_password[OF run cache mono mac] obtain row where
    "user_get ''bob'' (au_users one_account) = Some row" "us_active row" "matches login_lib ''secret'' (us_hash row)"
    by blast
  with v show ?thesis by blast
qed

text \<open>
  C20. However many replicas answer and however accounts change meanwhile, no minute sees more than
  ten wrong passwords for one user from one address, or more than fifty from one address (attempts
  that follow one another, with a clock that does not go back).
\<close>

theorem guessing_is_bounded:
  assumes "attempts L cfg t failures tries" and "no_collisions L"
  shows "tried_within (\<lambda>p. p = (ip, name)) u tries \<le> 10 \<and> tried_within (\<lambda>p. fst p = ip) u tries \<le> 50"
proof -
  have ok: "limiter_ok L t failures tries" using attempts_ok[OF assms] .
  have "counts_for L (pair_key L ip name) (\<lambda>p. p = (ip, name)) 10" "counts_for L (sha256_hex L ip) (\<lambda>p. fst p = ip) 50"
    by (auto simp: counts_for_def MAX_FAILURES_def MAX_IP_FAILURES_def)
  with ok have "int (tried_within (\<lambda>p. p = (ip, name)) u tries) \<le> 10" "int (tried_within (\<lambda>p. fst p = ip) u tries) \<le> 50"
    unfolding limiter_ok_def by blast+
  then show ?thesis by simp
qed

definition wrong_login :: request where
  "wrong_login = sample_login\<lparr>rq_credentials := Some (''bob'', ''guess'')\<rparr>"

definition guess :: "failures \<Rightarrow> (exn + current_user) \<times> auth_state" where
  "guess failures = authenticate login_lib sample_settings ''k'' sample_moment wrong_login (one_account\<lparr>au_failures := failures\<rparr>)"

fun guesses :: "nat \<Rightarrow> failures \<times> tried" where
  "guesses 0 = ([], [])"
| "guesses (Suc n) = (let (failures, tries) = guesses n
     in (au_failures (snd (guess failures)), tries @ wrong_password (fst (guess failures)) wrong_login 0))"

lemma guesses_attempts: "attempts login_lib sample_settings 0 (fst (guesses n)) (snd (guesses n))"
proof (induction n)
  case 0
  then show ?case by (simp add: attempts.start)
next
  case (Suc n)
  obtain failures tries where g: "guesses n = (failures, tries)" by fastforce
  have run: "authenticate login_lib sample_settings ''k'' sample_moment wrong_login (one_account\<lparr>au_failures := failures\<rparr>) =
      (fst (guess failures), snd (guess failures))" by (simp add: guess_def)
  have times: "0 \<le> mo_check sample_moment" "mo_check sample_moment \<le> mo_record sample_moment" "mo_record sample_moment = 0"
    by (simp_all add: sample_moment_def)
  from attempts.attempt[OF Suc times(1,2) _ run] times(3) g show ?case by (simp add: one_account_def)
qed

theorem guessing_is_bounded_witness:
  "length (snd (guesses 12)) = 10 \<and> fst (guess (fst (guesses 12))) = Inl (http_error 429 ''Too many failed login attempts; try again in a minute'') \<and>
   tried_within (\<lambda>p. p = (''10.9.9.9'', ''bob'')) 0 (snd (guesses 12)) \<le> 10"
proof -
  have "no_collisions login_lib" by (simp add: no_collisions_def login_lib_def sample_lib_def)
  moreover have "length (snd (guesses 12)) = 10"
    "fst (guess (fst (guesses 12))) = Inl (http_error 429 ''Too many failed login attempts; try again in a minute'')" by code_simp+
  ultimately show ?thesis using guessing_is_bounded[OF guesses_attempts[of 12]] by blast
qed

end
