(* ===== verification/Environments.thy ===== *)
theory Environments
  imports Policies Accounts
begin

text \<open>
  Environments and vhosts: which brokers there are and which one a request means
  (\<open>EnvironmentManager\<close>, app/application/environments.py, and app/api/scope.py).

  A profile keeps its list of vhosts by reference: \<open>dict(profile)\<close> copies the reference, so that
  profiles can share one list, and \<open>append\<close> changes it for all of them. The lists are in a heap
  (\<open>em_heap\<close>). A bundle is known by its scope, the settings it was built with and whether it was
  started; connecting never raises (connection.py), and what the broker is told is the list of
  vhosts to create. An exception while stored environments are applied leaves the manager as it was,
  where the code keeps the entries before it; only a stored profile that is not an object raises
  there. Operations of the manager follow one another: what \<open>remove_custom\<close> does while a first start
  of the same environment is waiting for the broker is not modelled. The \<open>vhosts\<close> of a configured
  profile are a list; another JSON value is refused in the model.
\<close>


section \<open>Names and addresses\<close>

text \<open>\<open>url.rsplit("/", 1)[0]\<close>, \<open>url.count("/")\<close>, \<open>url.rstrip("/")\<close>.\<close>

definition before_last_slash :: "string \<Rightarrow> string" where
  "before_last_slash url = rev (tl (dropWhile (\<lambda>c. c \<noteq> CHR ''/'') (rev url)))"

definition rstrip_slash :: "string \<Rightarrow> string" where
  "rstrip_slash url = rev (dropWhile (\<lambda>c. c = CHR ''/'') (rev url))"

definition amqp_url_for_vhost :: "pylib \<Rightarrow> string \<Rightarrow> string \<Rightarrow> string" where
  "amqp_url_for_vhost L url vhost =
     (let base = (if length (filter (\<lambda>c. c = CHR ''/'') url) > 2 then before_last_slash url else rstrip_slash url)
      in base @ ''/'' @ (if vhost = ''/'' then [] else quote_all L vhost))"


section \<open>The manager\<close>

record profile =
  pf_fields :: "pyval dict"
  pf_vhosts :: nat

record broker_bundle =
  bd_settings :: settings
  bd_started :: bool

record environments =
  em_base :: settings
  em_heap :: "pyval list list"
  em_profiles :: "profile dict"
  em_custom :: "string list"
  em_bundles :: "(scope \<times> broker_bundle) list"

definition default_key :: "environments \<Rightarrow> scope" where
  "default_key m = (s_environment (em_base m), s_rabbitmq_vhost (em_base m))"

definition vhosts_of :: "environments \<Rightarrow> profile \<Rightarrow> pyval list" where
  "vhosts_of m p = em_heap m ! pf_vhosts p"

text \<open>A new list; and \<open>append\<close>.\<close>

definition new_list :: "pyval list \<Rightarrow> pyval list list \<Rightarrow> nat \<times> pyval list list" where
  "new_list vs heap = (length heap, heap @ [vs])"

definition append_to :: "nat \<Rightarrow> pyval \<Rightarrow> pyval list list \<Rightarrow> pyval list list" where
  "append_to i v heap = heap[i := heap ! i @ [v]]"

definition default_profile :: "settings \<Rightarrow> nat \<Rightarrow> profile" where
  "default_profile s i =
     \<lparr>pf_fields = [(''rabbitmq_url'', PStr (s_rabbitmq_url s)), (''management_url'', PStr (s_management_url s)),
        (''management_username'', PStr (s_management_username s)),
        (''management_password'', PStr (s_management_password s))], pf_vhosts = i\<rparr>"

fun load_extra ::
  "string \<Rightarrow> pyval dict \<Rightarrow> pyval list list \<Rightarrow> profile dict \<Rightarrow> exn + pyval list list \<times> profile dict"
where
  "load_extra dflt [] heap profiles = Inr (heap, profiles)"
| "load_extra dflt ((name, v) # rest) heap profiles =
     or_raise (case dict_get profiles dflt of None \<Rightarrow> Inl (mk_exn KeyErr dflt) | Some p \<Rightarrow> Inr p) (\<lambda>base.
     or_raise (as_dict v) (\<lambda>profile.
       let fields = dict_merge (pf_fields base) (filter (\<lambda>(k, _). k \<noteq> ''vhosts'') profile)
       in case dict_get profile ''vhosts'' of
            None \<Rightarrow> load_extra dflt rest heap (dict_set name (base\<lparr>pf_fields := fields\<rparr>) profiles)
          | Some l \<Rightarrow>
              or_raise (as_list l) (\<lambda>vs.
                case new_list vs heap of
                  (i, heap') \<Rightarrow> load_extra dflt rest heap' (dict_set name \<lparr>pf_fields = fields, pf_vhosts = i\<rparr> profiles))))"

definition load_profiles :: "pylib \<Rightarrow> settings \<Rightarrow> exn + pyval list list \<times> profile dict" where
  "load_profiles L s =
     or_raise (settings_environments L s) (\<lambda>extra.
       load_extra (s_environment s) extra [[PStr (s_rabbitmq_vhost s)]] [(s_environment s, default_profile s 0)])"

definition new_manager :: "pylib \<Rightarrow> settings \<Rightarrow> exn + environments" where
  "new_manager L s =
     or_raise (load_profiles L s) (\<lambda>(heap, profiles).
       Inr \<lparr>em_base = s, em_heap = heap, em_profiles = profiles, em_custom = [], em_bundles = []\<rparr>)"


section \<open>Settings of a scope\<close>

text \<open>\<open>profile[key]\<close>, as text.\<close>

definition profile_text :: "pylib \<Rightarrow> profile \<Rightarrow> string \<Rightarrow> exn + string" where
  "profile_text L p key =
     (case dict_get (pf_fields p) key of None \<Rightarrow> Inl (mk_exn KeyErr key) | Some v \<Rightarrow> Inr (py_str L v))"

definition settings_for :: "pylib \<Rightarrow> environments \<Rightarrow> scope \<Rightarrow> exn + settings" where
  "settings_for L m key =
     (case dict_get (em_profiles m) (fst key) of
        None \<Rightarrow> Inl (mk_exn KeyErr (fst key))
      | Some p \<Rightarrow>
          or_raise (profile_text L p ''rabbitmq_url'') (\<lambda>url.
          or_raise (profile_text L p ''management_url'') (\<lambda>mgmt.
          or_raise (profile_text L p ''management_username'') (\<lambda>user.
          or_raise (profile_text L p ''management_password'') (\<lambda>password.
            Inr ((em_base m)\<lparr>s_environment := fst key, s_rabbitmq_url := amqp_url_for_vhost L url (snd key),
                   s_management_url := mgmt, s_management_username := user, s_management_password := password,
                   s_rabbitmq_vhost := snd key\<rparr>))))))"


section \<open>Stored environments\<close>

definition CUSTOM_FIELDS :: "string list" where
  "CUSTOM_FIELDS = [''rabbitmq_url'', ''management_url'', ''management_username'', ''management_password'']"

definition overrides :: "pyval dict \<Rightarrow> pyval dict" where
  "overrides custom = List.map_filter (\<lambda>k. if truthy (py_get custom k) then Some (k, py_get custom k) else None) CUSTOM_FIELDS"

text \<open>\<open>[str(v) for v in custom.get("vhosts", []) if str(v).strip()]\<close>\<close>

definition custom_vhosts :: "pylib \<Rightarrow> pyval dict \<Rightarrow> exn + pyval list" where
  "custom_vhosts L custom =
     or_raise (as_list (or_default custom ''vhosts'' (PList []))) (\<lambda>vs.
       Inr (map PStr (filter (\<lambda>s. strip s \<noteq> []) (map (py_str L) vs))))"

definition add_missing :: "nat \<Rightarrow> pyval list \<Rightarrow> pyval list list \<Rightarrow> pyval list list" where
  "add_missing i vs heap = fold (\<lambda>v heap. if v \<in> set (heap ! i) then heap else append_to i v heap) vs heap"

definition note_custom :: "string \<Rightarrow> environments \<Rightarrow> environments" where
  "note_custom name m =
     (if name \<noteq> s_environment (em_base m) \<and> name \<notin> set (em_custom m)
      then m\<lparr>em_custom := em_custom m @ [name]\<rparr> else m)"

definition apply_one :: "pylib \<Rightarrow> profile \<Rightarrow> string \<Rightarrow> pyval \<Rightarrow> environments \<Rightarrow> exn + environments" where
  "apply_one L dflt name v m =
     or_raise (if truthy v then as_dict v else Inr []) (\<lambda>custom.
     or_raise (custom_vhosts L custom) (\<lambda>vs.
       Inr (note_custom name
         (case dict_get (em_profiles m) name of
            Some p \<Rightarrow>
              m\<lparr>em_profiles := dict_set name (p\<lparr>pf_fields := dict_merge (pf_fields p) (overrides custom)\<rparr>) (em_profiles m),
                em_heap := add_missing (pf_vhosts p) vs (em_heap m)\<rparr>
          | None \<Rightarrow>
              (case new_list (if vs = [] then [PStr ''/''] else vs) (em_heap m) of
                 (i, heap) \<Rightarrow>
                   m\<lparr>em_profiles := dict_set name
                       \<lparr>pf_fields = dict_merge (pf_fields dflt) (overrides custom), pf_vhosts = i\<rparr> (em_profiles m),
                     em_heap := heap\<rparr>)))))"

text \<open>\<open>default\<close> is the default environment's profile itself: overrides of it apply to the ones after it.\<close>

fun apply_each :: "pylib \<Rightarrow> pyval dict \<Rightarrow> environments \<Rightarrow> exn + environments" where
  "apply_each L [] m = Inr m"
| "apply_each L ((name, v) # rest) m =
     or_raise (case dict_get (em_profiles m) (s_environment (em_base m)) of
                 None \<Rightarrow> Inl (mk_exn KeyErr (s_environment (em_base m))) | Some p \<Rightarrow> Inr p) (\<lambda>dflt.
     or_raise (apply_one L dflt name v m) (apply_each L rest))"

definition apply_custom :: "pylib \<Rightarrow> pyval dict \<Rightarrow> environments \<Rightarrow> exn + environments" where
  "apply_custom L stored m =
     or_raise (case dict_get (em_profiles m) (s_environment (em_base m)) of
                 None \<Rightarrow> Inl (mk_exn KeyErr (s_environment (em_base m))) | Some _ \<Rightarrow> Inr ()) (\<lambda>_.
       apply_each L stored m)"

definition remove_custom :: "string \<Rightarrow> environments \<Rightarrow> exn + environments" where
  "remove_custom name m =
     (if name \<notin> set (em_custom m) then Inl (mk_exn KeyErr (name @ '' is not a removable environment''))
      else Inr (m\<lparr>em_custom := filter (\<lambda>n. n \<noteq> name) (em_custom m),
                  em_profiles := AList.delete name (em_profiles m),
                  em_bundles := filter (\<lambda>(k, _). fst k \<noteq> name) (em_bundles m)\<rparr>))"

fun remove_each :: "string list \<Rightarrow> environments \<Rightarrow> exn + environments" where
  "remove_each [] m = Inr m"
| "remove_each (name # names) m = or_raise (remove_custom name m) (remove_each names)"

definition sync_custom :: "pylib \<Rightarrow> pyval dict \<Rightarrow> environments \<Rightarrow> exn + environments" where
  "sync_custom L stored m =
     or_raise (settings_environments L (em_base m)) (\<lambda>env_vars.
     or_raise (remove_each (filter (\<lambda>n. n \<notin> fst ` set stored \<and> n \<notin> fst ` set env_vars) (em_custom m)) m)
       (apply_custom L stored))"


section \<open>The scope of a request\<close>

definition scope_for :: "pylib \<Rightarrow> environments \<Rightarrow> wanted_scope \<Rightarrow> exn + scope" where
  "scope_for L m wanted =
     (let env = str_or (fst wanted) (fst (default_key m))
      in case dict_get (em_profiles m) env of
           None \<Rightarrow> Inl (mk_exn KeyErr (''Unknown environment: '' @ env))
         | Some p \<Rightarrow>
             or_raise (if str_or (snd wanted) [] \<noteq> [] then Inr (str_or (snd wanted) [])
                       else if env = fst (default_key m) then Inr (snd (default_key m))
                       else (case vhosts_of m p of
                               [] \<Rightarrow> Inl (mk_exn LookupErr ''list index out of range'')
                             | v # _ \<Rightarrow> Inr (py_str L v))) (\<lambda>vhost.
               if PStr vhost \<notin> set (vhosts_of m p)
               then Inl (mk_exn KeyErr (''Unknown vhost '' @ vhost @ '' for environment '' @ env @ '' '' @ em_dash @
                      '' add it first''))
               else Inr (env, vhost)))"

text \<open>\<open>_ensure_bundle\<close>: the bundle, and the vhost it asks the broker to create.\<close>

definition ensure_bundle ::
  "pylib \<Rightarrow> scope \<Rightarrow> environments \<Rightarrow> exn + (broker_bundle \<times> string list) \<times> environments"
where
  "ensure_bundle L key m =
     or_raise (case map_of (em_bundles m) key of
                 Some b \<Rightarrow> Inr b
               | None \<Rightarrow> or_raise (settings_for L m key) (\<lambda>s. Inr \<lparr>bd_settings = s, bd_started = False\<rparr>)) (\<lambda>b.
       Inr ((b\<lparr>bd_started := True\<rparr>, if bd_started b \<or> snd key = ''/'' then [] else [snd key]),
            m\<lparr>em_bundles := AList.update key (b\<lparr>bd_started := True\<rparr>) (em_bundles m)\<rparr>))"

text \<open>\<open>resolve\<close>: the default scope's services are those of the application.\<close>

datatype services = Default_Services | Services broker_bundle

definition resolve ::
  "pylib \<Rightarrow> environments \<Rightarrow> wanted_scope \<Rightarrow> exn + (scope \<times> services \<times> string list) \<times> environments"
where
  "resolve L m wanted =
     or_raise (scope_for L m wanted) (\<lambda>key.
       if key = default_key m then Inr ((key, Default_Services, []), m)
       else (case map_of (em_bundles m) key of
           Some b \<Rightarrow>
             if bd_started b then Inr ((key, Services b, []), m)
             else or_raise (ensure_bundle L key m) (\<lambda>((b', created), m'). Inr ((key, Services b', created), m'))
         | None \<Rightarrow> or_raise (ensure_bundle L key m) (\<lambda>((b', created), m'). Inr ((key, Services b', created), m'))))"

text \<open>\<open>queue_service_for\<close>: reads statistics only, so the bundle is not started.\<close>

definition queue_service_for ::
  "pylib \<Rightarrow> environments \<Rightarrow> wanted_scope \<Rightarrow> exn + (scope \<times> services) \<times> environments"
where
  "queue_service_for L m wanted =
     or_raise (scope_for L m wanted) (\<lambda>key.
       if key = default_key m then Inr ((key, Default_Services), m)
       else (case map_of (em_bundles m) key of
           Some b \<Rightarrow> Inr ((key, Services b), m)
         | None \<Rightarrow>
             or_raise (settings_for L m key) (\<lambda>s.
               let b = \<lparr>bd_settings = s, bd_started = False\<rparr>
               in Inr ((key, Services b), m\<lparr>em_bundles := AList.update key b (em_bundles m)\<rparr>))))"

text \<open>\<open>activate\<close>: resolving, then whether its connection is up (an argument). The bundle stays
  when it is not.\<close>

definition activate ::
  "pylib \<Rightarrow> environments \<Rightarrow> bool \<Rightarrow> wanted_scope \<Rightarrow> (exn + scope) \<times> environments"
where
  "activate L m is_up wanted =
     (case or_raise (scope_for L m wanted) (\<lambda>key.
             or_raise (resolve L m (Some (fst key), Some (snd key))) (\<lambda>(_, m'). Inr (key, m'))) of
        Inl e \<Rightarrow> (Inl e, m)
      | Inr (key, m') \<Rightarrow>
          (if \<not> is_up
           then Inl (mk_exn (Other ''ConnectionError'') (''Could not connect to '' @ fst key @ '' (vhost '' @ snd key @ '') '' @
                  em_dash @ '' check the profile and permissions''))
           else Inr key, m'))"

definition environments_list :: "pylib \<Rightarrow> environments \<Rightarrow> wanted_scope \<Rightarrow> pyval dict list" where
  "environments_list L m wanted =
     (let current = (case scope_for L m wanted of Inr k \<Rightarrow> k | Inl _ \<Rightarrow> default_key m)
      in map (\<lambda>(name, p).
           [(''id'', PStr name), (''api'', py_get (pf_fields p) ''management_url''),
            (''vhosts'', PList (vhosts_of m p)), (''default'', PBool (name = fst (default_key m))),
            (''active'', PBool (name = fst current)),
            (''active_vhost'', if name = fst current then PStr (snd current) else PNone),
            (''removable'', PBool (name \<in> set (em_custom m)))]) (em_profiles m))"

definition all_scopes :: "pylib \<Rightarrow> environments \<Rightarrow> scope list" where
  "all_scopes L m = concat (map (\<lambda>(name, p). map (\<lambda>v. (name, py_str L v)) (vhosts_of m p)) (em_profiles m))"


section \<open>The scope dependency of the routes (scope.py)\<close>

definition requested_scope :: "request \<Rightarrow> wanted_scope" where
  "requested_scope rq = (header rq ''X-QueueLens-Environment'', header rq ''X-QueueLens-Vhost'')"

definition broker_scope ::
  "pylib \<Rightarrow> environments \<Rightarrow> request \<Rightarrow> exn + (scope \<times> services \<times> string list) \<times> environments"
where
  "broker_scope L m rq =
     (case or_raise (scope_for L m (requested_scope rq)) (\<lambda>key. resolve L m (Some (fst key), Some (snd key))) of
        Inl e \<Rightarrow> Inl (if exn_class e = KeyErr then http_error 404 (str_or (exn_text e) []) else e)
      | Inr r \<Rightarrow> Inr r)"

end
