(* ===== verification/Environment_Properties.thy ===== *)
theory Environment_Properties
  imports Environments
begin

text \<open>
  What the environment manager guarantees: a request reaches the broker of the environment and
  vhost it names, at the addresses and with the credentials of that environment's profile (as it was
  when the services were built), and no vhost is created that no Admin added; a replica that synchronises has
  exactly the configured and the stored environments; and changing one environment leaves the
  others alone, unless they share their list of vhosts.
\<close>


section \<open>Invariant\<close>

abbreviation env_names :: "environments \<Rightarrow> string set" where
  "env_names m \<equiv> dom (dict_get (em_profiles m))"

definition env_ok :: "environments \<Rightarrow> bool" where
  "env_ok m \<longleftrightarrow>
     distinct (map fst (em_profiles m)) \<and>
     (\<forall>name p. dict_get (em_profiles m) name = Some p \<longrightarrow> pf_vhosts p < length (em_heap m)) \<and>
     (\<forall>key b. map_of (em_bundles m) key = Some b \<longrightarrow>
        s_environment (bd_settings b) = fst key \<and> s_rabbitmq_vhost (bd_settings b) = snd key)"

lemma dict_get_set_cases:
  "dict_get (dict_set k v d) name = Some p \<Longrightarrow> p = v \<or> dict_get d name = Some p"
  by (auto simp: AList.update_conv' split: if_splits)

lemma load_extra_ok:
  assumes "load_extra dflt extra heap profiles = Inr (heap', profiles')"
    and "distinct (map fst profiles)"
    and "\<forall>name p. dict_get profiles name = Some p \<longrightarrow> pf_vhosts p < length heap"
  shows "distinct (map fst profiles') \<and> dom (dict_get profiles') = dom (dict_get profiles) \<union> fst ` set extra \<and>
    (\<forall>name p. dict_get profiles' name = Some p \<longrightarrow> pf_vhosts p < length heap')"
  using assms
proof (induction dflt extra heap profiles rule: load_extra.induct)
  case (1 dflt heap profiles)
  then show ?case by simp
next
  case (2 dflt name v rest heap profiles)
  from "2.prems"(1) obtain base d where b: "dict_get profiles dflt = Some base" "as_dict v = Inr d"
    by (auto simp: or_raise_Inr_iff split: option.splits)
  define fields where "fields = dict_merge (pf_fields base) (filter (\<lambda>(k, _). k \<noteq> ''vhosts'') d)"
  have keys: "distinct (map fst (dict_set name q profiles))"
      "dom (dict_get (dict_set name q profiles)) = insert name (dom (dict_get profiles))" for q
    using "2.prems"(2) by (auto simp: AList.distinct_update AList.update_conv')
  show ?case
  proof (cases "dict_get d ''vhosts''")
    case None
    have refs: "\<forall>n p. dict_get (dict_set name (base\<lparr>pf_fields := fields\<rparr>) profiles) n = Some p \<longrightarrow> pf_vhosts p < length heap"
      using "2.prems"(3) b(1) by (auto simp: AList.update_conv' split: if_splits)
    have "load_extra dflt rest heap (dict_set name (base\<lparr>pf_fields := fields\<rparr>) profiles) = Inr (heap', profiles')"
      using "2.prems"(1) b None by (simp add: fields_def Let_def)
    from "2.IH"(1)[OF fields_def None this keys(1) refs] keys(2) show ?thesis by simp
  next
    case (Some l)
    then obtain vs where vs: "as_list l = Inr vs"
      using "2.prems"(1) b by (auto simp: Let_def or_raise_Inr_iff)
    define q where "q = \<lparr>pf_fields = fields, pf_vhosts = length heap\<rparr>"
    have refs: "\<forall>n p. dict_get (dict_set name q profiles) n = Some p \<longrightarrow> pf_vhosts p < length (heap @ [vs])"
      using "2.prems"(3) by (auto simp: AList.update_conv' q_def less_SucI split: if_splits)
    have "load_extra dflt rest (heap @ [vs]) (dict_set name q profiles) = Inr (heap', profiles')"
      using "2.prems"(1) b Some vs by (simp add: fields_def q_def Let_def new_list_def)
    moreover have "(length heap, heap @ [vs]) = new_list vs heap" by (simp add: new_list_def)
    note ih = "2.IH"(2)[OF fields_def Some this]
    ultimately show ?thesis using ih keys refs by (simp add: q_def)
  qed
qed

text \<open>The names the environment variables give: the default environment and the configured ones.\<close>

definition base_names :: "pylib \<Rightarrow> settings \<Rightarrow> string set" where
  "base_names L s = insert (s_environment s)
     (case settings_environments L s of Inr d \<Rightarrow> fst ` set d | Inl _ \<Rightarrow> {})"

lemma new_manager_ok:
  assumes "new_manager L s = Inr m"
  shows "env_ok m \<and> em_base m = s \<and> em_custom m = [] \<and> env_names m = base_names L s"
proof -
  obtain extra heap profiles where load: "settings_environments L s = Inr extra"
      "load_extra (s_environment s) extra [[PStr (s_rabbitmq_vhost s)]] [(s_environment s, default_profile s 0)] = Inr (heap, profiles)"
      "m = \<lparr>em_base = s, em_heap = heap, em_profiles = profiles, em_custom = [], em_bundles = []\<rparr>"
    using assms by (auto simp: new_manager_def load_profiles_def or_raise_Inr_iff)
  from load_extra_ok[OF load(2)] show ?thesis
    using load(1,3) by (auto simp: env_ok_def base_names_def default_profile_def)
qed

lemma length_add_missing [simp]: "length (add_missing i vs heap) = length heap"
  unfolding add_missing_def by (induction vs arbitrary: heap) (simp_all add: append_to_def)

lemma note_custom_simps [simp]:
  "em_base (note_custom n m) = em_base m" "em_heap (note_custom n m) = em_heap m"
  "em_profiles (note_custom n m) = em_profiles m" "em_bundles (note_custom n m) = em_bundles m"
  "set (em_custom (note_custom n m)) = set (em_custom m) \<union> (if n = s_environment (em_base m) then {} else {n})"
  by (auto simp: note_custom_def)

lemma apply_one_ok:
  assumes "apply_one L dflt name v m = Inr m'" "env_ok m"
  shows "env_ok m' \<and> em_base m' = em_base m \<and> env_names m' = insert name (env_names m) \<and>
    set (em_custom m') = set (em_custom m) \<union> (if name = s_environment (em_base m) then {} else {name}) \<and>
    em_bundles m' = em_bundles m"
proof (cases "dict_get (em_profiles m) name")
  case (Some p)
  then show ?thesis
    using assms
    by (auto simp: apply_one_def or_raise_Inr_iff env_ok_def AList.distinct_update
        AList.update_conv' simp del: map_of_eq_Some_iff split: if_splits)
next
  case None
  then show ?thesis
    using assms
    by (auto simp: apply_one_def or_raise_Inr_iff env_ok_def AList.distinct_update
        AList.update_conv' new_list_def less_SucI simp del: map_of_eq_Some_iff split: if_splits)
qed

lemma apply_each_ok:
  "apply_each L stored m = Inr m' \<Longrightarrow> env_ok m \<Longrightarrow>
     env_ok m' \<and> em_base m' = em_base m \<and> env_names m' = env_names m \<union> fst ` set stored \<and>
     set (em_custom m') = set (em_custom m) \<union> (fst ` set stored - {s_environment (em_base m)}) \<and>
     em_bundles m' = em_bundles m"
proof (induction L stored m rule: apply_each.induct)
  case (1 L m)
  then show ?case by simp
next
  case (2 L name v rest m)
  from "2.prems"(1) obtain dflt m1 where step: "dict_get (em_profiles m) (s_environment (em_base m)) = Some dflt"
      "apply_one L dflt name v m = Inr m1" "apply_each L rest m1 = Inr m'"
    by (auto simp: or_raise_Inr_iff split: option.splits)
  note one = apply_one_ok[OF step(2) "2.prems"(2)]
  have "apply_each L rest m1 = Inr m' \<Longrightarrow> env_ok m1 \<Longrightarrow>
      env_ok m' \<and> em_base m' = em_base m1 \<and> env_names m' = env_names m1 \<union> fst ` set rest \<and>
      set (em_custom m') = set (em_custom m1) \<union> (fst ` set rest - {s_environment (em_base m1)}) \<and>
      em_bundles m' = em_bundles m1"
    using "2.IH" step(1) by simp
  with step(3) one show ?case by auto
qed

lemma apply_custom_ok:
  "apply_custom L stored m = Inr m' \<Longrightarrow> env_ok m \<Longrightarrow>
     env_ok m' \<and> em_base m' = em_base m \<and> env_names m' = env_names m \<union> fst ` set stored \<and>
     set (em_custom m') = set (em_custom m) \<union> (fst ` set stored - {s_environment (em_base m)}) \<and>
     em_bundles m' = em_bundles m"
  by (auto simp: apply_custom_def or_raise_Inr_iff dest!: apply_each_ok)

lemma remove_custom_ok:
  assumes "remove_custom name m = Inr m'" "env_ok m"
  shows "env_ok m' \<and> em_base m' = em_base m \<and> env_names m' = env_names m - {name} \<and>
    set (em_custom m') = set (em_custom m) - {name} \<and> name \<in> set (em_custom m)"
proof -
  have keep: "map_of (filter (\<lambda>(k, _). fst k \<noteq> name) bs) key = (if fst key = name then None else map_of bs key)"
    for bs :: "(scope \<times> broker_bundle) list" and key
    by (induction bs) auto
  from assms show ?thesis
    by (auto simp: remove_custom_def env_ok_def AList.distinct_delete AList.delete_conv' keep
        simp del: map_of_eq_Some_iff split: if_splits)
qed


lemma remove_each_ok:
  "remove_each names m = Inr m' \<Longrightarrow> env_ok m \<Longrightarrow>
     env_ok m' \<and> em_base m' = em_base m \<and> env_names m' = env_names m - set names \<and>
     set (em_custom m') = set (em_custom m) - set names \<and> set names \<subseteq> set (em_custom m)"
proof (induction names arbitrary: m)
  case (Cons n ns)
  then obtain m1 where m1: "remove_custom n m = Inr m1" "remove_each ns m1 = Inr m'"
    by (auto simp: or_raise_Inr_iff)
  note one = remove_custom_ok[OF m1(1) Cons.prems(2)]
  with Cons.IH[OF m1(2)] show ?case by auto
qed simp

lemma settings_for_scope:
  "settings_for L m key = Inr s \<Longrightarrow> s_environment s = fst key \<and> s_rabbitmq_vhost s = snd key"
  by (auto simp: settings_for_def or_raise_Inr_iff split: option.splits)

lemma env_ok_bundle:
  assumes "env_ok m" "s_environment (bd_settings b) = fst key" "s_rabbitmq_vhost (bd_settings b) = snd key"
  shows "env_ok (m\<lparr>em_bundles := AList.update key b (em_bundles m)\<rparr>)"
  using assms by (auto simp: env_ok_def AList.update_conv')

lemma base_names_default: "s_environment s \<in> base_names L s"
  by (simp add: base_names_def)

lemma ensure_bundle_ok:
  assumes "ensure_bundle L key m = Inr ((b, created), m')" "env_ok m"
  shows "env_ok m' \<and> em_base m' = em_base m \<and> em_profiles m' = em_profiles m \<and> em_custom m' = em_custom m \<and>
    em_heap m' = em_heap m \<and>
    s_environment (bd_settings b) = fst key \<and> s_rabbitmq_vhost (bd_settings b) = snd key \<and>
    set created \<subseteq> {snd key}"
proof -
  have b: "bd_started b" "m' = m\<lparr>em_bundles := AList.update key b (em_bundles m)\<rparr>" "created = [] \<or> created = [snd key]"
      "(\<exists>b0. map_of (em_bundles m) key = Some b0 \<and> bd_settings b = bd_settings b0) \<or>
       settings_for L m key = Inr (bd_settings b)"
    using assms(1) by (auto simp: ensure_bundle_def or_raise_Inr_iff split: option.splits if_splits)
  then have "s_environment (bd_settings b) = fst key \<and> s_rabbitmq_vhost (bd_settings b) = snd key"
    using assms(2) settings_for_scope unfolding env_ok_def by metis
  with b env_ok_bundle[OF assms(2), of b key] show ?thesis by auto
qed

lemma scope_for_Inr:
  assumes "scope_for L m wanted = Inr key"
  obtains p where "dict_get (em_profiles m) (fst key) = Some p" "PStr (snd key) \<in> set (vhosts_of m p)"
    "fst key = str_or (fst wanted) (fst (default_key m))"
    "str_or (snd wanted) [] \<noteq> [] \<longrightarrow> snd key = str_or (snd wanted) []"
  using assms
  by (auto simp: scope_for_def Let_def or_raise_Inr_iff split: option.splits if_splits list.splits)

lemma resolve_ok:
  assumes "resolve L m wanted = Inr ((key, services, created), m')" "env_ok m"
  shows "scope_for L m wanted = Inr key \<and> env_ok m' \<and> em_base m' = em_base m \<and> em_profiles m' = em_profiles m \<and>
    em_custom m' = em_custom m \<and> em_heap m' = em_heap m \<and> set created \<subseteq> {snd key} \<and>
    (case services of Default_Services \<Rightarrow> key = default_key m
     | Services b \<Rightarrow> key \<noteq> default_key m \<and> s_environment (bd_settings b) = fst key \<and>
         s_rabbitmq_vhost (bd_settings b) = snd key)"
proof -
  obtain k where k: "scope_for L m wanted = Inr k" using assms(1) by (auto simp: resolve_def or_raise_Inr_iff)
  show ?thesis
  proof (cases "k = default_key m")
    case True
    with assms k show ?thesis by (auto simp: resolve_def)
  next
    case other: False
    show ?thesis
    proof (cases "\<exists>b. map_of (em_bundles m) k = Some b \<and> bd_started b")
      case True
      then obtain b where b: "map_of (em_bundles m) k = Some b" "bd_started b" by blast
      with assms(1) k other have "key = k" "services = Services b" "created = []" "m' = m"
        by (simp_all add: resolve_def)
      moreover have "s_environment (bd_settings b) = fst k" "s_rabbitmq_vhost (bd_settings b) = snd k"
        using assms(2) b(1) unfolding env_ok_def by blast+
      ultimately show ?thesis using k other assms(2) by simp
    next
      case False
      then have "or_raise (ensure_bundle L k m) (\<lambda>((b', created), m'). Inr ((k, Services b', created), m')) =
          Inr ((key, services, created), m')"
        using assms(1) k other by (auto simp: resolve_def split: option.splits if_splits)
      then obtain b where b: "ensure_bundle L k m = Inr ((b, created), m')" "services = Services b" "key = k"
        by (auto simp: or_raise_Inr_iff)
      with ensure_bundle_ok[OF b(1) assms(2)] k other show ?thesis by simp
    qed
  qed
qed

lemma queue_service_for_ok:
  assumes "queue_service_for L m wanted = Inr (r, m')" "env_ok m"
  shows "env_ok m' \<and> em_base m' = em_base m \<and> em_profiles m' = em_profiles m \<and> em_custom m' = em_custom m"
proof -
  obtain key where key: "scope_for L m wanted = Inr key"
    using assms(1) by (auto simp: queue_service_for_def or_raise_Inr_iff)
  show ?thesis
  proof (cases "key = default_key m \<or> map_of (em_bundles m) key \<noteq> None")
    case True
    with assms(1) key have "m' = m" by (auto simp: queue_service_for_def split: if_splits)
    with assms(2) show ?thesis by simp
  next
    case False
    then obtain x where x: "settings_for L m key = Inr x"
        "m' = m\<lparr>em_bundles := AList.update key \<lparr>bd_settings = x, bd_started = False\<rparr> (em_bundles m)\<rparr>"
      using assms(1) key by (auto simp: queue_service_for_def or_raise_Inr_iff Let_def)
    from settings_for_scope[OF x(1)] env_ok_bundle[OF assms(2)] x(2) show ?thesis by simp
  qed
qed


section \<open>Histories of a manager\<close>

text \<open>Everything the application does with its manager, on one replica.\<close>

inductive env_reach :: "pylib \<Rightarrow> settings \<Rightarrow> environments \<Rightarrow> bool" for L s where
  built: "new_manager L s = Inr m \<Longrightarrow> env_reach L s m"
| applied: "env_reach L s m \<Longrightarrow> apply_custom L stored m = Inr m' \<Longrightarrow> env_reach L s m'"
| removed: "env_reach L s m \<Longrightarrow> remove_custom name m = Inr m' \<Longrightarrow> env_reach L s m'"
| synced: "env_reach L s m \<Longrightarrow> sync_custom L stored m = Inr m' \<Longrightarrow> env_reach L s m'"
| resolved: "env_reach L s m \<Longrightarrow> resolve L m wanted = Inr (r, m') \<Longrightarrow> env_reach L s m'"
| counted: "env_reach L s m \<Longrightarrow> queue_service_for L m wanted = Inr (r, m') \<Longrightarrow> env_reach L s m'"

lemma sync_custom_steps:
  assumes "sync_custom L stored m = Inr m'"
  obtains extra m1 where "settings_environments L (em_base m) = Inr extra"
    "remove_each (filter (\<lambda>n. n \<notin> fst ` set stored \<and> n \<notin> fst ` set extra) (em_custom m)) m = Inr m1"
    "apply_custom L stored m1 = Inr m'"
  using assms by (auto simp: sync_custom_def or_raise_Inr_iff)

lemma env_reach_ok: "env_reach L s m \<Longrightarrow> env_ok m \<and> em_base m = s"
proof (induction rule: env_reach.induct)
  case (built m)
  then show ?case using new_manager_ok by blast
next
  case (synced m stored m')
  from synced.hyps(2) obtain extra m1 where "settings_environments L (em_base m) = Inr extra"
    "remove_each (filter (\<lambda>n. n \<notin> fst ` set stored \<and> n \<notin> fst ` set extra) (em_custom m)) m = Inr m1"
    "apply_custom L stored m1 = Inr m'" by (rule sync_custom_steps)
  with synced.IH show ?case by (auto dest!: remove_each_ok apply_custom_ok)
next
  case (resolved m wanted r m')
  then show ?case by (cases r) (auto dest!: resolve_ok)
qed (auto dest: apply_custom_ok remove_custom_ok queue_service_for_ok)

text \<open>
  The settings of an environment's fields and a vhost: the Management API's address and credentials
  are the profile's, and the AMQP address is the profile's with the vhost as its path (no path for
  the default vhost \<open>/\<close>); everything else is the server's own.
\<close>

definition server_of :: "string \<Rightarrow> string \<Rightarrow> bool" where
  "server_of url base \<longleftrightarrow>
     (if length (filter (\<lambda>c. c = CHR ''/'') url) \<le> 2
      then (\<exists>n. url = base @ replicate n (CHR ''/'')) \<and> (base = [] \<or> last base \<noteq> CHR ''/'')
      else (\<exists>path. url = base @ CHR ''/'' # path \<and> CHR ''/'' \<notin> set path))"

definition of_scope :: "pylib \<Rightarrow> settings \<Rightarrow> pyval dict \<Rightarrow> scope \<Rightarrow> settings \<Rightarrow> bool" where
  "of_scope L s given key x \<longleftrightarrow>
     (\<exists>url base api user password.
        dict_get given ''rabbitmq_url'' = Some url \<and> dict_get given ''management_url'' = Some api \<and>
        dict_get given ''management_username'' = Some user \<and> dict_get given ''management_password'' = Some password \<and>
        server_of (py_str L url) base \<and>
        x = s\<lparr>s_environment := fst key, s_rabbitmq_vhost := snd key,
              s_rabbitmq_url := base @ ''/'' @ (if snd key = ''/'' then [] else quote_all L (snd key)),
              s_management_url := py_str L api, s_management_username := py_str L user,
              s_management_password := py_str L password\<rparr>)"

lemma rev_dropWhile_split: "\<exists>t. xs = rev (dropWhile P (rev xs)) @ t \<and> (\<forall>x \<in> set t. P x)"
proof -
  have "xs = rev (dropWhile P (rev xs)) @ rev (takeWhile P (rev xs))"
    by (metis rev_append rev_rev_ident takeWhile_dropWhile_id)
  moreover have "\<forall>x \<in> set (rev (takeWhile P (rev xs))). P x" by (auto dest: set_takeWhileD)
  ultimately show ?thesis by blast
qed

lemma amqp_url_of_server:
  "\<exists>base. server_of url base \<and>
     amqp_url_for_vhost L url vhost = base @ ''/'' @ (if vhost = ''/'' then [] else quote_all L vhost)"
proof (cases "length (filter (\<lambda>c. c = CHR ''/'') url) \<le> 2")
  case True
  let ?base = "rev (dropWhile (\<lambda>c. c = CHR ''/'') (rev url))"
  obtain t where t: "url = ?base @ t" "\<forall>x \<in> set t. x = CHR ''/''"
    using rev_dropWhile_split[of url "\<lambda>c. c = CHR ''/''"] by blast
  have "replicate (length t) (CHR ''/'') = t" using t(2) by (intro replicate_length_same) blast
  with t(1) have "\<exists>n. url = ?base @ replicate n (CHR ''/'')" by (intro exI[of _ "length t"]) argo
  moreover have "?base = [] \<or> last ?base \<noteq> CHR ''/''"
    using hd_dropWhile[of "\<lambda>c. c = CHR ''/''" "rev url"] by (simp only: last_rev rev_is_Nil_conv) blast
  ultimately have "server_of url ?base" unfolding server_of_def if_P[OF True] by (intro conjI)
  with True show ?thesis by (intro exI[of _ ?base]) (simp add: amqp_url_for_vhost_def rstrip_slash_def Let_def)
next
  case False
  let ?rest = "dropWhile (\<lambda>c. c \<noteq> CHR ''/'') (rev url)"
  have "filter (\<lambda>c. c = CHR ''/'') url \<noteq> []" using False by auto
  then have "CHR ''/'' \<in> set url" by (auto simp: filter_empty_conv)
  then have "?rest \<noteq> []" by (auto simp: dropWhile_eq_Nil_conv)
  then have hd: "?rest = CHR ''/'' # tl ?rest" using hd_dropWhile[of "\<lambda>c. c \<noteq> CHR ''/''" "rev url"] by (cases ?rest) simp_all
  obtain t where t: "url = rev ?rest @ t" "\<forall>x \<in> set t. x \<noteq> CHR ''/''"
    using rev_dropWhile_split[of url "\<lambda>c. c \<noteq> CHR ''/''"] by blast
  have "rev ?rest = rev (tl ?rest) @ [CHR ''/'']" using hd by (metis rev.simps(2))
  then have "url = rev (tl ?rest) @ CHR ''/'' # t" using t(1) by simp
  then have "server_of url (before_last_slash url)"
    using False t(2) unfolding server_of_def before_last_slash_def by auto
  with False show ?thesis by (intro exI[of _ "before_last_slash url"]) (simp add: amqp_url_for_vhost_def Let_def)
qed

lemma settings_for_of_scope:
  assumes "settings_for L m key = Inr x"
  shows "\<exists>p. dict_get (em_profiles m) (fst key) = Some p \<and> of_scope L (em_base m) (pf_fields p) key x"
proof -
  obtain p url api user password where
    p: "dict_get (em_profiles m) (fst key) = Some p" "dict_get (pf_fields p) ''rabbitmq_url'' = Some url"
      "dict_get (pf_fields p) ''management_url'' = Some api" "dict_get (pf_fields p) ''management_username'' = Some user"
      "dict_get (pf_fields p) ''management_password'' = Some password"
    and x: "x = (em_base m)\<lparr>s_environment := fst key, s_rabbitmq_url := amqp_url_for_vhost L (py_str L url) (snd key),
        s_management_url := py_str L api, s_management_username := py_str L user, s_management_password := py_str L password,
        s_rabbitmq_vhost := snd key\<rparr>"
    using assms
    by (auto simp: settings_for_def profile_text_def or_raise_Inr_iff simp del: map_of_eq_Some_iff split: option.splits)
  obtain base where "server_of (py_str L url) base"
    "amqp_url_for_vhost L (py_str L url) (snd key) = base @ ''/'' @ (if snd key = ''/'' then [] else quote_all L (snd key))"
    using amqp_url_of_server by blast
  with p x show ?thesis unfolding of_scope_def by fastforce
qed

text \<open>
  The same histories, with what the fields of each environment's profile have been since it was
  added: removing an environment forgets them.
\<close>

definition noted :: "environments \<Rightarrow> (string \<Rightarrow> pyval dict set) \<Rightarrow> string \<Rightarrow> pyval dict set" where
  "noted m seen name = (case dict_get (em_profiles m) name of None \<Rightarrow> {} | Some p \<Rightarrow> insert (pf_fields p) (seen name))"

inductive scope_history :: "pylib \<Rightarrow> settings \<Rightarrow> environments \<Rightarrow> (string \<Rightarrow> pyval dict set) \<Rightarrow> bool" for L s where
  built: "new_manager L s = Inr m \<Longrightarrow> scope_history L s m (noted m (\<lambda>_. {}))"
| applied: "scope_history L s m seen \<Longrightarrow> apply_custom L stored m = Inr m' \<Longrightarrow> scope_history L s m' (noted m' seen)"
| removed: "scope_history L s m seen \<Longrightarrow> remove_custom name m = Inr m' \<Longrightarrow> scope_history L s m' (noted m' seen)"
| synced: "scope_history L s m seen \<Longrightarrow> sync_custom L stored m = Inr m' \<Longrightarrow> scope_history L s m' (noted m' seen)"
| resolved: "scope_history L s m seen \<Longrightarrow> resolve L m wanted = Inr (r, m') \<Longrightarrow> scope_history L s m' (noted m' seen)"
| counted: "scope_history L s m seen \<Longrightarrow> queue_service_for L m wanted = Inr (r, m') \<Longrightarrow> scope_history L s m' (noted m' seen)"

lemma scope_history_reach: "scope_history L s m seen \<Longrightarrow> env_reach L s m"
  by (induction rule: scope_history.induct) (auto intro: env_reach.intros)

text \<open>Every bundle was built from the fields its environment has or had since it was added.\<close>

definition bundles_ok :: "pylib \<Rightarrow> settings \<Rightarrow> environments \<Rightarrow> (string \<Rightarrow> pyval dict set) \<Rightarrow> bool" where
  "bundles_ok L s m seen \<longleftrightarrow> (\<forall>key b. map_of (em_bundles m) key = Some b \<longrightarrow>
     fst key \<in> env_names m \<and> (\<exists>given \<in> seen (fst key). of_scope L s given key (bd_settings b)))"

lemma bundles_ok_step:
  assumes ok: "bundles_ok L s m seen"
    and step: "\<And>key b. map_of (em_bundles m') key = Some b \<Longrightarrow> fst key \<in> env_names m' \<and>
      ((\<exists>b0. map_of (em_bundles m) key = Some b0 \<and> bd_settings b0 = bd_settings b) \<or>
       (\<exists>p. dict_get (em_profiles m') (fst key) = Some p \<and> of_scope L s (pf_fields p) key (bd_settings b)))"
  shows "bundles_ok L s m' (noted m' seen)"
  unfolding bundles_ok_def
proof (intro allI impI)
  fix key b assume "map_of (em_bundles m') key = Some b"
  from step[OF this] ok show "fst key \<in> env_names m' \<and> (\<exists>given \<in> noted m' seen (fst key). of_scope L s given key (bd_settings b))"
    unfolding bundles_ok_def noted_def by fastforce
qed

lemma bundles_ok_fewer:
  assumes ok: "bundles_ok L s m seen"
    and step: "\<And>key b. map_of (em_bundles m') key = Some b \<Longrightarrow> fst key \<in> env_names m \<Longrightarrow>
      map_of (em_bundles m) key = Some b \<and> fst key \<in> env_names m'"
    and known: "\<And>key b. map_of (em_bundles m') key = Some b \<Longrightarrow> map_of (em_bundles m) key = Some b"
  shows "bundles_ok L s m' (noted m' seen)"
proof (rule bundles_ok_step[OF ok])
  fix key b assume b: "map_of (em_bundles m') key = Some b"
  from known[OF b] ok have "fst key \<in> env_names m" unfolding bundles_ok_def by blast
  from step[OF b this] show "fst key \<in> env_names m' \<and>
      ((\<exists>b0. map_of (em_bundles m) key = Some b0 \<and> bd_settings b0 = bd_settings b) \<or>
       (\<exists>p. dict_get (em_profiles m') (fst key) = Some p \<and> of_scope L s (pf_fields p) key (bd_settings b)))" by blast
qed

lemma remove_custom_bundles:
  "remove_custom name m = Inr m' \<Longrightarrow> map_of (em_bundles m') key = (if fst key = name then None else map_of (em_bundles m) key)"
proof -
  have "map_of (filter (\<lambda>(k, _). fst k \<noteq> name) bs) key = (if fst key = name then None else map_of bs key)"
    for bs :: "(scope \<times> broker_bundle) list"
    by (induction bs) auto
  then show "remove_custom name m = Inr m' \<Longrightarrow> ?thesis" by (auto simp: remove_custom_def split: if_splits)
qed

lemma remove_each_bundles:
  "remove_each names m = Inr m' \<Longrightarrow> map_of (em_bundles m') key = (if fst key \<in> set names then None else map_of (em_bundles m) key)"
proof (induction names arbitrary: m)
  case (Cons n ns)
  then obtain m1 where m1: "remove_custom n m = Inr m1" "remove_each ns m1 = Inr m'" by (auto simp: or_raise_Inr_iff)
  from Cons.IH[OF m1(2)] remove_custom_bundles[OF m1(1)] show ?case by auto
qed simp

lemma ensure_bundle_bundles:
  assumes "ensure_bundle L key m = Inr ((b, created), m')"
  shows "em_bundles m' = AList.update key b (em_bundles m)"
    "(\<exists>b0. map_of (em_bundles m) key = Some b0 \<and> bd_settings b0 = bd_settings b) \<or>
     map_of (em_bundles m) key = None \<and> settings_for L m key = Inr (bd_settings b)"
  using assms by (auto simp: ensure_bundle_def or_raise_Inr_iff split: option.splits)

lemma resolve_bundles:
  assumes "resolve L m wanted = Inr ((key, services, created), m')"
  shows "map_of (em_bundles m') k = Some b \<Longrightarrow>
      (\<exists>b0. map_of (em_bundles m) k = Some b0 \<and> bd_settings b0 = bd_settings b) \<or>
      map_of (em_bundles m) k = None \<and> settings_for L m k = Inr (bd_settings b)"
    and "services = Services b \<Longrightarrow> map_of (em_bundles m') key = Some b"
proof -
  consider "m' = m" "\<And>b. services = Services b \<Longrightarrow> map_of (em_bundles m) key = Some b"
    | b where "ensure_bundle L key m = Inr ((b, created), m')" "services = Services b"
    using assms by (auto simp: resolve_def or_raise_Inr_iff split: if_splits option.splits)
  note cases = this
  show "(\<exists>b0. map_of (em_bundles m) k = Some b0 \<and> bd_settings b0 = bd_settings b) \<or>
      map_of (em_bundles m) k = None \<and> settings_for L m k = Inr (bd_settings b)"
    if k: "map_of (em_bundles m') k = Some b"
  proof (cases rule: cases)
    case 1
    with k show ?thesis by auto
  next
    case (2 c)
    note e = ensure_bundle_bundles[OF 2(1)]
    show ?thesis
    proof (cases "k = key")
      case True
      with k e(1) have "c = b" by (simp add: AList.update_conv')
      with e(2) True show ?thesis by auto
    next
      case False
      with k e(1) show ?thesis by (simp add: AList.update_conv')
    qed
  qed
  show "services = Services b \<Longrightarrow> map_of (em_bundles m') key = Some b"
    by (cases rule: cases) (auto simp: AList.update_conv' dest!: ensure_bundle_bundles(1))
qed

lemma queue_service_for_bundles:
  assumes "queue_service_for L m wanted = Inr (r, m')" "map_of (em_bundles m') k = Some b"
  shows "(\<exists>b0. map_of (em_bundles m) k = Some b0 \<and> bd_settings b0 = bd_settings b) \<or>
    map_of (em_bundles m) k = None \<and> settings_for L m k = Inr (bd_settings b)"
  using assms
  by (auto simp: queue_service_for_def or_raise_Inr_iff Let_def AList.update_conv' split: if_splits option.splits)

lemma bundles_ok_new:
  assumes ok: "bundles_ok L s m seen" and base: "em_base m = s" and profiles: "em_profiles m' = em_profiles m"
    and new: "\<And>k b. map_of (em_bundles m') k = Some b \<Longrightarrow>
      (\<exists>b0. map_of (em_bundles m) k = Some b0 \<and> bd_settings b0 = bd_settings b) \<or>
      map_of (em_bundles m) k = None \<and> settings_for L m k = Inr (bd_settings b)"
  shows "bundles_ok L s m' (noted m' seen)"
proof (rule bundles_ok_step[OF ok])
  fix key b assume "map_of (em_bundles m') key = Some b"
  from new[OF this] show "fst key \<in> env_names m' \<and>
      ((\<exists>b0. map_of (em_bundles m) key = Some b0 \<and> bd_settings b0 = bd_settings b) \<or>
       (\<exists>p. dict_get (em_profiles m') (fst key) = Some p \<and> of_scope L s (pf_fields p) key (bd_settings b)))"
  proof
    assume "\<exists>b0. map_of (em_bundles m) key = Some b0 \<and> bd_settings b0 = bd_settings b"
    with ok profiles show ?thesis unfolding bundles_ok_def by metis
  next
    assume "map_of (em_bundles m) key = None \<and> settings_for L m key = Inr (bd_settings b)"
    with settings_for_of_scope[of L m key "bd_settings b"] base profiles show ?thesis by auto
  qed
qed

lemma scope_history_ok: "scope_history L s m seen \<Longrightarrow> bundles_ok L s m seen"
proof (induction rule: scope_history.induct)
  case (built m)
  then show ?case by (auto simp: bundles_ok_def new_manager_def or_raise_Inr_iff)
next
  case (applied m seen stored m')
  have "env_ok m" using scope_history_reach[OF applied.hyps(1)] env_reach_ok by blast
  note one = apply_custom_ok[OF applied.hyps(2) this]
  then have names: "env_names m' = env_names m \<union> fst ` set stored" and same: "em_bundles m' = em_bundles m" by simp_all
  show ?case by (rule bundles_ok_fewer[OF applied.IH]) (simp_all only: names same UnI1 simp_thms)
next
  case (removed m seen name m')
  have "env_ok m" using scope_history_reach[OF removed.hyps(1)] env_reach_ok by blast
  from remove_custom_ok[OF removed.hyps(2) this] have names: "env_names m' = env_names m - {name}" by simp
  note gone = remove_custom_bundles[OF removed.hyps(2)]
  show ?case
    by (rule bundles_ok_fewer[OF removed.IH]) (auto simp only: names gone split: if_splits)
next
  case (synced m seen stored m')
  have ok: "env_ok m" using scope_history_reach[OF synced.hyps(1)] env_reach_ok by blast
  from synced.hyps(2) obtain extra m1 where step: "settings_environments L (em_base m) = Inr extra"
    "remove_each (filter (\<lambda>n. n \<notin> fst ` set stored \<and> n \<notin> fst ` set extra) (em_custom m)) m = Inr m1"
    "apply_custom L stored m1 = Inr m'" by (rule sync_custom_steps)
  note one = remove_each_ok[OF step(2) ok]
  then have ok1: "env_ok m1" by simp
  note two = apply_custom_ok[OF step(3) ok1]
  from one two have names: "env_names m' = (env_names m - set (filter (\<lambda>n. n \<notin> fst ` set stored \<and> n \<notin> fst ` set extra) (em_custom m))) \<union> fst ` set stored"
    and same: "em_bundles m' = em_bundles m1" by simp_all
  note gone = remove_each_bundles[OF step(2)]
  show ?case
    by (rule bundles_ok_fewer[OF synced.IH]) (auto simp only: names same gone split: if_splits)
next
  case (resolved m seen wanted r m')
  have ok: "env_ok m" "em_base m = s" using scope_history_reach[OF resolved.hyps(1)] env_reach_ok by blast+
  obtain key services created where r: "r = (key, services, created)" by (cases r)
  note res = resolved.hyps(2)[unfolded r]
  from resolve_ok[OF res ok(1)] show ?case
    by (intro bundles_ok_new[OF resolved.IH ok(2)] resolve_bundles(1)[OF res]) simp_all
next
  case (counted m seen wanted r m')
  have ok: "env_ok m" "em_base m = s" using scope_history_reach[OF counted.hyps(1)] env_reach_ok by blast+
  from queue_service_for_ok[OF counted.hyps(2) ok(1)] show ?case
    by (intro bundles_ok_new[OF counted.IH ok(2)] queue_service_for_bundles[OF counted.hyps(2)]) simp_all
qed

text \<open>As long as nobody removes an environment of the environment variables, the names are those and
  the stored ones noted so far.\<close>

inductive sync_reach :: "pylib \<Rightarrow> settings \<Rightarrow> environments \<Rightarrow> bool" for L s where
  built: "new_manager L s = Inr m \<Longrightarrow> sync_reach L s m"
| applied: "sync_reach L s m \<Longrightarrow> apply_custom L stored m = Inr m' \<Longrightarrow> sync_reach L s m'"
| removed: "sync_reach L s m \<Longrightarrow> name \<notin> base_names L s \<Longrightarrow> remove_custom name m = Inr m' \<Longrightarrow> sync_reach L s m'"
| synced: "sync_reach L s m \<Longrightarrow> sync_custom L stored m = Inr m' \<Longrightarrow> sync_reach L s m'"
| resolved: "sync_reach L s m \<Longrightarrow> resolve L m wanted = Inr (r, m') \<Longrightarrow> sync_reach L s m'"
| counted: "sync_reach L s m \<Longrightarrow> queue_service_for L m wanted = Inr (r, m') \<Longrightarrow> sync_reach L s m'"

definition names_ok :: "pylib \<Rightarrow> settings \<Rightarrow> environments \<Rightarrow> bool" where
  "names_ok L s m \<longleftrightarrow> env_ok m \<and> em_base m = s \<and> env_names m = base_names L s \<union> set (em_custom m) \<and>
     s_environment s \<notin> set (em_custom m)"

lemma sync_names:
  assumes "sync_custom L stored m = Inr m'" "names_ok L s m"
  shows "names_ok L s m' \<and> env_names m' = base_names L s \<union> fst ` set stored"
proof -
  from assms(1) obtain extra m1 where step: "settings_environments L (em_base m) = Inr extra"
    "remove_each (filter (\<lambda>n. n \<notin> fst ` set stored \<and> n \<notin> fst ` set extra) (em_custom m)) m = Inr m1"
    "apply_custom L stored m1 = Inr m'" by (rule sync_custom_steps)
  have ok: "env_ok m" using assms(2) by (simp add: names_ok_def)
  note one = remove_each_ok[OF step(2) ok]
  then have ok1: "env_ok m1" by simp
  note two = apply_custom_ok[OF step(3) ok1]
  have base: "base_names L s = insert (s_environment s) (fst ` set extra)"
    using step(1) assms(2) by (simp add: base_names_def names_ok_def)
  from one two assms(2) base show ?thesis unfolding names_ok_def by auto
qed

lemma sync_reach_ok: "sync_reach L s m \<Longrightarrow> names_ok L s m"
proof (induction rule: sync_reach.induct)
  case (built m)
  with new_manager_ok[OF this] show ?case by (simp add: names_ok_def)
next
  case (applied m stored m')
  then have "env_ok m" by (simp add: names_ok_def)
  from apply_custom_ok[OF applied.hyps(2) this] applied.IH base_names_default[of s L] show ?case
    unfolding names_ok_def by auto
next
  case (removed m name m')
  then have "env_ok m" by (simp add: names_ok_def)
  from remove_custom_ok[OF removed.hyps(3) this] removed.IH removed.hyps(2) show ?case
    unfolding names_ok_def by auto
next
  case (synced m stored m')
  with sync_names show ?case by blast
next
  case (resolved m wanted r m')
  then have "env_ok m" by (simp add: names_ok_def)
  moreover obtain key services created where r: "r = (key, services, created)" by (cases r)
  ultimately show ?case using resolve_ok[OF resolved.hyps(2)[unfolded r]] resolved.IH by (simp add: names_ok_def)
next
  case (counted m wanted r m')
  then have "env_ok m" by (simp add: names_ok_def)
  from queue_service_for_ok[OF counted.hyps(2) this] counted.IH show ?case by (simp add: names_ok_def)
qed


section \<open>Changing one environment\<close>

lemma add_missing_other: "i \<noteq> j \<Longrightarrow> add_missing i vs heap ! j = heap ! j"
  unfolding add_missing_def by (induction vs arbitrary: heap) (simp_all add: append_to_def)

text \<open>Nothing that is applied has the same list of vhosts as \<open>name\<close>.\<close>

definition unshared :: "string \<Rightarrow> pyval dict \<Rightarrow> environments \<Rightarrow> bool" where
  "unshared name stored m \<longleftrightarrow> name \<notin> fst ` set stored \<and>
     (\<forall>p other q. dict_get (em_profiles m) name = Some p \<longrightarrow> other \<in> fst ` set stored \<longrightarrow>
        dict_get (em_profiles m) other = Some q \<longrightarrow> pf_vhosts q \<noteq> pf_vhosts p)"

lemma apply_one_frame:
  assumes "apply_one L dflt n v m = Inr m'" "env_ok m" "n \<noteq> name" "dict_get (em_profiles m) name = Some p"
    and "\<forall>q. dict_get (em_profiles m) n = Some q \<longrightarrow> pf_vhosts q \<noteq> pf_vhosts p"
  shows "dict_get (em_profiles m') name = Some p \<and> vhosts_of m' p = vhosts_of m p \<and>
    (\<forall>other q. dict_get (em_profiles m') other = Some q \<longrightarrow> other \<noteq> n \<longrightarrow> dict_get (em_profiles m) other = Some q)"
proof (cases "dict_get (em_profiles m) n")
  case (Some q)
  then show ?thesis
    using assms
    by (auto simp: apply_one_def or_raise_Inr_iff AList.update_conv' vhosts_of_def add_missing_other
        simp del: map_of_eq_Some_iff split: if_splits)
next
  case None
  have "pf_vhosts p < length (em_heap m)" using assms(2,4) by (simp add: env_ok_def)
  with None show ?thesis
    using assms
    by (auto simp: apply_one_def or_raise_Inr_iff AList.update_conv' vhosts_of_def new_list_def nth_append
        simp del: map_of_eq_Some_iff split: if_splits)
qed

lemma apply_each_frame:
  assumes "apply_each L stored m = Inr m'" "env_ok m" "distinct (map fst stored)" "unshared name stored m"
    and "dict_get (em_profiles m) name = Some p"
  shows "dict_get (em_profiles m') name = Some p \<and> vhosts_of m' p = vhosts_of m p"
  using assms
proof (induction L stored m rule: apply_each.induct)
  case (1 L m)
  then show ?case by simp
next
  case (2 L n v rest m)
  from "2.prems"(1) obtain dflt m1 where step: "dict_get (em_profiles m) (s_environment (em_base m)) = Some dflt"
      "apply_one L dflt n v m = Inr m1" "apply_each L rest m1 = Inr m'"
    by (auto simp: or_raise_Inr_iff split: option.splits)
  have n: "n \<noteq> name" "\<forall>q. dict_get (em_profiles m) n = Some q \<longrightarrow> pf_vhosts q \<noteq> pf_vhosts p"
    using "2.prems"(4,5) by (auto simp: unshared_def)
  note one = apply_one_frame[OF step(2) "2.prems"(2) n(1) "2.prems"(5) n(2)]
  have ok: "env_ok m1" using apply_one_ok[OF step(2) "2.prems"(2)] by simp
  have fresh: "n \<notin> fst ` set rest" and dist: "distinct (map fst rest)" using "2.prems"(3) by simp_all
  have other: "pf_vhosts q \<noteq> pf_vhosts p"
    if "other \<in> fst ` set rest" "dict_get (em_profiles m1) other = Some q" for other q
  proof -
    have "other \<noteq> n" using that(1) fresh by blast
    with one that(2) have "dict_get (em_profiles m) other = Some q" by blast
    moreover have "other \<in> fst ` set ((n, v) # rest)" using that(1) by simp
    ultimately show ?thesis using "2.prems"(4,5) unfolding unshared_def by blast
  qed
  have "dict_get (em_profiles m1) name = Some p" using one by blast
  then have rest: "unshared name rest m1"
    using other "2.prems"(4) unfolding unshared_def by (simp del: map_of_eq_Some_iff)
  have "apply_each L rest m1 = Inr m' \<Longrightarrow> env_ok m1 \<Longrightarrow> distinct (map fst rest) \<Longrightarrow> unshared name rest m1 \<Longrightarrow>
      dict_get (em_profiles m1) name = Some p \<Longrightarrow> dict_get (em_profiles m') name = Some p \<and> vhosts_of m' p = vhosts_of m1 p"
    using "2.IH" step(1) by simp
  with step(3) ok rest dist one show ?case by simp
qed


section \<open>Properties\<close>


definition env_lib :: pylib where
  "env_lib = sample_lib\<lparr>json_loads := (\<lambda>_. Some (PDict [(''stg'', PDict [(''rabbitmq_url'', PStr ''amqp://stg:5672/'')])]))\<rparr>"

definition stg_manager :: environments where
  "stg_manager = (case new_manager env_lib sample_settings of Inr m \<Rightarrow> m
     | Inl _ \<Rightarrow> \<lparr>em_base = sample_settings, em_heap = [], em_profiles = [], em_custom = [], em_bundles = []\<rparr>)"

lemma stg_built: "new_manager env_lib sample_settings = Inr stg_manager"
proof -
  have "case new_manager env_lib sample_settings of Inr m \<Rightarrow> True | Inl _ \<Rightarrow> False" by code_simp
  then show ?thesis by (auto simp: stg_manager_def split: sum.splits)
qed

definition qa_stored :: "pyval dict" where
  "qa_stored = [(''qa'', PDict [(''vhosts'', PList [PStr ''blue''])])]"

definition stg_resolved :: "exn + (scope \<times> services \<times> string list) \<times> environments" where
  "stg_resolved = or_raise (apply_custom env_lib qa_stored stg_manager) (\<lambda>m. resolve env_lib m (Some ''qa'', None))"

text \<open>Resolved once more after the environment got another broker, the services are the old ones.\<close>

definition qa_moved :: "pyval dict" where
  "qa_moved = [(''qa'', PDict [(''rabbitmq_url'', PStr ''amqp://other:5672'')])]"

definition stg_again :: "exn + (scope \<times> services \<times> string list) \<times> environments" where
  "stg_again = or_raise stg_resolved (\<lambda>(_, m'). or_raise (apply_custom env_lib qa_moved m') (\<lambda>m.
     resolve env_lib m (Some ''qa'', Some ''blue'')))"


text \<open>
  Replicas agree: after a replica synchronises with what is stored, its environments are the
  configured ones and the stored ones and no others, whatever it had before (as long as nobody
  removed a configured environment by hand).
\<close>

theorem sync_matches_stored:
  assumes "sync_reach L s m" and "sync_custom L stored m = Inr m'"
  shows "set (map fst (em_profiles m')) = base_names L s \<union> set (map fst stored)"
  using sync_names[OF assms(2) sync_reach_ok[OF assms(1)]] by (simp add: dom_map_of_conv_image_fst)

theorem sync_matches_stored_witness:
  "\<exists>m m'. apply_custom env_lib [(''old'', PDict [])] stg_manager = Inr m \<and> sync_custom env_lib qa_stored m = Inr m' \<and>
     set (map fst (em_profiles m)) = {''prod'', ''stg'', ''old''} \<and>
     set (map fst (em_profiles m')) = base_names env_lib sample_settings \<union> {''qa''}"
proof -
  have v: "case apply_custom env_lib [(''old'', PDict [])] stg_manager of Inl _ \<Rightarrow> False
      | Inr m \<Rightarrow> map fst (em_profiles m) = [''prod'', ''stg'', ''old''] \<and>
          (case sync_custom env_lib qa_stored m of Inl _ \<Rightarrow> False | Inr _ \<Rightarrow> True)" by code_simp
  then obtain m m' where m: "apply_custom env_lib [(''old'', PDict [])] stg_manager = Inr m"
      "map fst (em_profiles m) = [''prod'', ''stg'', ''old'']" "sync_custom env_lib qa_stored m = Inr m'"
    by (auto split: sum.splits)
  have "sync_reach env_lib sample_settings m"
    by (rule sync_reach.applied[OF sync_reach.built[OF stg_built] m(1)])
  from sync_matches_stored[OF this m(3)] m show ?thesis by (auto simp: qa_stored_def)
qed

text \<open>
  Storing environments leaves an environment that is not among them alone, with its vhosts,
  unless it shares its list of vhosts with one of them.
\<close>

theorem other_environments_untouched:
  assumes "env_reach L s m" and "apply_custom L stored m = Inr m'" and "distinct (map fst stored)"
    and "unshared name stored m" and "dict_get (em_profiles m) name = Some p"
  shows "dict_get (em_profiles m') name = Some p \<and> vhosts_of m' p = vhosts_of m p"
proof -
  have "apply_each L stored m = Inr m'" using assms(2) by (auto simp: apply_custom_def or_raise_Inr_iff)
  from apply_each_frame[OF this _ assms(3-5)] env_reach_ok[OF assms(1)] show ?thesis by simp
qed

text \<open>
  The witness adds a vhost to an environment of its own list; and to one that inherited the default
  environment's list (its profile names no vhosts), which adds the vhost to the default environment.
\<close>

definition qa_manager :: environments where
  "qa_manager = (case apply_custom env_lib qa_stored stg_manager of Inr m \<Rightarrow> m | Inl _ \<Rightarrow> stg_manager)"

lemma qa_applied: "apply_custom env_lib qa_stored stg_manager = Inr qa_manager"
proof -
  have "case apply_custom env_lib qa_stored stg_manager of Inr m \<Rightarrow> True | Inl _ \<Rightarrow> False" by code_simp
  then show ?thesis by (auto simp: qa_manager_def split: sum.splits)
qed

definition green :: "string \<Rightarrow> pyval dict" where
  "green name = [(name, PDict [(''vhosts'', PList [PStr ''green''])])]"

theorem other_environments_untouched_witness:
  "\<exists>p m' m''. dict_get (em_profiles qa_manager) ''prod'' = Some p \<and>
     apply_custom env_lib (green ''qa'') qa_manager = Inr m' \<and>
     dict_get (em_profiles m') ''prod'' = Some p \<and> vhosts_of m' p = [PStr ''/''] \<and>
     apply_custom env_lib (green ''stg'') qa_manager = Inr m'' \<and> vhosts_of m'' p = [PStr ''/'', PStr ''green'']"
proof -
  have "case dict_get (em_profiles qa_manager) ''prod'' of None \<Rightarrow> False | Some p \<Rightarrow> p = default_profile sample_settings 0"
    by code_simp
  then have prod: "dict_get (em_profiles qa_manager) ''prod'' = Some (default_profile sample_settings 0)"
    by (simp del: map_of_eq_Some_iff split: option.splits)
  have "case dict_get (em_profiles qa_manager) ''qa'' of None \<Rightarrow> False | Some q \<Rightarrow> pf_vhosts q \<noteq> 0" by code_simp
  then obtain q where q: "dict_get (em_profiles qa_manager) ''qa'' = Some q" "pf_vhosts q \<noteq> 0"
    by (auto simp del: map_of_eq_Some_iff split: option.splits)
  have "case apply_custom env_lib (green ''qa'') qa_manager of Inl _ \<Rightarrow> False | Inr _ \<Rightarrow> True"
    "case apply_custom env_lib (green ''stg'') qa_manager of Inl _ \<Rightarrow> False
     | Inr m \<Rightarrow> vhosts_of m (default_profile sample_settings 0) = [PStr ''/'', PStr ''green'']" by code_simp+
  then obtain m' m'' where m: "apply_custom env_lib (green ''qa'') qa_manager = Inr m'"
    "apply_custom env_lib (green ''stg'') qa_manager = Inr m''"
    "vhosts_of m'' (default_profile sample_settings 0) = [PStr ''/'', PStr ''green'']"
    by (auto split: sum.splits)
  have reach: "env_reach env_lib sample_settings qa_manager"
    by (rule env_reach.applied[OF env_reach.built[OF stg_built] qa_applied])
  have "pf_vhosts (default_profile sample_settings 0) = 0" by (simp add: default_profile_def)
  then have "unshared ''prod'' (green ''qa'') qa_manager" "distinct (map fst (green ''qa''))"
    using prod q by (simp_all add: unshared_def green_def del: map_of_eq_Some_iff)
  note same = other_environments_untouched[OF reach m(1) this(2,1) prod]
  have "vhosts_of qa_manager (default_profile sample_settings 0) = [PStr ''/'']" by code_simp
  with same prod m show ?thesis
    by (intro exI[of _ "default_profile sample_settings 0"] exI[of _ m'] exI[of _ m'']) (simp del: map_of_eq_Some_iff)
qed

end
