(* ===== verification/Settings_Store.thy ===== *)
theory Settings_Store
  imports Accounts
begin

text \<open>
  The settings an Admin stores (\<open>SettingsRepository\<close>, persistence/store.py) and their API
  (app/api/routes/platform.py): secrets are encrypted at rest when a key is configured, never sent
  to a client, and kept when a client sends the placeholder back.

  The table maps a key to its stored JSON value. It is kept as a list of rows; the code reads it
  without an ORDER BY, so that the order of the rows means nothing, and what is proved of reading the
  table holds for its rows in any order (Settings_Refinement). Fernet is outside the repository: \<open>cipher\<close> is its
  encryption and decryption under the configured key, if one is configured.
\<close>


section \<open>Equality of JSON values\<close>

lemma size_member_le: "x \<in> set xs \<Longrightarrow> f x \<le> size_list f xs"
  by (induction xs) auto

lemma size_entry_le: "(k, v) \<in> set d \<Longrightarrow> size v \<le> size_list (size_prod (\<lambda>x. 0) size) d"
  by (drule size_member_le [where f = "size_prod (\<lambda>x. 0) size"]) simp

fun number_of :: "pyval \<Rightarrow> pyfloat option" where
  "number_of (PBool b) = Some (Finite (if b then 1 else 0))"
| "number_of (PInt n) = Some (Finite (of_int n))"
| "number_of (PFloat f) = Some f"
| "number_of _ = None"

text \<open>\<open>a == b\<close>: numbers by value, dictionaries whatever their order.\<close>

function (sequential) py_eq :: "pyval \<Rightarrow> pyval \<Rightarrow> bool" where
  "py_eq (PList xs) v = (case v of PList ys \<Rightarrow> length xs = length ys \<and> list_all (\<lambda>(x, y). py_eq x y) (zip xs ys) | _ \<Rightarrow> False)"
| "py_eq (PDict d) v =
     (case v of
        PDict e \<Rightarrow> length d = length e \<and>
          list_all (\<lambda>(k, x). case map_of e k of None \<Rightarrow> False | Some y \<Rightarrow> py_eq x y) d
      | _ \<Rightarrow> False)"
| "py_eq v w =
     (case (number_of v, number_of w) of
        (Some a, Some b) \<Rightarrow> a = b \<and> a \<noteq> NotANumber
      | (None, None) \<Rightarrow> v = w
      | _ \<Rightarrow> False)"
  by pat_completeness auto
termination
  by (relation "measure (\<lambda>(v, w). size v)")
     (auto dest!: set_zip_leftD simp: less_Suc_eq_le size_member_le size_entry_le)


section \<open>The table (SettingsRepository)\<close>

record cipher =
  ci_encrypt :: "string \<Rightarrow> string"
  ci_decrypt :: "string \<Rightarrow> string option"

definition SECRET_SETTING_KEYS :: "string list" where
  "SECRET_SETTING_KEYS = [''channels'', ''custom_environments'']"

definition ENCRYPTED :: string where
  "ENCRYPTED = ''__encrypted__''"

definition encrypt_setting :: "pylib \<Rightarrow> cipher option \<Rightarrow> string \<Rightarrow> pyval \<Rightarrow> pyval" where
  "encrypt_setting L c key v =
     (case c of
        None \<Rightarrow> v
      | Some f \<Rightarrow> if key \<notin> set SECRET_SETTING_KEYS then v
                   else PDict [(ENCRYPTED, PStr (ci_encrypt f (json_dumps L v)))])"

definition decrypt_setting :: "pylib \<Rightarrow> cipher option \<Rightarrow> string \<Rightarrow> pyval \<Rightarrow> exn + pyval" where
  "decrypt_setting L c key v =
     (case v of
        PDict d \<Rightarrow>
          (case dict_get d ENCRYPTED of
             None \<Rightarrow> Inr v
           | Some token \<Rightarrow>
               (case c of
                  None \<Rightarrow> Inl (mk_exn ValueErr (''Setting '' @ key @ '' is encrypted but QUEUELENS_SECRET_KEY is not configured''))
                | Some f \<Rightarrow>
                    (case token of
                       PStr s \<Rightarrow>
                         (case ci_decrypt f s of
                            None \<Rightarrow> Inl (mk_exn (Other ''InvalidToken'') [])
                          | Some text \<Rightarrow>
                              (case json_loads L text of
                                 None \<Rightarrow> Inl (mk_exn ValueErr ''JSONDecodeError'') | Some x \<Rightarrow> Inr x))
                     | _ \<Rightarrow> Inl attribute_error)))
      | _ \<Rightarrow> Inr v)"

fun settings_get_all :: "pylib \<Rightarrow> cipher option \<Rightarrow> pyval dict \<Rightarrow> exn + pyval dict" where
  "settings_get_all L c [] = Inr []"
| "settings_get_all L c ((key, v) # rest) =
     or_raise (decrypt_setting L c key v) (\<lambda>x.
     or_raise (settings_get_all L c rest) (\<lambda>xs. Inr ((key, x) # xs)))"

definition settings_get :: "pylib \<Rightarrow> cipher option \<Rightarrow> string \<Rightarrow> pyval \<Rightarrow> pyval dict \<Rightarrow> exn + pyval" where
  "settings_get L c key dflt table =
     (case dict_get table key of None \<Rightarrow> Inr dflt | Some v \<Rightarrow> decrypt_setting L c key v)"

definition settings_get_safe :: "pylib \<Rightarrow> cipher option \<Rightarrow> string \<Rightarrow> pyval \<Rightarrow> pyval dict \<Rightarrow> pyval" where
  "settings_get_safe L c key dflt table =
     (case settings_get L c key dflt table of Inl _ \<Rightarrow> dflt | Inr v \<Rightarrow> v)"

text \<open>The values are committed before everything is read back.\<close>

definition settings_put ::
  "pylib \<Rightarrow> cipher option \<Rightarrow> pyval dict \<Rightarrow> pyval dict \<Rightarrow> (exn + pyval dict) \<times> pyval dict"
where
  "settings_put L c values table =
     (let table' = fold (\<lambda>(key, v). dict_set key (encrypt_setting L c key v)) values table
      in (settings_get_all L c table', table'))"


section \<open>What a client sees (_redact_channels)\<close>

definition ALLOWED_SETTING_KEYS :: "string list" where
  "ALLOWED_SETTING_KEYS = [''custom_headers'', ''channels'', ''limits'', ''retention'', ''ui'']"

definition AUDITED_SETTING_VALUES :: "string list" where
  "AUDITED_SETTING_VALUES = [''retention'', ''limits'']"

definition SECRET_SENTINEL :: pyval where
  "SECRET_SENTINEL = PStr ''__secret__''"

definition CHANNEL_SECRETS :: "string list dict" where
  "CHANNEL_SECRETS = [(''email'', [''password'']), (''slack'', [''url'']), (''webhook'', [''url'']),
     (''pagerduty'', [''url'', ''routing_key''])]"

definition channel_secrets :: "string \<Rightarrow> string list" where
  "channel_secrets name = (case dict_get CHANNEL_SECRETS name of None \<Rightarrow> [] | Some fs \<Rightarrow> fs)"

definition hide_fields :: "string list \<Rightarrow> pyval dict \<Rightarrow> pyval dict" where
  "hide_fields secret_fields config =
     fold (\<lambda>f d. if truthy (py_get config f) then dict_set f SECRET_SENTINEL d else d) secret_fields config"

definition redact_channel :: "string \<Rightarrow> pyval \<Rightarrow> pyval" where
  "redact_channel name v = (case v of PDict config \<Rightarrow> PDict (hide_fields (channel_secrets name) config) | _ \<Rightarrow> v)"

text \<open>\<open>**profile\<close>: a profile that is not a dictionary raises, \<open>None\<close> included.\<close>

definition redact_profile :: "pyval \<Rightarrow> exn + pyval" where
  "redact_profile v =
     (case v of
        PDict p \<Rightarrow> Inr (PDict (let d = (if truthy (py_get p ''management_password'') then dict_set ''management_password'' SECRET_SENTINEL p else p)
           in if truthy (py_get p ''rabbitmq_url'') then dict_set ''rabbitmq_url'' (PStr ''__redacted__'') d else d))
      | _ \<Rightarrow> Inl (mk_exn TypeErr ''object is not a mapping''))"

fun redact_profiles :: "pyval dict \<Rightarrow> exn + pyval dict" where
  "redact_profiles [] = Inr []"
| "redact_profiles ((name, v) # rest) =
     or_raise (redact_profile v) (\<lambda>p. or_raise (redact_profiles rest) (\<lambda>ps. Inr ((name, p) # ps)))"

definition redact_settings :: "pyval dict \<Rightarrow> exn + pyval dict" where
  "redact_settings stored =
     (let s = (case py_get stored ''channels'' of
                 PDict channels \<Rightarrow> dict_set ''channels'' (PDict (map (\<lambda>(n, v). (n, redact_channel n v)) channels)) stored
               | _ \<Rightarrow> stored)
      in case py_get s ''custom_environments'' of
           PDict envs \<Rightarrow> or_raise (redact_profiles envs) (\<lambda>cleaned.
             Inr (dict_set ''custom_environments'' (PDict cleaned) s))
         | _ \<Rightarrow> Inr s)"

definition get_settings_api :: "pylib \<Rightarrow> cipher option \<Rightarrow> pyval dict \<Rightarrow> exn + pyval dict" where
  "get_settings_api L c table = or_raise (settings_get_all L c table) redact_settings"


section \<open>Saving settings (put_settings_api)\<close>

text \<open>A secret field that still holds the placeholder gets the stored secret back.\<close>

definition stored_secret :: "pyval \<Rightarrow> string \<Rightarrow> string \<Rightarrow> exn + pyval" where
  "stored_secret stored name f =
     or_raise (as_dict stored) (\<lambda>all.
     or_raise (as_dict (py_or (dict_get all name) (PDict []))) (\<lambda>old.
       Inr (case dict_get old f of None \<Rightarrow> PStr [] | Some v \<Rightarrow> v)))"

fun restore_fields :: "pyval \<Rightarrow> string \<Rightarrow> string list \<Rightarrow> pyval dict \<Rightarrow> exn + pyval dict" where
  "restore_fields stored name [] config = Inr config"
| "restore_fields stored name (f # fs) config =
     (if py_get config f = SECRET_SENTINEL
      then or_raise (stored_secret stored name f) (\<lambda>v. restore_fields stored name fs (dict_set f v config))
      else restore_fields stored name fs config)"

fun restore_channels :: "pyval \<Rightarrow> (string \<times> string list) list \<Rightarrow> pyval dict \<Rightarrow> exn + pyval dict" where
  "restore_channels stored [] channels = Inr channels"
| "restore_channels stored ((name, fs) # rest) channels =
     (case py_get channels name of
        PDict config \<Rightarrow>
          or_raise (restore_fields stored name fs config) (\<lambda>config'.
            restore_channels stored rest (dict_set name (PDict config') channels))
      | _ \<Rightarrow> restore_channels stored rest channels)"

definition restore_secrets :: "pylib \<Rightarrow> cipher option \<Rightarrow> pyval dict \<Rightarrow> pyval dict \<Rightarrow> exn + pyval dict" where
  "restore_secrets L c table values =
     (case py_get values ''channels'' of
        PDict channels \<Rightarrow>
          or_raise (settings_get L c ''channels'' (PDict []) table) (\<lambda>v.
          or_raise (restore_channels (py_or (Some v) (PDict [])) CHANNEL_SECRETS channels) (\<lambda>channels'.
            Inr (dict_set ''channels'' (PDict channels') values)))
      | _ \<Rightarrow> Inr values)"

fun changed_keys :: "pylib \<Rightarrow> cipher option \<Rightarrow> pyval dict \<Rightarrow> pyval dict \<Rightarrow> exn + string list" where
  "changed_keys L c table [] = Inr []"
| "changed_keys L c table ((key, v) # rest) =
     or_raise (settings_get L c key PNone table) (\<lambda>old.
     or_raise (changed_keys L c table rest) (\<lambda>keys. Inr (if py_eq old v then keys else key # keys)))"

definition audit_change :: "env \<Rightarrow> current_user \<Rightarrow> string \<Rightarrow> pyval dict \<Rightarrow> unit io" where
  "audit_change E user action meta =
     bnd (clock E) (\<lambda>t.
       record_audit E ((audit_entry_of (cu_username user) action t)\<lparr>ae_result := ''success'', ae_metadata := meta\<rparr>))"

definition settings_change :: "pyval dict \<Rightarrow> string list \<Rightarrow> pyval dict" where
  "settings_change values changed =
     (''keys'', PList (map PStr changed)) #
     map (\<lambda>k. (k, py_get values k)) (filter (\<lambda>k. k \<in> set AUDITED_SETTING_VALUES) changed)"

text \<open>What is checked before anything is stored: the keys, the time zone. The value is whether audit
  events go to the log too, where the request says so.\<close>

definition check_settings :: "pylib \<Rightarrow> pyval dict \<Rightarrow> exn + bool option" where
  "check_settings L values =
     (let unknown = filter (\<lambda>k. k \<notin> set ALLOWED_SETTING_KEYS) (map fst values)
      in if unknown \<noteq> [] then Inl (http_error 400 (''Unknown settings keys: '' @ py_str L (PList (map PStr (sort unknown)))))
         else if dict_get values ''ui'' = None then Inr None
         else or_raise (sub_dict values ''ui'') (\<lambda>ui.
           let tz = py_get ui ''quiet_tz''
           in if truthy tz \<and> local_hhmm L (py_str L tz) 0 = None
              then Inl (http_error 400 (''Unknown time zone: '' @ py_str L tz))
              else Inr (Some (truthy (py_get ui ''syslog'')))))"

text \<open>The settings table, and whether audit events are also logged.\<close>

type_synonym settings_state = "pyval dict \<times> bool"

definition put_settings_api ::
  "env \<Rightarrow> cipher option \<Rightarrow> current_user \<Rightarrow> pyval dict \<Rightarrow> settings_state \<Rightarrow> ((exn + pyval dict) \<times> settings_state) io"
where
  "put_settings_api E c user values st =
     (let L = e_lib E
      in case or_raise (require_admin user) (\<lambda>_. check_settings L values) of
           Inl e \<Rightarrow> ret (Inl e, st)
         | Inr syslog \<Rightarrow>
             (let st1 = (fst st, case syslog of None \<Rightarrow> snd st | Some b \<Rightarrow> b)
              in case or_raise (restore_secrets L c (fst st) values) (\<lambda>values'.
                   or_raise (changed_keys L c (fst st) values') (\<lambda>changed. Inr (values', sort changed))) of
                Inl e \<Rightarrow> ret (Inl e, st1)
              | Inr (values', changed) \<Rightarrow>
                  (case settings_put L c values' (fst st) of
                     (Inl e, table') \<Rightarrow> ret (Inl e, (table', snd st1))
                   | (Inr saved, table') \<Rightarrow>
                       bnd (outcome (if changed = [] then ret ()
                                     else audit_change E user ''update_settings'' (settings_change values' changed))) (\<lambda>a.
                         ret (or_raise a (\<lambda>_. redact_settings saved), (table', snd st1))))))"

end
