(* ===== verification/Settings_Properties.thy ===== *)
theory Settings_Properties
  imports Settings_Store Sample_World
begin

text \<open>
  Stored credentials: what the settings API answers never shows one, and saving back what it
  answered keeps the stored ones.
\<close>


section \<open>Dictionaries\<close>

lemma dict_set_twice [simp]: "dict_set k a (dict_set k b d) = dict_set k a d"
  by (induction d) auto

lemma dict_set_same: "dict_get d k = Some v \<Longrightarrow> dict_set k v d = d"
  by (induction d) (auto split: if_splits)

lemma dict_set_swap:
  "k \<noteq> k' \<Longrightarrow> dict_get d k \<noteq> None \<Longrightarrow> dict_get d k' \<noteq> None \<Longrightarrow>
     dict_set k v (dict_set k' v' d) = dict_set k' v' (dict_set k v d)"
  by (induction d) (auto split: if_splits)

lemma py_get_dict_set: "py_get (dict_set k v d) k' = (if k' = k then v else py_get d k')"
  by (simp add: py_get_def update_conv)

lemma truthy_get_present: "truthy (py_get d k) \<Longrightarrow> dict_get d k = Some (py_get d k)"
  by (cases "dict_get d k") (simp_all add: py_get_def)

lemma dict_get_map: "dict_get (map (\<lambda>(k, v). (k, f k v)) d) k = map_option (f k) (dict_get d k)"
  by (induction d) auto

lemma dict_set_as_map:
  "distinct (map fst d) \<Longrightarrow> dict_get d k \<noteq> None \<Longrightarrow>
     dict_set k v d = map (\<lambda>(k', v'). (k', if k' = k then v else v')) d"
proof (induction d)
  case (Cons p d)
  obtain k' v' where p: "p = (k', v')" by fastforce
  show ?case
  proof (cases "k' = k")
    case True
    with Cons.prems p have "k \<notin> fst ` set d" by auto
    then have "map (\<lambda>(k', v'). (k', if k' = k then v else v')) d = d"
      by (intro map_idI) force
    with p True show ?thesis by simp
  qed (use Cons p in auto)
qed simp


section \<open>Credentials stay hidden\<close>

definition hidden :: "pyval \<Rightarrow> pyval \<Rightarrow> bool" where
  "hidden placeholder v \<longleftrightarrow> v = placeholder \<or> \<not> truthy v"

text \<open>The credentials of the channels, field by field.\<close>

definition channel_hidden :: "string \<Rightarrow> pyval \<Rightarrow> bool" where
  "channel_hidden name v =
     (case v of
        PDict c \<Rightarrow>
          (name = ''email'' \<longrightarrow> hidden (PStr ''__secret__'') (py_get c ''password'')) \<and>
          (name \<in> {''slack'', ''webhook'', ''pagerduty''} \<longrightarrow> hidden (PStr ''__secret__'') (py_get c ''url'')) \<and>
          (name = ''pagerduty'' \<longrightarrow> hidden (PStr ''__secret__'') (py_get c ''routing_key''))
      | _ \<Rightarrow> True)"

definition profile_hidden :: "pyval \<Rightarrow> bool" where
  "profile_hidden v =
     (case v of
        PDict p \<Rightarrow> hidden (PStr ''__secret__'') (py_get p ''management_password'') \<and>
          hidden (PStr ''__redacted__'') (py_get p ''rabbitmq_url'')
      | _ \<Rightarrow> False)"

text \<open>No channel credential, broker URL or management password is legible in the answer.\<close>

definition credentials_hidden :: "pyval dict \<Rightarrow> bool" where
  "credentials_hidden shown \<longleftrightarrow>
     (case py_get shown ''channels'' of PDict cs \<Rightarrow> list_all (\<lambda>(n, v). channel_hidden n v) cs | _ \<Rightarrow> True) \<and>
     (case py_get shown ''custom_environments'' of PDict es \<Rightarrow> list_all (\<lambda>(n, v). profile_hidden v) es | _ \<Rightarrow> True)"

text \<open>The code asks the channel it was given; hiding one field does not change what the next one asks.\<close>

lemma hide_fold_cong:
  "(\<And>f. truthy (py_get c f) = truthy (py_get c' f)) \<Longrightarrow>
     fold (\<lambda>f d. if truthy (py_get c f) then dict_set f SECRET_SENTINEL d else d) fs d =
     fold (\<lambda>f d. if truthy (py_get c' f) then dict_set f SECRET_SENTINEL d else d) fs d"
  by simp

lemma hide_fields_Nil [simp]: "hide_fields [] d = d"
  by (simp add: hide_fields_def)

lemma hide_fields_Cons:
  "hide_fields (f # fs) d = hide_fields fs (if truthy (py_get d f) then dict_set f SECRET_SENTINEL d else d)"
  unfolding hide_fields_def
  by (simp, intro impI hide_fold_cong) (simp add: py_get_dict_set SECRET_SENTINEL_def)

lemma py_get_hide_other: "f \<notin> set fs \<Longrightarrow> py_get (hide_fields fs d) f = py_get d f"
  by (induction fs arbitrary: d) (auto simp: hide_fields_Cons py_get_dict_set)

lemma hide_fields_keeps:
  "hidden SECRET_SENTINEL (py_get d f) \<Longrightarrow> hidden SECRET_SENTINEL (py_get (hide_fields fs d) f)"
  by (induction fs arbitrary: d) (auto simp: hide_fields_Cons hidden_def py_get_dict_set)

lemma hide_fields_hides: "f \<in> set fs \<Longrightarrow> hidden SECRET_SENTINEL (py_get (hide_fields fs d) f)"
proof (induction fs arbitrary: d)
  case (Cons g gs)
  show ?case
  proof (cases "f = g")
    case True
    show ?thesis
      unfolding hide_fields_Cons by (rule hide_fields_keeps) (simp add: True hidden_def py_get_dict_set)
  qed (use Cons in \<open>auto simp: hide_fields_Cons\<close>)
qed simp

lemma redact_channel_hidden: "channel_hidden n (redact_channel n v)"
  by (cases v)
     (auto simp: redact_channel_def channel_hidden_def channel_secrets_def CHANNEL_SECRETS_def
       hide_fields_hides [unfolded SECRET_SENTINEL_def])

lemma redact_profile_hidden: "redact_profile v = Inr w \<Longrightarrow> profile_hidden w"
  by (cases v) (auto simp: redact_profile_def profile_hidden_def hidden_def Let_def py_get_dict_set SECRET_SENTINEL_def)

lemma redact_profiles_hidden:
  "redact_profiles es = Inr ps \<Longrightarrow> list_all (\<lambda>(n, v). profile_hidden v) ps"
  by (induction es arbitrary: ps rule: redact_profiles.induct)
     (auto simp: or_raise_Inr_iff redact_profile_hidden)

lemma redact_settings_hidden:
  assumes "redact_settings stored = Inr shown"
  shows "credentials_hidden shown"
proof -
  define s where "s = (case py_get stored ''channels'' of
      PDict channels \<Rightarrow> dict_set ''channels'' (PDict (map (\<lambda>(n, v). (n, redact_channel n v)) channels)) stored
    | _ \<Rightarrow> stored)"
  have channels: "case py_get s ''channels'' of PDict cs \<Rightarrow> list_all (\<lambda>(n, v). channel_hidden n v) cs | _ \<Rightarrow> True"
    by (cases "py_get stored ''channels''")
       (auto simp: s_def py_get_dict_set list_all_iff redact_channel_hidden)
  have rest: "(case py_get s ''custom_environments'' of
      PDict envs \<Rightarrow> or_raise (redact_profiles envs) (\<lambda>cleaned. Inr (dict_set ''custom_environments'' (PDict cleaned) s))
    | _ \<Rightarrow> Inr s) = Inr shown"
    using assms unfolding redact_settings_def Let_def s_def [symmetric] .
  show ?thesis
  proof (cases "\<exists>envs. py_get s ''custom_environments'' = PDict envs")
    case True
    with rest obtain ps where "shown = dict_set ''custom_environments'' (PDict ps) s"
      "list_all (\<lambda>(n, v). profile_hidden v) ps"
      by (auto simp: or_raise_Inr_iff redact_profiles_hidden)
    with channels show ?thesis by (simp add: credentials_hidden_def py_get_dict_set)
  next
    case False
    with rest have "shown = s" by (cases "py_get s ''custom_environments''") auto
    with channels False show ?thesis
      by (cases "py_get s ''custom_environments''") (auto simp: credentials_hidden_def)
  qed
qed

lemma put_answer_redacted:
  assumes "put_settings_api E c user values st h = (Inr (Inr shown, st'), h')"
  shows "\<exists>saved. redact_settings saved = Inr shown"
  using assms
  by (auto simp: put_settings_api_def Let_def bnd_def ret_def outcome_def or_raise_Inr_iff
      split: sum.splits prod.splits if_splits)

text \<open>
  C22. Nobody sees a stored channel or broker credential: whatever is in the table, in the answer to
  a read and in the answer to a save the password of the email channel, the URLs of the Slack,
  webhook and PagerDuty channels, the PagerDuty routing key, and the broker URL and the management
  password of every stored environment are empty or a placeholder. (Custom headers are shown as they
  are stored.)
\<close>

theorem credentials_stay_hidden:
  assumes "get_settings_api L c table = Inr shown \<or>
    (\<exists>E user values st st' h h'. put_settings_api E c user values st h = (Inr (Inr shown, st'), h'))"
  shows "credentials_hidden shown"
  using assms
  by (auto simp: get_settings_api_def or_raise_Inr_iff dest!: put_answer_redacted intro: redact_settings_hidden)


section \<open>Saving back what was shown\<close>

lemma hide_fields_set_other:
  "f \<notin> set fs \<Longrightarrow> dict_get d f \<noteq> None \<Longrightarrow> hide_fields fs (dict_set f v d) = dict_set f v (hide_fields fs d)"
proof (induction fs arbitrary: d)
  case (Cons g gs)
  then have "f \<noteq> g" by auto
  show ?case
  proof (cases "truthy (py_get d g)")
    case True
    with \<open>f \<noteq> g\<close> Cons.prems have "dict_set g SECRET_SENTINEL (dict_set f v d) = dict_set f v (dict_set g SECRET_SENTINEL d)"
      by (intro dict_set_swap) (auto dest: truthy_get_present)
    moreover have "dict_get (dict_set g SECRET_SENTINEL d) f \<noteq> None"
      using Cons.prems \<open>f \<noteq> g\<close> by (simp add: update_conv)
    ultimately show ?thesis
      using True Cons \<open>f \<noteq> g\<close> by (simp add: hide_fields_Cons py_get_dict_set)
  qed (use Cons \<open>f \<noteq> g\<close> in \<open>simp add: hide_fields_Cons py_get_dict_set\<close>)
qed (simp add: hide_fields_def)

lemma restore_hidden_fields:
  assumes "distinct fs" "dict_get all name = Some (PDict config)"
  shows "restore_fields (PDict all) name fs (hide_fields fs config) = Inr config"
  using assms(1)
proof (induction fs)
  case Nil
  then show ?case by (simp add: hide_fields_def)
next
  case (Cons f gs)
  then have fresh: "f \<notin> set gs" by simp
  note other = py_get_hide_other [OF fresh]
  show ?case
  proof (cases "truthy (py_get config f)")
    case True
    let ?h = "hide_fields gs config"
    from True have old: "dict_get config f = Some (py_get config f)" by (rule truthy_get_present)
    then have nonempty: "config \<noteq> []" by auto
    have hid: "hide_fields (f # gs) config = dict_set f SECRET_SENTINEL ?h"
      using True fresh old by (simp add: hide_fields_Cons hide_fields_set_other)
    have "stored_secret (PDict all) name f = Inr (py_get config f)"
      using assms(2) old nonempty by (simp add: stored_secret_def py_or_def)
    moreover have "dict_set f (py_get config f) ?h = ?h"
      by (rule dict_set_same) (metis True other truthy_get_present)
    ultimately show ?thesis
      unfolding hid using Cons by (simp add: py_get_dict_set)
  next
    case False
    then have "py_get config f \<noteq> SECRET_SENTINEL" by (auto simp: SECRET_SENTINEL_def)
    with False Cons other show ?thesis by (simp add: hide_fields_Cons)
  qed
qed

text \<open>\<open>shown_with cs\<close> hides only the channels of \<open>cs\<close>.\<close>

definition shown_with :: "(string \<times> string list) list \<Rightarrow> string \<Rightarrow> pyval \<Rightarrow> pyval" where
  "shown_with cs n v =
     (case v of PDict config \<Rightarrow> PDict (hide_fields (case dict_get cs n of None \<Rightarrow> [] | Some fs \<Rightarrow> fs) config) | _ \<Rightarrow> v)"

lemma shown_with_Nil: "shown_with [] n v = v"
  by (cases v) (simp_all add: shown_with_def hide_fields_def)

lemma restore_shown_channels:
  assumes "distinct (map fst all)" "distinct (map fst cs)" "\<forall>(n, fs) \<in> set cs. distinct fs"
  shows "restore_channels (PDict all) cs (map (\<lambda>(n, v). (n, shown_with cs n v)) all) = Inr all"
  using assms(2,3)
proof (induction cs)
  case Nil
  show ?case by (simp add: shown_with_Nil case_prod_eta)
next
  case (Cons p rest)
  obtain name fs where p: "p = (name, fs)" by fastforce
  let ?shown = "map (\<lambda>(n, v). (n, shown_with (p # rest) n v)) all"
  have get: "dict_get ?shown name = map_option (shown_with (p # rest) name) (dict_get all name)"
    by (rule dict_get_map)
  have fresh: "dict_get rest name = None"
    using Cons.prems p by (auto simp: map_of_eq_None_iff)
  have IH: "restore_channels (PDict all) rest (map (\<lambda>(n, v). (n, shown_with rest n v)) all) = Inr all"
    using Cons by auto
  show ?case
  proof (cases "\<exists>config. dict_get all name = Some (PDict config)")
    case True
    then obtain config where config: "dict_get all name = Some (PDict config)" by blast
    then have now: "py_get ?shown name = PDict (hide_fields fs config)"
      using get by (simp add: py_get_def shown_with_def p)
    have restored: "restore_fields (PDict all) name fs (hide_fields fs config) = Inr config"
      using Cons.prems p config by (intro restore_hidden_fields) auto
    have "dict_set name (PDict config) ?shown = map (\<lambda>(n, v). (n, shown_with rest n v)) all"
    proof -
      have keys: "map fst ?shown = map fst all" by (simp add: comp_def case_prod_beta)
      have present: "dict_get ?shown name \<noteq> None" using get config by simp
      have "distinct (map fst ?shown)" using assms(1) unfolding keys .
      from dict_set_as_map [OF this present]
      have "dict_set name (PDict config) ?shown
          = map (\<lambda>(n, v). (n, if n = name then PDict config else v)) ?shown" .
      also have "\<dots> = map (\<lambda>(n, v). (n, shown_with rest n v)) all"
      proof -
        have uniq: "v = PDict config" if "(name, v) \<in> set all" for v
          using assms(1) config that by (metis map_of_is_SomeI option.inject)
        have "(if n = name then PDict config else shown_with (p # rest) n v) = shown_with rest n v"
          if "(n, v) \<in> set all" for n v
          using that fresh uniq [of v] by (cases "n = name") (auto simp: shown_with_def p split: pyval.splits)
        then show ?thesis by auto
      qed
      finally show ?thesis .
    qed
    with now restored IH p show ?thesis by simp
  next
    case False
    then have now: "\<not> (\<exists>d. py_get ?shown name = PDict d)"
      using get by (auto simp: py_get_def shown_with_def split: option.splits pyval.splits)
    then have step: "restore_channels (PDict all) (p # rest) ?shown = restore_channels (PDict all) rest ?shown"
      using p by (auto split: pyval.splits)
    have eq: "?shown = map (\<lambda>(n, v). (n, shown_with rest n v)) all"
      using False assms(1) p by (auto simp: shown_with_def split: pyval.splits)
    show ?thesis unfolding step by (simp only: eq IH)
  qed
qed

text \<open>What is stored for a key, and storing what was read.\<close>

lemma get_all_lookup:
  "settings_get_all L c table = Inr stored \<Longrightarrow> dict_get stored k = Some v \<Longrightarrow>
     settings_get L c k dflt table = Inr v"
  by (induction table arbitrary: stored)
     (auto simp: or_raise_Inr_iff settings_get_def split: if_splits option.splits)

lemma get_all_dict_set:
  assumes "settings_get_all L c table = Inr stored" "dict_get stored k = Some v"
    and "decrypt_setting L c k w = Inr v"
  shows "settings_get_all L c (dict_set k w table) = Inr stored"
  using assms by (induction table arbitrary: stored) (auto simp: or_raise_Inr_iff split: if_splits)

text \<open>The encryption undoes itself, and JSON text reads back: what the library's users rely on.\<close>

definition cipher_ok :: "pylib \<Rightarrow> cipher option \<Rightarrow> pyval \<Rightarrow> bool" where
  "cipher_ok L c v \<longleftrightarrow>
     (case c of None \<Rightarrow> True
      | Some f \<Rightarrow> ci_decrypt f (ci_encrypt f (json_dumps L v)) = Some (json_dumps L v) \<and>
          json_loads L (json_dumps L v) = Some v)"

lemma decrypt_encrypt:
  assumes "cipher_ok L c v" "settings_get_all L c table = Inr stored" "dict_get stored k = Some v"
    and "k \<in> set SECRET_SETTING_KEYS"
  shows "decrypt_setting L c k (encrypt_setting L c k v) = Inr v"
proof (cases c)
  case None
  from assms(2,3) obtain w where "decrypt_setting L c k w = Inr v"
    by (induction table arbitrary: stored) (auto simp: or_raise_Inr_iff split: if_splits)
  with None show ?thesis
    by (auto simp: decrypt_setting_def encrypt_setting_def split: pyval.splits option.splits)
qed (use assms(1,4) in \<open>simp add: cipher_ok_def encrypt_setting_def decrypt_setting_def\<close>)

lemma shown_channels:
  assumes "get_settings_api L c table = Inr shown" "settings_get_all L c table = Inr stored"
    and "dict_get stored ''channels'' = Some (PDict chs)"
  shows "py_get shown ''channels'' = PDict (map (\<lambda>(n, v). (n, shown_with CHANNEL_SECRETS n v)) chs)"
proof -
  have "redact_channel n v = shown_with CHANNEL_SECRETS n v" for n v
    by (cases v) (simp_all add: redact_channel_def shown_with_def channel_secrets_def)
  moreover from assms(3) have "py_get stored ''channels'' = PDict chs" by (simp add: py_get_def)
  ultimately show ?thesis
    using assms(1,2) unfolding get_settings_api_def redact_settings_def Let_def
    by (auto simp: py_get_dict_set or_raise_Inr_iff split: pyval.splits)
qed

lemma CHANNEL_SECRETS_ok: "distinct (map fst CHANNEL_SECRETS)" "\<forall>(n, fs) \<in> set CHANNEL_SECRETS. distinct fs"
  by (simp_all add: CHANNEL_SECRETS_def)

lemma put_settings_table:
  assumes "is_admin user" "map fst values = [''channels'']"
    and "restore_secrets (e_lib E) c (fst st) values = Inr [(''channels'', v)]"
    and "settings_get (e_lib E) c ''channels'' PNone (fst st) = Inr w"
    and "put_settings_api E c user values st h = (Inr (r, st'), h')"
  shows "fst st' = dict_set ''channels'' (encrypt_setting (e_lib E) c ''channels'' v) (fst st)"
proof -
  have "check_settings (e_lib E) values = Inr None"
    using assms(2) by (auto simp: check_settings_def ALLOWED_SETTING_KEYS_def)
  with assms show ?thesis
    by (auto simp: put_settings_api_def require_admin_def Let_def settings_put_def bnd_def ret_def outcome_def
        split: sum.splits prod.splits if_splits)
qed

text \<open>
  C24. Reading the settings and saving the channels as they were shown, placeholders and all,
  changes nothing that is stored: afterwards every setting reads back as before, the real
  credentials included. (Encrypting and writing JSON undo themselves, documented behaviour of
  Fernet and json.)
\<close>

theorem saving_back_keeps_credentials:
  assumes "is_admin user"
    and "settings_get_all (e_lib E) c table = Inr stored" "dict_get stored ''channels'' = Some (PDict chs)"
    and "distinct (map fst chs)" "cipher_ok (e_lib E) c (PDict chs)"
    and "get_settings_api (e_lib E) c table = Inr shown"
    and "put_settings_api E c user [(''channels'', py_get shown ''channels'')] (table, log_too) h = (Inr (r, (table', log_too')), h')"
  shows "settings_get_all (e_lib E) c table' = Inr stored"
proof -
  let ?L = "e_lib E"
  have "restore_secrets ?L c table [(''channels'', py_get shown ''channels'')] = Inr [(''channels'', PDict chs)]"
    using restore_shown_channels [OF assms(4) CHANNEL_SECRETS_ok] get_all_lookup [OF assms(2,3)]
    by (cases "chs = []") (simp_all add: restore_secrets_def shown_channels [OF assms(6,2,3)] py_or_def)
  then have "table' = dict_set ''channels'' (encrypt_setting ?L c ''channels'' (PDict chs)) table"
    using put_settings_table [OF assms(1) _ _ _ assms(7)] get_all_lookup [OF assms(2,3)] by fastforce
  moreover have "decrypt_setting ?L c ''channels'' (encrypt_setting ?L c ''channels'' (PDict chs)) = Inr (PDict chs)"
    by (rule decrypt_encrypt [OF assms(5,2,3)]) (simp add: SECRET_SETTING_KEYS_def)
  ultimately show ?thesis using get_all_dict_set [OF assms(2,3)] by simp
qed

definition sample_cipher :: cipher where
  "sample_cipher = \<lparr>ci_encrypt = rev, ci_decrypt = (\<lambda>s. Some (rev s))\<rparr>"

definition sample_channels :: "pyval dict" where
  "sample_channels = [(''slack'', PDict [(''url'', PStr ''https://hook'')])]"

definition sample_store_lib :: pylib where
  "sample_store_lib = sample_lib\<lparr>json_loads := (\<lambda>_. Some (PDict sample_channels))\<rparr>"

definition sample_table :: "pyval dict" where
  "sample_table = [(''channels'', PDict [(ENCRYPTED, PStr (rev ''{}''))])]"

definition store_env :: env where
  "store_env = classic_env\<lparr>e_lib := sample_store_lib\<rparr>"

definition sample_admin :: current_user where
  "sample_admin = \<lparr>cu_username = ''ada'', cu_role = ''Admin'', cu_must_change = False\<rparr>"

definition shown_channel :: pyval where
  "shown_channel = PDict [(''slack'', PDict [(''url'', SECRET_SENTINEL)])]"

lemma sample_store:
  "settings_get_all sample_store_lib (Some sample_cipher) sample_table = Inr [(''channels'', PDict sample_channels)]"
  "get_settings_api sample_store_lib (Some sample_cipher) sample_table = Inr [(''channels'', shown_channel)]"
  "is_admin sample_admin"
  "cipher_ok sample_store_lib (Some sample_cipher) (PDict sample_channels)"
  "e_lib store_env = sample_store_lib"
  by (code_simp, code_simp, code_simp, code_simp) (simp add: store_env_def)

definition pager_table :: "pyval dict" where
  "pager_table =
     [(''channels'', PDict [(''pagerduty'', PDict [(''url'', PStr ''https://events''), (''routing_key'', PStr ''R0'')])]),
      (''custom_environments'', PDict [(''qa'', PDict [(''management_password'', PStr ''pw''), (''vhosts'', PList [])])])]"

definition pager_shown :: "pyval dict" where
  "pager_shown =
     [(''channels'', PDict [(''pagerduty'', PDict [(''url'', PStr ''__secret__''), (''routing_key'', PStr ''__secret__'')])]),
      (''custom_environments'', PDict [(''qa'', PDict [(''management_password'', PStr ''__secret__''), (''vhosts'', PList [])])])]"

lemma credentials_stay_hidden_witness:
  "credentials_hidden [(''channels'', shown_channel)] \<and>
   get_settings_api sample_store_lib None pager_table = Inr pager_shown \<and> credentials_hidden pager_shown"
proof -
  have "get_settings_api sample_store_lib None pager_table = Inr pager_shown" by code_simp
  with credentials_stay_hidden [OF disjI1, OF this] credentials_stay_hidden [OF disjI1, OF sample_store(2)]
  show ?thesis by simp
qed

lemma saving_back_run:
  "\<exists>r h'. put_settings_api store_env (Some sample_cipher) sample_admin [(''channels'', py_get [(''channels'', shown_channel)] ''channels'')] (sample_table, False) []
     = (Inr (r, (sample_table, False)), h')"
proof -
  have "(case put_settings_api store_env (Some sample_cipher) sample_admin [(''channels'', py_get [(''channels'', shown_channel)] ''channels'')] (sample_table, False) [] of
      (Inr (r, st), h') \<Rightarrow> st = (sample_table, False) | _ \<Rightarrow> False)"
    by code_simp
  then show ?thesis by (auto split: prod.splits sum.splits)
qed

lemma saving_back_keeps_credentials_witness:
  "settings_get_all sample_store_lib (Some sample_cipher) sample_table = Inr [(''channels'', PDict sample_channels)]"
proof -
  obtain r h' where run: "put_settings_api store_env (Some sample_cipher) sample_admin
      [(''channels'', py_get [(''channels'', shown_channel)] ''channels'')] (sample_table, False) []
      = (Inr (r, (sample_table, False)), h')"
    using saving_back_run by blast
  have channels: "dict_get [(''channels'', PDict sample_channels)] ''channels'' = Some (PDict sample_channels)"
    "distinct (map fst sample_channels)"
    by (simp_all add: sample_channels_def)
  show ?thesis
    using saving_back_keeps_credentials [of sample_admin store_env "Some sample_cipher" sample_table,
        OF sample_store(3) _ channels(1) channels(2) _ _ run] sample_store
    by simp
qed

end
