(* ===== verification/Platform.thy ===== *)
theory Platform
  imports Settings_Store Environments
begin

text \<open>
  The platform routes (app/api/routes/platform.py): accounts, alert rules and environments, each
  change with its audit row. The settings routes are in \<open>Settings_Store\<close>.

  A route gets the tables it works on and hands them back changed, also when it ends in an error:
  what was committed before the error stays. Bodies are those that passed pydantic's validation.
\<close>


section \<open>Accounts\<close>

definition whoami :: "current_user \<Rightarrow> pyval dict" where
  "whoami user =
     [(''username'', PStr (cu_username user)), (''role'', PStr (cu_role user)),
      (''must_change_password'', PBool (cu_must_change user))]"

text \<open>\<open>_changeable\<close>\<close>

definition changeable :: "pylib \<Rightarrow> settings \<Rightarrow> current_user \<Rightarrow> string \<Rightarrow> exn + unit" where
  "changeable L cfg admin username =
     (if username = cu_username admin
      then Inl (http_error 400 ''You can't change or remove your own account'')
      else or_raise (settings_users L cfg) (\<lambda>users.
        if dict_get users username \<noteq> None
        then Inl (http_error 400 (username @ '' is set by environment variables (QUEUELENS_ADMIN_USERNAME / '' @
               ''QUEUELENS_USERS_JSON): change it there''))
        else Inr ()))"

text \<open>A change that is committed, then audited: the route fails when the audit row can't be written.\<close>

definition audited ::
  "env \<Rightarrow> current_user \<Rightarrow> string \<Rightarrow> pyval dict \<Rightarrow> 'a \<Rightarrow> 's \<Rightarrow> ((exn + 'a) \<times> 's) io"
where
  "audited E user action meta answer st =
     bnd (outcome (audit_change E user action meta)) (\<lambda>a. ret (or_raise a (\<lambda>_. Inr answer), st))"

definition optional :: "string \<Rightarrow> pyval option \<Rightarrow> pyval dict" where
  "optional k v = (case v of None \<Rightarrow> [] | Some x \<Rightarrow> [(k, x)])"

definition update_user ::
  "env \<Rightarrow> settings \<Rightarrow> current_user \<Rightarrow> string \<Rightarrow> string option \<Rightarrow> bool option \<Rightarrow> user_row list \<Rightarrow>
     ((exn + pyval dict) \<times> user_row list) io"
where
  "update_user E cfg admin username new_role active rows =
     (case or_raise (require_admin admin) (\<lambda>_. changeable (e_lib E) cfg admin username) of
        Inl e \<Rightarrow> ret (Inl e, rows)
      | Inr _ \<Rightarrow>
          if new_role = None \<and> active = None
          then ret (Inl (http_error 400 ''Nothing to change: send role and/or active''), rows)
          else (case users_update username new_role active rows of
              (False, _) \<Rightarrow> ret (Inl (http_error 404 (''No local account named '' @ username)), rows)
            | (True, rows') \<Rightarrow>
                audited E admin ''update_user''
                  ((''user'', PStr username) # optional ''new_role'' (map_option PStr new_role) @ optional ''active'' (map_option PBool active))
                  ((''username'', PStr username) # optional ''role'' (map_option PStr new_role) @ optional ''active'' (map_option PBool active))
                  rows'))"

definition delete_user ::
  "env \<Rightarrow> settings \<Rightarrow> current_user \<Rightarrow> string \<Rightarrow> user_row list \<Rightarrow> ((exn + pyval dict) \<times> user_row list) io"
where
  "delete_user E cfg admin username rows =
     (case or_raise (require_admin admin) (\<lambda>_. changeable (e_lib E) cfg admin username) of
        Inl e \<Rightarrow> ret (Inl e, rows)
      | Inr _ \<Rightarrow>
          (case users_delete username rows of
             (False, _) \<Rightarrow> ret (Inl (http_error 404 (''No local account named '' @ username)), rows)
           | (True, rows') \<Rightarrow>
               audited E admin ''delete_user'' [(''user'', PStr username)] [(''deleted'', PStr username)] rows'))"

definition change_my_password ::
  "env \<Rightarrow> settings \<Rightarrow> current_user \<Rightarrow> string \<Rightarrow> string \<Rightarrow> user_row list \<Rightarrow> ((exn + pyval dict) \<times> user_row list) io"
where
  "change_my_password E cfg user current_password new_password rows =
     (case settings_users (e_lib E) cfg of
        Inl e \<Rightarrow> ret (Inl e, rows)
      | Inr users \<Rightarrow>
          if dict_get users (cu_username user) \<noteq> None
          then ret (Inl (http_error 400 (''This account is managed by environment variables '' @
                 ''(QUEUELENS_ADMIN_PASSWORD / QUEUELENS_USERS_JSON) '' @ em_dash @ '' change it there'')), rows)
          else bnd (token_hex E 16) (\<lambda>fresh.
            case change_password (e_lib E) fresh (cu_username user) current_password new_password rows of
              (False, _) \<Rightarrow> ret (Inl (http_error 403 ''Current password is incorrect''), rows)
            | (True, rows') \<Rightarrow>
                audited E user ''change_password'' [(''user'', PStr (cu_username user))] [(''changed'', PBool True)] rows'))"


subsection \<open>Invitations\<close>

record invite_body =
  iv_username :: string
  iv_role :: string
  iv_email :: "string option"

definition invite_subject :: string where
  "invite_subject = ''[QueueLens] You have been invited''"

definition newline :: string where
  "newline = [CHR 0x0A]"

definition invite_text :: "string \<Rightarrow> invite_body \<Rightarrow> string" where
  "invite_text inviter body =
     inviter @ '' invited you to QueueLens as '' @ iv_role body @ ''.'' @ newline @ newline @
     ''Username: '' @ iv_username body @ newline @ newline @
     inviter @ '' will give you your initial password directly '' @ em_dash @ '' it is never '' @
     ''sent by email. After signing in, change it under Users '' @ arrow @ '' My Password.''"

definition send_invitation :: "env \<Rightarrow> string \<Rightarrow> invite_body \<Rightarrow> string \<Rightarrow> pyval io" where
  "send_invitation E inviter body email =
     bnd (get_setting E ''channels'' (PDict [])) (\<lambda>v.
     bnd (lift (or_raise (as_dict v) (\<lambda>channels. sub_dict channels ''email''))) (\<lambda>config.
       if \<not> truthy (py_get config ''smtp_host'') then ret PNone
       else bnd (send_email E (dict_set ''to'' (PStr email) config) invite_subject (invite_text inviter body))
              (\<lambda>report. ret (PDict report))))"

text \<open>The answer shows the one-time password, once.\<close>

definition invite_user ::
  "env \<Rightarrow> current_user \<Rightarrow> invite_body \<Rightarrow> user_row list \<Rightarrow> ((exn + pyval dict) \<times> user_row list) io"
where
  "invite_user E user body rows =
     (case require_admin user of
        Inl e \<Rightarrow> ret (Inl e, rows)
      | Inr _ \<Rightarrow>
          bnd (token_urlsafe E 12) (\<lambda>password.
          bnd (token_hex E 16) (\<lambda>fresh.
            case users_create (e_lib E) fresh (iv_username body) password (iv_role body) (iv_email body)
                   (cu_username user) True rows of
              (False, _) \<Rightarrow> ret (Inl (http_error 409 ''User already exists''), rows)
            | (True, rows') \<Rightarrow>
                bnd (outcome
                  (bnd (audit_change E user ''invite_user''
                          [(''user'', PStr (iv_username body)), (''new_role'', PStr (iv_role body))]) (\<lambda>_.
                   if str_or (iv_email body) [] = [] then ret PNone
                   else send_invitation E (cu_username user) body (str_or (iv_email body) [])))) (\<lambda>sent.
                ret (or_raise sent (\<lambda>report. Inr
                       [(''username'', PStr (iv_username body)), (''role'', PStr (iv_role body)),
                        (''password'', PStr password), (''email_delivery'', report)]), rows')))))"


section \<open>Alert rules\<close>

record alert_body =
  ab_name :: string
  ab_pattern :: string
  ab_metric :: string
  ab_operator :: string
  ab_threshold :: int
  ab_duration :: int
  ab_severity :: string
  ab_channels :: "string list"
  ab_enabled :: bool

definition apply_body :: "alert_body \<Rightarrow> alert_rule \<Rightarrow> alert_rule" where
  "apply_body b r =
     r\<lparr>ar_name := ab_name b, ar_pattern := ab_pattern b, ar_metric := ab_metric b, ar_operator := ab_operator b,
       ar_threshold := ab_threshold b, ar_duration := ab_duration b, ar_severity := ab_severity b,
       ar_channels := ab_channels b, ar_enabled := ab_enabled b\<rparr>"

definition new_rule :: "string \<Rightarrow> scope \<Rightarrow> alert_body \<Rightarrow> alert_rule" where
  "new_rule created_by place b =
     \<lparr>ar_id = 0, ar_name = ab_name b, ar_pattern = ab_pattern b, ar_environment = Some (fst place),
      ar_vhost = Some (snd place), ar_metric = ab_metric b, ar_operator = ab_operator b,
      ar_threshold = ab_threshold b, ar_duration = ab_duration b, ar_severity = ab_severity b,
      ar_channels = ab_channels b, ar_enabled = ab_enabled b, ar_created_by = created_by,
      ar_last_fired = None, ar_fired = False\<rparr>"

definition watches :: "alert_rule option \<Rightarrow> pyval dict" where
  "watches r =
     [(''environment'', opt_str (Option.bind r ar_environment)), (''vhost'', opt_str (Option.bind r ar_vhost))]"

text \<open>\<open>except KeyError\<close> around the manager: the request names nothing that exists.\<close>

definition or_404 :: "exn + 'a \<Rightarrow> exn + 'a" where
  "or_404 r = (case r of Inr x \<Rightarrow> Inr x
     | Inl e \<Rightarrow> Inl (if exn_class e = KeyErr then http_error 404 (str_or (exn_text e) []) else e))"

definition rule_not_found :: exn where
  "rule_not_found = http_error 404 ''Alert rule not found''"

definition create_alert ::
  "env \<Rightarrow> environments \<Rightarrow> request \<Rightarrow> current_user \<Rightarrow> alert_body \<Rightarrow> int \<Rightarrow> alert_rule list \<Rightarrow>
     ((exn + alert_rule) \<times> alert_rule list) io"
where
  "create_alert E m rq user body new_id rules =
     (case or_raise (require_operator user) (\<lambda>_. or_404 (scope_for (e_lib E) m (requested_scope rq))) of
        Inl e \<Rightarrow> ret (Inl e, rules)
      | Inr place \<Rightarrow>
          (case rules_create new_id (new_rule (cu_username user) place body) rules of
             (rule, rules') \<Rightarrow>
               audited E user ''create_alert_rule''
                 ([(''rule'', PInt (ar_id rule)), (''name'', PStr (ab_name body))] @ watches (Some rule)) rule rules'))"

definition update_alert ::
  "env \<Rightarrow> current_user \<Rightarrow> int \<Rightarrow> alert_body \<Rightarrow> alert_rule list \<Rightarrow> ((exn + alert_rule) \<times> alert_rule list) io"
where
  "update_alert E user i body rules =
     (case require_operator user of
        Inl e \<Rightarrow> ret (Inl e, rules)
      | Inr _ \<Rightarrow>
          (case rules_update i (apply_body body) rules of
             (None, _) \<Rightarrow> ret (Inl rule_not_found, rules)
           | (Some rule, rules') \<Rightarrow>
               audited E user ''update_alert_rule''
                 ([(''rule'', PInt i), (''name'', PStr (ab_name body))] @ watches (Some rule)) rule rules'))"

definition patch_alert ::
  "env \<Rightarrow> current_user \<Rightarrow> int \<Rightarrow> bool \<Rightarrow> alert_rule list \<Rightarrow> ((exn + alert_rule) \<times> alert_rule list) io"
where
  "patch_alert E user i enabled rules =
     (case require_operator user of
        Inl e \<Rightarrow> ret (Inl e, rules)
      | Inr _ \<Rightarrow>
          (case rules_update i (\<lambda>r. r\<lparr>ar_enabled := enabled\<rparr>) rules of
             (None, _) \<Rightarrow> ret (Inl rule_not_found, rules)
           | (Some rule, rules') \<Rightarrow>
               audited E user ''update_alert_rule''
                 ([(''rule'', PInt i), (''name'', PStr (ar_name rule)), (''enabled'', PBool enabled)] @ watches (Some rule))
                 rule rules'))"

definition delete_alert ::
  "env \<Rightarrow> current_user \<Rightarrow> int \<Rightarrow> alert_rule list \<Rightarrow> ((exn + pyval dict) \<times> alert_rule list) io"
where
  "delete_alert E user i rules =
     (case require_operator user of
        Inl e \<Rightarrow> ret (Inl e, rules)
      | Inr _ \<Rightarrow>
          (let rule = find (\<lambda>r. ar_id r = i) (rev (rules_list rules))
           in case rules_delete i rules of
                (False, _) \<Rightarrow> ret (Inl rule_not_found, rules)
              | (True, rules') \<Rightarrow>
                  audited E user ''delete_alert_rule''
                    ([(''rule'', PInt i), (''name'', opt_str (map_option ar_name rule))] @ watches rule)
                    [(''deleted'', PInt i)] rules'))"

text \<open>Quiet hours never mute a test: its severity is \<open>Alert\<close>.\<close>

definition test_channel :: "env \<Rightarrow> current_user \<Rightarrow> string \<Rightarrow> pyval io" where
  "test_channel E user channel =
     bnd (lift (require_operator user)) (\<lambda>_.
     bnd (dispatch E [channel]
            \<lparr>al_title = ''Test notification'',
             al_message = ''Channel test triggered by '' @ cu_username user @ '' '' @ em_dash @
               '' if you can read this, delivery works.'',
             al_severity = ''Alert'', al_dedup_key = None, al_resolve = False\<rparr>) (\<lambda>outcomes.
       ret (case dict_get outcomes channel of None \<Rightarrow> PDict [] | Some v \<Rightarrow> v)))"


section \<open>Environments\<close>

definition list_environments :: "pylib \<Rightarrow> environments \<Rightarrow> request \<Rightarrow> pyval dict list" where
  "list_environments L m rq = environments_list L m (requested_scope rq)"

record environment_body =
  eb_name :: string
  eb_vhosts :: "string list"
  eb_host :: "string option"
  eb_username :: "string option"
  eb_password :: "string option"
  eb_management_url :: "string option"
  eb_management_username :: "string option"
  eb_management_password :: "string option"

text \<open>Only strings sort with strings.\<close>

fun texts :: "pyval list \<Rightarrow> exn + string list" where
  "texts [] = Inr []"
| "texts (PStr s # vs) = or_raise (texts vs) (\<lambda>ss. Inr (s # ss))"
| "texts (v # vs) = Inl (mk_exn TypeErr ''not a string'')"

definition merged_vhosts :: "pyval dict \<Rightarrow> string list \<Rightarrow> exn + string list" where
  "merged_vhosts previous vhosts =
     or_raise (as_list (or_default previous ''vhosts'' (PList []))) (\<lambda>vs.
     or_raise (texts vs) (\<lambda>old. Inr (sort (remdups (old @ vhosts)))))"

definition set_when :: "bool \<Rightarrow> string \<Rightarrow> string \<Rightarrow> pyval dict \<Rightarrow> pyval dict" where
  "set_when b k v d = (if b then dict_set k (PStr v) d else d)"

definition broker_url :: "environment_body \<Rightarrow> string" where
  "broker_url b =
     (let user = str_or (eb_username b) []; password = str_or (eb_password b) []
      in ''amqp://'' @ (if user \<noteq> [] then user @ '':'' @ password @ ''@'' else []) @ strip (str_or (eb_host b) []) @ ''/'')"

text \<open>The profile that is stored: fields left blank keep what was stored before.\<close>

definition stored_profile :: "environment_body \<Rightarrow> string list \<Rightarrow> pyval dict \<Rightarrow> pyval dict" where
  "stored_profile b merged previous =
     (let mgmt_user = str_or (eb_management_username b) (str_or (eb_username b) []);
          mgmt_pass = str_or (eb_management_password b) (str_or (eb_password b) [])
      in set_when (mgmt_pass \<noteq> [] \<and> PStr mgmt_pass \<noteq> SECRET_SENTINEL) ''management_password'' mgmt_pass
           (set_when (mgmt_user \<noteq> []) ''management_username'' mgmt_user
             (set_when (str_or (eb_management_url b) [] \<noteq> []) ''management_url'' (strip (str_or (eb_management_url b) []))
               (set_when (str_or (eb_host b) [] \<noteq> []) ''rabbitmq_url'' (broker_url b)
                 (dict_set ''vhosts'' (PList (map PStr merged)) previous)))))"

definition add_profile :: "environment_body \<Rightarrow> string list \<Rightarrow> pyval \<Rightarrow> exn + pyval dict" where
  "add_profile b vhosts v =
     or_raise (as_dict (py_or (Some v) (PDict []))) (\<lambda>stored.
     or_raise (sub_dict stored (eb_name b)) (\<lambda>previous.
     or_raise (merged_vhosts previous vhosts) (\<lambda>merged.
       Inr (dict_set (eb_name b) (PDict (stored_profile b merged previous)) stored))))"

text \<open>The stored settings and the replica's manager.\<close>

type_synonym environment_state = "pyval dict \<times> environments"

definition named_vhosts :: "environment_body \<Rightarrow> string list" where
  "named_vhosts b = filter (\<lambda>v. v \<noteq> []) (map strip (eb_vhosts b))"

definition create_environment ::
  "env \<Rightarrow> cipher option \<Rightarrow> current_user \<Rightarrow> environment_body \<Rightarrow> environment_state \<Rightarrow>
     ((exn + pyval dict list) \<times> environment_state) io"
where
  "create_environment E c user body st =
     (let L = e_lib E
      in case or_raise (require_admin user) (\<lambda>_.
           if named_vhosts body = [] then Inl (http_error 400 ''At least one vhost is required'')
           else or_raise (settings_get L c ''custom_environments'' (PDict []) (fst st)) (add_profile body (named_vhosts body))) of
           Inl e \<Rightarrow> ret (Inl e, st)
         | Inr stored \<Rightarrow>
             (case settings_put L c [(''custom_environments'', PDict stored)] (fst st) of
                (Inl e, table') \<Rightarrow> ret (Inl e, (table', snd st))
              | (Inr _, table') \<Rightarrow>
                  (case apply_custom L stored (snd st) of
                     Inl e \<Rightarrow> ret (Inl e, (table', snd st))
                   | Inr m' \<Rightarrow>
                       audited E user ''add_environment''
                         [(''name'', PStr (eb_name body)), (''vhosts'', PList (map PStr (named_vhosts body)))]
                         (environments_list L m' (None, None)) (table', m'))))"

text \<open>The manager forgets the environment before the store does.\<close>

definition delete_environment ::
  "env \<Rightarrow> cipher option \<Rightarrow> current_user \<Rightarrow> string \<Rightarrow> environment_state \<Rightarrow>
     ((exn + pyval dict list) \<times> environment_state) io"
where
  "delete_environment E c user name st =
     (let L = e_lib E
      in case or_raise (require_admin user) (\<lambda>_. or_404 (remove_custom name (snd st))) of
           Inl e \<Rightarrow> ret (Inl e, st)
         | Inr m' \<Rightarrow>
             (case or_raise (settings_get L c ''custom_environments'' (PDict []) (fst st)) (\<lambda>v.
                     as_dict (py_or (Some v) (PDict []))) of
                Inl e \<Rightarrow> ret (Inl e, (fst st, m'))
              | Inr stored \<Rightarrow>
                  (case settings_put L c [(''custom_environments'', PDict (AList.delete name stored))] (fst st) of
                     (Inl e, table') \<Rightarrow> ret (Inl e, (table', m'))
                   | (Inr _, table') \<Rightarrow>
                       audited E user ''remove_environment'' [(''name'', PStr name)]
                         (environments_list L m' (None, None)) (table', m'))))"

text \<open>\<open>is_up\<close>: whether the connection of the environment came up.\<close>

definition activate_environment ::
  "env \<Rightarrow> current_user \<Rightarrow> bool \<Rightarrow> wanted_scope \<Rightarrow> environments \<Rightarrow> ((exn + scope) \<times> environments) io"
where
  "activate_environment E user is_up wanted m =
     (case require_operator user of
        Inl e \<Rightarrow> ret (Inl e, m)
      | Inr _ \<Rightarrow>
          (case activate (e_lib E) m is_up wanted of
             (Inr place, m') \<Rightarrow>
               audited E user ''switch_environment''
                 [(''environment'', PStr (fst place)), (''vhost'', PStr (snd place))] place m'
           | (Inl e, m') \<Rightarrow>
               ret (Inl (if exn_class e = KeyErr then http_error 404 (str_or (exn_text e) [])
                         else if exn_class e = Other ''ConnectionError'' then http_error 502 (str_or (exn_text e) [])
                         else e), m')))"

end
