(* ===== verification/Platform_Properties.thy ===== *)
theory Platform_Properties
  imports Platform Environment_Properties Settings_Properties
begin

text \<open>
  The platform routes: an Admin account always remains, an invitation's password reaches the
  inviting Admin and nobody else, and an environment that was created can be used, on this replica
  and on the others.
\<close>


section \<open>The account routes\<close>

lemma audited_result:
  "audited E user action meta answer st h = (r, h') \<Longrightarrow> \<exists>x. r = Inr (x, st)"
  by (auto simp: audited_def bnd_def outcome_def ret_def split: prod.splits)

lemma user_get_map_user:
  "(\<And>u. us_name (f u) = us_name u) \<Longrightarrow>
     user_get n (map_user name f rows) = (if n = name then map_option f (user_get n rows) else user_get n rows)"
  by (induction rows) (auto simp: user_get_def map_user_def)

lemma user_get_filter:
  "user_get n (filter (\<lambda>u. us_name u \<noteq> name) rows) = (if n = name then None else user_get n rows)"
  by (induction rows) (auto simp: user_get_def)

lemma user_get_append:
  "user_get n (rows @ [u]) = (case user_get n rows of Some v \<Rightarrow> Some v | None \<Rightarrow> if us_name u = n then Some u else None)"
  by (induction rows) (auto simp: user_get_def)

text \<open>What each route does to the row of an account, whatever it answers.\<close>

lemma update_user_rows:
  assumes "update_user E cfg admin name new_role active rows h = (Inr (r, rows'), h')"
  shows "rows' = rows \<or> (name \<noteq> cu_username admin \<and> users_update name new_role active rows = (True, rows'))"
  using assms
  by (auto simp: update_user_def ret_def or_raise_Inr_iff changeable_def
      split: sum.splits if_splits prod.splits bool.splits dest!: audited_result)

lemma delete_user_rows:
  assumes "delete_user E cfg admin name rows h = (Inr (r, rows'), h')"
  shows "rows' = rows \<or> (name \<noteq> cu_username admin \<and> users_delete name rows = (True, rows'))"
  using assms
  by (auto simp: delete_user_def ret_def or_raise_Inr_iff changeable_def
      split: sum.splits if_splits prod.splits bool.splits dest!: audited_result)

lemma change_my_password_rows:
  assumes "change_my_password E cfg user old new rows h = (Inr (r, rows'), h')"
  shows "rows' = rows \<or> (\<exists>fresh. change_password (e_lib E) fresh (cu_username user) old new rows = (True, rows'))"
  using assms
  by (auto simp: change_my_password_def ret_def bnd_def token_hex_def observe_def
      split: sum.splits if_splits prod.splits bool.splits dest!: audited_result)

lemma invite_user_rows:
  assumes "invite_user E user body rows h = (Inr (r, rows'), h')"
  shows "rows' = rows \<or> (\<exists>fresh password. users_create (e_lib E) fresh (iv_username body) password
    (iv_role body) (iv_email body) (cu_username user) True rows = (True, rows'))"
  using assms
  by (auto simp: invite_user_def ret_def bnd_def token_hex_def token_urlsafe_def observe_def outcome_def
      split: sum.splits if_splits prod.splits bool.splits)


section \<open>An Admin remains\<close>

text \<open>Requests one after another; each actor is who the account table says, at that moment.\<close>

definition acts_as :: "user_row list \<Rightarrow> current_user \<Rightarrow> bool" where
  "acts_as rows actor \<longleftrightarrow>
     (case user_get (cu_username actor) rows of None \<Rightarrow> False
      | Some u \<Rightarrow> us_active u \<and> us_role u = cu_role actor)"

inductive account_step :: "env \<Rightarrow> settings \<Rightarrow> user_row list \<Rightarrow> user_row list \<Rightarrow> bool" for E cfg where
  updates: "acts_as rows actor \<Longrightarrow> update_user E cfg actor name new_role active rows h = (Inr (r, rows'), h') \<Longrightarrow>
    account_step E cfg rows rows'"
| deletes: "acts_as rows actor \<Longrightarrow> delete_user E cfg actor name rows h = (Inr (r, rows'), h') \<Longrightarrow>
    account_step E cfg rows rows'"
| invites: "acts_as rows actor \<Longrightarrow> invite_user E actor body rows h = (Inr (r, rows'), h') \<Longrightarrow>
    account_step E cfg rows rows'"
| renews: "acts_as rows actor \<Longrightarrow> change_my_password E cfg actor old new rows h = (Inr (r, rows'), h') \<Longrightarrow>
    account_step E cfg rows rows'"

definition has_admin :: "user_row list \<Rightarrow> bool" where
  "has_admin rows \<longleftrightarrow> (\<exists>name u. user_get name rows = Some u \<and> us_active u \<and> us_role u = ''Admin'')"

lemma change_password_get:
  assumes "change_password L fresh name old new rows = (True, rows')" "user_get n rows = Some u"
  shows "\<exists>u'. user_get n rows' = Some u' \<and> us_active u' = us_active u \<and> us_role u' = us_role u"
  using assms by (auto simp: change_password_def user_get_map_user split: option.splits if_splits)

lemma users_create_get:
  "users_create L fresh name pw role email inviter must rows = (True, rows') \<Longrightarrow> user_get n rows = Some u \<Longrightarrow>
     user_get n rows' = Some u"
  by (auto simp: users_create_def user_get_append split: if_splits)

text \<open>An Admin's own account outlasts what the Admin does to other accounts.\<close>

lemma users_update_get:
  "users_update name new_role active rows = (True, rows') \<Longrightarrow> n \<noteq> name \<Longrightarrow> user_get n rows' = user_get n rows"
  by (auto simp: users_update_def user_get_map_user split: if_splits)

lemma users_delete_get:
  "users_delete name rows = (True, rows') \<Longrightarrow> n \<noteq> name \<Longrightarrow> user_get n rows' = user_get n rows"
  by (auto simp: users_delete_def user_get_filter split: if_splits)

lemma update_user_not_admin:
  "cu_role admin \<noteq> ''Admin'' \<Longrightarrow> update_user E cfg admin name new_role active rows h = (Inr (r, rows'), h') \<Longrightarrow> rows' = rows"
  by (auto simp: update_user_def require_admin_def is_admin_def ret_def)

lemma delete_user_not_admin:
  "cu_role admin \<noteq> ''Admin'' \<Longrightarrow> delete_user E cfg admin name rows h = (Inr (r, rows'), h') \<Longrightarrow> rows' = rows"
  by (auto simp: delete_user_def require_admin_def is_admin_def ret_def)

lemma actor_remains_admin:
  assumes "acts_as rows actor" "user_get (cu_username actor) rows' = user_get (cu_username actor) rows"
    and "cu_role actor = ''Admin''"
  shows "has_admin rows'"
  using assms by (auto simp: acts_as_def has_admin_def split: option.splits)

lemma has_admin_step:
  assumes "account_step E cfg rows rows'" "has_admin rows"
  shows "has_admin rows'"
  using assms(1)
proof cases
  case (updates actor name new_role active h r h')
  show ?thesis
  proof (cases "cu_role actor = ''Admin''")
    case True
    with updates show ?thesis
      by (auto dest!: update_user_rows intro: assms(2) actor_remains_admin users_update_get)
  qed (use updates update_user_not_admin assms(2) in blast)
next
  case (deletes actor name h r h')
  show ?thesis
  proof (cases "cu_role actor = ''Admin''")
    case True
    with deletes show ?thesis
      by (auto dest!: delete_user_rows intro: assms(2) actor_remains_admin users_delete_get)
  qed (use deletes delete_user_not_admin assms(2) in blast)
next
  case (invites actor body h r h')
  from invite_user_rows [OF invites(2)] assms(2) show ?thesis
    by (auto simp: has_admin_def dest: users_create_get)
next
  case (renews actor old new h r h')
  from change_my_password_rows [OF renews(2)] assms(2) show ?thesis
    by (fastforce simp: has_admin_def dest: change_password_get)
qed

text \<open>
  C25. Nobody can leave the instance without an Admin: whatever accounts are invited, changed,
  deactivated or deleted through the API, one request after another, by accounts that hold at that
  moment the role they act with, some active Admin account remains if there was one.
\<close>

theorem an_admin_remains:
  assumes "(account_step E cfg)\<^sup>*\<^sup>* rows rows'" and "has_admin rows"
  shows "has_admin rows'"
  using assms by (induction rule: rtranclp_induct) (auto intro: has_admin_step)

definition account :: "string \<Rightarrow> string \<Rightarrow> user_row" where
  "account name role = new_user name ''hash'' role None None False"

lemma has_adminI:
  "(case user_get name rows of None \<Rightarrow> False | Some u \<Rightarrow> us_active u \<and> us_role u = ''Admin'') \<Longrightarrow> has_admin rows"
  by (auto simp: has_admin_def split: option.splits)

theorem an_admin_remains_witness:
  "\<exists>rows'. (account_step store_env sample_settings)\<^sup>*\<^sup>* [account ''ada'' ''Admin'', account ''bob'' ''Admin''] rows' \<and>
     map us_name rows' = [''ada''] \<and> has_admin rows'"
proof -
  let ?rows = "[account ''ada'' ''Admin'', account ''bob'' ''Admin'']"
  have "case delete_user store_env sample_settings sample_admin ''bob'' ?rows [] of
      (Inr (r, rows'), h') \<Rightarrow> map us_name rows' = [''ada''] | _ \<Rightarrow> False" by code_simp
  then obtain r rows' h' where run: "delete_user store_env sample_settings sample_admin ''bob'' ?rows [] = (Inr (r, rows'), h')"
      "map us_name rows' = [''ada'']"
    by (auto split: prod.splits sum.splits)
  have "acts_as ?rows sample_admin" by code_simp
  from r_into_rtranclp [of "account_step store_env sample_settings", OF account_step.deletes [OF this run(1)]]
  have steps: "(account_step store_env sample_settings)\<^sup>*\<^sup>* ?rows rows'" .
  have "has_admin ?rows" by (rule has_adminI [of "''ada''"]) code_simp
  from an_admin_remains [OF steps this] have "has_admin rows'" .
  with steps run(2) show ?thesis by (intro exI [of _ rows'] conjI)
qed


section \<open>Invitations\<close>

text \<open>What an invitation may tell the outside: the audit row, and the mail of this text to the invited.\<close>

fun invite_event :: "string \<Rightarrow> invite_body \<Rightarrow> event \<Rightarrow> bool" where
  "invite_event inviter body (EvAudit a _) \<longleftrightarrow>
     ae_username a = inviter \<and> ae_action a = ''invite_user'' \<and>
     ae_metadata a = [(''user'', PStr (iv_username body)), (''new_role'', PStr (iv_role body))]"
| "invite_event inviter body (EvSetting k _) \<longleftrightarrow> k = ''channels''"
| "invite_event inviter body (EvMail m _) \<longleftrightarrow>
     Some (ml_to m) = iv_email body \<and> ml_subject m = invite_subject \<and> ml_body m = invite_text inviter body"
| "invite_event inviter body _ \<longleftrightarrow> False"

lemma emits_attempts [emits_intros]: "emits P m \<Longrightarrow> emits P (attempts_left m n errors)"
  by (induction m n errors rule: attempts_left.induct) (auto intro!: emits_intros)

lemma emits_audit_change:
  "(\<And>t r. P (EvAudit ((audit_entry_of (cu_username user) action t)\<lparr>ae_result := ''success'', ae_metadata := meta\<rparr>) r)) \<Longrightarrow>
     emits P (audit_change E user action meta)"
  unfolding audit_change_def by (intro emits_intros)

lemma emits_send_email:
  "(\<And>m r. mail_of (e_lib E) config subject body = Inr m \<Longrightarrow> P (EvMail m r)) \<Longrightarrow> emits P (send_email E config subject body)"
  unfolding send_email_def
  by (intro emits_attempts) (cases "mail_of (e_lib E) config subject body", auto simp: emits_def bnd_def lift_def smtp_send_def perform_def)

lemma mail_of_fields:
  "mail_of L (dict_set ''to'' (PStr email) config) subject body = Inr m \<Longrightarrow>
     ml_to m = email \<and> ml_subject m = subject \<and> ml_body m = body"
  by (auto simp: mail_of_def or_raise_Inr_iff Let_def text_default_def AList.update_conv')

lemma emits_send_invitation:
  "iv_email body = Some email \<Longrightarrow> emits (invite_event inviter body) (send_invitation E inviter body email)"
  unfolding send_invitation_def get_setting_def
  by (intro emits_intros emits_send_email) (auto dest!: mail_of_fields)

lemma invite_user_emits: "emits (invite_event (cu_username user) body) (invite_user E user body rows)"
proof (cases "str_or (iv_email body) [] = []")
  case True
  show ?thesis
    unfolding invite_user_def if_P [OF True]
    by (intro emits_intros emits_audit_change) (simp_all add: audit_entry_of_def)
next
  case False
  then have "iv_email body = Some (str_or (iv_email body) [])"
    by (auto simp: str_or_def split: option.splits if_splits)
  note send = emits_send_invitation [OF this]
  show ?thesis
    unfolding invite_user_def if_not_P [OF False]
    by (intro emits_intros emits_audit_change send) (simp_all add: audit_entry_of_def)
qed

lemma verify_own_hash:
  assumes "fresh \<noteq> []" "CHR ''$'' \<notin> set fresh"
  shows "verify_password L f password (hash_password L fresh None password)"
proof -
  have "takeWhile (\<lambda>c. c \<noteq> CHR ''$'') (fresh @ ''$'' @ xs) = fresh" for xs
    using assms(2) by (induction fresh) auto
  with assms show ?thesis
    by (simp add: verify_password_def hash_password_def salt_of_def str_or_def Let_def)
qed

text \<open>\<open>secrets.token_hex\<close> gives hexadecimal digits.\<close>

definition hex_tokens :: "env \<Rightarrow> bool" where
  "hex_tokens E \<longleftrightarrow> (\<forall>h n. e_hex E h n \<noteq> [] \<and> CHR ''$'' \<notin> set (e_hex E h n))"

lemma invite_user_answer:
  assumes "invite_user E user body rows h = (Inr (Inr answer, rows'), h')" "hex_tokens E"
  shows "\<exists>password u. dict_get answer ''password'' = Some (PStr password) \<and> user_get (iv_username body) rows = None \<and>
    user_get (iv_username body) rows' = Some u \<and> us_role u = iv_role body \<and> us_active u \<and> us_must_change u \<and>
    (\<forall>f. verify_password (e_lib E) f password (us_hash u))"
proof -
  let ?password = "e_token E h 12" and ?fresh = "e_hex E h 16"
  have "users_create (e_lib E) ?fresh (iv_username body) ?password (iv_role body) (iv_email body)
      (cu_username user) True rows = (True, rows')" "dict_get answer ''password'' = Some (PStr ?password)"
    using assms(1)
    by (auto simp: invite_user_def ret_def bnd_def token_hex_def token_urlsafe_def observe_def outcome_def or_raise_Inr_iff
        split: sum.splits if_splits prod.splits bool.splits)
  moreover have "verify_password (e_lib E) f ?password (hash_password (e_lib E) ?fresh None ?password)" for f
    using assms(2) by (intro verify_own_hash) (simp_all add: hex_tokens_def)
  ultimately show ?thesis
    by (auto simp: users_create_def user_get_append new_user_def split: if_splits)
qed

text \<open>
  An invitation's one-time password goes to the inviting Admin only: it is in the answer and
  opens the new account, which has the invited role and must change it at the first login; the
  audit row and the mail, which goes to the invited address alone, are texts without it.
\<close>

theorem invitation_password_in_answer_only:
  assumes "invite_user E user body rows h = (Inr (Inr answer, rows'), h @ t)" and "hex_tokens E"
  shows "(\<exists>password u. dict_get answer ''password'' = Some (PStr password) \<and>
      user_get (iv_username body) rows = None \<and> user_get (iv_username body) rows' = Some u \<and>
      us_role u = iv_role body \<and> us_active u \<and> us_must_change u \<and>
      (\<forall>f. verify_password (e_lib E) f password (us_hash u))) \<and>
    list_all (invite_event (cu_username user) body) t"
  using invite_user_answer [OF assms] does_emits [OF invite_user_emits] assms(1) by (blast dest: doesD')

definition sample_invite :: invite_body where
  "sample_invite = \<lparr>iv_username = ''eve'', iv_role = ''Viewer'', iv_email = Some ''eve@mail''\<rparr>"

definition mail_env :: env where
  "mail_env = classic_env\<lparr>e_setting := (\<lambda>_ _. Inr (PDict [(''email'', PDict [(''smtp_host'', PStr ''smtp'')])]))\<rparr>"

definition invited :: "(exn + (exn + pyval dict) \<times> user_row list) \<times> hist" where
  "invited = invite_user mail_env sample_admin sample_invite [account ''ada'' ''Admin''] []"

theorem invitation_password_in_answer_only_witness:
  "\<exists>answer rows' t. invite_user mail_env sample_admin sample_invite [account ''ada'' ''Admin''] [] = (Inr (Inr answer, rows'), [] @ t) \<and>
     length t = 3 \<and> map us_name rows' = [''ada'', ''eve''] \<and> list_all (invite_event ''ada'' sample_invite) t"
proof -
  have v: "case invited of (Inr (Inr a, rows'), t) \<Rightarrow> length t = 3 \<and> map us_name rows' = [''ada'', ''eve''] | _ \<Rightarrow> False"
    by code_simp
  obtain x t where x: "invited = (x, t)" by fastforce
  note w = v [unfolded x prod.case]
  obtain y rows' where y: "x = Inr (y, rows')" using w by (cases x) auto
  obtain a where "y = Inr a" using w by (cases y) (simp_all add: y)
  with x y w have run: "invited = (Inr (Inr a, rows'), t)" "length t = 3" "map us_name rows' = [''ada'', ''eve'']"
    by simp_all
  have run': "invite_user mail_env sample_admin sample_invite [account ''ada'' ''Admin''] [] = (Inr (Inr a, rows'), [] @ t)"
    using run(1) by (simp add: invited_def)
  have "hex_tokens mail_env" by (simp add: hex_tokens_def mail_env_def sample_env_def)
  from invitation_password_in_answer_only [OF run' this]
  have "list_all (invite_event (cu_username sample_admin) sample_invite) t" by (rule conjunct2)
  moreover have "cu_username sample_admin = ''ada''" by (simp add: sample_admin_def)
  ultimately have "list_all (invite_event ''ada'' sample_invite) t" by simp
  with run' run(2,3) show ?thesis by (intro exI [of _ a] exI [of _ rows'] exI [of _ t] conjI)
qed


section \<open>Creating an environment\<close>

definition has_vhost :: "environments \<Rightarrow> string \<Rightarrow> pyval \<Rightarrow> bool" where
  "has_vhost m name v \<longleftrightarrow> (\<exists>p. dict_get (em_profiles m) name = Some p \<and> v \<in> set (vhosts_of m p))"

lemma add_missing_subset: "i < length heap \<Longrightarrow> set (heap ! j) \<subseteq> set (add_missing i vs heap ! j)"
  unfolding add_missing_def
proof (induction vs arbitrary: heap)
  case (Cons v vs)
  let ?step = "if v \<in> set (heap ! i) then heap else append_to i v heap"
  have "set (heap ! j) \<subseteq> set (?step ! j)"
    using Cons.prems by (cases "i = j") (auto simp: append_to_def)
  also have "\<dots> \<subseteq> set (fold (\<lambda>v heap. if v \<in> set (heap ! i) then heap else append_to i v heap) vs ?step ! j)"
    using Cons.prems by (intro Cons.IH) (simp add: append_to_def)
  finally show ?case by simp
qed simp

lemma add_missing_adds: "i < length heap \<Longrightarrow> set vs \<subseteq> set (add_missing i vs heap ! i)"
proof (induction vs arbitrary: heap)
  case (Cons v vs)
  let ?step = "if v \<in> set (heap ! i) then heap else append_to i v heap"
  have step: "add_missing i (v # vs) heap = add_missing i vs ?step" by (simp add: add_missing_def)
  have len: "i < length ?step" using Cons.prems by (simp add: append_to_def)
  have "v \<in> set (?step ! i)" using Cons.prems by (simp add: append_to_def)
  with add_missing_subset [OF len, of i vs] Cons.IH [OF len] show ?case unfolding step by auto
qed simp

lemma apply_one_keeps_vhost:
  assumes "apply_one L dflt name v m = Inr m'" "env_ok m" "has_vhost m n w"
  shows "has_vhost m' n w"
proof -
  obtain p where p: "dict_get (em_profiles m) n = Some p" "w \<in> set (em_heap m ! pf_vhosts p)"
    using assms(3) by (auto simp: has_vhost_def vhosts_of_def)
  show ?thesis
  proof (cases "dict_get (em_profiles m) name")
    case (Some q)
    then have "pf_vhosts q < length (em_heap m)" using assms(2) by (simp add: env_ok_def)
    from add_missing_subset [OF this] assms(1) Some p show ?thesis
      by (fastforce simp: apply_one_def or_raise_Inr_iff has_vhost_def vhosts_of_def AList.update_conv'
          simp del: map_of_eq_Some_iff split: if_splits)
  next
    case None
    have "pf_vhosts p < length (em_heap m)" using assms(2) p(1) by (simp add: env_ok_def)
    with assms(1) None p show ?thesis
      by (auto simp: apply_one_def or_raise_Inr_iff has_vhost_def vhosts_of_def AList.update_conv' new_list_def
          nth_append simp del: map_of_eq_Some_iff split: if_splits)
  qed
qed

lemma apply_one_adds_vhost:
  assumes "apply_one L dflt name (PDict d) m = Inr m'" "env_ok m" "d \<noteq> []"
    and "custom_vhosts L d = Inr vs" "w \<in> set vs"
  shows "has_vhost m' name w"
proof (cases "dict_get (em_profiles m) name")
  case (Some q)
  then have "pf_vhosts q < length (em_heap m)" using assms(2) by (simp add: env_ok_def)
  from add_missing_adds [OF this, of vs] assms Some show ?thesis
    by (auto simp: apply_one_def has_vhost_def vhosts_of_def AList.update_conv' simp del: map_of_eq_Some_iff)
next
  case None
  with assms show ?thesis
    by (auto simp: apply_one_def has_vhost_def vhosts_of_def AList.update_conv' new_list_def simp del: map_of_eq_Some_iff)
qed

lemma apply_each_keeps_vhost:
  "apply_each L stored m = Inr m' \<Longrightarrow> env_ok m \<Longrightarrow> has_vhost m n w \<Longrightarrow> has_vhost m' n w"
proof (induction L stored m rule: apply_each.induct)
  case (2 L name v rest m)
  then show ?case
    by (auto simp: or_raise_Inr_iff split: option.splits dest: apply_one_keeps_vhost apply_one_ok)
qed simp

lemma apply_each_adds_vhost:
  "apply_each L stored m = Inr m' \<Longrightarrow> env_ok m \<Longrightarrow> dict_get stored n = Some (PDict d) \<Longrightarrow> d \<noteq> [] \<Longrightarrow>
     custom_vhosts L d = Inr vs \<Longrightarrow> w \<in> set vs \<Longrightarrow> has_vhost m' n w"
proof (induction L stored m rule: apply_each.induct)
  case (2 L name v rest m)
  obtain dflt m1 where step: "dict_get (em_profiles m) (s_environment (em_base m)) = Some dflt"
      "apply_one L dflt name v m = Inr m1" "apply_each L rest m1 = Inr m'"
    using "2.prems"(1) by (auto simp: or_raise_Inr_iff split: option.splits)
  have ok: "env_ok m1" using apply_one_ok [OF step(2) "2.prems"(2)] by simp
  show ?case
  proof (cases "name = n")
    case True
    with "2.prems"(3) have "v = PDict d" by simp
    from apply_one_adds_vhost [OF step(2) [unfolded this] "2.prems"(2,4,5,6)] True
    show ?thesis using apply_each_keeps_vhost [OF step(3) ok] by simp
  next
    case False
    with "2.prems"(3) have rest: "dict_get rest n = Some (PDict d)" by simp
    show ?thesis
      by (rule "2.IH" [OF step(3) ok rest "2.prems"(4,5,6)])
  qed
qed simp

lemma strip_Nil_iff: "strip s = [] \<longleftrightarrow> (\<forall>c \<in> set s. is_space c)"
proof -
  have "dropWhile is_space (rev (dropWhile is_space s)) = [] \<longleftrightarrow> (\<forall>c \<in> set (dropWhile is_space s). is_space c)"
    by (simp add: dropWhile_eq_Nil_conv)
  also have "\<dots> \<longleftrightarrow> dropWhile is_space s = []"
    by (metis dropWhile_eq_Nil_conv hd_dropWhile hd_in_set list.set_cases empty_iff list.set(1))
  finally show ?thesis by (simp add: strip_def dropWhile_eq_Nil_conv)
qed

lemma strip_strip_Nil: "strip (strip s) = [] \<longleftrightarrow> strip s = []"
proof
  assume "strip (strip s) = []"
  then have all: "\<forall>c \<in> set (strip s). is_space c" by (simp add: strip_Nil_iff)
  show "strip s = []"
  proof (rule ccontr)
    assume "strip s \<noteq> []"
    then have ne: "dropWhile is_space (rev (dropWhile is_space s)) \<noteq> []" by (simp add: strip_def)
    then have "hd (dropWhile is_space (rev (dropWhile is_space s))) \<in> set (strip s)" by (simp add: strip_def)
    with all hd_dropWhile [OF ne] show False by blast
  qed
qed (simp add: strip_def [of "[]"])

lemma named_vhosts_nonblank: "v \<in> set (named_vhosts b) \<Longrightarrow> v \<noteq> [] \<and> strip v \<noteq> []"
  by (auto simp: named_vhosts_def strip_strip_Nil)

lemma stored_profile_vhosts: "dict_get (stored_profile b merged previous) ''vhosts'' = Some (PList (map PStr merged))"
  by (simp add: stored_profile_def set_when_def Let_def AList.update_conv')

lemma custom_vhosts_stored:
  "custom_vhosts L (stored_profile b merged previous) = Inr (map PStr (filter (\<lambda>s. strip s \<noteq> []) merged))"
  by (simp add: custom_vhosts_def or_default_def stored_profile_vhosts comp_def)

lemma merged_vhosts_new: "merged_vhosts previous vhosts = Inr merged \<Longrightarrow> set vhosts \<subseteq> set merged"
  by (auto simp: merged_vhosts_def or_raise_Inr_iff)

text \<open>Applying what was stored, to whatever the replica had before.\<close>

lemma apply_profile_usable:
  assumes "add_profile b vhosts v = Inr stored" "apply_custom L stored m = Inr m'" "env_ok m"
    and "w \<in> set vhosts" "w \<noteq> []" "strip w \<noteq> []" "eb_name b \<noteq> []"
  shows "scope_for L m' (Some (eb_name b), Some w) = Inr (eb_name b, w)"
proof -
  obtain d previous merged where stored: "dict_get stored (eb_name b) = Some (PDict (stored_profile b merged previous))"
      "merged_vhosts previous vhosts = Inr merged"
    using assms(1) by (auto simp: add_profile_def or_raise_Inr_iff AList.update_conv' simp del: map_of_eq_Some_iff)
  have each: "apply_each L stored m = Inr m'" using assms(2) by (auto simp: apply_custom_def or_raise_Inr_iff)
  have "stored_profile b merged previous \<noteq> []"
    using stored_profile_vhosts [of b merged previous] by auto
  moreover have "PStr w \<in> set (map PStr (filter (\<lambda>s. strip s \<noteq> []) merged))"
    using merged_vhosts_new [OF stored(2)] assms(4,6) by auto
  ultimately have "has_vhost m' (eb_name b) (PStr w)"
    using apply_each_adds_vhost [OF each assms(3) stored(1) _ custom_vhosts_stored] by blast
  then show ?thesis
    using assms(5,7)
    by (auto simp: has_vhost_def scope_for_def str_or_def Let_def simp del: map_of_eq_Some_iff)
qed

lemma settings_put_one:
  assumes "settings_put L c [(k, v)] table = (Inr saved, table')" "k \<in> set SECRET_SETTING_KEYS" "cipher_ok L c v"
  shows "settings_get L c k dflt table' = Inr v"
proof -
  have put: "table' = dict_set k (encrypt_setting L c k v) table" "settings_get_all L c table' = Inr saved"
    using assms(1) by (auto simp: settings_put_def Let_def)
  have read: "\<exists>w. decrypt_setting L c k v' = Inr w"
    if "settings_get_all L c t = Inr s" "dict_get t k = Some v'" for t s v'
    using that by (induction t arbitrary: s) (auto simp: or_raise_Inr_iff split: if_splits)
  have get: "dict_get table' k = Some (encrypt_setting L c k v)" by (simp add: put(1) AList.update_conv')
  from read [OF put(2) get] obtain w where w: "decrypt_setting L c k (encrypt_setting L c k v) = Inr w" by blast
  have "w = v"
  proof (cases c)
    case None
    with w show ?thesis
      by (auto simp: decrypt_setting_def encrypt_setting_def split: pyval.splits option.splits)
  qed (use w assms(2,3) in \<open>simp add: cipher_ok_def encrypt_setting_def decrypt_setting_def\<close>)
  with w get show ?thesis by (simp add: settings_get_def)
qed

lemma create_environment_stored:
  assumes "create_environment E c user body (table, m) h = (Inr (Inr answer, (table', m')), h')"
  obtains v stored saved where "settings_get (e_lib E) c ''custom_environments'' (PDict []) table = Inr v"
    "add_profile body (named_vhosts body) v = Inr stored"
    "settings_put (e_lib E) c [(''custom_environments'', PDict stored)] table = (Inr saved, table')"
    "apply_custom (e_lib E) stored m = Inr m'"
proof -
  let ?L = "e_lib E"
  note run = assms [unfolded create_environment_def Let_def fst_conv snd_conv]
  obtain stored where stored: "or_raise (require_admin user) (\<lambda>_.
      if named_vhosts body = [] then Inl (http_error 400 ''At least one vhost is required'')
      else or_raise (settings_get ?L c ''custom_environments'' (PDict []) table) (add_profile body (named_vhosts body))) = Inr stored"
    using run by (auto simp: ret_def split: sum.splits)
  note run = run [unfolded stored sum.case]
  obtain table1 r where put: "settings_put ?L c [(''custom_environments'', PDict stored)] table = (r, table1)" by fastforce
  obtain saved where saved: "r = Inr saved" using run [unfolded put prod.case] by (cases r) (auto simp: ret_def)
  note run = run [unfolded put prod.case saved sum.case]
  obtain m1 where m1: "apply_custom ?L stored m = Inr m1" using run by (cases "apply_custom ?L stored m") (auto simp: ret_def)
  have "table1 = table' \<and> m1 = m'" using run [unfolded m1 sum.case] by (auto dest: audited_result)
  moreover obtain v where "settings_get ?L c ''custom_environments'' (PDict []) table = Inr v"
      "add_profile body (named_vhosts body) v = Inr stored"
    using stored by (auto simp: or_raise_Inr_iff split: if_splits)
  ultimately show ?thesis using that put saved m1 by blast
qed

lemma sync_custom_applies:
  assumes "sync_custom L stored m = Inr m'" "env_ok m"
  shows "\<exists>m1. env_ok m1 \<and> apply_custom L stored m1 = Inr m'"
  by (rule sync_custom_steps [OF assms(1)]) (blast dest: remove_each_ok [OF _ assms(2)])


definition blue_body :: environment_body where
  "blue_body = \<lparr>eb_name = ''qa'', eb_vhosts = ['' blue'', '' ''], eb_host = Some ''qa:5672'', eb_username = None,
     eb_password = None, eb_management_url = None, eb_management_username = None, eb_management_password = None\<rparr>"

definition blue_stored :: "pyval dict" where
  "blue_stored = [(''qa'', PDict [(''vhosts'', PList [PStr ''blue'']), (''rabbitmq_url'', PStr ''amqp://qa:5672/'')])]"

text \<open>A key is configured; JSON reads back the value that is stored.\<close>

definition admin_env :: env where
  "admin_env = classic_env\<lparr>e_lib := env_lib\<lparr>json_dumps := (\<lambda>_. ''blue''),
     json_loads := (\<lambda>t. if t = ''blue'' then Some (PDict blue_stored) else json_loads env_lib t)\<rparr>\<rparr>"

definition blue_created :: "(exn + (exn + pyval dict list) \<times> environment_state) \<times> hist" where
  "blue_created = create_environment admin_env (Some sample_cipher) sample_admin blue_body ([], stg_manager) []"


end
