(* ===== verification/Audit_Trail.thy ===== *)
theory Audit_Trail
  imports Accounts "HOL-Library.Product_Lexorder"
begin

text \<open>
  The audit trail: the repository of audit events (persistence/audit_repository.py, with the column
  lengths of persistence/models.py) and its routes, which list it and export it as CSV or JSON
  (app/api/routes/audit.py).

  The table is a list of rows. The context variables of a request are a record. An export reads page
  after page while others write: \<open>views i\<close> is the table when page \<open>i\<close> is read. Rows of equal time
  may come in any order from the database; the model takes the order of insertion.
\<close>


section \<open>Recording (record)\<close>

record audit_row =
  aw_id :: int
  aw_timestamp :: datetime
  aw_username :: string
  aw_action :: string
  aw_source_queue :: "string option"
  aw_message_fingerprint :: "string option"
  aw_payload_hash :: "string option"
  aw_target_type :: "string option"
  aw_target_exchange :: "string option"
  aw_target_queue :: "string option"
  aw_target_routing_key :: "string option"
  aw_result :: string
  aw_error_message :: "string option"
  aw_request_ip :: "string option"
  aw_user_agent :: "string option"
  aw_metadata :: "pyval dict"

text \<open>\<open>REQUEST_CONTEXT\<close>, \<open>BROKER_SCOPE\<close>, \<open>ACTING_ROLE\<close>.\<close>

record request_context =
  rc_ip :: "string option"
  rc_agent :: "string option"
  rc_scope :: "(string \<times> string) option"
  rc_role :: "string option"

definition with_context :: "request_context \<Rightarrow> pyval dict \<Rightarrow> pyval dict" where
  "with_context ctx meta =
     (let scoped = (case rc_scope ctx of None \<Rightarrow> meta
        | Some (e, v) \<Rightarrow> dict_merge [(''environment'', PStr e), (''vhost'', PStr v)] meta)
      in case rc_role ctx of None \<Rightarrow> scoped | Some r \<Rightarrow> dict_merge [(''role'', PStr r)] scoped)"

text \<open>\<open>value[:length]\<close> when it is longer than its column.\<close>

definition clip :: "nat \<Rightarrow> string \<Rightarrow> string" where
  "clip n s = (if utf8_length s > n then utf8_take n s else s)"

definition clip_opt :: "nat \<Rightarrow> string option \<Rightarrow> string option" where
  "clip_opt n = map_option (clip n)"

text \<open>\<open>a or b\<close> on optional strings.\<close>

definition opt_or :: "string option \<Rightarrow> string option \<Rightarrow> string option" where
  "opt_or a b = (if str_or a [] \<noteq> [] then a else b)"

definition audit_row_of :: "pylib \<Rightarrow> request_context \<Rightarrow> int \<Rightarrow> audit_entry \<Rightarrow> audit_row" where
  "audit_row_of L ctx new_id e =
     \<lparr>aw_id = new_id, aw_timestamp = db_time L (Aware (ae_timestamp e)),
      aw_username = clip 128 (ae_username e), aw_action = clip 64 (ae_action e),
      aw_source_queue = clip_opt 255 (ae_source_queue e),
      aw_message_fingerprint = clip_opt 128 (ae_message_fingerprint e),
      aw_payload_hash = clip_opt 128 (ae_payload_hash e), aw_target_type = clip_opt 32 (ae_target_type e),
      aw_target_exchange = clip_opt 255 (ae_target_exchange e), aw_target_queue = clip_opt 255 (ae_target_queue e),
      aw_target_routing_key = clip_opt 255 (ae_target_routing_key e), aw_result = clip 32 (ae_result e),
      aw_error_message = ae_error_message e,
      aw_request_ip = clip_opt 64 (opt_or (ae_request_ip e) (rc_ip ctx)),
      aw_user_agent = clip_opt 512 (opt_or (opt_or (ae_user_agent e) (rc_agent ctx)) None),
      aw_metadata = with_context ctx (ae_metadata e)\<rparr>"

text \<open>\<open>_to_dict\<close>\<close>

definition audit_dict :: "pylib \<Rightarrow> audit_row \<Rightarrow> pyval dict" where
  "audit_dict L r =
     [(''id'', PInt (aw_id r)), (''timestamp'', PStr (isoformat L (aw_timestamp r))),
      (''username'', PStr (aw_username r)), (''action'', PStr (aw_action r)),
      (''source_queue'', opt_str (aw_source_queue r)),
      (''message_fingerprint'', opt_str (aw_message_fingerprint r)),
      (''payload_hash'', opt_str (aw_payload_hash r)), (''target_type'', opt_str (aw_target_type r)),
      (''target_exchange'', opt_str (aw_target_exchange r)), (''target_queue'', opt_str (aw_target_queue r)),
      (''target_routing_key'', opt_str (aw_target_routing_key r)), (''result'', PStr (aw_result r)),
      (''error_message'', opt_str (aw_error_message r)), (''request_ip'', opt_str (aw_request_ip r)),
      (''user_agent'', opt_str (aw_user_agent r)), (''metadata'', PDict (aw_metadata r))]"

text \<open>The answer, the table, and the lines on the log.\<close>

definition record_event ::
  "pylib \<Rightarrow> request_context \<Rightarrow> bool \<Rightarrow> int \<Rightarrow> audit_entry \<Rightarrow> audit_row list \<Rightarrow> pyval dict \<times> audit_row list \<times> string list"
where
  "record_event L ctx stream_to_log new_id e rows =
     (let row = audit_row_of L ctx new_id e; shown = audit_dict L row
      in (shown, rows @ [row], if stream_to_log then [json_dumps L (PDict shown)] else []))"


section \<open>Reading (list, count, delete_older_than)\<close>

definition wanted :: "string option \<Rightarrow> string option \<Rightarrow> bool" where
  "wanted filter_value v \<longleftrightarrow> str_or filter_value [] = [] \<or> v = Some (str_or filter_value [])"

definition audit_list ::
  "string option \<Rightarrow> string option \<Rightarrow> string option \<Rightarrow> string option \<Rightarrow> nat \<Rightarrow> audit_row list \<Rightarrow> audit_row list"
where
  "audit_list action username source_queue result limit rows =
     take limit (sort_key (\<lambda>r. - as_utc (aw_timestamp r))
       (filter (\<lambda>r. wanted action (Some (aw_action r)) \<and> wanted username (Some (aw_username r)) \<and>
          wanted source_queue (aw_source_queue r) \<and> wanted result (Some (aw_result r))) rows))"

definition audit_count :: "string \<Rightarrow> int \<Rightarrow> audit_row list \<Rightarrow> nat" where
  "audit_count result since rows =
     length (filter (\<lambda>r. aw_result r = result \<and> as_utc (aw_timestamp r) \<ge> since) rows)"

text \<open>The rows kept, and how many were dropped.\<close>

definition delete_older_than :: "int \<Rightarrow> int \<Rightarrow> audit_row list \<Rightarrow> nat \<times> audit_row list" where
  "delete_older_than now n_days rows =
     (let cutoff = now - n_days * seconds 86400; old = (\<lambda>r. as_utc (aw_timestamp r) < cutoff)
      in (length (filter old rows), filter (\<lambda>r. \<not> old r) rows))"


section \<open>Exporting (iter_all)\<close>

definition oldest_first :: "audit_row list \<Rightarrow> audit_row list" where
  "oldest_first rows = sort_key (\<lambda>r. (as_utc (aw_timestamp r), aw_id r)) rows"

definition BATCH_SIZE :: nat where
  "BATCH_SIZE = 500"

text \<open>The pages from page \<open>i\<close> on; \<open>None\<close> when \<open>fuel\<close> pages are not enough.\<close>

fun pages_from :: "nat \<Rightarrow> nat \<Rightarrow> (nat \<Rightarrow> audit_row list) \<Rightarrow> nat \<Rightarrow> audit_row list option" where
  "pages_from batch 0 views i = None"
| "pages_from batch (Suc fuel) views i =
     (let rows = take batch (drop (i * batch) (oldest_first (views i)))
      in if rows = [] then Some []
         else map_option ((@) rows) (pages_from batch fuel views (Suc i)))"

definition iter_all :: "nat \<Rightarrow> (nat \<Rightarrow> audit_row list) \<Rightarrow> audit_row list option" where
  "iter_all fuel views = pages_from BATCH_SIZE fuel views 0"


section \<open>CSV and JSON (routes/audit.py)\<close>

definition quote :: char where
  "quote = CHR 0x22"

definition formula_starts :: "char set" where
  "formula_starts = {CHR ''='', CHR ''+'', CHR ''-'', CHR ''@'', CHR 0x09, CHR 0x0D}"

definition guard_cell :: "string \<Rightarrow> string" where
  "guard_cell text = (case text of [] \<Rightarrow> text | c # _ \<Rightarrow> if c \<in> formula_starts then CHR 0x27 # text else text)"

fun double_quotes :: "string \<Rightarrow> string" where
  "double_quotes [] = []"
| "double_quotes (c # cs) = (if c = quote then [quote, quote] else [c]) @ double_quotes cs"

definition cell_text :: "pylib \<Rightarrow> pyval \<Rightarrow> string" where
  "cell_text L v = guard_cell (if v = PNone then [] else py_str L v)"

definition csv_cell :: "pylib \<Rightarrow> pyval \<Rightarrow> string" where
  "csv_cell L v = [quote] @ double_quotes (cell_text L v) @ [quote]"

definition csv_header :: "string list" where
  "csv_header = [''id'', ''timestamp'', ''username'', ''action'', ''source_queue'',
     ''target_queue'', ''target_exchange'', ''result'', ''error'']"

definition csv_fields :: "pyval dict \<Rightarrow> pyval list" where
  "csv_fields event = map (py_get event) [''id'', ''timestamp'', ''username'', ''action'', ''source_queue'',
     ''target_queue'', ''target_exchange'', ''result'', ''error_message'']"

definition csv_line :: "string list \<Rightarrow> string" where
  "csv_line cells = join_with '','' cells @ [CHR 0x0A]"

definition csv_export :: "pylib \<Rightarrow> audit_row list \<Rightarrow> string" where
  "csv_export L events =
     csv_line csv_header @ concat (map (\<lambda>r. csv_line (map (csv_cell L) (csv_fields (audit_dict L r)))) events)"

fun json_stream :: "pylib \<Rightarrow> bool \<Rightarrow> audit_row list \<Rightarrow> string" where
  "json_stream L first [] = '']''"
| "json_stream L first (r # rs) =
     (if first then [] else '','') @ json_dumps L (PDict (audit_dict L r)) @ json_stream L False rs"

definition json_export :: "pylib \<Rightarrow> audit_row list \<Rightarrow> string" where
  "json_export L events = ''['' @ json_stream L True events"

end
