(* ===== verification/Audit_Trail_Properties.thy ===== *)
theory Audit_Trail_Properties
  imports Audit_Trail Sample_World "HOL-Library.Sublist"
begin

text \<open>
  The audit trail: every row fits its columns and says with which rights it was written; an export
  that runs while others write contains every event that was there when it began, each once unless an
  older one was committed meanwhile; and
  the CSV reads back cell for cell, no cell of it a formula.
\<close>


section \<open>Rows fit their columns\<close>

definition fits :: "nat \<Rightarrow> string option \<Rightarrow> bool" where
  "fits n v \<longleftrightarrow> (case v of None \<Rightarrow> True | Some s \<Rightarrow> utf8_length s \<le> n)"

text \<open>The lengths of \<open>AuditEventModel\<close>.\<close>

definition row_fits :: "audit_row \<Rightarrow> bool" where
  "row_fits r \<longleftrightarrow> fits 128 (Some (aw_username r)) \<and> fits 64 (Some (aw_action r)) \<and> fits 255 (aw_source_queue r) \<and>
     fits 128 (aw_message_fingerprint r) \<and> fits 128 (aw_payload_hash r) \<and> fits 32 (aw_target_type r) \<and>
     fits 255 (aw_target_exchange r) \<and> fits 255 (aw_target_queue r) \<and> fits 255 (aw_target_routing_key r) \<and>
     fits 32 (Some (aw_result r)) \<and> fits 64 (aw_request_ip r) \<and> fits 512 (aw_user_agent r)"

lemma clip_fits: "fits n (Some (clip n s))" "fits n (clip_opt n v)"
  by (cases v; simp add: fits_def clip_opt_def clip_def utf8_length_take)+

lemma clip_same: "fits n (Some s) \<Longrightarrow> clip n s = s"
  by (simp add: fits_def clip_def)

lemma with_context_own:
  "distinct (map fst meta) \<Longrightarrow> dict_get meta k = Some v \<Longrightarrow> dict_get (with_context ctx meta) k = Some v"
  by (auto simp: with_context_def Let_def map_of_dict_merge distinct_dict_merge map_add_def
      simp del: map_of_eq_Some_iff split: option.splits)

lemma with_context_role:
  assumes "distinct (map fst meta)" "dict_get meta ''role'' = None" "rc_role ctx = Some r"
  shows "dict_get (with_context ctx meta) ''role'' = Some (PStr r)"
  using assms
  by (auto simp: with_context_def Let_def map_of_dict_merge distinct_dict_merge map_add_def
      simp del: map_of_eq_Some_iff split: option.splits)

text \<open>
  No audit row is refused for its length: whatever the attempt carried, every column of the row
  fits; a queue name that fits is kept as it is; the row says the role it was written with, unless
  the event gives one itself; and everything the event gives is in its metadata.
\<close>

theorem audit_row_always_fits:
  assumes "distinct (map fst (ae_metadata e))"
  shows "row_fits (audit_row_of L ctx i e) \<and>
   (fits 255 (ae_source_queue e) \<longrightarrow> aw_source_queue (audit_row_of L ctx i e) = ae_source_queue e) \<and>
   (\<forall>r. rc_role ctx = Some r \<longrightarrow> dict_get (ae_metadata e) ''role'' = None \<longrightarrow>
      dict_get (aw_metadata (audit_row_of L ctx i e)) ''role'' = Some (PStr r)) \<and>
   (\<forall>k v. dict_get (ae_metadata e) k = Some v \<longrightarrow> dict_get (aw_metadata (audit_row_of L ctx i e)) k = Some v)"
proof (intro conjI)
  show "row_fits (audit_row_of L ctx i e)"
    by (simp add: row_fits_def audit_row_of_def clip_fits)
  show "fits 255 (ae_source_queue e) \<longrightarrow> aw_source_queue (audit_row_of L ctx i e) = ae_source_queue e"
    by (cases "ae_source_queue e") (simp_all add: audit_row_of_def clip_opt_def clip_same)
  have meta: "aw_metadata (audit_row_of L ctx i e) = with_context ctx (ae_metadata e)"
    by (simp add: audit_row_of_def)
  show "\<forall>r. rc_role ctx = Some r \<longrightarrow> dict_get (ae_metadata e) ''role'' = None \<longrightarrow>
      dict_get (aw_metadata (audit_row_of L ctx i e)) ''role'' = Some (PStr r)"
    unfolding meta using with_context_role [OF assms] by blast
  show "\<forall>k v. dict_get (ae_metadata e) k = Some v \<longrightarrow> dict_get (aw_metadata (audit_row_of L ctx i e)) k = Some v"
    unfolding meta using with_context_own [OF assms] by blast
qed

definition admin_context :: request_context where
  "admin_context = \<lparr>rc_ip = None, rc_agent = None, rc_scope = Some (''prod'', ''/''), rc_role = Some ''Admin''\<rparr>"

definition long_entry :: audit_entry where
  "long_entry = (audit_entry_of (replicate 200 CHR ''a'') ''replay'' 0)
     \<lparr>ae_source_queue := Some ''dlq'', ae_metadata := [(''mode'', PStr ''move'')]\<rparr>"

theorem audit_row_always_fits_witness:
  "row_fits (audit_row_of sample_lib admin_context 1 long_entry) \<and>
   aw_source_queue (audit_row_of sample_lib admin_context 1 long_entry) = Some ''dlq'' \<and>
   dict_get (aw_metadata (audit_row_of sample_lib admin_context 1 long_entry)) ''role'' = Some (PStr ''Admin'')"
proof -
  have e: "ae_metadata long_entry = [(''mode'', PStr ''move'')]" "ae_source_queue long_entry = Some ''dlq''"
    "rc_role admin_context = Some ''Admin''" "fits 255 (Some ''dlq'')"
    by (simp_all add: long_entry_def admin_context_def fits_def utf8_length_def)
  then have d: "distinct (map fst (ae_metadata long_entry))" "dict_get (ae_metadata long_entry) ''role'' = None"
    by simp_all
  show ?thesis
    using audit_row_always_fits [OF d(1), of sample_lib admin_context 1] d(2) e(2,3,4) by metis
qed


section \<open>Exporting while others write\<close>

definition row_key :: "audit_row \<Rightarrow> int \<times> int" where
  "row_key r = (as_utc (aw_timestamp r), aw_id r)"

lemma oldest_first_key: "oldest_first rows = sort_key row_key rows"
  unfolding oldest_first_def by (rule arg_cong [where f = "\<lambda>k. sort_key k rows"]) (simp add: fun_eq_iff row_key_def)

text \<open>Between two pages events are recorded, wherever their time puts them, and none is dropped.\<close>

definition only_added :: "(nat \<Rightarrow> audit_row list) \<Rightarrow> bool" where
  "only_added views \<longleftrightarrow> (\<forall>i. \<exists>new. views (Suc i) = views i @ new)"

text \<open>They are newer than all that were there.\<close>

definition only_recorded :: "(nat \<Rightarrow> audit_row list) \<Rightarrow> bool" where
  "only_recorded views \<longleftrightarrow>
     (\<forall>i. \<exists>new. views (Suc i) = views i @ new \<and> (\<forall>r \<in> set (views i). \<forall>n \<in> set new. row_key r \<le> row_key n))"

lemma sort_key_append:
  assumes "\<forall>x \<in> set xs. \<forall>y \<in> set ys. f x \<le> f y"
  shows "sort_key f (xs @ ys) = sort_key f xs @ sort_key f ys"
proof (rule properties_for_sort_key)
  show "filter (\<lambda>x. f k = f x) (sort_key f xs @ sort_key f ys) = filter (\<lambda>x. f k = f x) (xs @ ys)" for k
    using sort_key_stable [of f "f k" xs] sort_key_stable [of f "f k" ys] by (simp add: eq_commute)
qed (use assms in \<open>simp_all add: sorted_append\<close>)

lemma recorded_prefix:
  assumes "only_recorded views" "i \<le> j"
  shows "prefix (oldest_first (views i)) (oldest_first (views j))"
  using assms(2)
proof (induction rule: dec_induct)
  case (step n)
  obtain new where "views (Suc n) = views n @ new" "\<forall>r \<in> set (views n). \<forall>m \<in> set new. row_key r \<le> row_key m"
    using assms(1) unfolding only_recorded_def by blast
  then have "prefix (oldest_first (views n)) (oldest_first (views (Suc n)))"
    by (simp add: oldest_first_key sort_key_append)
  with step.IH show ?case by (rule prefix_order.trans)
qed simp

text \<open>A page and what follows it.\<close>

lemma page_split: "drop (i * b) xs = take b (drop (i * b) xs) @ drop (Suc i * b) xs"
  using append_take_drop_id [of b "drop (i * b) xs"] by (simp add: add.commute)

lemma prefix_page: "prefix xs ys \<Longrightarrow> prefix (take b (drop k xs)) (take b (drop k ys))"
  by (auto simp: prefix_def)

lemma pages_from_Suc:
  assumes "pages_from b (Suc fuel) views i = Some out"
  obtains (stop) "take b (drop (i * b) (oldest_first (views i))) = []" "out = []"
  | (more) rest where "pages_from b fuel views (Suc i) = Some rest"
      "out = take b (drop (i * b) (oldest_first (views i))) @ rest"
  using assms by (auto simp: Let_def split: if_splits)

text \<open>Everything that was there when page \<open>i\<close> was due, and nothing that is not there at the end.\<close>

lemma pages_complete:
  assumes "only_recorded views" "0 < b"
  shows "pages_from b fuel views i = Some out \<Longrightarrow> subseq (drop (i * b) (oldest_first (views 0))) out"
proof (induction fuel arbitrary: i out)
  case (Suc fuel)
  let ?s = "\<lambda>i. oldest_first (views i)"
  have page: "prefix (take b (drop (i * b) (?s 0))) (take b (drop (i * b) (?s i)))"
    by (intro prefix_page recorded_prefix [OF assms(1)]) simp
  from Suc.prems show ?case
  proof (cases rule: pages_from_Suc)
    case stop
    with page have "take b (drop (i * b) (?s 0)) = []" by simp
    with assms(2) have "drop (i * b) (?s 0) = []" by (metis take_eq_Nil less_irrefl)
    then show ?thesis by simp
  next
    case (more rest)
    have split: "drop (i * b) (?s 0) = take b (drop (i * b) (?s 0)) @ drop (Suc i * b) (?s 0)" by (rule page_split)
    show ?thesis
      unfolding more(2) by (subst split) (intro list_emb_append_mono prefix_imp_subseq page Suc.IH more(1))
  qed
qed simp

lemma pages_genuine:
  assumes "only_recorded views"
  shows "pages_from b fuel views i = Some out \<Longrightarrow> subseq out (drop (i * b) (oldest_first (views (i + fuel))))"
proof (induction fuel arbitrary: i out)
  case (Suc fuel)
  let ?s = "\<lambda>i. oldest_first (views i)"
  let ?final = "?s (i + Suc fuel)"
  from Suc.prems show ?case
  proof (cases rule: pages_from_Suc)
    case (more rest)
    have page: "prefix (take b (drop (i * b) (?s i))) (take b (drop (i * b) ?final))"
      by (intro prefix_page recorded_prefix [OF assms]) simp
    have split: "drop (i * b) ?final = take b (drop (i * b) ?final) @ drop (Suc i * b) ?final" by (rule page_split)
    have rest: "subseq rest (drop (Suc i * b) ?final)" using Suc.IH [OF more(1)] by simp
    show ?thesis
      unfolding more(2) by (subst split) (intro list_emb_append_mono prefix_imp_subseq page rest)
  qed simp
qed simp

lemma pages_terminate:
  assumes "\<And>i. length (views i) \<le> bound" "bound \<le> (i + n) * b"
  shows "\<exists>out. pages_from b (Suc n) views i = Some out"
  using assms(2)
proof (induction n arbitrary: i)
  case 0
  with assms(1) [of i] have "length (oldest_first (views i)) \<le> i * b" by (simp add: oldest_first_def)
  then show ?case by simp
next
  case (Suc n)
  then have "bound \<le> (Suc i + n) * b" by simp
  from Suc.IH [OF this] obtain out where "pages_from b (Suc n) views (Suc i) = Some out" by blast
  then show ?case
    unfolding pages_from.simps(2) [of b "Suc n" views i] Let_def by (simp del: pages_from.simps)
qed

lemma only_recorded_added: "only_recorded views \<Longrightarrow> only_added views"
  unfolding only_recorded_def only_added_def by blast

text \<open>An event that was there stays in the order of the table, and moves only to later places.\<close>

lemma insort_key_filter:
  "sorted (map f xs) \<Longrightarrow> insort_key f x xs = filter (\<lambda>y. \<not> f x \<le> f y) xs @ x # filter (\<lambda>y. f x \<le> f y) xs"
proof (induction xs)
  case (Cons a xs)
  show ?case
  proof (cases "f x \<le> f a")
    case True
    then have "\<forall>y \<in> set xs. f x \<le> f y" using Cons.prems by (auto intro: order_trans)
    with True show ?thesis by (simp add: filter_empty_conv filter_id_conv)
  qed (use Cons in simp)
qed simp

lemma subseq_insort_key:
  assumes "subseq xs ys" "sorted (map f xs)" "sorted (map f ys)"
  shows "subseq (insort_key f x xs) (insort_key f x ys)"
  unfolding insort_key_filter [OF assms(2)] insort_key_filter [OF assms(3)]
  using assms(1) by (intro list_emb_append_mono subseq_Cons2 subseq_filter)

lemma subseq_sort_key: "subseq (sort_key f xs) (sort_key f (xs @ ys))"
proof (induction xs)
  case (Cons x xs)
  then show ?case by (simp add: sort_key_simps subseq_insort_key)
qed simp

lemma subseq_tl: "subseq xs ys \<Longrightarrow> subseq (tl xs) (tl ys)"
  by (cases xs; cases ys) (auto split: if_splits dest: subseq_Cons')

lemma subseq_drop: "subseq xs ys \<Longrightarrow> subseq (drop k xs) (drop k ys)"
  by (induction k arbitrary: xs ys) (auto simp: drop_Suc subseq_tl)

lemma subseq_subset: "subseq xs ys \<Longrightarrow> set xs \<subseteq> set ys"
  by (induction rule: list_emb.induct) auto

lemma added_stays:
  assumes "only_added views"
  shows "set (drop k (oldest_first (views i))) \<subseteq> set (drop k (oldest_first (views (Suc i))))"
proof -
  from assms obtain new where "views (Suc i) = views i @ new" unfolding only_added_def by blast
  then have "subseq (oldest_first (views i)) (oldest_first (views (Suc i)))"
    by (simp add: oldest_first_key subseq_sort_key)
  then show ?thesis by (intro subseq_subset subseq_drop)
qed

lemma added_mono:
  assumes "only_added views"
  shows "set (views i) \<subseteq> set (views (i + n))"
proof (induction n)
  case (Suc n)
  from assms obtain new where "views (Suc (i + n)) = views (i + n) @ new" unfolding only_added_def by blast
  with Suc show ?case by auto
qed simp

lemma pages_reach_all:
  assumes "only_added views" "0 < b"
  shows "pages_from b fuel views i = Some out \<Longrightarrow> set (drop (i * b) (oldest_first (views i))) \<subseteq> set out"
proof (induction fuel arbitrary: i out)
  case (Suc fuel)
  let ?s = "oldest_first (views i)"
  from Suc.prems show ?case
  proof (cases rule: pages_from_Suc)
    case stop
    with assms(2) show ?thesis by auto
  next
    case (more rest)
    from added_stays [OF assms(1), of "Suc i * b" i] Suc.IH [OF more(1)]
    have "set (drop (Suc i * b) ?s) \<subseteq> set rest" by blast
    then show ?thesis unfolding more(2) by (subst page_split) auto
  qed
qed simp

lemma pages_from_view:
  assumes "only_added views"
  shows "pages_from b fuel views i = Some out \<Longrightarrow> set out \<subseteq> set (views (i + fuel))"
proof (induction fuel arbitrary: i out)
  case (Suc fuel)
  from Suc.prems show ?case
  proof (cases rule: pages_from_Suc)
    case (more rest)
    have "set (take b (drop (i * b) (oldest_first (views i)))) \<subseteq> set (views i)"
      by (auto simp: oldest_first_def dest!: in_set_takeD in_set_dropD)
    with added_mono [OF assms, of i "Suc fuel"] Suc.IH [OF more(1)] show ?thesis unfolding more(2) by auto
  qed simp
qed simp

text \<open>
  C27. An export taken while others write is complete and true: as long as events are only added, in
  whatever order of time they are committed, and the table stays within some bound, it ends, contains
  every event that was there when it began, and nothing but events that are in the table when it ends.
  If the added events are newer than those before them, each is in it once and in order. (An older one
  that is committed late moves the offsets, and an event is exported twice; a purge moves them back,
  and events are left out: the witness shows both.)
\<close>

theorem export_complete:
  assumes "only_added views" and "\<And>i. length (views i) \<le> bound" and "bound \<le> n * BATCH_SIZE"
  shows "\<exists>out. iter_all (Suc n) views = Some out \<and>
    set (views 0) \<subseteq> set out \<and> set out \<subseteq> set (views (Suc n)) \<and>
    (only_recorded views \<longrightarrow> subseq (oldest_first (views 0)) out \<and> subseq out (oldest_first (views (Suc n))))"
proof -
  obtain out where out: "pages_from BATCH_SIZE (Suc n) views 0 = Some out"
    using pages_terminate [of views bound 0 n BATCH_SIZE] assms(2,3) by auto
  have b: "0 < BATCH_SIZE" by (simp add: BATCH_SIZE_def)
  have "set (views 0) \<subseteq> set out"
    using pages_reach_all [OF assms(1) b out] by (simp add: oldest_first_def)
  with pages_from_view [OF assms(1) out] pages_complete [OF _ b out] pages_genuine [OF _ out] out show ?thesis
    by (auto simp: iter_all_def)
qed

definition sample_event :: "int \<Rightarrow> audit_row" where
  "sample_event i = audit_row_of sample_lib admin_context i (audit_entry_of ''ada'' ''replay'' i)"

text \<open>The second view has one more event.\<close>

definition growing :: "nat \<Rightarrow> audit_row list" where
  "growing i = (if i = 0 then [sample_event 1] else [sample_event 1, sample_event 2])"

lemma growing_recorded: "only_recorded growing"
  unfolding only_recorded_def
proof
  fix i
  have "row_key (sample_event 1) \<le> row_key (sample_event 2)" by code_simp
  then show "\<exists>new. growing (Suc i) = growing i @ new \<and> (\<forall>r \<in> set (growing i). \<forall>n \<in> set new. row_key r \<le> row_key n)"
    by (intro exI [of _ "if i = 0 then [sample_event 2] else []"]) (simp add: growing_def)
qed

text \<open>A page of one: an event older than the exported one is committed, or the exported one is purged.\<close>

definition committed_late :: "nat \<Rightarrow> audit_row list" where
  "committed_late i = (if i = 0 then [sample_event 2] else [sample_event 2, sample_event 1])"

theorem export_complete_witness:
  "(\<exists>out. iter_all 2 growing = Some out \<and> subseq (oldest_first [sample_event 1]) out) \<and>
   (\<exists>out. iter_all 2 committed_late = Some out \<and> sample_event 2 \<in> set out) \<and>
   pages_from 1 9 committed_late 0 = Some [sample_event 2, sample_event 2] \<and>
   map_option length (pages_from 1 9 (\<lambda>i. if i = 0 then [sample_event 1, sample_event 2] else [sample_event 2]) 0) = Some 1"
proof (intro conjI)
  have "length (growing i) \<le> 2" for i by (simp add: growing_def)
  from export_complete [OF only_recorded_added [OF growing_recorded] this, of 1] growing_recorded obtain out where
    "iter_all (Suc 1) growing = Some out" "subseq (oldest_first (growing 0)) out"
    by (auto simp: BATCH_SIZE_def)
  moreover have "Suc 1 = 2" "growing 0 = [sample_event 1]" by (simp_all add: growing_def)
  ultimately show "\<exists>out. iter_all 2 growing = Some out \<and> subseq (oldest_first [sample_event 1]) out" by metis
  have added: "only_added committed_late"
    unfolding only_added_def
  proof
    fix i
    show "\<exists>new. committed_late (Suc i) = committed_late i @ new"
      by (intro exI [of _ "if i = 0 then [sample_event 1] else []"]) (simp add: committed_late_def)
  qed
  have "length (committed_late i) \<le> 2" for i by (simp add: committed_late_def)
  from export_complete [OF added this, of 1] obtain out where
    "iter_all (Suc 1) committed_late = Some out" "set (committed_late 0) \<subseteq> set out"
    by (auto simp: BATCH_SIZE_def)
  moreover have "Suc 1 = 2" "sample_event 2 \<in> set (committed_late 0)" by (simp_all add: committed_late_def)
  ultimately show "\<exists>out. iter_all 2 committed_late = Some out \<and> sample_event 2 \<in> set out" by (metis subsetD)
  show "pages_from 1 9 committed_late 0 = Some [sample_event 2, sample_event 2]" by code_simp
  show "map_option length (pages_from 1 9 (\<lambda>i. if i = 0 then [sample_event 1, sample_event 2] else [sample_event 2]) 0) = Some 1"
    by code_simp
qed


section \<open>The CSV reads back\<close>

text \<open>A reader of CSV as RFC 4180 describes it: cells in quotes or not, a doubled quote for a quote.\<close>

datatype csv_mode = Start | Plain | Quoted | After

fun read_csv :: "csv_mode \<Rightarrow> string \<Rightarrow> string list \<Rightarrow> string \<Rightarrow> string list list" where
  "read_csv m cell cells [] = (if m = Start \<and> cells = [] then [] else [cells @ [cell]])"
| "read_csv Quoted cell cells (c # cs) =
     (if c = quote then read_csv After cell cells cs else read_csv Quoted (cell @ [c]) cells cs)"
| "read_csv m cell cells (c # cs) =
     (if c = CHR '','' then read_csv Start [] (cells @ [cell]) cs
      else if c = CHR 0x0A then (cells @ [cell]) # read_csv Start [] [] cs
      else if c = quote \<and> m = Start then read_csv Quoted [] cells cs
      else if c = quote \<and> m = After then read_csv Quoted (cell @ [quote]) cells cs
      else read_csv Plain (cell @ [c]) cells cs)"

lemma read_quoted:
  "read_csv Quoted cell cells (double_quotes s @ quote # rest) = read_csv Quoted (cell @ s) cells (quote # rest)"
  by (induction s arbitrary: cell) (simp_all add: quote_def)

lemma read_cell:
  "read_csv Start [] cells (csv_cell L v @ rest) = read_csv After (cell_text L v) cells rest"
  using read_quoted [of "[]" cells "cell_text L v" rest] by (simp add: csv_cell_def quote_def)

definition bare :: "string \<Rightarrow> bool" where
  "bare s \<longleftrightarrow> list_all (\<lambda>c. c \<noteq> CHR '','' \<and> c \<noteq> CHR 0x0A \<and> c \<noteq> quote) s"

lemma read_plain:
  "bare s \<Longrightarrow> read_csv Plain cell cells (s @ rest) = read_csv Plain (cell @ s) cells rest"
  by (induction s arbitrary: cell) (auto simp: bare_def)

lemma read_bare_cell:
  "s \<noteq> [] \<Longrightarrow> bare s \<Longrightarrow> read_csv Start [] cells (s @ rest) = read_csv Plain s cells rest"
  by (cases s) (auto simp: bare_def read_plain)

text \<open>A line whose every cell is read as some text.\<close>

lemma read_line:
  assumes "\<And>p cells rest. p \<in> set ps \<Longrightarrow> \<exists>m. m \<in> {Plain, After} \<and> read_csv Start [] cells (fst p @ rest) = read_csv m (snd p) cells rest"
    and "ps \<noteq> []"
  shows "read_csv Start [] cells (csv_line (map fst ps) @ rest) = (cells @ map snd ps) # read_csv Start [] [] rest"
  using assms
proof (induction ps arbitrary: cells)
  case (Cons p ps)
  have p: "\<exists>m. m \<in> {Plain, After} \<and> read_csv Start [] cells (fst p @ more) = read_csv m (snd p) cells more" for more
    using Cons.prems(1) [of p] by simp
  show ?case
  proof (cases ps)
    case Nil
    with p [of "CHR 0x0A # rest"] show ?thesis by (auto simp: csv_line_def)
  next
    case (Cons q qs)
    have line: "csv_line (map fst (p # ps)) @ rest = fst p @ CHR '','' # csv_line (map fst ps) @ rest"
      by (simp add: csv_line_def Cons)
    have "read_csv Start [] cells (csv_line (map fst (p # ps)) @ rest)
        = read_csv Start [] (cells @ [snd p]) (csv_line (map fst ps) @ rest)"
      using p [of "CHR '','' # csv_line (map fst ps) @ rest"] unfolding line by auto
    also have "\<dots> = ((cells @ [snd p]) @ map snd ps) # read_csv Start [] [] rest"
      using Cons.prems(1) by (intro Cons.IH) (auto simp: Cons)
    finally show ?thesis by simp
  qed
qed simp

lemma read_header:
  "read_csv Start [] [] (csv_line csv_header @ rest) = csv_header # read_csv Start [] [] rest"
proof -
  have bare: "\<forall>s \<in> set csv_header. s \<noteq> [] \<and> bare s" by code_simp
  have cells: "map fst (map (\<lambda>s. (s, s)) csv_header) = csv_header" "map snd (map (\<lambda>s. (s, s)) csv_header) = csv_header"
    by (simp_all add: comp_def)
  have nonempty: "map (\<lambda>s. (s, s)) csv_header \<noteq> []" by (simp add: csv_header_def)
  have "\<exists>m. m \<in> {Plain, After} \<and> read_csv Start [] cs (fst p @ more) = read_csv m (snd p) cs more"
    if p: "p \<in> set (map (\<lambda>s. (s, s)) csv_header)" for p cs more
  proof -
    obtain s where "p = (s, s)" "s \<in> set csv_header" using p by auto
    with bare read_bare_cell [of s cs more] show ?thesis by auto
  qed
  from read_line [OF this nonempty, of "[]" rest] show ?thesis unfolding cells by simp
qed

lemma read_event_line:
  assumes "vs \<noteq> []"
  shows "read_csv Start [] [] (csv_line (map (csv_cell L) vs) @ rest) = map (cell_text L) vs # read_csv Start [] [] rest"
proof -
  let ?ps = "map (\<lambda>v. (csv_cell L v, cell_text L v)) vs"
  have "read_csv Start [] [] (csv_line (map fst ?ps) @ rest) = ([] @ map snd ?ps) # read_csv Start [] [] rest"
    by (rule read_line) (use assms in \<open>auto simp: read_cell\<close>)
  then show ?thesis by (simp add: comp_def)
qed

lemma read_events:
  "read_csv Start [] [] (concat (map (\<lambda>r. csv_line (map (csv_cell L) (csv_fields (audit_dict L r)))) events))
     = map (\<lambda>r. map (cell_text L) (csv_fields (audit_dict L r))) events"
proof (induction events)
  case (Cons r events)
  have "csv_fields (audit_dict L r) \<noteq> []" by (simp add: csv_fields_def)
  from read_event_line [OF this] Cons.IH show ?case by simp
qed simp

lemma guarded_cell: "guard_cell s = [] \<or> hd (guard_cell s) \<notin> formula_starts"
  by (cases s) (auto simp: guard_cell_def formula_starts_def)

text \<open>
  The CSV export is safe and lossless: whatever queue names, users and error texts contain
  (quotes, commas, line breaks), a CSV reader gets the header and then, event by event, exactly the
  cells that were written, and no cell of an event can start a spreadsheet formula.
\<close>

theorem csv_export_reads_back:
  "read_csv Start [] [] (csv_export L events) =
     csv_header # map (\<lambda>r. map (cell_text L) (csv_fields (audit_dict L r))) events \<and>
   (\<forall>v. cell_text L v = [] \<or> hd (cell_text L v) \<notin> formula_starts)"
  unfolding csv_export_def read_header read_events by (simp add: cell_text_def guarded_cell)

theorem csv_export_reads_back_witness:
  "map (\<lambda>row. take 2 (drop 3 row)) (read_csv Start [] [] (csv_export sample_lib
     [(sample_event 1)\<lparr>aw_source_queue := Some (''=a'' @ [quote] @ '',b'')\<rparr>]))
   = [[''action'', ''source_queue''], [''replay'', [CHR 0x27] @ ''=a'' @ [quote] @ '',b'']]"
  unfolding csv_export_reads_back [THEN conjunct1] by code_simp

text \<open>The JSON export is one array.\<close>

lemma json_export_array:
  "json_export L events = ''['' @ join_with '','' (map (\<lambda>r. json_dumps L (PDict (audit_dict L r))) events) @ '']''"
proof -
  have "json_stream L False rs = concat (map (\<lambda>r. '','' @ json_dumps L (PDict (audit_dict L r))) rs) @ '']''" for rs
    by (induction rs) simp_all
  moreover have "join_with '','' (x # xs) = x @ concat (map (\<lambda>y. '','' @ y) xs)" for x and xs :: "string list"
    by (induction xs arbitrary: x) simp_all
  ultimately show ?thesis by (cases events) (simp_all add: json_export_def comp_def)
qed

end
