(* ===== verification/Policy_Routes.thy ===== *)
theory Policy_Routes
  imports Platform
begin

text \<open>
  The replay policy routes (app/api/routes/policies.py): who may create, change, pause, preview and
  run a policy. Every route depends on the request's scope (\<open>broker_scope\<close>); \<open>here\<close> is what that
  dependency resolved, \<open>manager\<close> resolves the scope a policy itself belongs to.
\<close>


record policy_body =
  pb_name :: string
  pb_queue :: string
  pb_max_deaths :: int
  pb_backoff :: int
  pb_interval :: int
  pb_cap :: int
  pb_enabled :: bool

text \<open>A policy as it is shown: with when it will run next, if it is on and has run before.\<close>

type_synonym shown_policy = "policy \<times> string option"

fun later :: "int \<Rightarrow> datetime \<Rightarrow> datetime" where
  "later d (Aware t) = Aware (t + d)"
| "later d (Naive t) = Naive (t + d)"

definition with_next_run :: "pylib \<Rightarrow> policy \<Rightarrow> exn + shown_policy" where
  "with_next_run L p =
     (if str_or (last_run_text L p) [] = [] then Inr (p, None)
      else (case fromisoformat L (str_or (last_run_text L p) []) of
              None \<Rightarrow> Inl (mk_exn ValueErr ''Invalid isoformat string'')
            | Some d \<Rightarrow> Inr (p, if pl_enabled p then Some (isoformat L (later (minutes (pl_interval p)) d)) else None)))"

definition policy_found :: "int \<Rightarrow> policy list \<Rightarrow> exn + policy" where
  "policy_found i rows =
     (case policies_get i rows of None \<Rightarrow> Inl (http_error 404 ''Replay policy not found'') | Some p \<Rightarrow> Inr p)"

definition policy_broker :: "manager \<Rightarrow> policy \<Rightarrow> broker io" where
  "policy_broker manager p =
     bnd (outcome (resolve_broker manager (pl_environment p, pl_vhost p))) (\<lambda>m.
       case m of Inr b \<Rightarrow> ret b
       | Inl e \<Rightarrow> raise (if exn_class e = KeyErr then http_error 409 (str_or (exn_text e) []) else e))"

definition queue_exists :: "broker \<Rightarrow> string \<Rightarrow> unit io" where
  "queue_exists b q =
     bnd (outcome (get_queue (bk_env b) (bk_version b) q)) (\<lambda>r.
       case r of Inr _ \<Rightarrow> ret () | Inl _ \<Rightarrow> raise (http_error 404 (''No queue named '' @ q)))"

definition policy_where :: "policy \<Rightarrow> pyval dict" where
  "policy_where p = [(''environment'', opt_str (pl_environment p)), (''vhost'', opt_str (pl_vhost p))]"

fun list_policies :: "pylib \<Rightarrow> policy list \<Rightarrow> exn + shown_policy list" where
  "list_policies L [] = Inr []"
| "list_policies L (p # ps) =
     or_raise (with_next_run L p) (\<lambda>s. or_raise (list_policies L ps) (\<lambda>ss. Inr (s # ss)))"

definition apply_policy :: "policy_body \<Rightarrow> policy \<Rightarrow> policy" where
  "apply_policy b p =
     p\<lparr>pl_name := pb_name b, pl_queue := pb_queue b, pl_max_deaths := pb_max_deaths b, pl_backoff := pb_backoff b,
       pl_interval := pb_interval b, pl_cap := pb_cap b, pl_enabled := pb_enabled b\<rparr>"

definition new_policy :: "string \<Rightarrow> scope \<Rightarrow> policy_body \<Rightarrow> policy" where
  "new_policy created_by place b =
     \<lparr>pl_id = 0, pl_name = pb_name b, pl_queue = pb_queue b, pl_max_deaths = pb_max_deaths b,
      pl_backoff = pb_backoff b, pl_interval = pb_interval b, pl_cap = pb_cap b, pl_enabled = pb_enabled b,
      pl_environment = Some (fst place), pl_vhost = Some (snd place), pl_created_by = created_by,
      pl_last_run = None, pl_last_result = None, pl_failures = 0\<rparr>"

text \<open>The answer shows the policy again, after the audit row.\<close>

definition audited_policy ::
  "env \<Rightarrow> current_user \<Rightarrow> string \<Rightarrow> pyval dict \<Rightarrow> policy option \<Rightarrow> policy list \<Rightarrow> ((exn + shown_policy) \<times> policy list) io"
where
  "audited_policy E user action meta p rows =
     bnd (audited E user action meta () rows) (\<lambda>(r, rows').
       ret (or_raise r (\<lambda>_. case p of None \<Rightarrow> Inl (mk_exn KeyErr ''last_run_at'') | Some q \<Rightarrow> with_next_run (e_lib E) q),
            rows'))"

definition create_policy ::
  "env \<Rightarrow> scope \<times> broker \<Rightarrow> current_user \<Rightarrow> policy_body \<Rightarrow> int \<Rightarrow> policy list \<Rightarrow>
     ((exn + shown_policy) \<times> policy list) io"
where
  "create_policy E here admin body new_id rows =
     bnd (outcome (bnd (lift (require_admin admin)) (\<lambda>_. queue_exists (snd here) (pb_queue body)))) (\<lambda>r.
       case r of
         Inl e \<Rightarrow> ret (Inl e, rows)
       | Inr _ \<Rightarrow>
           (case policies_create new_id (new_policy (cu_username admin) (fst here) body) rows of
              (p, rows') \<Rightarrow>
                audited_policy E admin ''create_replay_policy''
                  ([(''policy'', PInt (pl_id p)), (''name'', PStr (pb_name body)), (''queue'', PStr (pb_queue body))] @
                     policy_where p) (Some p) rows'))"

definition update_policy ::
  "env \<Rightarrow> manager \<Rightarrow> current_user \<Rightarrow> int \<Rightarrow> policy_body \<Rightarrow> policy list \<Rightarrow> ((exn + shown_policy) \<times> policy list) io"
where
  "update_policy E manager admin i body rows =
     bnd (outcome (bnd (lift (or_raise (require_admin admin) (\<lambda>_. policy_found i rows))) (\<lambda>current.
                   bnd (policy_broker manager current) (\<lambda>b.
                   bnd (queue_exists b (pb_queue body)) (\<lambda>_. ret current))))) (\<lambda>r.
       case r of
         Inl e \<Rightarrow> ret (Inl e, rows)
       | Inr current \<Rightarrow>
           (case policies_update i (apply_policy body) (pb_enabled body) rows of
              (p, rows') \<Rightarrow>
                audited_policy E admin ''update_replay_policy''
                  ([(''policy'', PInt i), (''name'', PStr (pb_name body)), (''queue'', PStr (pb_queue body))] @
                     policy_where current) p rows'))"

definition toggle_policy ::
  "env \<Rightarrow> current_user \<Rightarrow> int \<Rightarrow> bool \<Rightarrow> policy list \<Rightarrow> ((exn + shown_policy) \<times> policy list) io"
where
  "toggle_policy E user i enabled rows =
     (case or_raise (require_operator user) (\<lambda>_.
             if enabled \<and> \<not> is_admin user
             then Inl (http_error 403 ''Enabling a replay policy requires the Admin role'')
             else policy_found i rows) of
        Inl e \<Rightarrow> ret (Inl e, rows)
      | Inr current \<Rightarrow>
          (case policies_update i (\<lambda>p. p\<lparr>pl_enabled := enabled\<rparr>) enabled rows of
             (p, rows') \<Rightarrow>
               audited_policy E user ''update_replay_policy''
                 ([(''policy'', PInt i), (''name'', PStr (pl_name current)), (''enabled'', PBool enabled)] @
                    policy_where current) p rows'))"

definition delete_policy ::
  "env \<Rightarrow> current_user \<Rightarrow> int \<Rightarrow> policy list \<Rightarrow> ((exn + int) \<times> policy list) io"
where
  "delete_policy E admin i rows =
     (case or_raise (require_admin admin) (\<lambda>_. policy_found i rows) of
        Inl e \<Rightarrow> ret (Inl e, rows)
      | Inr current \<Rightarrow>
          audited E admin ''delete_replay_policy''
            ([(''policy'', PInt i), (''name'', PStr (pl_name current))] @ policy_where current) i
            (snd (policies_delete i rows)))"

text \<open>\<open>except UnsafeToBrowse\<close> around a run.\<close>

definition unsafe_409 :: "exn + 'a \<Rightarrow> exn + 'a" where
  "unsafe_409 r = (case r of Inr x \<Rightarrow> Inr x
     | Inl e \<Rightarrow> if exn_class e = UnsafeToBrowse then or_raise (exn_str e) (\<lambda>s. Inl (http_error 409 s)) else Inl e)"

definition run_route ::
  "env \<Rightarrow> settings \<Rightarrow> manager \<Rightarrow> int \<Rightarrow> bool \<Rightarrow> policy_state \<Rightarrow> ((exn + run_result) \<times> policy_state) io"
where
  "run_route E cfg manager i preview st =
     (case policy_found i (fst st) of
        Inl e \<Rightarrow> ret (Inl e, st)
      | Inr p \<Rightarrow> bnd (run E cfg manager p preview st) (\<lambda>(r, st'). ret (unsafe_409 r, st')))"

definition preview_policy ::
  "env \<Rightarrow> settings \<Rightarrow> manager \<Rightarrow> current_user \<Rightarrow> int \<Rightarrow> policy_state \<Rightarrow> ((exn + run_result) \<times> policy_state) io"
where
  "preview_policy E cfg manager user i st =
     (case require_operator user of
        Inl e \<Rightarrow> ret (Inl e, st) | Inr _ \<Rightarrow> run_route E cfg manager i True st)"

definition run_policy ::
  "env \<Rightarrow> settings \<Rightarrow> manager \<Rightarrow> current_user \<Rightarrow> int \<Rightarrow> policy_state \<Rightarrow> ((exn + run_result) \<times> policy_state) io"
where
  "run_policy E cfg manager admin i st =
     (case require_admin admin of
        Inl e \<Rightarrow> ret (Inl e, st) | Inr _ \<Rightarrow> run_route E cfg manager i False st)"

end
