(* ===== verification/Message_Routes.thy ===== *)
theory Message_Routes
  imports Policy_Routes Audit_Trail Rendering
begin

text \<open>
  The routes that show messages and put one on the broker: browsing, paging and exporting
  (app/api/routes/messages.py) and the composer's publish (app/api/routes/actions.py).

  \<open>here\<close> is what the scope dependency of the request resolved: the scope and its broker's services.
  Query parameters and bodies are those that passed the declared bounds. A streamed answer is its
  text, with the exception that cut it short.
\<close>


section \<open>Reading a queue\<close>

record page_query =
  pq_limit :: "int option"
  pq_snapshot :: "string option"
  pq_offset :: int
  pq_contains :: "string option"
  pq_format :: "string option"
  pq_min_deaths :: "int option"

definition render_one :: "pylib \<Rightarrow> settings \<Rightarrow> message_record \<Rightarrow> exn + pyval dict" where
  "render_one L cfg r = message_to_dict L r (Some (s_max_message_size_bytes cfg)) (masked_field_names cfg)"

fun render :: "pylib \<Rightarrow> settings \<Rightarrow> message_record list \<Rightarrow> exn + pyval dict list" where
  "render L cfg [] = Inr []"
| "render L cfg (r # rs) =
     or_raise (render_one L cfg r) (\<lambda>m. or_raise (render L cfg rs) (\<lambda>ms. Inr (m # ms)))"

definition snapshot_gone :: exn where
  "snapshot_gone = http_error 404 (''Snapshot expired or unknown '' @ em_dash @ '' scan the queue again'')"

text \<open>\<open>_snapshot\<close>\<close>

definition stored_snapshot ::
  "env \<Rightarrow> scope \<Rightarrow> string \<Rightarrow> string \<Rightarrow> snap_store \<Rightarrow> ((exn + snap) \<times> snap_store) io"
where
  "stored_snapshot E scope key q store =
     bnd (clock E) (\<lambda>now.
       case store_get now key scope q store of
         (None, store') \<Rightarrow> ret (Inl snapshot_gone, store')
       | (Some s, store') \<Rightarrow> ret (Inr s, store'))"

text \<open>One scan down to the browse depth, kept in the store.\<close>

definition new_snapshot ::
  "env \<Rightarrow> browse_guard \<Rightarrow> scope \<Rightarrow> string \<Rightarrow> int \<Rightarrow> snap_store \<Rightarrow> ((exn + snap) \<times> snap_store) io"
where
  "new_snapshot E guard scope q depth store =
     bnd (outcome (snapshot E guard q depth)) (\<lambda>r.
       case r of
         Inl e \<Rightarrow> ret (unsafe_409 (Inl e), store)
       | Inr sc \<Rightarrow>
           bnd (token_urlsafe E 12) (\<lambda>new_id.
           bnd (clock E) (\<lambda>now.
             case store_add now new_id scope q (sc_records sc) (sc_ready sc) (sc_stopped sc) depth store of
               (s, store') \<Rightarrow> ret (Inr s, store'))))"

definition page_of ::
  "pylib \<Rightarrow> settings \<Rightarrow> page_query \<Rightarrow> int \<Rightarrow> snap \<Rightarrow> exn + pyval dict"
where
  "page_of L cfg rq page s =
     or_raise (matching L s (pq_contains rq) (pq_format rq) (pq_min_deaths rq)) (\<lambda>matches.
     or_raise (render L cfg (take (nat page) (drop (nat (pq_offset rq)) matches))) (\<lambda>shown.
       Inr [(''messages'', PList (map PDict shown)), (''total'', PInt (int (length matches))),
            (''offset'', PInt (pq_offset rq)), (''limit'', PInt page), (''snapshot'', PDict (snap_meta L s))]))"

definition plain_read :: "page_query \<Rightarrow> bool" where
  "plain_read rq \<longleftrightarrow> pq_snapshot rq = None \<and>
     \<not> (pq_offset rq \<noteq> 0 \<or> str_or (pq_contains rq) [] \<noteq> [] \<or> str_or (pq_format rq) [] \<noteq> [] \<or>
        int_or (pq_min_deaths rq) 0 \<noteq> 0)"

text \<open>How many messages a page holds, and how deep a scan goes.\<close>

definition page_limits :: "env \<Rightarrow> settings \<Rightarrow> page_query \<Rightarrow> (int \<times> int) io" where
  "page_limits E cfg rq =
     bnd (effective_limit E cfg ''max_preview_messages'') (\<lambda>cap.
     bnd (effective_limit E cfg ''max_browse_depth'') (\<lambda>depth.
       ret (min (int_or (pq_limit rq) cap) cap, depth)))"

definition list_messages_route ::
  "settings \<Rightarrow> scope \<times> broker \<Rightarrow> string \<Rightarrow> page_query \<Rightarrow> snap_store \<Rightarrow> ((exn + pyval dict) \<times> snap_store) io"
where
  "list_messages_route cfg here q rq store =
     (let E = bk_env (snd here); guard = service_guard E (bk_version (snd here))
      in bnd (outcome (page_limits E cfg rq)) (\<lambda>limits.
         case limits of
           Inl e \<Rightarrow> ret (Inl e, store)
         | Inr (page, depth) \<Rightarrow>
             if plain_read rq then
               bnd (outcome (list_messages E guard q page (Some depth))) (\<lambda>r.
                 ret (or_raise (unsafe_409 r) (\<lambda>records.
                      or_raise (render (e_lib E) cfg records) (\<lambda>shown.
                        Inr [(''messages'', PList (map PDict shown))])), store))
             else
               bnd (if pq_snapshot rq = None \<or> pq_snapshot rq = Some ''new''
                    then new_snapshot E guard (fst here) q depth store
                    else stored_snapshot E (fst here) (str_or (pq_snapshot rq) []) q store) (\<lambda>(found, store').
                 ret (or_raise found (page_of (e_lib E) cfg rq page), store'))))"


section \<open>One message\<close>

definition lookup_404 :: "exn + 'a \<Rightarrow> exn + 'a" where
  "lookup_404 r =
     (case r of
        Inr x \<Rightarrow> Inr x
      | Inl e \<Rightarrow> if is_lookup_error e then or_raise (exn_str e) (\<lambda>s. Inl (http_error 404 s)) else Inl e)"

definition get_message_route ::
  "settings \<Rightarrow> scope \<times> broker \<Rightarrow> string \<Rightarrow> string \<Rightarrow> string option \<Rightarrow> snap_store \<Rightarrow>
     ((exn + pyval dict) \<times> snap_store) io"
where
  "get_message_route cfg here q fp snapshot_id store =
     (let E = bk_env (snd here); guard = service_guard E (bk_version (snd here))
      in bnd (outcome (effective_limit E cfg ''refetch_window_size'')) (\<lambda>w.
         case w of
           Inl e \<Rightarrow> ret (Inl e, store)
         | Inr refetch \<Rightarrow>
             bnd (if str_or snapshot_id [] = [] then ret (None, store)
                  else bnd (clock E) (\<lambda>now. ret (store_get now (str_or snapshot_id []) (fst here) q store)))
               (\<lambda>(found, store').
               bnd (outcome
                     (case (case found of None \<Rightarrow> None
                            | Some s \<Rightarrow> map_option (\<lambda>i. sn_records s ! nat i) (dict_get (positions (sn_records s)) fp)) of
                        Some m \<Rightarrow> ret m
                      | None \<Rightarrow> bnd (effective_limit E cfg ''max_browse_depth'') (\<lambda>depth.
                                get_message E guard q fp refetch (Some depth)))) (\<lambda>r.
                 ret (or_raise (lookup_404 (unsafe_409 r)) (\<lambda>m.
                      or_raise (render_one (e_lib E) cfg m) (\<lambda>shown.
                        Inr [(''message'', PDict shown)])), store')))))"


section \<open>Exporting a snapshot\<close>

definition EXPORT_COLUMNS :: "string list" where
  "EXPORT_COLUMNS = [''fingerprint'', ''message_id'', ''correlation_id'', ''timestamp'', ''exchange'',
     ''routing_key'', ''deaths'', ''payload_format'', ''payload'', ''headers'']"

definition export_row :: "pylib \<Rightarrow> pyval dict \<Rightarrow> pyval dict" where
  "export_row L message =
     dict_merge message
       [(''payload'', case py_get message ''payload'' of PStr s \<Rightarrow> PStr s | v \<Rightarrow> PStr (json_dumps L v)),
        (''headers'', PStr (json_dumps L (py_get message ''headers'')))]"

definition export_line :: "pylib \<Rightarrow> pyval dict \<Rightarrow> string" where
  "export_line L message = csv_line (map (\<lambda>c. csv_cell L (py_get (export_row L message) c)) EXPORT_COLUMNS)"

type_synonym streamed = "string \<times> exn option"

fun as_json_from :: "pylib \<Rightarrow> settings \<Rightarrow> bool \<Rightarrow> message_record list \<Rightarrow> streamed" where
  "as_json_from L cfg first [] = ('']'', None)"
| "as_json_from L cfg first (r # rs) =
     (case render_one L cfg r of
        Inl e \<Rightarrow> ([], Some e)
      | Inr m \<Rightarrow>
          (case as_json_from L cfg False rs of
             (rest, end) \<Rightarrow> ((if first then [] else '','') @ json_dumps L (PDict m) @ rest, end)))"

definition as_json :: "pylib \<Rightarrow> settings \<Rightarrow> message_record list \<Rightarrow> streamed" where
  "as_json L cfg rs = (case as_json_from L cfg True rs of (rest, end) \<Rightarrow> (''['' @ rest, end))"

fun as_csv_from :: "pylib \<Rightarrow> settings \<Rightarrow> message_record list \<Rightarrow> streamed" where
  "as_csv_from L cfg [] = ([], None)"
| "as_csv_from L cfg (r # rs) =
     (case render_one L cfg r of
        Inl e \<Rightarrow> ([], Some e)
      | Inr m \<Rightarrow> (case as_csv_from L cfg rs of (rest, end) \<Rightarrow> (export_line L m @ rest, end)))"

definition as_csv :: "pylib \<Rightarrow> settings \<Rightarrow> message_record list \<Rightarrow> streamed" where
  "as_csv L cfg rs = (case as_csv_from L cfg rs of (rest, end) \<Rightarrow> (csv_line EXPORT_COLUMNS @ rest, end))"

definition export_entry :: "string \<Rightarrow> string \<Rightarrow> string \<Rightarrow> nat \<Rightarrow> string \<Rightarrow> int \<Rightarrow> audit_entry" where
  "export_entry user q snapshot_id n form t =
     (audit_entry_of user ''export_snapshot'' t)\<lparr>ae_source_queue := Some q, ae_result := ''success'',
        ae_metadata := [(''snapshot'', PStr snapshot_id), (''messages'', PInt (int n)), (''format'', PStr form)]\<rparr>"

text \<open>No stream is opened unless the audit row is written.\<close>

definition export_snapshot ::
  "settings \<Rightarrow> scope \<times> broker \<Rightarrow> string \<Rightarrow> string \<Rightarrow> string \<Rightarrow> string \<Rightarrow> string option \<Rightarrow> string option \<Rightarrow>
     int option \<Rightarrow> snap_store \<Rightarrow> ((exn + streamed) \<times> snap_store) io"
where
  "export_snapshot cfg here user q snapshot_id form text payload_format min_deaths store =
     (let E = bk_env (snd here)
      in bnd (stored_snapshot E (fst here) snapshot_id q store) (\<lambda>(found, store').
         case or_raise found (\<lambda>s. matching (e_lib E) s text payload_format min_deaths) of
           Inl e \<Rightarrow> ret (Inl e, store')
         | Inr matches \<Rightarrow>
             bnd (clock E) (\<lambda>t.
             bnd (outcome (record_audit E (export_entry user q snapshot_id (length matches) form t))) (\<lambda>a.
               ret (or_raise a (\<lambda>_. Inr ((if form = ''json'' then as_json else as_csv) (e_lib E) cfg matches)),
                    store')))))"

definition safe_name_char :: "char \<Rightarrow> bool" where
  "safe_name_char c \<longleftrightarrow>
     CHR ''A'' \<le> c \<and> c \<le> CHR ''Z'' \<or> CHR ''a'' \<le> c \<and> c \<le> CHR ''z'' \<or> CHR ''0'' \<le> c \<and> c \<le> CHR ''9'' \<or>
     c \<in> {CHR ''.'', CHR ''_'', CHR ''-''}"

text \<open>The attachment's name: every other character of the queue's name (one or more bytes) is an underscore.\<close>

definition attachment_name :: "string \<Rightarrow> string \<Rightarrow> string" where
  "attachment_name q form =
     ''attachment; filename='' @
     concat (map (\<lambda>p. if length p = 1 \<and> safe_name_char (hd p) then p else ''_'') (code_points q)) @
     ''-snapshot.'' @ form"


section \<open>The composer\<close>

record publish_properties =
  pp_message_id :: "string option"
  pp_correlation_id :: "string option"
  pp_content_type :: "string option"
  pp_type :: "string option"
  pp_app_id :: "string option"
  pp_reply_to :: "string option"
  pp_priority :: "int option"
  pp_delivery_mode :: "int option"

record publish_request =
  pr_exchange :: string
  pr_routing_key :: string
  pr_payload :: string
  pr_headers :: "pyval dict"
  pr_properties :: publish_properties
  pr_mark_test :: bool
  pr_confirm :: bool

definition publish_content_type :: "pylib \<Rightarrow> publish_request \<Rightarrow> string" where
  "publish_content_type L body =
     str_or (pp_content_type (pr_properties body))
       (if json_loads L (pr_payload body) = None then ''text/plain'' else ''application/json'')"

definition publish_headers :: "pylib \<Rightarrow> string \<Rightarrow> publish_request \<Rightarrow> pyval dict \<Rightarrow> int \<Rightarrow> pyval dict" where
  "publish_headers L user body custom now =
     (let headers = dict_merge (dict_merge (pr_headers body) custom)
            [(''x-queuelens-published-by'', PStr user),
             (''x-queuelens-published-at'', PStr (isoformat L (Aware now)))]
      in if pr_mark_test body then dict_set ''x-queuelens-test'' (PBool True) headers else headers)"

definition publish_target :: "publish_request \<Rightarrow> replay_target" where
  "publish_target body =
     (if pr_exchange body \<noteq> []
      then \<lparr>target_type = ''exchange'', target_queue = None, target_exchange = Some (pr_exchange body),
            target_routing_key = Some (pr_routing_key body)\<rparr>
      else queue_target (pr_routing_key body))"

definition composed :: "publish_request \<Rightarrow> string \<Rightarrow> pyval dict \<Rightarrow> outgoing" where
  "composed body content_type headers =
     (let p = pr_properties body
      in \<lparr>o_body = pr_payload body, o_expiration_ms = None, o_headers = headers,
          o_content_type = Some content_type, o_content_encoding = PNone,
          o_delivery_mode = opt_int (pp_delivery_mode p), o_priority = opt_int (pp_priority p),
          o_correlation_id = pp_correlation_id p, o_reply_to = opt_str (pp_reply_to p),
          o_message_id = pp_message_id p, o_timestamp = None, o_type = opt_str (pp_type p),
          o_user_id = PNone, o_app_id = opt_str (pp_app_id p)\<rparr>)"

definition publish_entry ::
  "string \<Rightarrow> publish_request \<Rightarrow> string \<Rightarrow> int \<Rightarrow> string \<Rightarrow> string option \<Rightarrow> pyval dict \<Rightarrow> audit_entry"
where
  "publish_entry user body content_type t result err meta =
     with_target (Some (publish_target body))
       ((audit_entry_of user ''publish'' t)\<lparr>ae_result := result, ae_error_message := err,
          ae_metadata := dict_merge [(''content_type'', PStr content_type), (''test'', PBool (pr_mark_test body))] meta\<rparr>)"

definition send_composed :: "env \<Rightarrow> publish_request \<Rightarrow> outgoing \<Rightarrow> unit io" where
  "send_composed E body message =
     with_channel E
       (if pr_exchange body \<noteq> []
        then bnd (get_exchange E (pr_exchange body) True) (\<lambda>_.
             publish_to E (pr_exchange body) (pr_routing_key body) message)
        else bnd (declare_queue E (pr_routing_key body) True) (\<lambda>_.
             publish_to E [] (pr_routing_key body) message))"

definition publish_http_error :: "exn \<Rightarrow> exn" where
  "publish_http_error e =
     (if exn_class e = ChannelNotFoundErr
      then http_error 404 ''Target not found; check the exchange and routing key / queue''
      else if exn_class e = DeliveryErr
      then http_error 400 ''Message was unroutable; the exchange does not route this key to any queue''
      else if is_refusal e then http_error 409 (refusal_text e)
      else if exn_class e = ValueErr then http_error 400 (text_of e)
      else http_error 502 ''Publish failed'')"

text \<open>The attempt itself and its outcome in the audit trail.\<close>

definition publish_attempt ::
  "env \<Rightarrow> string \<Rightarrow> publish_request \<Rightarrow> string \<Rightarrow> pyval dict \<Rightarrow> pyval dict io"
where
  "publish_attempt E user body content_type headers =
     bnd (clock E) (\<lambda>t1.
     bnd (outcome (send_composed E body (composed body content_type headers))) (\<lambda>r.
     bnd (clock E) (\<lambda>t2.
       case r of
         Inl e \<Rightarrow>
           bnd (record_audit E (publish_entry user body content_type t2 ''failed'' (Some (error_text e []))
                  [(''duration_ms'', PInt (duration_ms t1 t2))])) (\<lambda>_.
             raise (publish_http_error e))
       | Inr _ \<Rightarrow>
           bnd (record_audit E (publish_entry user body content_type t2 ''success'' None
                  [(''duration_ms'', PInt (duration_ms t1 t2)), (''headers_added'', PDict headers)])) (\<lambda>_.
             ret [(''status'', PStr ''success''), (''content_type'', PStr content_type),
                  (''target'', PDict [(''exchange'', opt_str (if pr_exchange body = [] then None else Some (pr_exchange body))),
                                    (''routing_key'', PStr (pr_routing_key body))]),
                  (''duration_ms'', PInt (duration_ms t1 t2))]))))"

text \<open>From the prepared message on: recorded, sent, recorded.\<close>

definition publish_message ::
  "env \<Rightarrow> string \<Rightarrow> publish_request \<Rightarrow> string \<Rightarrow> pyval dict \<Rightarrow> pyval dict io"
where
  "publish_message E user body content_type headers =
     bnd (clock E) (\<lambda>t0.
     bnd (record_audit E (publish_entry user body content_type t0 ''started'' None [])) (\<lambda>_.
       publish_attempt E user body content_type headers))"

definition publish :: "scope \<times> broker \<Rightarrow> current_user \<Rightarrow> publish_request \<Rightarrow> pyval dict io" where
  "publish here user body =
     (let E = bk_env (snd here)
      in bnd (lift (require_operator user)) (\<lambda>_.
         if \<not> pr_confirm body then raise (http_error 400 ''Publish confirmation is required'')
         else bnd (custom_headers E) (\<lambda>custom.
              bnd (clock E) (\<lambda>now.
                publish_message E (cu_username user) body (publish_content_type (e_lib E) body)
                  (publish_headers (e_lib E) (cu_username user) body custom now)))))"

end
