(* ===== verification/Bulk_Routes.thy ===== *)
theory Bulk_Routes
  imports Policy_Routes
begin

text \<open>
  The bulk routes (app/api/routes/bulk.py): who may run which batch, which messages a dry run is
  asked for, and what each failure answers. The service underneath is \<open>Bulk_Service\<close>. A route gets
  the approved batches (and, for a dry run, the snapshots) and hands them back.
\<close>


record snapshot_match =
  sm_contains :: "string option"
  sm_format :: "string option"
  sm_min_deaths :: "int option"

record bulk_dry_run_request =
  bd_source_queue :: string
  bd_action :: string
  bd_mode :: string
  bd_target :: "replay_target option"
  bd_payload_contains :: "string option"
  bd_fingerprints :: "string list option"
  bd_snapshot :: "string option"
  bd_match :: "snapshot_match option"

record bulk_execute_request =
  be_batch_id :: string
  be_confirm :: bool


section \<open>Which messages\<close>

text \<open>\<open>list(dict.fromkeys(xs))\<close>: the first of equal ones stays.\<close>

definition first_of_each :: "'a list \<Rightarrow> 'a list" where
  "first_of_each xs = rev (remdups (rev xs))"

definition chosen_fingerprints ::
  "env \<Rightarrow> scope \<Rightarrow> bulk_dry_run_request \<Rightarrow> snap_store \<Rightarrow> ((exn + string list option) \<times> snap_store) io"
where
  "chosen_fingerprints E scope body store =
     (case bd_match body of
        None \<Rightarrow> ret (Inr (bd_fingerprints body), store)
      | Some wanted \<Rightarrow>
          if bd_fingerprints body \<noteq> None \<or> str_or (bd_snapshot body) [] = []
          then ret (Inl (http_error 400 (''`match` picks from a snapshot: send it with '' @
                      ''`snapshot` and without `fingerprints`'')), store)
          else bnd (clock E) (\<lambda>now.
            case store_get now (str_or (bd_snapshot body) []) scope (bd_source_queue body) store of
              (None, store') \<Rightarrow>
                ret (Inl (http_error 404 (''Snapshot expired or unknown '' @ em_dash @ '' scan the queue again'')), store')
            | (Some s, store') \<Rightarrow>
                ret (or_raise (matching (e_lib E) s (sm_contains wanted) (sm_format wanted) (sm_min_deaths wanted)) (\<lambda>records.
                     Inr (Some (first_of_each (map mr_fingerprint records)))), store')))"

definition too_many :: "int \<Rightarrow> int \<Rightarrow> exn" where
  "too_many n max_bulk =
     http_error 400 (int_text n @ '' messages selected; one bulk run acts on at most '' @ int_text max_bulk)"

text \<open>How far the dry run scans: down to the deepest message picked from a snapshot.\<close>

definition dry_run_scan_limit ::
  "env \<Rightarrow> settings \<Rightarrow> scope \<Rightarrow> bulk_dry_run_request \<Rightarrow> int \<Rightarrow> string list option \<Rightarrow> snap_store \<Rightarrow>
     ((exn + int option) \<times> snap_store) io"
where
  "dry_run_scan_limit E cfg scope body max_bulk fingerprints store =
     (case fingerprints of
        Some (f # fs) \<Rightarrow>
          if str_or (bd_snapshot body) [] \<noteq> []
          then bnd (scan_depth E cfg scope (bd_source_queue body) (f # fs) (bd_snapshot body) store) (\<lambda>(d, store').
                 ret (or_raise d (\<lambda>n. Inr (Some (max max_bulk n))), store'))
          else ret (Inr None, store)
      | _ \<Rightarrow> ret (Inr None, store))"


section \<open>The dry run\<close>

definition dry_run_failed_entry :: "string \<Rightarrow> bulk_dry_run_request \<Rightarrow> int \<Rightarrow> exn \<Rightarrow> audit_entry" where
  "dry_run_failed_entry user body t e =
     with_target (bd_target body)
       ((audit_entry_of user (''bulk_'' @ bd_action body) t)\<lparr>ae_source_queue := Some (bd_source_queue body),
          ae_result := ''failed'', ae_error_message := Some (error_text e []),
          ae_metadata := [(''stage'', PStr ''dry_run''), (''mode'', PStr (bd_mode body))]\<rparr>)"

definition queue_not_found :: exn where
  "queue_not_found = http_error 404 ''Queue not found; check the source queue and replay target''"

definition as_http :: "int \<Rightarrow> exn \<Rightarrow> exn" where
  "as_http code e = (case exn_str e of Inr s \<Rightarrow> http_error code s | Inl e' \<Rightarrow> e')"

definition dry_run_http_error :: "exn \<Rightarrow> exn" where
  "dry_run_http_error e =
     (if exn_class e = UnsafeToBrowse then as_http 409 e
      else if exn_class e = ChannelNotFoundErr then queue_not_found
      else if exn_class e = ValueErr then as_http 400 e
      else http_error 502 ''Bulk dry-run failed'')"

definition service_request ::
  "bulk_dry_run_request \<Rightarrow> string list option \<Rightarrow> int \<Rightarrow> int option \<Rightarrow> int \<Rightarrow> dry_run_request"
where
  "service_request body fingerprints max_bulk scan_limit depth =
     \<lparr>dq_source_queue = bd_source_queue body, dq_action = bd_action body, dq_mode = bd_mode body,
      dq_target = bd_target body, dq_payload_contains = bd_payload_contains body,
      dq_selected = map_option set fingerprints, dq_max_bulk = Some max_bulk, dq_scan_limit = scan_limit,
      dq_depth = Some depth\<rparr>"

definition try_dry_run ::
  "settings \<Rightarrow> broker \<Rightarrow> string \<Rightarrow> bulk_dry_run_request \<Rightarrow> string list option \<Rightarrow> int \<Rightarrow> int option \<Rightarrow>
     batch_backend \<Rightarrow> ((exn + dry_run_report) \<times> batch_backend) io"
where
  "try_dry_run cfg b user body fingerprints max_bulk scan_limit st =
     (let E = bk_env b
      in bnd (outcome (bnd (effective_limit E cfg ''max_browse_depth'') (\<lambda>depth.
                dry_run E (bk_settings b) (service_guard E (bk_version b))
                  (service_request body fingerprints max_bulk scan_limit depth) st))) (\<lambda>r.
         case r of
           Inr (report, st') \<Rightarrow> ret (Inr report, st')
         | Inl e \<Rightarrow>
             bnd (clock E) (\<lambda>t.
             bnd (outcome (record_audit E (dry_run_failed_entry user body t e))) (\<lambda>a.
               ret (or_raise a (\<lambda>_. Inl (dry_run_http_error e)), st)))))"

definition delete_needs_admin :: "'a \<Rightarrow> exn + 'a" where
  "delete_needs_admin x = Inl (http_error 403 ''Deleting messages requires the Admin role'')"

definition dry_run_allowed :: "current_user \<Rightarrow> bulk_dry_run_request \<Rightarrow> exn + unit" where
  "dry_run_allowed user body =
     or_raise (require_operator user) (\<lambda>_.
       if bd_action body = ''delete'' \<and> \<not> is_admin user then delete_needs_admin () else Inr ())"

definition bulk_dry_run ::
  "settings \<Rightarrow> scope \<times> broker \<Rightarrow> current_user \<Rightarrow> bulk_dry_run_request \<Rightarrow> snap_store \<Rightarrow> batch_backend \<Rightarrow>
     ((exn + dry_run_report) \<times> snap_store \<times> batch_backend) io"
where
  "bulk_dry_run cfg here user body store st =
     (let E = bk_env (snd here)
      in bnd (outcome (bnd (lift (dry_run_allowed user body)) (\<lambda>_. effective_limit E cfg ''max_bulk_size''))) (\<lambda>m.
         case m of
           Inl e \<Rightarrow> ret (Inl e, store, st)
         | Inr max_bulk \<Rightarrow>
             bnd (chosen_fingerprints E (fst here) body store) (\<lambda>(c, store1).
             case c of
               Inl e \<Rightarrow> ret (Inl e, store1, st)
             | Inr fingerprints \<Rightarrow>
                 let n = (case fingerprints of None \<Rightarrow> 0 | Some fs \<Rightarrow> int (length fs))
                 in if n > max_bulk then ret (Inl (too_many n max_bulk), store1, st)
                    else
                      bnd (dry_run_scan_limit E cfg (fst here) body max_bulk fingerprints store1) (\<lambda>(d, store2).
                      case d of
                        Inl e \<Rightarrow> ret (Inl e, store2, st)
                      | Inr scan_limit \<Rightarrow>
                          bnd (try_dry_run cfg (snd here) (cu_username user) body fingerprints max_bulk scan_limit st)
                            (\<lambda>(r, st'). ret (r, store2, st'))))))"


section \<open>The execution\<close>

definition execute_http_error :: "exn \<Rightarrow> exn" where
  "execute_http_error e =
     (if exn_class e = UnknownBatchErr then as_http 404 e
      else if exn_class e = UnsafeToBrowse then as_http 409 e
      else if exn_class e = ChannelNotFoundErr then queue_not_found
      else if is_refusal e then http_error 409 (refusal_text e @ ''. Nothing was moved.'')
      else if exn_class e = ValueErr then as_http 400 e
      else http_error 502 ''Bulk operation failed'')"

text \<open>May this user run this batch, and was it confirmed?\<close>

definition execute_allowed :: "current_user \<Rightarrow> bulk_execute_request \<Rightarrow> bulk_batch option \<Rightarrow> exn + unit" where
  "execute_allowed user body pending =
     (if (case pending of None \<Rightarrow> False | Some b \<Rightarrow> bb_action b = ''delete'') \<and> \<not> is_admin user
      then delete_needs_admin ()
      else if \<not> be_confirm body then Inl (http_error 400 ''Bulk execution confirmation is required'')
      else Inr ())"

definition bulk_execute ::
  "scope \<times> broker \<Rightarrow> current_user \<Rightarrow> bulk_execute_request \<Rightarrow> batch_backend \<Rightarrow>
     ((exn + bulk_outcome) \<times> batch_backend) io"
where
  "bulk_execute here user body st =
     (let E = bk_env (snd here); cfg = bk_settings (snd here); guard = service_guard E (bk_version (snd here))
      in bnd (clock E) (\<lambda>t.
         case or_raise (require_operator user) (\<lambda>_.
              or_raise (peek_batch (e_lib E) t (be_batch_id body) st) (execute_allowed user body)) of
           Inl e \<Rightarrow> ret (Inl e, st)
         | Inr _ \<Rightarrow>
             bnd (bnd (outcome (custom_headers E)) (\<lambda>hs.
                    case hs of
                      Inl e \<Rightarrow> ret (Inl e, st)
                    | Inr headers \<Rightarrow>
                        execute_audited E cfg guard (be_batch_id body) (cu_username user) headers st)) (\<lambda>(r, st').
             ret (case r of Inl e \<Rightarrow> Inl (execute_http_error e) | Inr x \<Rightarrow> Inr x, st'))))"


section \<open>The single delete, with the role it needs\<close>

definition delete_message ::
  "settings \<Rightarrow> scope \<times> broker \<Rightarrow> current_user \<Rightarrow> action_request \<Rightarrow> snap_store \<Rightarrow>
     ((exn + action_result) \<times> snap_store) io"
where
  "delete_message cfg here user body store =
     (case require_admin user of
        Inl e \<Rightarrow> ret (Inl e, store)
      | Inr _ \<Rightarrow>
          route_delete (bk_env (snd here)) cfg (service_guard (bk_env (snd here)) (bk_version (snd here))) (fst here)
            (cu_username user) body store)"

end
