(* ===== verification/Bulk_Route_Properties.thy ===== *)
theory Bulk_Route_Properties
  imports Bulk_Routes Bulk_Properties Browse_Properties Policy_Route_Properties
begin

text \<open>
  What the bulk routes promise: without the Admin role nothing is deleted, and one run is about at
  most as many messages as the configured limit allows.
\<close>


section \<open>Deleting, by whichever route\<close>

datatype delete_call =
    Delete_One action_request
  | Plan_Delete bulk_dry_run_request
  | Run_Batch bulk_execute_request

text \<open>Would this call delete messages? A batch is known by its token, expired or not.\<close>

fun deletes :: "pylib \<Rightarrow> batch_backend \<Rightarrow> delete_call \<Rightarrow> bool" where
  "deletes L st (Delete_One body) \<longleftrightarrow> True"
| "deletes L st (Plan_Delete body) \<longleftrightarrow> bd_action body = ''delete''"
| "deletes L st (Run_Batch body) \<longleftrightarrow>
     (case kept L st (be_batch_id body) of None \<Rightarrow> False | Some b \<Rightarrow> bb_action b = ''delete'')"

text \<open>A call's answer is reduced to whether it was refused; the tables are handed on.\<close>

definition answered :: "((exn + 'a) \<times> 's) io \<Rightarrow> ('s \<Rightarrow> 't) \<Rightarrow> (bool \<times> 't) io" where
  "answered m f = bnd m (\<lambda>(r, s). ret (case r of Inl _ \<Rightarrow> False | Inr _ \<Rightarrow> True, f s))"

fun delete_step ::
  "settings \<Rightarrow> scope \<times> broker \<Rightarrow> current_user \<Rightarrow> delete_call \<Rightarrow> snap_store \<times> batch_backend \<Rightarrow>
     (bool \<times> snap_store \<times> batch_backend) io"
where
  "delete_step cfg here user (Delete_One body) (store, st) =
     answered (delete_message cfg here user body store) (\<lambda>s. (s, st))"
| "delete_step cfg here user (Plan_Delete body) (store, st) =
     answered (bulk_dry_run cfg here user body store st) (\<lambda>s. s)"
| "delete_step cfg here user (Run_Batch body) (store, st) =
     answered (bulk_execute here user body st) (\<lambda>s. (store, s))"

definition reads_settings :: "event \<Rightarrow> bool" where
  "reads_settings e \<longleftrightarrow> (\<exists>k r. e = EvSetting k r)"

lemma emits_custom_headers: "emits reads_settings (custom_headers E)"
  unfolding custom_headers_def get_safe_def by (intro emits_intros) (simp add: reads_settings_def)

lemma expired_peek:
  assumes "good_backend L st" "peek_batch L t i st = Inr None" "t \<le> t'"
  shows "peek_batch L t' i st = Inr None \<and> (\<exists>rows. st = Database rows \<or> kept L st i = None) \<and>
    (\<forall>b. kept L st i = Some b \<longrightarrow> \<not> fresh t' b)"
  using assms(1)
proof (cases rule: peek_cases[where now = t and i = i])
  case (found b)
  with assms(2) show ?thesis by simp
next
  case gone
  have late: "\<forall>b. kept L st i = Some b \<longrightarrow> \<not> fresh t' b" using gone(2) assms(3) by fastforce
  from assms(1) show ?thesis
  proof (cases rule: peek_cases[where now = t' and i = i])
    case (found b)
    with late assms(2,3) show ?thesis
      by (cases st) (auto simp: repo_peek_def decoded_def split: option.splits if_splits prod.splits)
  next
    case gone
    with late assms(2) show ?thesis by (cases st) auto
  qed
qed

lemma unknown_take:
  assumes "good_backend L st" "\<forall>b. kept L st i = Some b \<longrightarrow> \<not> fresh t b" "st = Database rows"
  shows "take_batch L t i st = (Inr None, st)"
proof -
  have "database_store L (Database rows)" using assms(1,3) by (simp add: good_backend_def)
  from take_database [OF this, of t i] assms(2,3) show ?thesis
    by (auto simp del: take_batch.simps kept.simps split: option.splits)
qed

lemma expired_execution:
  assumes "good_backend (e_lib E) (Database rows)" "peek_batch (e_lib E) (e_clock E h) i (Database rows) = Inr None"
  shows "execute_audited E cfg guard i user headers (Database rows) h =
    (Inr (Inl (unknown_batch EXPIRED_TEXT), Database rows), h)"
proof -
  from expired_peek [OF assms(1,2) order_refl]
  have "\<forall>b. kept (e_lib E) (Database rows) i = Some b \<longrightarrow> \<not> fresh (e_clock E h) b" by blast
  from unknown_take [OF assms(1) this refl] assms(2) show ?thesis
    by (simp add: execute_audited_def execute_unfold bnd_def clock_def observe_def ret_def outcome_def unknown_batch_def
        del: take_batch.simps peek_batch.simps)
qed

lemma bulk_execute_unfold:
  "bulk_execute here user body st h =
     (let E = bk_env (snd here)
      in case or_raise (require_operator user) (\<lambda>_.
           or_raise (peek_batch (e_lib E) (e_clock E h) (be_batch_id body) st) (execute_allowed user body)) of
        Inl e \<Rightarrow> (Inr (Inl e, st), h)
      | Inr _ \<Rightarrow>
          (case custom_headers E h of
             (Inl e, h1) \<Rightarrow> (Inr (Inl (execute_http_error e), st), h1)
           | (Inr headers, h1) \<Rightarrow>
               (case execute_audited E (bk_settings (snd here)) (service_guard E (bk_version (snd here)))
                       (be_batch_id body) (cu_username user) headers st h1 of
                  (Inl e, h2) \<Rightarrow> (Inl e, h2)
                | (Inr (r, st'), h2) \<Rightarrow>
                    (Inr (case r of Inl e \<Rightarrow> Inl (execute_http_error e) | Inr x \<Rightarrow> Inr x, st'), h2))))"
  by (simp add: bulk_execute_def Let_def bnd_def clock_def observe_def ret_def outcome_def
      split: sum.split prod.split)

text \<open>A delete batch and a user who is no Admin: the route answers an error before it looks at the broker.\<close>

lemma delete_batch_refused:
  assumes "\<not> is_admin user" and "good_backend (e_lib E) st" and E: "E = bk_env (snd here)"
    and "kept (e_lib E) st (be_batch_id body) = Some b" "bb_action b = ''delete''"
    and mono: "\<And>g u. e_clock E g \<le> e_clock E (g @ u)"
  shows "does (bulk_execute here user body st) h (\<lambda>r t. (\<exists>e. r = Inr (Inl e, st)) \<and> list_all reads_settings t)"
proof -
  let ?i = "be_batch_id body"
  let ?check = "or_raise (require_operator user) (\<lambda>_.
              or_raise (peek_batch (e_lib E) (e_clock E h) ?i st) (execute_allowed user body))"
  show ?thesis
  proof (cases ?check)
    case (Inl e)
    then show ?thesis unfolding E by (simp add: does_def bulk_execute_unfold Let_def)
  next
    case (Inr x)
    from assms(2) have gone: "peek_batch (e_lib E) (e_clock E h) ?i st = Inr None"
    proof (cases rule: peek_cases [where now = "e_clock E h" and i = ?i])
      case (found p)
      with Inr assms(1,4,5) show ?thesis
        by (simp add: execute_allowed_def delete_needs_admin_def or_raise_def split: sum.splits)
    qed simp
    from expired_peek [OF assms(2) gone order_refl] assms(4) obtain rows where st: "st = Database rows" by auto
    have run: "execute_audited E cfg guard ?i name headers st g = (Inr (Inl (unknown_batch EXPIRED_TEXT), st), g)"
      if "g = h @ u" for cfg guard name headers g u
    proof -
      from expired_peek [OF assms(2) gone mono [of h u]] that
      have "peek_batch (e_lib E) (e_clock E g) ?i (Database rows) = Inr None" by (simp add: st)
      from expired_execution [OF assms(2) [unfolded st] this] show ?thesis by (simp add: st)
    qed
    obtain hs t where hs: "custom_headers E h = (hs, h @ t)" "list_all reads_settings t"
      using emitsD [OF emits_custom_headers] by (metis surj_pair)
    then show ?thesis using Inr run [OF refl, of _ _ _ _ t] unfolding E
      by (cases hs) (simp_all add: does_def bulk_execute_unfold Let_def)
  qed
qed

text \<open>
  C29. Without the Admin role nothing is deleted, by whichever route: the single delete, the dry run
  of a delete and the execution of a delete batch are refused, before anything but the stored
  settings is read; snapshots and approved batches stay as they were. It holds for expired batches
  too (the database hides them, memory does not), as long as the clock does not go back during the
  request.
\<close>

theorem non_admin_cannot_delete:
  assumes "\<not> is_admin user" and "good_backend (e_lib (bk_env (snd here))) (snd st)"
    and "deletes (e_lib (bk_env (snd here))) (snd st) call"
    and "\<And>g u. e_clock (bk_env (snd here)) g \<le> e_clock (bk_env (snd here)) (g @ u)"
  shows "does (delete_step cfg here user call st) h (\<lambda>r t. r = Inr (False, st) \<and> list_all reads_settings t)"
proof (cases call)
  case (Delete_One body)
  then show ?thesis using assms(1)
    by (cases st) (simp add: answered_def delete_message_def require_admin_def does_def bnd_def ret_def)
next
  case (Plan_Delete body)
  then have "\<exists>e. dry_run_allowed user body = Inl e"
    using assms(1,3) by (auto simp: dry_run_allowed_def delete_needs_admin_def or_raise_def split: sum.splits)
  with Plan_Delete show ?thesis
    by (cases st) (auto simp: answered_def bulk_dry_run_def Let_def does_def bnd_def ret_def outcome_def lift_def)
next
  case (Run_Batch body)
  with assms(3) obtain b where b: "kept (e_lib (bk_env (snd here))) (snd st) (be_batch_id body) = Some b"
    "bb_action b = ''delete''" by (auto split: option.splits)
  obtain store bt where st: "st = (store, bt)" by fastforce
  from assms(2) b have "good_backend (e_lib (bk_env (snd here))) bt"
    "kept (e_lib (bk_env (snd here))) bt (be_batch_id body) = Some b" by (simp_all add: st)
  from delete_batch_refused [OF assms(1) this(1) refl this(2) b(2) assms(4)] show ?thesis
    unfolding Run_Batch st delete_step.simps answered_def
    by (rule does_bnd) (auto intro!: does_ret)
qed

definition delete_batch :: bulk_batch where
  "delete_batch = approved_batch\<lparr>bb_action := ''delete'', bb_operator_action := ''delete''\<rparr>"

definition bulk_here :: "scope \<times> broker" where
  "bulk_here = ((''prod'', ''/''), \<lparr>bk_env = bulk_env, bk_settings = sample_settings, bk_version = None\<rparr>)"

theorem non_admin_cannot_delete_witness:
  "does (delete_step sample_settings bulk_here sample_operator
       (Run_Batch \<lparr>be_batch_id = ''token'', be_confirm = True\<rparr>) ([], Memory [(''token'', delete_batch)])) []
     (\<lambda>r t. r = Inr (False, [], Memory [(''token'', delete_batch)]) \<and> list_all reads_settings t)"
proof (rule non_admin_cannot_delete)
  show "\<not> is_admin sample_operator" by code_simp
qed (simp_all add: bulk_here_def delete_batch_def good_backend_def bulk_env_def managed_classic_env_def managed_def
    sample_env_def)


section \<open>How much one run is about\<close>

text \<open>A scan that ends well holds no more messages than its limit.\<close>

lemma fetch_loop_within:
  assumes "fetch_loop E q limit whole mb ready held bytes h = (Inr (Inr res, ms), h')"
    and "int (length held) \<le> limit"
  shows "int (length ms) \<le> limit"
  using assms
proof (induction E q limit whole mb ready held bytes h arbitrary: res ms h' rule: fetch_loop.induct)
  case (1 E q limit whole mb ready held bytes h)
  note eq = "1.prems"(1)[unfolded fetch_loop_simp[of E q limit whole mb ready held bytes h]]
  show ?case
  proof (cases "\<exists>m. e_get E h q = Inr (Some m) \<and> \<not> int (length held) + 1 > limit
      \<and> \<not> (\<not> whole \<and> int (length held) + 1 = limit)
      \<and> \<not> (\<not> whole \<and> (case mb of None \<Rightarrow> False | Some b \<Rightarrow> bytes + int (length (d_body m)) \<ge> b))")
    case False
    with eq "1.prems"(2) show ?thesis
      by (auto split: sum.splits option.splits if_splits)
  next
    case True
    then obtain m where m: "e_get E h q = Inr (Some m)"
        "\<not> int (length held) + 1 > limit" "\<not> (\<not> whole \<and> int (length held) + 1 = limit)"
        "\<not> (\<not> whole \<and> (case mb of None \<Rightarrow> False | Some b \<Rightarrow> bytes + int (length (d_body m)) \<ge> b))"
      by blast
    then have eq': "fetch_loop E q limit whole mb ready (held @ [m]) (bytes + int (length (d_body m)))
        (h @ [EvGet q (Inr (Some m))]) = (Inr (Inr res, ms), h')"
      using eq by (auto split: if_splits)
    then show ?thesis
      using "1.IH"[OF refl refl, of "Some m" m] m by (auto simp: add.commute)
  qed
qed

lemma fetch_within:
  "fetch E q d limit whole mb h = (Inr (Inr res, ms), h') \<Longrightarrow> 0 \<le> limit \<Longrightarrow> int (length ms) \<le> limit"
  using fetch_loop_within[of E q limit whole mb _ "[]"]
  by (auto simp: fetch_def ret_def Let_def split: if_splits)

lemma scan_within:
  assumes "scan E q limit whole mb slim h = (Inr s, h')" and "0 \<le> limit"
  shows "int (length (sc_records s)) \<le> limit"
proof -
  from assms(1) obtain h1 h2 where body: "scan_body E q limit whole mb slim h1 = (Inr s, h2)"
    unfolding scan_def by (elim within_queue_cases) (auto split: option.splits)
  then obtain d h3 f ms h4 where f: "fetch E q d limit whole mb h3 = (Inr (f, ms), h4)"
      "finally_do (bnd (lift f) (\<lambda>(ready, stopped).
            ret \<lparr>sc_records = map (to_record (e_lib E) q slim) ms, sc_ready = ready, sc_stopped = stopped\<rparr>))
         (requeue E ms None) h4 = (Inr s, h2)"
    by (auto simp: scan_body_def bnd_def split: prod.splits sum.splits)
  then obtain res where "f = Inr res" "length (sc_records s) = length ms"
    by (cases f) (auto simp: finally_do_def bnd_def lift_def ret_def split: prod.splits sum.splits)
  with f(1) fetch_within assms(2) show ?thesis by fastforce
qed

lemma length_slice_to: "0 \<le> n \<Longrightarrow> int (length (slice_to n xs)) \<le> n"
  by (simp add: slice_to_def)

text \<open>What a dry run picked: nothing that was not selected, and at most \<open>max_bulk\<close> without a selection.\<close>

lemma dry_run_bounded:
  assumes "dry_run E cfg guard rq st h = (Inr (rep, st'), h')"
    and "dq_max_bulk rq = Some m" "1 \<le> m" "dq_selected rq = None \<longrightarrow> dq_scan_limit rq = None"
  obtains b where "store_batch (e_lib E) b st = Inr st'" "dr_unique rep = int (card (bb_fingerprints b))"
    "finite (bb_fingerprints b)"
    "case dq_selected rq of None \<Rightarrow> int (card (bb_fingerprints b)) \<le> m | Some sel \<Rightarrow> bb_fingerprints b \<subseteq> sel"
proof -
  have m: "int_or (dq_max_bulk rq) n = m" for n using assms(2,3) by (simp add: int_or_def)
  obtain whole h1 limit records h2 op_target where
    limit: "limit = (if whole then int_or (dq_depth rq) (int_or (dq_scan_limit rq) m) else int_or (dq_scan_limit rq) m)" and
    scan: "browser_list_messages E (dq_source_queue rq) limit whole h1 = (Inr records, h2)" and
    rep: "rep = report_of rq (batch_of cfg rq (e_token E h2 16) (e_clock E h2) op_target limit
       (pick_records rq whole m records))" and
    st': "store_batch (e_lib E) (batch_of cfg rq (e_token E h2 16) (e_clock E h2) op_target limit
       (pick_records rq whole m records)) st = Inr st'"
    using assms(1)
    by (auto simp: dry_run_def m bnd_def lift_def Let_def token_urlsafe_def clock_def observe_def ret_def
        split: prod.splits sum.splits)
  let ?picked = "pick_records rq whole m records"
  let ?b = "batch_of cfg rq (e_token E h2 16) (e_clock E h2) op_target limit ?picked"
  have fps: "bb_fingerprints ?b = mr_fingerprint ` set ?picked" by (simp add: batch_of_def Let_def)
  have few: "int (card (bb_fingerprints ?b)) \<le> m" if none: "dq_selected rq = None"
  proof -
    from scan obtain s h3 where s: "scan E (dq_source_queue rq) limit whole None False h1 = (Inr s, h3)" "records = sc_records s"
      by (auto simp: browser_list_messages_def bnd_def ret_def split: prod.splits sum.splits)
    have "int (length ?picked) \<le> m"
    proof (cases whole)
      case True
      have "length ?picked \<le> length (slice_to m records)"
        using none True by (auto simp: pick_records_def Let_def)
      with length_slice_to [of m records] assms(3) show ?thesis by linarith
    next
      case False
      then have "limit = m" using limit none assms(4) by (simp add: int_or_def)
      with scan_within [OF s(1)] s(2) assms(3) have "int (length records) \<le> m" by simp
      moreover have "length ?picked \<le> length records"
        using none False by (auto simp: pick_records_def Let_def)
      ultimately show ?thesis by linarith
    qed
    moreover have "card (mr_fingerprint ` set ?picked) \<le> length ?picked"
      by (metis card_length length_map set_map)
    ultimately show ?thesis by (simp add: fps)
  qed
  have "\<forall>sel. dq_selected rq = Some sel \<longrightarrow> bb_fingerprints ?b \<subseteq> sel"
    unfolding fps using pick_records_subset by blast
  with few have "case dq_selected rq of None \<Rightarrow> int (card (bb_fingerprints ?b)) \<le> m | Some sel \<Rightarrow> bb_fingerprints ?b \<subseteq> sel"
    by (simp split: option.split)
  moreover have "dr_unique rep = int (card (bb_fingerprints ?b))" by (simp add: rep report_of_def)
  moreover have "finite (bb_fingerprints ?b)" by (simp add: fps)
  ultimately show ?thesis using that st' by blast
qed

lemma set_first_of_each [simp]: "set (first_of_each xs) = set xs"
  by (simp add: first_of_each_def)

lemma chosen_given:
  "chosen_fingerprints E scope body store h = (Inr (Inr fps, store'), h') \<Longrightarrow> bd_match body = None \<Longrightarrow>
   fps = bd_fingerprints body"
  by (simp add: chosen_fingerprints_def ret_def)

text \<open>
  C30. One bulk run is about at most as many messages as the limit in force allows, whatever was
  asked for: the limit read at the start of the request is between 1 and 1000, and the batch put
  behind the token names no more fingerprints than that; messages picked one by one bound it too,
  as nothing else is in the batch.
\<close>

theorem bulk_run_bounded:
  assumes "bulk_dry_run cfg here user body store st h = (Inr (Inr report, store', st'), h')"
  shows "\<exists>m b. fst (effective_limit (bk_env (snd here)) cfg ''max_bulk_size'' h) = Inr m \<and> 1 \<le> m \<and> m \<le> 1000 \<and>
    store_batch (e_lib (bk_env (snd here))) b st = Inr st' \<and> dr_unique report = int (card (bb_fingerprints b)) \<and>
    int (card (bb_fingerprints b)) \<le> m \<and>
    (bd_match body = None \<longrightarrow> (\<forall>fs. bd_fingerprints body = Some fs \<longrightarrow> bb_fingerprints b \<subseteq> set fs))"
proof -
  let ?E = "bk_env (snd here)"
  obtain m h1 fps store1 h2 scan_limit store2 h3 where
    m: "effective_limit ?E cfg ''max_bulk_size'' h = (Inr m, h1)" and
    fps: "chosen_fingerprints ?E (fst here) body store h1 = (Inr (Inr fps, store1), h2)" and
    small: "(case fps of None \<Rightarrow> 0 | Some fs \<Rightarrow> int (length fs)) \<le> m" and
    lim: "dry_run_scan_limit ?E cfg (fst here) body m fps store1 h2 = (Inr (Inr scan_limit, store2), h3)" and
    attempted: "try_dry_run cfg (snd here) (cu_username user) body fps m scan_limit st h3 = (Inr (Inr report, st'), h')"
    using assms
    by (auto simp: bulk_dry_run_def Let_def bnd_def lift_def ret_def outcome_def
        split: prod.splits sum.splits if_splits)
  from effective_limit_Inr [OF m] limit_from_bounds [OF ceiling_of_pos] have bounds: "1 \<le> m" "m \<le> 1000"
    by (fastforce simp: ceiling_of_def HARD_CEILING_def)+
  obtain depth h4 where run: "dry_run ?E (bk_settings (snd here)) (service_guard ?E (bk_version (snd here)))
      (service_request body fps m scan_limit depth) st h4 = (Inr (report, st'), h')"
    using attempted
    by (auto simp: try_dry_run_def Let_def bnd_def ret_def outcome_def or_raise_def clock_def observe_def
        split: prod.splits sum.splits)
  have "fps = None \<longrightarrow> scan_limit = None" using lim by (auto simp: dry_run_scan_limit_def ret_def)
  then obtain b where b: "store_batch (e_lib ?E) b st = Inr st'" "dr_unique report = int (card (bb_fingerprints b))"
    "case map_option set fps of None \<Rightarrow> int (card (bb_fingerprints b)) \<le> m | Some sel \<Rightarrow> bb_fingerprints b \<subseteq> sel"
    using dry_run_bounded [OF run] bounds by (auto simp: service_request_def)
  have "int (card (bb_fingerprints b)) \<le> m"
  proof (cases fps)
    case None
    with b(3) show ?thesis by simp
  next
    case (Some fs)
    with b(3) have "card (bb_fingerprints b) \<le> card (set fs)" by (simp add: card_mono)
    with small Some card_length [of fs] show ?thesis by simp
  qed
  moreover have "bd_match body = None \<longrightarrow> (\<forall>fs. bd_fingerprints body = Some fs \<longrightarrow> bb_fingerprints b \<subseteq> set fs)"
    using chosen_given [OF fps] b(3) by auto
  ultimately show ?thesis using m bounds b(1,2) by auto
qed

definition sample_dry_run :: bulk_dry_run_request where
  "sample_dry_run = \<lparr>bd_source_queue = ''dlq'', bd_action = ''park'', bd_mode = ''copy'', bd_target = None,
     bd_payload_contains = None, bd_fingerprints = Some [''a'', ''c''], bd_snapshot = None, bd_match = None\<rparr>"

definition dry_run_answer where
  "dry_run_answer = bulk_dry_run sample_settings bulk_here sample_operator sample_dry_run [] (Memory []) []"

theorem bulk_run_bounded_witness:
  "\<exists>report store' st' h' m. dry_run_answer = (Inr (Inr report, store', st'), h') \<and> dr_unique report = 2 \<and> 2 \<le> m \<and> m \<le> (1000::int)"
proof -
  have v: "case dry_run_answer of (Inr (Inr report, store', st'), h') \<Rightarrow> dr_unique report = 2 | _ \<Rightarrow> False"
    by code_simp
  obtain x h' where x: "dry_run_answer = (x, h')" by fastforce
  obtain report store' st' where r: "x = Inr (Inr report, store', st')" "dr_unique report = 2"
    using v [unfolded x prod.case] by (cases x; cases "fst (projr x)") (auto split: prod.splits)
  from bulk_run_bounded [OF x [unfolded dry_run_answer_def r(1)]] obtain m :: int where
    "dr_unique report \<le> m" "m \<le> 1000" by auto
  with r x show ?thesis by (intro exI [of _ report] exI [of _ m] exI conjI) auto
qed

end
