(* ===== verification/Message_Route_Properties.thy ===== *)
theory Message_Route_Properties
  imports Message_Routes Bulk_Route_Properties
begin

text \<open>
  What the message routes promise: paging through a snapshot shows every matching message once and
  leaves the broker alone, and what the composer publishes is recorded first and says who sent it.
\<close>


section \<open>Paging through a snapshot\<close>

definition messages_in :: "pyval dict \<Rightarrow> pyval list" where
  "messages_in answer = (case py_get answer ''messages'' of PList ms \<Rightarrow> ms | _ \<Rightarrow> [])"

text \<open>
  What other requests do with the store of snapshots: look one up, or take one. It forgets the one
  used longest ago, so a snapshot that was just used outlasts three of them.
\<close>

datatype store_use =
    Look string scope string
  | Take string scope string "message_record list" int "string option" int

fun use_store :: "int \<times> store_use \<Rightarrow> snap_store \<Rightarrow> snap_store" where
  "use_store (now, Look key scope q) store = snd (store_get now key scope q store)"
| "use_store (now, Take new_id scope q records ready stopped depth) store =
     snd (store_add now new_id scope q records ready stopped depth store)"

text \<open>Uses that come before a snapshot expires and do not take one of the same id.\<close>

fun spares :: "string \<Rightarrow> snap \<Rightarrow> int \<times> store_use \<Rightarrow> bool" where
  "spares key s (now, Look _ _ _) \<longleftrightarrow> now < expires_at s"
| "spares key s (now, Take new_id _ _ _ _ _ _) \<longleftrightarrow> now < expires_at s \<and> new_id \<noteq> key"

definition used_within :: "nat \<Rightarrow> string \<Rightarrow> snap \<Rightarrow> snap_store \<Rightarrow> bool" where
  "used_within n key s store \<longleftrightarrow>
     store_ok store \<and> (\<exists>older newer. store = older @ (key, s) # newer \<and> length newer \<le> n)"

lemma used_within_in: "used_within n key s store \<Longrightarrow> store_ok store \<and> (key, s) \<in> set store"
  by (auto simp: used_within_def)

lemma used_within_mono: "used_within n key s store \<Longrightarrow> n \<le> k \<Longrightarrow> used_within k key s store"
  by (auto simp: used_within_def intro: order_trans)

lemma prune_within: "used_within n key s store \<Longrightarrow> now < expires_at s \<Longrightarrow> used_within n key s (prune now store)"
  unfolding used_within_def by (auto simp: prune_ok) (auto simp: prune_def intro: order_trans [OF length_filter_le])

lemma filter_key_short: "distinct (map fst store) \<Longrightarrow> length (filter (\<lambda>(k, _). k = key) store) \<le> 1"
  by (induction store) (auto simp: filter_empty_conv image_iff split: prod.splits)

lemma filter_key_self:
  assumes "distinct (map fst store)" and "(key, s) \<in> set store"
  shows "filter (\<lambda>(k, _). k = key) store = [(key, s)]"
  using assms by (induction store) (auto simp: filter_empty_conv image_iff split: prod.splits)

lemma move_self_within: "store_ok store \<Longrightarrow> (key, s) \<in> set store \<Longrightarrow> used_within 0 key s (move_to_end key store)"
  by (auto simp: used_within_def move_to_end_ok) (simp add: move_to_end_def filter_key_self store_ok_def)

lemma move_within:
  assumes "used_within n key s store"
  shows "used_within (Suc n) key s (move_to_end k store)"
proof (cases "k = key")
  case True
  with assms show ?thesis
    by (metis used_within_in move_self_within used_within_mono zero_le)
next
  case False
  from assms obtain older newer where store: "store = older @ (key, s) # newer" "length newer \<le> n" and ok: "store_ok store"
    by (auto simp: used_within_def)
  have "distinct (map fst store)" using ok by (simp add: store_ok_def)
  from add_mono [OF order_trans [OF length_filter_le store(2)] filter_key_short [OF this, of k]]
  have "length (filter (\<lambda>(k', _). k' \<noteq> k) newer @ filter (\<lambda>(k', _). k' = k) store) \<le> Suc n"
    by simp
  moreover have "move_to_end k store = filter (\<lambda>(k', _). k' \<noteq> k) older @ (key, s) #
      (filter (\<lambda>(k', _). k' \<noteq> k) newer @ filter (\<lambda>(k', _). k' = k) store)"
    using False by (simp add: move_to_end_def store(1))
  ultimately show ?thesis using move_to_end_ok [OF ok, of k] unfolding used_within_def by blast
qed

lemma update_within:
  assumes "k \<noteq> key"
  shows "\<exists>older' newer'. dict_set k v (older @ (key, s) # newer) = older' @ (key, s) # newer' \<and>
    length newer' \<le> Suc (length newer)"
proof (induction older)
  case Nil
  have "length (dict_set k v newer) \<le> Suc (length newer)" by (induction newer) auto
  moreover have "dict_set k v ([] @ (key, s) # newer) = [] @ (key, s) # dict_set k v newer" using assms by simp
  ultimately show ?case by blast
next
  case (Cons x older)
  obtain j u where x: "x = (j, u)" by fastforce
  show ?case
  proof (cases "j = k")
    case True
    then have "dict_set k v ((x # older) @ (key, s) # newer) = ((k, v) # older) @ (key, s) # newer" by (simp add: x)
    then show ?thesis by (metis le_SucI order_refl)
  next
    case False
    from Cons obtain older' newer' where
      "dict_set k v (older @ (key, s) # newer) = older' @ (key, s) # newer'" "length newer' \<le> Suc (length newer)"
      by blast
    with False have "dict_set k v ((x # older) @ (key, s) # newer) = (x # older') @ (key, s) # newer'" by (simp add: x)
    with \<open>length newer' \<le> Suc (length newer)\<close> show ?thesis by blast
  qed
qed

lemma add_within:
  assumes within: "used_within n key s store" and n: "n < 3" and now: "now < expires_at s" and other: "new_id \<noteq> key"
  shows "used_within (Suc n) key s (snd (store_add now new_id scope q records ready stopped depth store))"
proof -
  obtain older newer where p: "prune now store = older @ (key, s) # newer" "length newer \<le> n"
    using prune_within [OF within now] by (auto simp: used_within_def)
  define x where "x = \<lparr>sn_id = new_id, sn_scope = scope, sn_queue = q, sn_records = records, sn_ready = ready,
    sn_stopped = stopped, sn_depth = depth, sn_created_at = now\<rparr>"
  obtain older' newer' where u: "dict_set new_id x (prune now store) = older' @ (key, s) # newer'" "length newer' \<le> Suc n"
    using update_within [OF other, of x older s newer] p by (metis Suc_le_mono order_trans)
  have "snd (store_add now new_id scope q records ready stopped depth store) = drop_oldest (dict_set new_id x (prune now store))"
    by (simp add: store_add_def Let_def x_def)
  also have "\<dots> = drop (length older' + Suc (length newer') - MAX_SNAPSHOTS) older' @ (key, s) # newer'"
    using u(2) n by (simp add: u(1) drop_oldest_def MAX_SNAPSHOTS_def)
  finally show ?thesis
    using u(2) store_add_ok [of store now new_id scope q records ready stopped depth] used_within_in [OF within]
    unfolding used_within_def by auto
qed

lemma get_within:
  assumes "used_within n key s store" and "now < expires_at s"
  shows "used_within (Suc n) key s (snd (store_get now k scope q store))"
  using used_within_mono [OF prune_within [OF assms]] move_within [OF prune_within [OF assms]]
  by (auto simp: store_get_def Let_def split: option.splits)

lemma use_within: "used_within n key s store \<Longrightarrow> n < 3 \<Longrightarrow> spares key s u \<Longrightarrow> used_within (Suc n) key s (use_store u store)"
  by (cases "(key, s, u)" rule: spares.cases) (auto simp: get_within add_within)

lemma uses_within:
  "used_within n key s store \<Longrightarrow> n + length us \<le> 3 \<Longrightarrow> list_all (spares key s) us \<Longrightarrow>
     used_within (n + length us) key s (fold use_store us store)"
proof (induction us arbitrary: n store)
  case (Cons u us)
  from Cons.IH [OF use_within [OF Cons.prems(1)]] Cons.prems show ?case by simp
qed simp

text \<open>
  A client that asks for page after page until one is empty; the first \<open>n\<close> requests of it. Before
  each of them other requests use the store.
\<close>

fun page_through ::
  "nat \<Rightarrow> (nat \<Rightarrow> (int \<times> store_use) list) \<Rightarrow> settings \<Rightarrow> scope \<times> broker \<Rightarrow> string \<Rightarrow> page_query \<Rightarrow> int \<Rightarrow> snap_store \<Rightarrow>
     ((exn + pyval list) \<times> snap_store) io"
where
  "page_through 0 others cfg here q rq offset store = ret (Inl (mk_exn (Other ''Unfinished'') []), store)"
| "page_through (Suc n) others cfg here q rq offset store =
     bnd (list_messages_route cfg here q (rq\<lparr>pq_offset := offset\<rparr>) (fold use_store (others n) store)) (\<lambda>(r, store').
       case r of
         Inl e \<Rightarrow> ret (Inl e, store')
       | Inr a \<Rightarrow>
           if messages_in a = [] then ret (Inr [], store')
           else bnd (page_through n others cfg here q rq (offset + int (length (messages_in a))) store') (\<lambda>(r', s).
                  ret (or_raise r' (\<lambda>ms. Inr (messages_in a @ ms)), s)))"

lemma render_Inr: "render L cfg xs = Inr ys \<longleftrightarrow> list_all2 (\<lambda>x y. render_one L cfg x = Inr y) xs ys"
  by (induction xs arbitrary: ys) (auto simp: or_raise_Inr_iff list_all2_Cons1)

lemma render_page: "render L cfg xs = Inr ys \<Longrightarrow> render L cfg (take k (drop j xs)) = Inr (take k (drop j ys))"
  by (simp add: render_Inr list_all2_takeI list_all2_dropI)

lemma render_length: "render L cfg xs = Inr ys \<Longrightarrow> length ys = length xs"
  by (metis render_Inr list_all2_lengthD)

lemma drop_page: "drop (min (length xs - k) j + k) xs = drop j (drop k xs)"
proof (cases "j \<le> length xs - k")
  case False
  then have "length xs \<le> min (length xs - k) j + k" "length xs \<le> j + k" by auto
  then show ?thesis by simp
qed simp

lemma page_limits_value:
  assumes "\<And>key g. \<exists>n. fst (effective_limit E cfg key g) = Inr n" and "\<And>l. pq_limit rq = Some l \<Longrightarrow> 1 \<le> l"
  obtains page depth t where "page_limits E cfg rq h = (Inr (page, depth), h @ t)" "1 \<le> page" "list_all reads_settings t"
proof -
  have quiet: "emits reads_settings (effective_limit E cfg key)" for key
    by (intro emits_intros) (simp add: reads_settings_def)
  obtain cap h1 where cap: "effective_limit E cfg ''max_preview_messages'' h = (Inr cap, h1)"
    using assms(1) by (metis prod.collapse)
  obtain depth h2 where depth: "effective_limit E cfg ''max_browse_depth'' h1 = (Inr depth, h2)"
    using assms(1) by (metis prod.collapse)
  obtain t u where "h1 = h @ t" "h2 = h1 @ u" "list_all reads_settings (t @ u)"
    using emitsD [OF quiet cap] emitsD [OF quiet depth] by auto
  moreover have "1 \<le> cap" using effective_limit_Inr [OF cap] limit_from_bounds [OF ceiling_of_pos] by fastforce
  then have "1 \<le> min (int_or (pq_limit rq) cap) cap" using assms(2) by (auto simp: int_or_def split: option.split)
  ultimately show ?thesis using that cap depth by (simp add: page_limits_def bnd_def ret_def)
qed

lemma stored_snapshot_found:
  assumes "store_ok store" "(key, s) \<in> set store" "sn_scope s = scope" "sn_queue s = q" "e_clock E h < expires_at s"
  obtains store' where "stored_snapshot E scope key q store h = (Inr (Inr s, store'), h)" "used_within 0 key s store'"
proof -
  let ?p = "prune (e_clock E h) store"
  have in_p: "(key, s) \<in> set ?p" using assms(2,5) by (auto simp: prune_def)
  moreover have "distinct (map fst ?p)" using prune_ok [OF assms(1)] by (simp add: store_ok_def)
  ultimately have "store_get (e_clock E h) key scope q store = (Some s, move_to_end key ?p)"
    using assms(3,4) by (simp add: store_get_def)
  then show ?thesis
    using that [of "move_to_end key ?p"] move_self_within [OF prune_ok [OF assms(1)] in_p]
    by (simp add: stored_snapshot_def bnd_def clock_def observe_def ret_def)
qed

definition names_snapshot :: "page_query \<Rightarrow> string \<Rightarrow> bool" where
  "names_snapshot rq key \<longleftrightarrow> pq_snapshot rq = Some key \<and> key \<noteq> [] \<and> key \<noteq> ''new'' \<and>
     (\<forall>l. pq_limit rq = Some l \<longrightarrow> 1 \<le> l)"

lemma one_page:
  assumes names: "names_snapshot rq key" and store: "store_ok store" "(key, s) \<in> set store"
    and s: "sn_scope s = fst here" "sn_queue s = q" "\<And>g. e_clock (bk_env (snd here)) g < expires_at s"
    and limits: "\<And>k g. \<exists>n. fst (effective_limit (bk_env (snd here)) cfg k g) = Inr n"
    and matches: "matching (e_lib (bk_env (snd here))) s (pq_contains rq) (pq_format rq) (pq_min_deaths rq) = Inr ms"
    and shown: "render (e_lib (bk_env (snd here))) cfg ms = Inr shown"
  shows "does (list_messages_route cfg here q (rq\<lparr>pq_offset := offset\<rparr>) store) h (\<lambda>r t. \<exists>a store' page.
     r = Inr (Inr a, store') \<and> messages_in a = map PDict (take (nat page) (drop (nat offset) shown)) \<and> 1 \<le> page \<and>
     used_within 0 key s store' \<and> list_all reads_settings t)"
proof -
  let ?E = "bk_env (snd here)" and ?rq = "rq\<lparr>pq_offset := offset\<rparr>"
  have bound: "\<And>l. pq_limit ?rq = Some l \<Longrightarrow> 1 \<le> l" using names by (simp add: names_snapshot_def)
  obtain page depth t where lim: "page_limits ?E cfg ?rq h = (Inr (page, depth), h @ t)" "1 \<le> page" "list_all reads_settings t"
    using page_limits_value [OF limits bound] by blast
  obtain store' where found: "stored_snapshot ?E (fst here) key q store (h @ t) = (Inr (Inr s, store'), h @ t)"
    "used_within 0 key s store'"
    using stored_snapshot_found [OF store s] by blast
  let ?a = "[(''messages'', PList (map PDict (take (nat page) (drop (nat offset) shown)))), (''total'', PInt (int (length ms))),
            (''offset'', PInt offset), (''limit'', PInt page), (''snapshot'', PDict (snap_meta (e_lib ?E) s))]"
  have "page_of (e_lib ?E) cfg ?rq page s = Inr ?a"
    by (simp add: page_of_def matches render_page [OF shown])
  moreover have "\<not> plain_read ?rq" "pq_snapshot ?rq = Some key" "key \<noteq> []" "key \<noteq> ''new''"
    using names by (simp_all add: names_snapshot_def plain_read_def)
  ultimately have "list_messages_route cfg here q ?rq store h = (Inr (Inr ?a, store'), h @ t)"
    using lim(1) found(1)
    by (simp add: list_messages_route_def Let_def bnd_def outcome_def ret_def str_or_def)
  with lim found show ?thesis
    by (simp add: does_def messages_in_def py_get_def, intro exI [of _ page]) simp
qed

lemma page_through_rest:
  assumes names: "names_snapshot rq key"
    and s: "sn_scope s = fst here" "sn_queue s = q" "\<And>g. e_clock (bk_env (snd here)) g < expires_at s"
    and limits: "\<And>k g. \<exists>n. fst (effective_limit (bk_env (snd here)) cfg k g) = Inr n"
    and matches: "matching (e_lib (bk_env (snd here))) s (pq_contains rq) (pq_format rq) (pq_min_deaths rq) = Inr ms"
    and shown: "render (e_lib (bk_env (snd here))) cfg ms = Inr shown"
    and others: "\<And>k. length (others k) \<le> 3 \<and> list_all (spares key s) (others k)"
  shows "used_within 0 key s store \<Longrightarrow> 0 \<le> offset \<Longrightarrow> length (drop (nat offset) shown) < n \<Longrightarrow>
    does (page_through n others cfg here q rq offset store) h (\<lambda>r t.
      (\<exists>store'. r = Inr (Inr (map PDict (drop (nat offset) shown)), store')) \<and> list_all reads_settings t)"
proof (induction n arbitrary: offset store h)
  case 0
  then show ?case by simp
next
  case (Suc n)
  have "used_within (0 + length (others n)) key s (fold use_store (others n) store)"
    using uses_within [OF Suc.prems(1), of "others n"] others by simp
  from used_within_in [OF this] have st: "store_ok (fold use_store (others n) store)" "(key, s) \<in> set (fold use_store (others n) store)"
    by simp_all
  note page = one_page [OF names st s limits matches shown]
  show ?case
    unfolding page_through.simps
  proof (rule does_bnd [OF page], goal_cases)
    case (2 x t)
    then obtain a store' p where x: "x = (Inr a, store')" and a: "messages_in a = map PDict (take (nat p) (drop (nat offset) shown))"
      and p: "1 \<le> p" and ok: "used_within 0 key s store'" and t: "list_all reads_settings t" by auto
    show ?case
    proof (cases "messages_in a = []")
      case True
      with a p have "drop (nat offset) shown = []" by auto
      with True x t show ?thesis by (auto intro!: does_ret)
    next
      case False
      let ?next = "offset + int (length (messages_in a))"
      have len: "length (messages_in a) = min (length shown - nat offset) (nat p)" by (simp add: a)
      have rest: "drop (nat offset) shown = take (nat p) (drop (nat offset) shown) @ drop (nat ?next) shown"
      proof -
        have "nat ?next = length (messages_in a) + nat offset" using Suc.prems(2) by simp
        then have "drop (nat ?next) shown = drop (nat p) (drop (nat offset) shown)"
          by (simp add: len drop_page del: drop_drop)
        then show ?thesis by (simp del: drop_drop)
      qed
      have "length (drop (nat ?next) shown) < n"
        using Suc.prems(2,3) False by (cases "messages_in a") (auto simp: nat_add_distrib a)
      from Suc.IH [OF ok _ this] Suc.prems(2)
      have "does (page_through n others cfg here q rq ?next store') (h @ t) (\<lambda>r u.
          (\<exists>store'. r = Inr (Inr (map PDict (drop (nat ?next) shown)), store')) \<and> list_all reads_settings u)" by simp
      note ih = this
      have whole: "map PDict (drop (nat offset) shown) = messages_in a @ map PDict (drop (nat ?next) shown)"
        by (subst rest) (simp add: a)
      show ?thesis
        unfolding x prod.case sum.case if_not_P [OF False]
        by (rule does_bnd [OF ih]) (auto intro!: does_ret simp: whole t)
    qed
  qed auto
qed

text \<open>
  C31. Paging through a snapshot loses nothing and shows nothing twice: a client that has just taken
  a snapshot and asks for page after page, each from where the last one ended, is shown every
  matching message of it once, in queue order, in finitely many requests, whatever the page size is
  at each of them, and none of them goes to the broker. Its conditions: the snapshot does not expire
  while the client pages, between two of its pages other requests look up or take at most three
  snapshots (a fourth could push it out of the store), the page limits can be read, and the filters
  and the rendering raise for none of its messages.
\<close>

theorem snapshot_pages_complete:
  assumes "names_snapshot rq key" and "used_within 0 key s store"
    and "sn_scope s = fst here" and "sn_queue s = q" and "\<And>g. e_clock (bk_env (snd here)) g < expires_at s"
    and "\<And>k. length (others k) \<le> 3 \<and> list_all (spares key s) (others k)"
    and "\<And>k g. \<exists>n. fst (effective_limit (bk_env (snd here)) cfg k g) = Inr n"
    and "matching (e_lib (bk_env (snd here))) s (pq_contains rq) (pq_format rq) (pq_min_deaths rq) = Inr ms"
    and "render (e_lib (bk_env (snd here))) cfg ms = Inr shown"
  shows "does (page_through (Suc (length ms)) others cfg here q rq 0 store) h (\<lambda>r t.
    (\<exists>store'. r = Inr (Inr (map PDict shown), store')) \<and> list_all reads_settings t)"
  using page_through_rest [OF assms(1,3-5,7-9,6,2), of 0 "Suc (length ms)"] render_length [OF assms(9)] by simp

definition two_messages :: snap where
  "two_messages = \<lparr>sn_id = ''s1'', sn_scope = (''prod'', ''/''), sn_queue = ''dlq'',
     sn_records = map (to_record sample_lib ''dlq'' True) ([sample_message 1 ''a'', sample_message 2 ''b'']), sn_ready = 2,
     sn_stopped = None, sn_depth = 100, sn_created_at = 0\<rparr>"

definition one_by_one :: page_query where
  "one_by_one = \<lparr>pq_limit = Some 1, pq_snapshot = Some ''s1'', pq_offset = 0, pq_contains = None, pq_format = None,
     pq_min_deaths = None\<rparr>"

lemma classic_limits: "\<exists>n. fst (effective_limit classic_env sample_settings k g) = Inr n"
  by (auto simp: effective_limit_def get_safe_def read_setting_def ask_def bnd_def outcome_def ret_def lift_def
      limit_from_def sample_env_def py_or_def)

text \<open>Before each page someone else takes three snapshots of the same queue.\<close>

definition three_more :: "nat \<Rightarrow> (int \<times> store_use) list" where
  "three_more = (\<lambda>_. map (\<lambda>i. (0, Take i (''prod'', ''/'') ''dlq'' [] 0 None 100)) [''s2'', ''s3'', ''s4''])"

theorem snapshot_pages_complete_witness:
  "\<exists>shown store' t. page_through 3 three_more sample_settings sample_here ''dlq'' one_by_one 0 [(''s1'', two_messages)] [] =
     (Inr (Inr shown, store'), t) \<and> length shown = 2"
proof -
  let ?L = "e_lib (bk_env (snd sample_here))"
  have m: "matching ?L two_messages None None None = Inr (sn_records two_messages)" by code_simp
  have "case render ?L sample_settings (sn_records two_messages) of Inr ms \<Rightarrow> length ms = 2 | Inl _ \<Rightarrow> False" by code_simp
  then obtain shown where shown: "render ?L sample_settings (sn_records two_messages) = Inr shown" "length shown = 2"
    by (auto split: sum.splits)
  have "does (page_through (Suc (length (sn_records two_messages))) three_more sample_settings sample_here ''dlq'' one_by_one 0
      [(''s1'', two_messages)]) [] (\<lambda>r t. (\<exists>store'. r = Inr (Inr (map PDict shown), store')) \<and> list_all reads_settings t)"
  proof (rule snapshot_pages_complete [OF _ _ _ _ _ _ _ _ shown(1)])
    show "names_snapshot one_by_one ''s1''" by (simp add: names_snapshot_def one_by_one_def)
    show "used_within 0 ''s1'' two_messages [(''s1'', two_messages)]"
      by (simp add: used_within_def store_ok_def MAX_SNAPSHOTS_def two_messages_def)
    show "length (three_more k) \<le> 3 \<and> list_all (spares ''s1'' two_messages) (three_more k)" for k
      by (simp add: three_more_def two_messages_def expires_at_def SNAPSHOT_TTL_def)
    show "e_clock (bk_env (snd sample_here)) g < expires_at two_messages" for g
      by (simp add: sample_here_def sample_env_def two_messages_def expires_at_def SNAPSHOT_TTL_def)
    show "\<exists>n. fst (effective_limit (bk_env (snd sample_here)) sample_settings k g) = Inr n" for k g
      using classic_limits by (simp add: sample_here_def)
    show "matching ?L two_messages (pq_contains one_by_one) (pq_format one_by_one) (pq_min_deaths one_by_one) =
        Inr (sn_records two_messages)" using m by (simp add: one_by_one_def)
  qed (simp_all add: two_messages_def sample_here_def)
  moreover have "Suc (length (sn_records two_messages)) = 3" by (simp add: two_messages_def)
  moreover obtain r t where run: "page_through 3 three_more sample_settings sample_here ''dlq'' one_by_one 0 [(''s1'', two_messages)] [] = (r, t)"
    by fastforce
  ultimately obtain store' where "r = Inr (Inr (map PDict shown), store')" by (auto dest: doesD)
  with run shown(2) show ?thesis by auto
qed


section \<open>What the composer publishes\<close>

text \<open>The message as the user composed it, marked with the user's name.\<close>

definition signed :: "string \<Rightarrow> publish_request \<Rightarrow> event \<Rightarrow> bool" where
  "signed user body e \<longleftrightarrow> (\<forall>x rk m r. e = EvPublish x rk m r \<longrightarrow>
     x = pr_exchange body \<and> rk = pr_routing_key body \<and> o_body m = pr_payload body \<and>
     dict_get (o_headers m) ''x-queuelens-published-by'' = Some (PStr user) \<and>
     (pr_mark_test body \<longrightarrow> dict_get (o_headers m) ''x-queuelens-test'' = Some (PBool True)))"

definition publish_recorded :: "string \<Rightarrow> event list \<Rightarrow> bool" where
  "publish_recorded user before \<longleftrightarrow>
     (\<exists>a. EvAudit a None \<in> set before \<and> ae_username a = user \<and> ae_action a = ''publish'' \<and> ae_result a = ''started'')"

text \<open>Every publish of the trace has something good before it.\<close>

definition publishes_after :: "(event list \<Rightarrow> bool) \<Rightarrow> event list \<Rightarrow> bool" where
  "publishes_after Q t \<longleftrightarrow> (\<forall>before e later. t = before @ e # later \<longrightarrow> is_publish e \<longrightarrow> Q before)"

lemma settings_signed: "reads_settings e \<Longrightarrow> \<not> is_publish e \<and> signed user body e"
  by (auto simp: reads_settings_def signed_def)

lemma publishes_after_none: "list_all (\<lambda>e. \<not> is_publish e) t \<Longrightarrow> publishes_after Q t"
  by (auto simp: publishes_after_def)

lemma publishes_after_append:
  assumes "list_all (\<lambda>e. \<not> is_publish e) t" and "publishes_after (\<lambda>before. Q (t @ before)) u"
  shows "publishes_after Q (t @ u)"
  unfolding publishes_after_def
proof (intro allI impI)
  fix before e later assume split: "t @ u = before @ e # later" and pub: "is_publish e"
  from split consider w where "t = before @ e # w" | w where "before = t @ w" "u = w @ e # later"
    by (fastforce simp: append_eq_append_conv2 append_eq_Cons_conv)
  then show "Q before" using assms pub by cases (auto simp: publishes_after_def)
qed

lemma publishes_after_always: "(\<And>before. Q before) \<Longrightarrow> publishes_after Q t"
  by (simp add: publishes_after_def)

lemma publishes_after_mono: "publishes_after P t \<Longrightarrow> (\<And>b. P b \<Longrightarrow> Q b) \<Longrightarrow> publishes_after Q t"
  by (auto simp: publishes_after_def)

lemma publish_recorded_append: "publish_recorded user b \<Longrightarrow> publish_recorded user (a @ b)"
  by (auto simp: publish_recorded_def)

lemma send_composed_signed:
  assumes "signed user body (EvPublish (pr_exchange body) (pr_routing_key body) m None)"
  shows "emits (signed user body) (send_composed E body m)"
proof -
  have "signed user body (EvPublish (pr_exchange body) (pr_routing_key body) m r)" for r
    using assms by (auto simp: signed_def)
  then show ?thesis
    unfolding send_composed_def with_channel_def operation_defs
    by (cases "pr_exchange body = []") (auto intro!: emits_intros emits_perform emits_ask simp: signed_def)
qed

lemma publish_headers_signed:
  "dict_get (publish_headers L user body custom now) ''x-queuelens-published-by'' = Some (PStr user)"
  "pr_mark_test body \<Longrightarrow> dict_get (publish_headers L user body custom now) ''x-queuelens-test'' = Some (PBool True)"
  by (simp_all add: publish_headers_def Let_def map_of_dict_merge AList.update_conv')

lemma publish_message_signed:
  assumes "dict_get headers ''x-queuelens-published-by'' = Some (PStr user)"
    and "pr_mark_test body \<Longrightarrow> dict_get headers ''x-queuelens-test'' = Some (PBool True)"
  shows "does (publish_message E user body ct headers) h
    (\<lambda>r t. list_all (signed user body) t \<and> publishes_after (publish_recorded user) t)"
proof -
  let ?a = "publish_entry user body ct (e_clock E h) ''started'' None []"
  have audits: "emits (signed user body) (record_audit E a)" for a
    by (intro emits_intros) (simp add: signed_def)
  have sent: "emits (signed user body) (send_composed E body (composed body ct headers))"
    by (rule send_composed_signed) (use assms in \<open>simp add: signed_def composed_def Let_def\<close>)
  have attempt: "emits (signed user body) (publish_attempt E user body ct headers)"
    unfolding publish_attempt_def by (intro emits_intros sent audits)
  have started: "publish_recorded user (EvAudit ?a None # u)" for u
    by (auto simp: publish_recorded_def publish_entry_def with_target_def publish_target_def audit_entry_of_def
        split: option.split intro!: exI [of _ ?a])
  show ?thesis
  proof (cases "e_audit E h ?a")
    case (Some e)
    then show ?thesis
      by (simp add: does_def publish_message_def bnd_def clock_def observe_def record_audit_def perform_def
          signed_def publishes_after_none)
  next
    case None
    have after: "publishes_after (publish_recorded user) ([EvAudit ?a None] @ u)" for u
      by (rule publishes_after_append, simp, rule publishes_after_always) (simp add: started)
    have "does (publish_attempt E user body ct headers) (h @ [EvAudit ?a None])
        (\<lambda>r u. list_all (signed user body) ([EvAudit ?a None] @ u) \<and>
               publishes_after (publish_recorded user) ([EvAudit ?a None] @ u))"
      by (rule does_mono [OF does_emits [OF attempt]]) (use after in \<open>simp add: signed_def\<close>)
    with None show ?thesis
      by (fastforce simp: does_def publish_message_def bnd_def clock_def observe_def record_audit_def perform_def)
  qed
qed

text \<open>
  The composer publishes what was composed, to where it was asked, under the user's own name:
  headers of the request and headers an Admin configured cannot replace it, and a test message says
  that it is one. Nothing is published before the attempt is in the audit trail, by someone who may
  not operate, or without confirmation.
\<close>

theorem published_message_signed:
  assumes "publish here user body h = (r, h @ t)"
  shows "list_all (signed (cu_username user) body) t \<and> publishes_after (publish_recorded (cu_username user)) t \<and>
    (\<not> can_operate user \<or> \<not> pr_confirm body \<longrightarrow> t = [] \<and> (\<exists>e. r = Inl e))"
proof (cases "can_operate user \<and> pr_confirm body")
  case False
  with assms show ?thesis
    by (cases "can_operate user")
       (auto simp: publish_def Let_def require_operator_def bnd_def lift_def raise_def publishes_after_def)
next
  case True
  let ?E = "bk_env (snd here)" and ?u = "cu_username user"
  have op: "require_operator user = Inr user" using True by (simp add: require_operator_def)
  let ?\<Phi> = "\<lambda>t. list_all (signed ?u body) t \<and> publishes_after (publish_recorded ?u) t"
  have "does (publish here user body) h (\<lambda>r t. ?\<Phi> t)"
    unfolding publish_def Let_def op
  proof (rule does_bnd [OF does_lift [where \<Phi> = "\<lambda>r t. t = [] \<and> r = Inr user"]], goal_cases)
    case (3 x t)
    have "does (bnd (custom_headers ?E) (\<lambda>custom. bnd (clock ?E) (\<lambda>now.
          publish_message ?E ?u body (publish_content_type (e_lib ?E) body)
            (publish_headers (e_lib ?E) ?u body custom now)))) h (\<lambda>r u. ?\<Phi> u)"
    proof (rule does_bnd [OF does_emits [OF emits_custom_headers]], goal_cases)
      case (1 e t)
      then show ?case by (auto simp: list_all_iff dest!: settings_signed intro!: publishes_after_none)
    next
      case (2 custom t)
      then have quiet: "list_all (signed ?u body) t" "list_all (\<lambda>e. \<not> is_publish e) t"
        by (auto simp: list_all_iff dest!: settings_signed)
      show ?case
      proof (rule doesI)
        fix r h' assume run: "bnd (clock ?E) (\<lambda>now. publish_message ?E ?u body (publish_content_type (e_lib ?E) body)
            (publish_headers (e_lib ?E) ?u body custom now)) (h @ t) = (r, h')"
        then have "publish_message ?E ?u body (publish_content_type (e_lib ?E) body)
            (publish_headers (e_lib ?E) ?u body custom (e_clock ?E (h @ t))) (h @ t) = (r, h')"
          by (simp add: bnd_def clock_def observe_def)
        from doesD [OF publish_message_signed this] publish_headers_signed obtain u where
          u: "h' = (h @ t) @ u" "list_all (signed ?u body) u" "publishes_after (publish_recorded ?u) u" by blast
        have "publishes_after (publish_recorded ?u) (t @ u)"
          by (rule publishes_after_append [OF quiet(2) publishes_after_mono [OF u(3)]]) (rule publish_recorded_append)
        with u quiet show "\<exists>u. h' = (h @ t) @ u \<and> ?\<Phi> (t @ u)" by auto
      qed
    qed
    with 3 True show ?case by simp
  qed auto
  from doesD' [OF this assms] True show ?thesis by blast
qed

definition sample_publish :: publish_request where
  "sample_publish = \<lparr>pr_exchange = [], pr_routing_key = ''orders'', pr_payload = ''{}'',
     pr_headers = [(''x-queuelens-published-by'', PStr ''someone else'')],
     pr_properties = \<lparr>pp_message_id = None, pp_correlation_id = None, pp_content_type = None, pp_type = None,
       pp_app_id = None, pp_reply_to = None, pp_priority = None, pp_delivery_mode = None\<rparr>,
     pr_mark_test = True, pr_confirm = True\<rparr>"

fun sent_to_orders :: "event \<Rightarrow> bool" where
  "sent_to_orders (EvPublish x rk m None) \<longleftrightarrow> x = [] \<and> rk = ''orders''"
| "sent_to_orders _ \<longleftrightarrow> False"

lemma sent_to_orders_iff: "sent_to_orders e \<longleftrightarrow> (\<exists>m. e = EvPublish [] ''orders'' m None)"
  by (cases e rule: sent_to_orders.cases) auto

theorem published_message_signed_witness:
  "\<exists>t m. snd (publish sample_here sample_operator sample_publish []) = t \<and> EvPublish [] ''orders'' m None \<in> set t \<and>
     dict_get (o_headers m) ''x-queuelens-published-by'' = Some (PStr ''bob'')"
proof -
  let ?t = "snd (publish sample_here sample_operator sample_publish [])"
  have run: "publish sample_here sample_operator sample_publish [] =
      (fst (publish sample_here sample_operator sample_publish []), [] @ ?t)" by simp
  have "list_ex sent_to_orders ?t" by code_simp
  then obtain m where m: "EvPublish [] ''orders'' m None \<in> set ?t" by (auto simp: list_ex_iff sent_to_orders_iff)
  from published_message_signed [OF run] have "list_all (signed (cu_username sample_operator) sample_publish) ?t" by blast
  with m have "signed (cu_username sample_operator) sample_publish (EvPublish [] ''orders'' m None)"
    unfolding list_all_iff by blast
  then have "dict_get (o_headers m) ''x-queuelens-published-by'' = Some (PStr ''bob'')"
    by (simp add: signed_def sample_operator_def)
  with m show ?thesis by blast
qed

end
