(* ===== verification/Coordination.thy ===== *)
theory Coordination
  imports Domain "HOL-Library.Word"
begin

text \<open>
  Coordination of replicas (app/infrastructure/persistence/coordination.py): the key of a lock, the
  per-queue lock (\<open>Coordinator.lock\<close>) and the election of the one replica that evaluates alerts and
  runs policies (\<open>is_leader\<close>).

  Both coroutines are written as what they do next: a phase says which database call they wait for,
  \<open>resume\<close> what they do with its reply. Between two replies anything else may happen, so the steps
  of all replicas and tasks interleave freely (\<open>elections\<close>, \<open>lock_runs\<close>). The database is outside:
  its replies are arbitrary, recorded in a log; \<open>pg_keeps\<close> says of a log that PostgreSQL kept its
  documented promises about advisory locks, and a session may end at any time.

  Sessions are numbers. A reply and the code up to the next await are one step.
\<close>


section \<open>Keys\<close>

fun hex_digit :: "char \<Rightarrow> nat" where
  "hex_digit c = (let n = of_char c in if n < 58 then n - 48 else n - 87)"

text \<open>The first eight bytes of the digest, big-endian and signed: 16 digits of the hexadecimal text.\<close>

definition lock_word :: "pylib \<Rightarrow> string list \<Rightarrow> 64 word" where
  "lock_word L names =
     word_of_nat (foldl (\<lambda>n c. 16 * n + hex_digit c) 0 (take 16 (sha256_hex L (join_with [CHR 0x00] names))))"

definition lock_key :: "pylib \<Rightarrow> string list \<Rightarrow> int" where
  "lock_key L names = sint (lock_word L names)"

definition ALERT_LEADER :: "pylib \<Rightarrow> int" where
  "ALERT_LEADER L = lock_key L [''queuelens'', ''alert-engine'']"


section \<open>The database, as seen from the coordinator\<close>

datatype db_call =
    Connect
  | Try_Lock nat int       \<comment> \<open>\<open>pg_try_advisory_lock\<close>\<close>
  | Xact_Lock nat int      \<comment> \<open>\<open>pg_advisory_xact_lock\<close>\<close>
  | Commit nat
  | Ping nat               \<comment> \<open>\<open>SELECT 1\<close>\<close>
  | Close nat
  | Invalidate nat
  | End_Transaction nat    \<comment> \<open>leaving \<open>connection.begin()\<close> and \<open>connect()\<close>\<close>

datatype db_reply = Failed | Session nat | Row bool | Done

text \<open>What is seen at the database: an answered call, or a session that ended.\<close>

datatype db_event = Replied db_call db_reply | Ended nat

type_synonym db_log = "db_event list"

text \<open>Which session is over after an event: closed by us, its transaction left, or lost.\<close>

fun ends :: "db_event \<Rightarrow> nat option" where
  "ends (Ended c) = Some c"
| "ends (Replied (Close c) _) = Some c"
| "ends (Replied (Invalidate c) _) = Some c"
| "ends (Replied (End_Transaction c) _) = Some c"
| "ends _ = None"

definition over :: "db_log \<Rightarrow> nat \<Rightarrow> bool" where
  "over tr c \<longleftrightarrow> Some c \<in> ends ` set tr"

fun grants :: "db_event \<Rightarrow> (nat \<times> int) option" where
  "grants (Replied (Try_Lock c k) (Row True)) = Some (c, k)"
| "grants (Replied (Xact_Lock c k) Done) = Some (c, k)"
| "grants _ = None"

fun opens :: "db_event \<Rightarrow> nat option" where
  "opens (Replied Connect (Session c)) = Some c"
| "opens _ = None"

text \<open>The session certainly still has the lock.\<close>

definition holds_lock :: "db_log \<Rightarrow> nat \<Rightarrow> int \<Rightarrow> bool" where
  "holds_lock tr c k \<longleftrightarrow> Some (c, k) \<in> grants ` set tr \<and> \<not> over tr c"

text \<open>
  PostgreSQL's promises, event by event: an advisory lock is granted to a session only while no other
  one has it, a session that ended answers nothing any more, and a new connection is a new session.
\<close>

fun pg_promise :: "db_log \<Rightarrow> db_event \<Rightarrow> bool" where
  "pg_promise tr (Replied (Try_Lock c k) (Row True)) \<longleftrightarrow> \<not> over tr c \<and> (\<forall>d. holds_lock tr d k \<longrightarrow> d = c)"
| "pg_promise tr (Replied (Xact_Lock c k) Done) \<longleftrightarrow> \<not> over tr c \<and> (\<forall>d. holds_lock tr d k \<longrightarrow> d = c)"
| "pg_promise tr (Replied Connect (Session c)) \<longleftrightarrow> Some c \<notin> opens ` set tr \<and> \<not> over tr c"
| "pg_promise tr (Replied (Ping c) x) \<longleftrightarrow> over tr c \<longrightarrow> x = Failed"
| "pg_promise tr _ \<longleftrightarrow> True"

definition pg_keeps :: "db_log \<Rightarrow> bool" where
  "pg_keeps tr \<longleftrightarrow> (\<forall>before e later. tr = before @ e # later \<longrightarrow> pg_promise before e)"


section \<open>The election (is_leader)\<close>

datatype leader_phase =
    Idle
  | Opening
  | Trying nat
  | Committing nat bool
  | Closing nat
  | Checking nat
  | Confirming nat
  | Dropping nat

text \<open>A call starts: an answer at once, or the first thing it waits for.\<close>

definition is_leader :: "bool \<Rightarrow> nat option \<Rightarrow> bool option \<times> leader_phase" where
  "is_leader shared leader =
     (if \<not> shared then (Some True, Idle)
      else case leader of None \<Rightarrow> (None, Opening) | Some c \<Rightarrow> (None, Checking c))"

fun leader_waits_for :: "int \<Rightarrow> leader_phase \<Rightarrow> db_call option" where
  "leader_waits_for key Idle = None"
| "leader_waits_for key Opening = Some Connect"
| "leader_waits_for key (Trying c) = Some (Try_Lock c key)"
| "leader_waits_for key (Committing c won) = Some (Commit c)"
| "leader_waits_for key (Closing c) = Some (Close c)"
| "leader_waits_for key (Checking c) = Some (Ping c)"
| "leader_waits_for key (Confirming c) = Some (Commit c)"
| "leader_waits_for key (Dropping c) = Some (Invalidate c)"

text \<open>\<open>_drop_leader\<close>, then the answer is no.\<close>

fun drop_leader :: "nat option \<Rightarrow> bool option \<times> nat option \<times> leader_phase" where
  "drop_leader None = (Some False, None, Idle)"
| "drop_leader (Some c) = (None, None, Dropping c)"

text \<open>The answer, if the call is over, what \<open>_leader\<close> is, and what the call waits for next.\<close>

fun resume_leader :: "nat option \<Rightarrow> leader_phase \<Rightarrow> db_reply \<Rightarrow> bool option \<times> nat option \<times> leader_phase" where
  "resume_leader leader (Dropping c) _ = (Some False, leader, Idle)"
| "resume_leader leader _ Failed = drop_leader leader"
| "resume_leader leader Opening (Session c) = (None, leader, Trying c)"
| "resume_leader leader (Trying c) (Row won) = (None, leader, Committing c won)"
| "resume_leader leader (Committing c True) _ = (Some True, Some c, Idle)"
| "resume_leader leader (Committing c False) _ = (None, leader, Closing c)"
| "resume_leader leader (Closing c) _ = (Some False, leader, Idle)"
| "resume_leader leader (Checking c) _ = (None, leader, Confirming c)"
| "resume_leader leader (Confirming c) _ = (Some True, leader, Idle)"
| "resume_leader leader _ _ = drop_leader leader"

text \<open>
  All replicas: each one's \<open>_leader\<close>, the phase of each of its tasks (the alert engine and the policy
  runner ask independently), and the log. \<open>close\<close> gives leadership up when a replica stops.
\<close>

inductive elections :: "int \<Rightarrow> (nat \<Rightarrow> nat option) \<Rightarrow> (nat \<times> nat \<Rightarrow> leader_phase) \<Rightarrow> db_log \<Rightarrow> bool"
  for key :: int
where
  start: "elections key (\<lambda>_. None) (\<lambda>_. Idle) []"
| ask_leader: "elections key leader phase tr \<Longrightarrow> phase (r, t) = Idle \<Longrightarrow> is_leader True (leader r) = (answer, p) \<Longrightarrow>
    elections key leader (phase((r, t) := p)) tr"
| reply: "elections key leader phase tr \<Longrightarrow> leader_waits_for key (phase (r, t)) = Some call \<Longrightarrow>
    resume_leader (leader r) (phase (r, t)) x = (answer, l, p) \<Longrightarrow>
    elections key (leader(r := l)) (phase((r, t) := p)) (tr @ [Replied call x])"
| close_leader: "elections key leader phase tr \<Longrightarrow> phase (r, t) = Idle \<Longrightarrow> drop_leader (leader r) = (answer, l, p) \<Longrightarrow>
    elections key (leader(r := l)) (phase((r, t) := p)) tr"
| lost: "elections key leader phase tr \<Longrightarrow> elections key leader phase (tr @ [Ended c])"


section \<open>The lock of a queue (Coordinator.lock)\<close>

datatype lock_phase =
    Outside
  | Queued int
  | Getting int
  | Locking int nat
  | Inside int "nat option"
  | Leaving int nat

text \<open>After the replica's own lock: straight in without a shared database.\<close>

definition after_local :: "bool \<Rightarrow> int \<Rightarrow> lock_phase" where
  "after_local shared key = (if shared then Getting key else Inside key None)"

fun lock_waits_for :: "lock_phase \<Rightarrow> db_call option" where
  "lock_waits_for (Getting key) = Some Connect"
| "lock_waits_for (Locking key c) = Some (Xact_Lock c key)"
| "lock_waits_for (Leaving key c) = Some (End_Transaction c)"
| "lock_waits_for _ = None"

fun resume_lock :: "lock_phase \<Rightarrow> db_reply \<Rightarrow> lock_phase" where
  "resume_lock (Getting key) (Session c) = Locking key c"
| "resume_lock (Locking key c) Done = Inside key (Some c)"
| "resume_lock (Locking key c) _ = Leaving key c"
| "resume_lock _ _ = Outside"

text \<open>The body of the \<open>async with\<close> is over, however it ended.\<close>

fun leave_lock :: "lock_phase \<Rightarrow> lock_phase" where
  "leave_lock (Inside key (Some c)) = Leaving key c"
| "leave_lock _ = Outside"

fun key_of :: "lock_phase \<Rightarrow> int option" where
  "key_of Outside = None"
| "key_of (Queued key) = Some key"
| "key_of (Getting key) = Some key"
| "key_of (Locking key c) = Some key"
| "key_of (Inside key c) = Some key"
| "key_of (Leaving key c) = Some key"

text \<open>The replica's own lock is released with the last phase.\<close>

definition released :: "lock_phase \<Rightarrow> lock_phase \<Rightarrow> nat \<Rightarrow> (nat \<times> int \<Rightarrow> nat option) \<Rightarrow> nat \<times> int \<Rightarrow> nat option" where
  "released before after r local =
     (case key_of before of
        Some key \<Rightarrow> if after = Outside then local((r, key) := None) else local
      | None \<Rightarrow> local)"

inductive lock_runs ::
  "bool \<Rightarrow> (nat \<times> int \<Rightarrow> nat option) \<Rightarrow> (nat \<times> nat \<Rightarrow> lock_phase) \<Rightarrow> db_log \<Rightarrow> bool"
  for shared :: bool
where
  lock_start: "lock_runs shared (\<lambda>_. None) (\<lambda>_. Outside) []"
| ask_lock: "lock_runs shared local phase tr \<Longrightarrow> phase (r, t) = Outside \<Longrightarrow>
    lock_runs shared local (phase((r, t) := Queued key)) tr"
| take_local: "lock_runs shared local phase tr \<Longrightarrow> phase (r, t) = Queued key \<Longrightarrow> local (r, key) = None \<Longrightarrow>
    lock_runs shared (local((r, key) := Some t)) (phase((r, t) := after_local shared key)) tr"
| lock_reply: "lock_runs shared local phase tr \<Longrightarrow> lock_waits_for (phase (r, t)) = Some call \<Longrightarrow>
    resume_lock (phase (r, t)) x = p \<Longrightarrow>
    lock_runs shared (released (phase (r, t)) p r local) (phase((r, t) := p)) (tr @ [Replied call x])"
| body_over: "lock_runs shared local phase tr \<Longrightarrow> phase (r, t) = Inside key c \<Longrightarrow> leave_lock (phase (r, t)) = p \<Longrightarrow>
    lock_runs shared (released (phase (r, t)) p r local) (phase((r, t) := p)) tr"
| lock_lost: "lock_runs shared local phase tr \<Longrightarrow> lock_runs shared local phase (tr @ [Ended c])"

end
