(* ===== verification/Coordination_Properties.thy ===== *)
theory Coordination_Properties
  imports Coordination
begin

text \<open>
  Mutual exclusion between replicas: at most one of them is the leader with a live session, and at
  most one task of all replicas is inside the lock of a queue. The two step relations share what
  \<open>PostgreSQL\<close> promises; the invariants say which session is used by whom.
\<close>


section \<open>The log\<close>

lemma pg_keeps_snoc: "pg_keeps (tr @ [e]) \<longleftrightarrow> pg_keeps tr \<and> pg_promise tr e"
  by (fastforce simp: pg_keeps_def append_eq_append_conv2 append_eq_Cons_conv Cons_eq_append_conv)

lemma pg_keeps_Nil [simp]: "pg_keeps []"
  by (simp add: pg_keeps_def)

definition granted :: "db_log \<Rightarrow> nat \<Rightarrow> int \<Rightarrow> bool" where
  "granted tr c k \<longleftrightarrow> Some (c, k) \<in> grants ` set tr"

definition opened :: "db_log \<Rightarrow> nat \<Rightarrow> bool" where
  "opened tr c \<longleftrightarrow> Some c \<in> opens ` set tr"

lemma log_snoc [simp]:
  "granted (tr @ [e]) c k \<longleftrightarrow> granted tr c k \<or> grants e = Some (c, k)"
  "opened (tr @ [e]) c \<longleftrightarrow> opened tr c \<or> opens e = Some c"
  "over (tr @ [e]) c \<longleftrightarrow> over tr c \<or> ends e = Some c"
  by (auto simp: granted_def opened_def over_def)

lemma holds_lock_granted: "holds_lock tr c k \<longleftrightarrow> granted tr c k \<and> \<not> over tr c"
  by (simp add: holds_lock_def granted_def)

lemma opening_is_new: "pg_promise tr e \<Longrightarrow> opens e = Some c \<Longrightarrow> \<not> opened tr c"
  by (cases e rule: opens.cases) (auto simp: opened_def)

lemma granting_is_exclusive: "pg_promise tr e \<Longrightarrow> grants e = Some (c, k) \<Longrightarrow> holds_lock tr d k \<Longrightarrow> d = c"
  by (cases e rule: grants.cases) auto

text \<open>A lock is held by one session at a time.\<close>

lemma one_holder:
  assumes "pg_keeps tr" "holds_lock tr c k" "holds_lock tr d k"
  shows "c = d"
  using assms
proof (induction tr rule: rev_induct)
  case Nil
  then show ?case by (simp add: holds_lock_def)
next
  case (snoc e tr)
  then have promise: "pg_promise tr e" and keeps: "pg_keeps tr" by (simp_all add: pg_keeps_snoc)
  have old: "holds_lock tr x k \<or> grants e = Some (x, k)" if "holds_lock (tr @ [e]) x k" for x
    using that by (auto simp: holds_lock_granted)
  from old [OF snoc.prems(2)] old [OF snoc.prems(3)] snoc.IH [OF keeps] granting_is_exclusive [OF promise]
  show ?case by auto
qed


section \<open>Elections\<close>

fun session_of :: "leader_phase \<Rightarrow> nat option" where
  "session_of (Trying c) = Some c"
| "session_of (Committing c won) = Some c"
| "session_of (Closing c) = Some c"
| "session_of (Checking c) = Some c"
| "session_of (Confirming c) = Some c"
| "session_of (Dropping c) = Some c"
| "session_of _ = None"

text \<open>A session of a replica: its leadership, or one a task of it is using.\<close>

definition uses :: "(nat \<Rightarrow> nat option) \<Rightarrow> (nat \<times> nat \<Rightarrow> leader_phase) \<Rightarrow> nat \<Rightarrow> nat \<Rightarrow> bool" where
  "uses leader phase r c \<longleftrightarrow> leader r = Some c \<or> (\<exists>t. session_of (phase (r, t)) = Some c)"

lemma usesI:
  "leader r = Some c \<Longrightarrow> uses leader phase r c"
  "session_of (phase (r, t)) = Some c \<Longrightarrow> uses leader phase r c"
  by (auto simp: uses_def)

definition election_ok ::
  "int \<Rightarrow> (nat \<Rightarrow> nat option) \<Rightarrow> (nat \<times> nat \<Rightarrow> leader_phase) \<Rightarrow> db_log \<Rightarrow> bool"
where
  "election_ok key leader phase tr \<longleftrightarrow>
     (\<forall>r c. leader r = Some c \<longrightarrow> granted tr c key) \<and>
     (\<forall>r t c. phase (r, t) = Committing c True \<longrightarrow> granted tr c key) \<and>
     (\<forall>r c. uses leader phase r c \<longrightarrow> opened tr c) \<and>
     (\<forall>r r' c. uses leader phase r c \<longrightarrow> uses leader phase r' c \<longrightarrow> r = r')"

lemma election_okD:
  assumes "election_ok key leader phase tr"
  shows "leader r = Some c \<Longrightarrow> granted tr c key"
    and "phase (r, t) = Committing c True \<Longrightarrow> granted tr c key"
    and "uses leader phase r c \<Longrightarrow> opened tr c"
    and "uses leader phase r c \<Longrightarrow> uses leader phase r' c \<Longrightarrow> r = r'"
  using assms by (auto simp: election_ok_def)

text \<open>One replica moves: it may only go on with sessions it has, or with the one just opened.\<close>

lemma election_step:
  assumes ok: "election_ok key leader phase tr"
    and log: "tr' = tr \<or> tr' = tr @ [e] \<and> pg_promise tr e"
    and mine: "\<And>c. l = Some c \<or> session_of p = Some c \<Longrightarrow>
      uses leader phase r c \<or> tr' = tr @ [e] \<and> opens e = Some c"
    and lead: "\<And>c. l = Some c \<Longrightarrow> granted tr' c key"
    and won: "\<And>c. p = Committing c True \<Longrightarrow> granted tr' c key"
  shows "election_ok key (leader(r := l)) (phase((r, t) := p)) tr'"
proof -
  let ?L = "leader(r := l)" and ?P = "phase((r, t) := p)"
  have grows: "granted tr c k \<Longrightarrow> granted tr' c k" "opened tr c \<Longrightarrow> opened tr' c" for c k
    using log by auto
  have same: "uses ?L ?P r' c \<Longrightarrow> uses leader phase r' c" if "r' \<noteq> r" for r' c
    using that by (auto simp: uses_def)
  have own: "uses leader phase r c \<or> tr' = tr @ [e] \<and> opens e = Some c" if "uses ?L ?P r c" for c
  proof -
    from that consider "l = Some c" | "session_of p = Some c" | t' where "session_of (phase (r, t')) = Some c"
      by (auto simp: uses_def split: if_splits)
    then show ?thesis using mine by cases (auto simp: uses_def)
  qed
  have new: "tr' = tr @ [e] \<Longrightarrow> opens e = Some c \<Longrightarrow> \<not> uses leader phase r' c" for r' c
    using log opening_is_new election_okD(3) [OF ok] by (metis self_append_conv not_Cons_self2)
  show ?thesis
    unfolding election_ok_def
  proof (intro conjI allI impI)
    show "granted tr' c key" if "?L r' = Some c" for r' c
      using that lead grows(1) election_okD(1) [OF ok] by (auto split: if_splits)
    show "granted tr' c key" if "?P (r', t') = Committing c True" for r' t' c
      using that won grows(1) election_okD(2) [OF ok] by (auto split: if_splits)
    show "opened tr' c" if "uses ?L ?P r' c" for r' c
    proof (cases "r' = r")
      case True
      with own that grows(2) election_okD(3) [OF ok] show ?thesis by fastforce
    next
      case False
      with same that grows(2) election_okD(3) [OF ok] show ?thesis by blast
    qed
    show "r1 = r2" if "uses ?L ?P r1 c" "uses ?L ?P r2 c" for r1 r2 c
    proof (cases "r1 = r \<or> r2 = r")
      case True
      with that same own new election_okD(4) [OF ok] show ?thesis by metis
    next
      case False
      with that same election_okD(4) [OF ok] show ?thesis by metis
    qed
  qed
qed

lemma drop_leader_result: "drop_leader v = (answer, l, p) \<Longrightarrow> l = None \<and> (\<forall>c. session_of p = Some c \<longrightarrow> v = Some c) \<and>
    (\<forall>c. p \<noteq> Committing c True)"
  by (cases v) auto

text \<open>What a reply leads to.\<close>

lemma resume_leader_result:
  assumes "resume_leader v q x = (answer, l, p)" and "leader_waits_for key q = Some call"
  shows "(\<forall>c. session_of p = Some c \<longrightarrow> v = Some c \<or> session_of q = Some c \<or> opens (Replied call x) = Some c) \<and>
    (\<forall>c. l = Some c \<longrightarrow> v = Some c \<or> q = Committing c True \<and> session_of q = Some c) \<and>
    (\<forall>c. p = Committing c True \<longrightarrow> grants (Replied call x) = Some (c, key))"
  using assms
  by (cases "(v, q, x)" rule: resume_leader.cases) (auto dest: drop_leader_result)

lemma elections_ok: "elections key leader phase tr \<Longrightarrow> pg_keeps tr \<Longrightarrow> election_ok key leader phase tr"
proof (induction rule: elections.induct)
  case start
  then show ?case by (simp add: election_ok_def uses_def)
next
  case (ask_leader leader phase tr r t answer p)
  then have ok: "election_ok key leader phase tr" by simp
  have "election_ok key (leader(r := leader r)) (phase((r, t) := p)) tr"
    by (rule election_step [OF ok])
       (use ask_leader.hyps(3) election_okD(1) [OF ok] in \<open>auto simp: uses_def is_leader_def split: option.splits\<close>)
  then show ?case by (simp only: fun_upd_triv)
next
  case (reply leader phase tr r t call x answer l p)
  then have ok: "election_ok key leader phase tr" and promise: "pg_promise tr (Replied call x)"
    by (simp_all add: pg_keeps_snoc)
  note result = resume_leader_result [OF reply.hyps(3,2)]
  show ?case
    by (rule election_step [OF ok, where e = "Replied call x"])
       (use promise result election_okD(1,2) [OF ok] usesI(1) [of leader r _ phase] usesI(2) [of phase r t _ leader] in \<open>auto\<close>)
next
  case (close_leader leader phase tr r t answer l p)
  then have ok: "election_ok key leader phase tr" by simp
  show ?case
    by (rule election_step [OF ok]) (use drop_leader_result [OF close_leader.hyps(3)] in \<open>auto simp: uses_def\<close>)
next
  case (lost leader phase tr c)
  then have "election_ok key leader phase tr" by (simp add: pg_keeps_snoc)
  then show ?case by (simp add: election_ok_def)
qed

lemma leader_holds_lock:
  assumes "elections key leader phase tr" "pg_keeps tr" "leader r = Some c" "\<not> over tr c"
  shows "holds_lock tr c key"
  using election_okD(1) [OF elections_ok [OF assms(1,2)] assms(3)] assms(4) by (simp add: holds_lock_granted)

text \<open>A replica whose session ended is told so by its next check, and gives leadership up.\<close>

lemma stale_leader_steps_down:
  assumes "over tr c" "pg_promise tr (Replied (Ping c) x)"
  shows "resume_leader v (Checking c) x = drop_leader v"
  using assms by auto

text \<open>
  C32. At most one replica evaluates alerts and runs policies: however the calls of all replicas and
  of the two tasks of each interleave, whichever database calls fail and whenever sessions are lost,
  two replicas that both count as leader and whose sessions are alive are the same one, and its
  session has the alert engine's advisory lock; a replica whose session is gone gets no yes from its
  next check, and is the leader no longer. PostgreSQL is relied on for three things: it grants an
  advisory lock to one session at a time, an ended session answers nothing, a new connection is a new
  session.
\<close>

theorem at_most_one_leader:
  assumes "elections key leader phase tr" and "pg_keeps tr" and "leader r = Some c"
  shows "(\<not> over tr c \<longrightarrow> holds_lock tr c key \<and> (\<forall>r' d. leader r' = Some d \<longrightarrow> \<not> over tr d \<longrightarrow> r' = r)) \<and>
    (over tr c \<longrightarrow> (\<forall>x answer l p. pg_promise tr (Replied (Ping c) x) \<longrightarrow>
       resume_leader (leader r) (Checking c) x = (answer, l, p) \<longrightarrow> answer \<noteq> Some True \<and> l = None))"
proof (intro conjI impI allI)
  assume live: "\<not> over tr c"
  show held: "holds_lock tr c key" by (rule leader_holds_lock [OF assms live])
  fix r' d assume other: "leader r' = Some d" "\<not> over tr d"
  have "d = c" by (rule one_holder [OF assms(2) leader_holds_lock [OF assms(1,2) other] held])
  then have "uses leader phase r' c" "uses leader phase r c" using other assms(3) by (simp_all add: uses_def)
  then show "r' = r" by (rule election_okD(4) [OF elections_ok [OF assms(1,2)]])
next
  fix x answer l p
  assume "over tr c" "pg_promise tr (Replied (Ping c) x)" "resume_leader (leader r) (Checking c) x = (answer, l, p)"
  with assms(3) show "answer \<noteq> Some True" "l = None" by (auto dest: stale_leader_steps_down)
qed

text \<open>Replica 1 wins; its session is lost, and replica 2 takes over before replica 1 has noticed.\<close>

definition won_log :: "nat \<Rightarrow> db_log" where
  "won_log c = [Replied Connect (Session c), Replied (Try_Lock c 7) (Row True), Replied (Commit c) Done]"

lemma wins_election:
  assumes "elections 7 leader phase tr" "phase (r, 0) = Idle" "leader r = None"
  shows "elections 7 (leader(r := Some c)) phase (tr @ won_log c)"
proof -
  have "elections 7 leader (phase((r, 0) := Opening)) tr"
    using ask_leader [OF assms(1,2), of None Opening] assms(3) by (simp add: is_leader_def)
  from reply [OF this, where r = r and t = 0 and x = "Session c"] assms(3)
  have "elections 7 leader (phase((r, 0) := Trying c)) (tr @ [Replied Connect (Session c)])" by (simp add: fun_upd_idem)
  from reply [OF this, where r = r and t = 0 and x = "Row True"] assms(3)
  have "elections 7 leader (phase((r, 0) := Committing c True))
      (tr @ [Replied Connect (Session c), Replied (Try_Lock c 7) (Row True)])" by (simp add: fun_upd_idem)
  from reply [OF this, where r = r and t = 0 and x = Done] assms(2,3)
  have "elections 7 (leader(r := Some c)) (phase((r, 0) := Idle)) (tr @ won_log c)"
    by (simp add: won_log_def)
  then show ?thesis using assms(2) by (simp only: fun_upd_idem)
qed

lemma pg_keeps_prefix: "pg_keeps tr \<Longrightarrow> pg_promise tr e \<Longrightarrow> pg_keeps (tr @ [e])"
  by (simp add: pg_keeps_snoc)

theorem at_most_one_leader_witness:
  "\<exists>leader phase tr. elections 7 leader phase tr \<and> pg_keeps tr \<and> leader 1 = Some 10 \<and> leader 2 = Some 20 \<and>
     over tr 10 \<and> holds_lock tr 20 7 \<and> fst (resume_leader (leader 1) (Checking 10) Failed) \<noteq> Some True"
proof -
  let ?L = "(\<lambda>_. None)(1 := Some 10, 2 := Some 20) :: nat \<Rightarrow> nat option"
  let ?tr = "won_log 10 @ [Ended 10] @ won_log 20"
  have "elections 7 ((\<lambda>_. None)(1 := Some 10)) (\<lambda>_. Idle) (won_log 10)"
    using wins_election [OF start, of 1 10] by simp
  from wins_election [OF lost [OF this, of 10], of 2 20]
  have run: "elections 7 ?L (\<lambda>_. Idle) ?tr" by simp
  have keeps: "pg_keeps ?tr"
  proof -
    have "pg_keeps ((((((([] @ [Replied Connect (Session 10)]) @ [Replied (Try_Lock 10 7) (Row True)]) @
        [Replied (Commit 10) Done]) @ [Ended 10]) @ [Replied Connect (Session 20)]) @
        [Replied (Try_Lock 20 7) (Row True)]) @ [Replied (Commit 20) Done])"
      unfolding pg_keeps_snoc by (simp add: holds_lock_def over_def)
    then show ?thesis by (simp add: won_log_def)
  qed
  have "leader_of = ?L \<Longrightarrow> leader_of 1 = Some 10 \<and> leader_of 2 = Some 20" for leader_of by simp
  moreover have "over ?tr 10" "\<not> over ?tr 20" by (simp_all add: won_log_def over_def)
  moreover have "holds_lock ?tr 20 7"
    using at_most_one_leader [OF run keeps, of 2 20] \<open>\<not> over ?tr 20\<close> by simp
  moreover have "fst (resume_leader (?L 1) (Checking 10) Failed) \<noteq> Some True"
    using at_most_one_leader [OF run keeps, of 1 10] \<open>over ?tr 10\<close> by simp
  ultimately show ?thesis using run keeps by blast
qed


section \<open>The lock of a queue\<close>

fun lock_session :: "lock_phase \<Rightarrow> nat option" where
  "lock_session (Locking key c) = Some c"
| "lock_session (Inside key c) = c"
| "lock_session (Leaving key c) = Some c"
| "lock_session _ = None"

text \<open>Past the replica's own lock, which it has until it is outside again.\<close>

definition past_local :: "lock_phase \<Rightarrow> int \<Rightarrow> bool" where
  "past_local p key \<longleftrightarrow> key_of p = Some key \<and> p \<noteq> Queued key"

definition lock_ok ::
  "bool \<Rightarrow> (nat \<times> int \<Rightarrow> nat option) \<Rightarrow> (nat \<times> nat \<Rightarrow> lock_phase) \<Rightarrow> db_log \<Rightarrow> bool"
where
  "lock_ok shared local phase tr \<longleftrightarrow>
     (\<forall>r t key. past_local (phase (r, t)) key \<longrightarrow> local (r, key) = Some t) \<and>
     (\<forall>x key c. phase x = Inside key c \<longrightarrow> shared \<longrightarrow> (\<exists>d. c = Some d \<and> granted tr d key)) \<and>
     (\<forall>x c. lock_session (phase x) = Some c \<longrightarrow> opened tr c) \<and>
     (\<forall>x y c. lock_session (phase x) = Some c \<longrightarrow> lock_session (phase y) = Some c \<longrightarrow> x = y)"

lemma lock_okD:
  assumes "lock_ok shared local phase tr"
  shows "past_local (phase (r, t)) key \<Longrightarrow> local (r, key) = Some t"
    and "phase x = Inside key v \<Longrightarrow> shared \<Longrightarrow> \<exists>d. v = Some d \<and> granted tr d key"
    and "lock_session (phase x) = Some c \<Longrightarrow> opened tr c"
    and "lock_session (phase x) = Some c \<Longrightarrow> lock_session (phase y) = Some c \<Longrightarrow> x = y"
  using assms unfolding lock_ok_def by blast+

text \<open>A task moves, with the replica's lock or giving it back.\<close>

lemma lock_step:
  assumes ok: "lock_ok shared local phase tr"
    and log: "tr' = tr \<or> tr' = tr @ [e] \<and> pg_promise tr e"
    and mine: "\<And>c. lock_session p = Some c \<Longrightarrow> lock_session (phase (r, t)) = Some c \<or> tr' = tr @ [e] \<and> opens e = Some c"
    and inside: "\<And>key c. p = Inside key c \<Longrightarrow> shared \<Longrightarrow> \<exists>d. c = Some d \<and> granted tr' d key"
    and own: "\<And>key. past_local p key \<Longrightarrow> local' (r, key) = Some t"
    and others: "\<And>r' t' key. (r', t') \<noteq> (r, t) \<Longrightarrow> past_local (phase (r', t')) key \<Longrightarrow> local' (r', key) = local (r', key)"
  shows "lock_ok shared local' (phase((r, t) := p)) tr'"
proof -
  let ?P = "phase((r, t) := p)"
  have grows: "granted tr c k \<Longrightarrow> granted tr' c k" "opened tr c \<Longrightarrow> opened tr' c" for c k
    using log by auto
  have new: "tr' = tr @ [e] \<Longrightarrow> opens e = Some c \<Longrightarrow> lock_session (phase y) \<noteq> Some c" for y c
    using log opening_is_new lock_okD(3) [OF ok] by (metis self_append_conv not_Cons_self2)
  show ?thesis
    unfolding lock_ok_def
  proof (intro conjI allI impI)
    show "local' (r', key) = Some t'" if "past_local (?P (r', t')) key" for r' t' key
    proof (cases "(r', t') = (r, t)")
      case True
      with that own show ?thesis by simp
    next
      case False
      with that have past: "past_local (phase (r', t')) key" by (simp split: if_splits)
      show ?thesis using others [OF False past] lock_okD(1) [OF ok past] by simp
    qed
    show "\<exists>d. c = Some d \<and> granted tr' d key" if "?P x = Inside key c" shared for x key c
    proof (cases "x = (r, t)")
      case True
      with that inside show ?thesis by simp
    next
      case False
      with that lock_okD(2) [OF ok] grows(1) show ?thesis by (metis fun_upd_other)
    qed
    show "opened tr' c" if "lock_session (?P x) = Some c" for x c
    proof (cases "x = (r, t)")
      case True
      with that mine [of c] log grows(2) [OF lock_okD(3) [OF ok, of "(r, t)" c]] show ?thesis by auto
    next
      case False
      with that grows(2) lock_okD(3) [OF ok] show ?thesis by (metis fun_upd_other)
    qed
    show "x = y" if "lock_session (?P x) = Some c" "lock_session (?P y) = Some c" for x y c
    proof -
      have old: "lock_session (phase z) = Some c \<or> tr' = tr @ [e] \<and> opens e = Some c \<and> z = (r, t)"
        if "lock_session (?P z) = Some c" for z
        using that mine [of c] by (cases "z = (r, t)") auto
      from old [OF that(1)] old [OF that(2)] new lock_okD(4) [OF ok] show ?thesis by blast
    qed
  qed
qed

text \<open>Giving the replica's lock back hurts no one else: who is past it has it.\<close>

lemma released_others:
  assumes ok: "lock_ok shared local phase tr" and "phase (r, t) \<noteq> Queued k" and "key_of (phase (r, t)) = Some k"
    and "(r', t') \<noteq> (r, t)" "past_local (phase (r', t')) key"
  shows "released (phase (r, t)) p r local (r', key) = local (r', key)"
proof -
  have "local (r, k) = Some t" using lock_okD(1) [OF ok, of r t k] assms(2,3) by (simp add: past_local_def)
  with lock_okD(1) [OF ok assms(5)] assms(3,4) show ?thesis by (auto simp: released_def)
qed

lemma released_own:
  assumes ok: "lock_ok shared local phase tr" and "key_of (phase (r, t)) = Some k" "phase (r, t) \<noteq> Queued k"
    and "past_local p key" "key_of p = Some k"
  shows "released (phase (r, t)) p r local (r, key) = Some t"
  using lock_okD(1) [OF ok, of r t k] assms(2-) by (auto simp: released_def past_local_def)

lemma resume_lock_result:
  assumes "lock_waits_for q = Some call" "resume_lock q x = p"
  shows "\<exists>k. key_of q = Some k \<and> q \<noteq> Queued k \<and> (p = Outside \<or> key_of p = Some k) \<and> (\<forall>j. p \<noteq> Queued j) \<and>
    (\<forall>c. lock_session p = Some c \<longrightarrow> lock_session q = Some c \<or> opens (Replied call x) = Some c) \<and>
    (\<forall>key c. p = Inside key c \<longrightarrow> (\<exists>d. c = Some d \<and> grants (Replied call x) = Some (d, key)))"
  using assms by (cases "(q, x)" rule: resume_lock.cases) auto

lemma lock_runs_ok: "lock_runs shared local phase tr \<Longrightarrow> pg_keeps tr \<Longrightarrow> lock_ok shared local phase tr"
proof (induction rule: lock_runs.induct)
  case lock_start
  then show ?case by (simp add: lock_ok_def past_local_def)
next
  case (ask_lock local phase tr r t key)
  then have ok: "lock_ok shared local phase tr" by simp
  show ?case
    by (rule lock_step [OF ok]) (auto simp: past_local_def)
next
  case (take_local local phase tr r t key)
  then have ok: "lock_ok shared local phase tr" by simp
  show ?case
  proof (rule lock_step [OF ok])
    show "(local((r, key) \<mapsto> t)) (r', k) = local (r', k)" if "past_local (phase (r', t')) k" for r' t' k
      using lock_okD(1) [OF ok that] take_local.hyps(3) by auto
  qed (auto simp: past_local_def after_local_def split: if_splits)
next
  case (lock_reply local phase tr r t call x p)
  then have ok: "lock_ok shared local phase tr" and promise: "pg_promise tr (Replied call x)"
    by (simp_all add: pg_keeps_snoc)
  from resume_lock_result [OF lock_reply.hyps(2,3)] obtain k where
    k: "key_of (phase (r, t)) = Some k" "phase (r, t) \<noteq> Queued k" "p = Outside \<or> key_of p = Some k" and
    mine: "\<forall>c. lock_session p = Some c \<longrightarrow> lock_session (phase (r, t)) = Some c \<or> opens (Replied call x) = Some c" and
    inside: "\<forall>key c. p = Inside key c \<longrightarrow> (\<exists>d. c = Some d \<and> grants (Replied call x) = Some (d, key))" by blast
  show ?case
  proof (rule lock_step [OF ok, where e = "Replied call x"])
    show "released (phase (r, t)) p r local (r, key) = Some t" if "past_local p key" for key
      using released_own [OF ok k(1,2) that] that k(3) by (auto simp: past_local_def)
  qed (use promise mine inside released_others [OF ok k(2,1)] in auto)
next
  case (body_over local phase tr r t key c p)
  then have ok: "lock_ok shared local phase tr" by simp
  have k: "key_of (phase (r, t)) = Some key" "phase (r, t) \<noteq> Queued key" using body_over.hyps(2) by simp_all
  have p: "p = Outside \<and> c = None \<or> (\<exists>d. c = Some d \<and> p = Leaving key d)"
    using body_over.hyps(2,3) by (cases c) auto
  show ?case
  proof (rule lock_step [OF ok])
    show "released (phase (r, t)) p r local (r, k') = Some t" if "past_local p k'" for k'
      using released_own [OF ok k that] that p by (auto simp: past_local_def)
  qed (use p body_over.hyps(2) released_others [OF ok k(2,1)] in auto)
next
  case (lock_lost local phase tr c)
  then have "lock_ok shared local phase tr" by (simp add: pg_keeps_snoc)
  then show ?case by (simp add: lock_ok_def)
qed

text \<open>A session the task has, and has not lost (without a shared database there is none to lose).\<close>

definition live_inside :: "db_log \<Rightarrow> lock_phase \<Rightarrow> int \<Rightarrow> bool" where
  "live_inside tr p key \<longleftrightarrow> (\<exists>c. p = Inside key c \<and> (\<forall>d. c = Some d \<longrightarrow> \<not> over tr d))"

text \<open>
  C33. One task at a time is inside the lock of a queue. On a shared PostgreSQL that is one task of
  all the replicas, as long as the sessions that hold the lock are alive; without one it is one task
  of the replica. However tasks come, wait and leave, and whichever database calls fail.
\<close>

theorem queue_lock_excludes:
  assumes "lock_runs shared local phase tr" and "pg_keeps tr"
    and "live_inside tr (phase (r, t)) key" and "live_inside tr (phase (r', t')) key" and "shared \<or> r = r'"
  shows "(r, t) = (r', t')"
proof -
  note ok = lock_runs_ok [OF assms(1,2)]
  from assms(3,4) obtain c c' where inside: "phase (r, t) = Inside key c" "phase (r', t') = Inside key c'"
    and live: "\<forall>d. c = Some d \<longrightarrow> \<not> over tr d" "\<forall>d. c' = Some d \<longrightarrow> \<not> over tr d"
    by (auto simp: live_inside_def)
  show ?thesis
  proof (cases shared)
    case True
    from lock_okD(2) [OF ok inside(1) True] lock_okD(2) [OF ok inside(2) True] live obtain d d' where
      d: "c = Some d" "holds_lock tr d key" and d': "c' = Some d'" "holds_lock tr d' key"
      by (auto simp: holds_lock_granted)
    from one_holder [OF assms(2) d(2) d'(2)] inside d(1) d'(1) show ?thesis
      by (intro lock_okD(4) [OF ok, of _ d]) simp_all
  next
    case False
    with assms(5) have "r' = r" by simp
    with lock_okD(1) [OF ok, of r t key] lock_okD(1) [OF ok, of r' t' key] inside show ?thesis
      by (simp add: past_local_def)
  qed
qed

lemma enters_lock:
  assumes "lock_runs True local phase tr" "phase (r, 0) = Outside" "local (r, 7) = None"
  shows "lock_runs True (local((r, 7) := Some 0)) (phase((r, 0) := Inside 7 (Some c)))
    (tr @ [Replied Connect (Session c), Replied (Xact_Lock c 7) Done])"
proof -
  let ?local = "local((r, 7) := Some 0)"
  from take_local [OF ask_lock [OF assms(1,2), of 7], where r = r and t = 0 and key = 7] assms(3)
  have "lock_runs True ?local (phase((r, 0) := Getting 7)) tr" by (simp add: after_local_def)
  from lock_reply [OF this, where r = r and t = 0 and x = "Session c", OF _ refl]
  have "lock_runs True ?local (phase((r, 0) := Locking 7 c)) (tr @ [Replied Connect (Session c)])"
    by (simp add: released_def)
  from lock_reply [OF this, where r = r and t = 0 and x = Done, OF _ refl] show ?thesis by (simp add: released_def)
qed

text \<open>Replica 1 loses its session inside the lock; replica 2 gets in, and is the only one with a live session.\<close>

theorem queue_lock_excludes_witness:
  "\<exists>local phase tr. lock_runs True local phase tr \<and> pg_keeps tr \<and> phase (1, 0) = Inside 7 (Some 10) \<and>
     live_inside tr (phase (2, 0)) 7 \<and> \<not> live_inside tr (phase (1, 0)) 7"
proof -
  let ?P = "(\<lambda>_. Outside)((1, 0) := Inside 7 (Some 10), (2, 0) := Inside 7 (Some 20)) :: nat \<times> nat \<Rightarrow> lock_phase"
  let ?local = "(\<lambda>_. None)((1, 7) := Some 0, (2, 7) := Some 0) :: nat \<times> int \<Rightarrow> nat option"
  let ?tr = "[Replied Connect (Session 10), Replied (Xact_Lock 10 7) Done, Ended 10,
    Replied Connect (Session 20), Replied (Xact_Lock 20 7) Done]"
  have "lock_runs True ((\<lambda>_. None)((1, 7) := Some 0)) ((\<lambda>_. Outside)((1, 0) := Inside 7 (Some 10)))
      [Replied Connect (Session 10), Replied (Xact_Lock 10 7) Done]"
    using enters_lock [OF lock_start, of 1 10] by simp
  from enters_lock [OF lock_lost [OF this, of 10], of 2 20]
  have run: "lock_runs True ?local ?P ?tr" by simp
  have "pg_keeps ((((([] @ [Replied Connect (Session 10)]) @ [Replied (Xact_Lock 10 7) Done]) @ [Ended 10]) @
      [Replied Connect (Session 20)]) @ [Replied (Xact_Lock 20 7) Done])"
    unfolding pg_keeps_snoc by (simp add: holds_lock_def over_def)
  then have keeps: "pg_keeps ?tr" by simp
  have second: "live_inside ?tr (?P (2, 0)) 7" by (simp add: live_inside_def over_def)
  moreover have "\<not> live_inside ?tr (?P (1, 0)) 7"
    using queue_lock_excludes [OF run keeps second, of 1 0] by auto
  moreover have "?P (1, 0) = Inside 7 (Some 10)" by simp
  ultimately show ?thesis using run keeps by blast
qed


section \<open>Keys\<close>

text \<open>A key is a \<open>bigint\<close>, and tells locks apart exactly as the first 64 bits of the digest do.\<close>

lemma lock_key_bigint: "- (2 ^ 63) \<le> lock_key L names \<and> lock_key L names < 2 ^ 63"
  using sint_greater_eq [of "lock_word L names"] sint_less [of "lock_word L names"] by (simp add: lock_key_def)

lemma lock_key_eq_iff: "lock_key L a = lock_key L b \<longleftrightarrow> lock_word L a = lock_word L b"
  by (auto simp: lock_key_def intro: signed_word_eqI)

end
