(* ===== verification/Application.thy ===== *)
theory Application
  imports Platform Audit_Trail Policies
begin

text \<open>
  The application around the routes (app/main.py) and the notification table (NotificationRepository,
  app/infrastructure/persistence/store.py): what happens at startup, in the two background loops, and
  to every request before and after its route.

  A loop's pass is modelled, not its sleep; creating the parts and registering the routers is wiring.
\<close>


section \<open>Notifications\<close>

record notification_row =
  nt_id :: int
  nt_timestamp :: datetime
  nt_notice :: notice

definition notifications_add ::
  "pylib \<Rightarrow> int \<Rightarrow> int \<Rightarrow> notice \<Rightarrow> notification_row list \<Rightarrow> notification_row \<times> notification_row list"
where
  "notifications_add L now new_id n rows =
     (let row = \<lparr>nt_id = new_id, nt_timestamp = db_time L (Aware now), nt_notice = n\<rparr> in (row, rows @ [row]))"

definition notification_dict :: "pylib \<Rightarrow> notification_row \<Rightarrow> pyval dict" where
  "notification_dict L r =
     (let n = nt_notice r
      in [(''id'', PInt (nt_id r)), (''timestamp'', PStr (isoformat L (nt_timestamp r))), (''level'', PStr (no_level n)),
          (''title'', PStr (no_title n)), (''message'', PStr (no_message n)), (''source'', PStr (no_source n)),
          (''rule_id'', opt_int (no_rule n)), (''delivery'', PDict (no_delivery n))])"

text \<open>Newest first, at most \<open>limit\<close>.\<close>

definition notifications_list :: "pylib \<Rightarrow> nat \<Rightarrow> notification_row list \<Rightarrow> pyval dict list" where
  "notifications_list L limit rows =
     map (notification_dict L)
       (take limit (rev (sort_key (\<lambda>r. (as_utc (nt_timestamp r), nt_id r)) rows)))"

definition purge_older_than :: "int \<Rightarrow> int \<Rightarrow> notification_row list \<Rightarrow> nat \<times> notification_row list" where
  "purge_older_than now n_days rows =
     (let cutoff = now - days n_days; old = (\<lambda>r. as_utc (nt_timestamp r) < cutoff)
      in (length (filter old rows), filter (\<lambda>r. \<not> old r) rows))"


section \<open>Retention (_retention_loop)\<close>

definition retention_days :: "pylib \<Rightarrow> cipher option \<Rightarrow> pyval dict \<Rightarrow> exn + int" where
  "retention_days L c table =
     or_raise (settings_get L c ''retention'' (PDict []) table) (\<lambda>v.
     or_raise (as_dict (if truthy v then v else PDict [])) (\<lambda>retention.
       py_int (py_or (dict_get retention ''days'') (PInt 0))))"

text \<open>One pass; whatever it raises is swallowed. The two deletions read the clock one after the other.\<close>

definition retention_pass ::
  "pylib \<Rightarrow> cipher option \<Rightarrow> pyval dict \<Rightarrow> int \<Rightarrow> int \<Rightarrow> audit_row list \<times> notification_row list \<Rightarrow>
     audit_row list \<times> notification_row list"
where
  "retention_pass L c table now1 now2 st =
     (case retention_days L c table of
        Inl _ \<Rightarrow> st
      | Inr n \<Rightarrow>
          if n > 0 then (snd (delete_older_than now1 n (fst st)), snd (purge_older_than now2 n (snd st))) else st)"


section \<open>Startup (_init_database, _seed_defaults)\<close>

text \<open>The tables the startup writes.\<close>

record startup_tables =
  su_users :: "user_row list"
  su_settings :: "pyval dict"
  su_policies :: "policy list"
  su_rules :: "alert_rule list"

definition smtp_channel :: "string \<Rightarrow> int \<Rightarrow> pyval" where
  "smtp_channel host port =
     PDict [(''email'', PDict [(''smtp_host'', PStr host), (''smtp_port'', PInt port),
       (''from'', PStr ''queuelens@local''), (''to'', PStr ''sre@queuelens.local'')])]"

text \<open>The e-mail channel of the environment variables, unless channels are stored.\<close>

definition seed_channels ::
  "pylib \<Rightarrow> cipher option \<Rightarrow> string \<Rightarrow> int \<Rightarrow> pyval dict \<Rightarrow> (exn + unit) \<times> pyval dict"
where
  "seed_channels L c host port table =
     (if host = [] then (Inr (), table)
      else case settings_get L c ''channels'' PNone table of
        Inl e \<Rightarrow> (Inl e, table)
      | Inr v \<Rightarrow>
          if truthy v then (Inr (), table)
          else (case settings_put L c [(''channels'', smtp_channel host port)] table of
                  (Inl e, table') \<Rightarrow> (Inl e, table')
                | (Inr _, table') \<Rightarrow> (Inr (), table')))"

definition seed_defaults ::
  "pylib \<Rightarrow> (string \<Rightarrow> string) \<Rightarrow> settings \<Rightarrow> cipher option \<Rightarrow> string \<Rightarrow> int \<Rightarrow> startup_tables \<Rightarrow>
     (exn + unit) \<times> startup_tables"
where
  "seed_defaults L salts cfg c smtp_host smtp_port s =
     (case settings_users L cfg of
        Inl e \<Rightarrow> (Inl e, s)
      | Inr users \<Rightarrow>
          (case seed_channels L c smtp_host smtp_port (su_settings s) of
             (r, table) \<Rightarrow>
               (r, s\<lparr>su_users := seed_env_users L salts users (s_admin_username cfg) (su_users s), su_settings := table\<rparr>)))"

text \<open>Under the startup lock: the seeds, then rows from before scopes are given the default one.\<close>

definition init_database ::
  "pylib \<Rightarrow> (string \<Rightarrow> string) \<Rightarrow> settings \<Rightarrow> cipher option \<Rightarrow> string \<Rightarrow> int \<Rightarrow> environments \<Rightarrow> startup_tables \<Rightarrow>
     (exn + unit) \<times> startup_tables"
where
  "init_database L salts cfg c smtp_host smtp_port m s =
     (case seed_defaults L salts cfg c smtp_host smtp_port s of
        (Inl e, s') \<Rightarrow> (Inl e, s')
      | (Inr _, s') \<Rightarrow>
          (Inr (), s'\<lparr>su_policies := policies_adopt (fst (default_key m)) (snd (default_key m)) (su_policies s'),
                     su_rules := adopt_unscoped (fst (default_key m)) (snd (default_key m)) (su_rules s')\<rparr>))"


section \<open>Keeping up with other replicas (_sync_settings)\<close>

definition sync_settings ::
  "pylib \<Rightarrow> cipher option \<Rightarrow> pyval dict \<Rightarrow> environments \<times> bool \<Rightarrow> exn + environments \<times> bool"
where
  "sync_settings L c table st =
     or_raise (settings_get L c ''custom_environments'' (PDict []) table) (\<lambda>v.
     or_raise (as_dict (if truthy v then v else PDict [])) (\<lambda>stored.
     or_raise (sync_custom L stored (fst st)) (\<lambda>m.
     or_raise (settings_get L c ''ui'' (PDict []) table) (\<lambda>u.
     or_raise (as_dict (if truthy u then u else PDict [])) (\<lambda>ui.
       Inr (m, truthy (py_get ui ''syslog'')))))))"

text \<open>One pass of \<open>_sync_loop\<close>: a failure is logged and leaves things as they were.\<close>

definition sync_pass :: "pylib \<Rightarrow> cipher option \<Rightarrow> pyval dict \<Rightarrow> environments \<times> bool \<Rightarrow> environments \<times> bool" where
  "sync_pass L c table st = (case sync_settings L c table st of Inl _ \<Rightarrow> st | Inr st' \<Rightarrow> st')"


section \<open>Errors that leave a route (_register_error_handlers)\<close>

datatype response = Json int string | Html int string

definition error_response :: "request \<Rightarrow> int \<Rightarrow> string \<Rightarrow> response" where
  "error_response rq status detail =
     (if starts_with (rq_path rq) ''/api'' then Json status detail else Html status detail)"

text \<open>
  \<open>text\<close> is \<open>str(error)\<close>. An \<open>HTTPException\<close> is answered by the framework with its own status;
  for what nothing handles (\<open>None\<close>) it answers 500.
\<close>

definition handle_error :: "request \<Rightarrow> string \<Rightarrow> exn \<Rightarrow> response option" where
  "handle_error rq text e =
     (case exn_class e of
        HttpErr status \<Rightarrow> Some (Json status text)
      | ManagementErr status \<Rightarrow>
          Some (if status = Some 404 then error_response rq 404 ''Queue not found'' else error_response rq 502 text)
      | Other name \<Rightarrow>
          if name = ''HTTPError'' then Some (error_response rq 503 ''RabbitMQ Management API is unreachable'')
          else if name = ''RabbitMQUnavailableError''
          then Some (error_response rq 503 ''RabbitMQ connection is not available'')
          else None
      | UnsafeToBrowse \<Rightarrow> Some (error_response rq 409 text)
      | ChannelNotFoundErr \<Rightarrow> Some (error_response rq 404 ''Queue not found'')
      | _ \<Rightarrow> if is_lookup_error e then Some (error_response rq 404 text) else None)"


section \<open>The middlewares\<close>

definition SAFE_METHODS :: "string list" where
  "SAFE_METHODS = [''GET'', ''HEAD'', ''OPTIONS'']"

text \<open>\<open>_refuse_cross_site_changes\<close>\<close>

definition cross_site_change :: "string \<Rightarrow> request \<Rightarrow> bool" where
  "cross_site_change method rq \<longleftrightarrow>
     method \<notin> set SAFE_METHODS \<and> header rq ''sec-fetch-site'' \<in> {Some ''cross-site'', Some ''same-site''}"

definition refuse_cross_site_changes ::
  "string \<Rightarrow> (request \<Rightarrow> 's \<Rightarrow> response \<times> 's) \<Rightarrow> request \<Rightarrow> 's \<Rightarrow> response \<times> 's"
where
  "refuse_cross_site_changes method call_next rq s =
     (if cross_site_change method rq
      then (Json 403 ''Requests from another site can't change anything in QueueLens'', s)
      else call_next rq s)"

text \<open>\<open>_audit_request_context\<close>: what the audit trail says of the request.\<close>

definition with_request_context ::
  "(request_context \<Rightarrow> request \<Rightarrow> 's \<Rightarrow> response \<times> 's) \<Rightarrow> request \<Rightarrow> 's \<Rightarrow> response \<times> 's"
where
  "with_request_context call_next rq s =
     call_next \<lparr>rc_ip = rq_client rq, rc_agent = header rq ''user-agent'', rc_scope = None, rc_role = None\<rparr> rq s"

text \<open>
  The stack, outermost first: \<open>KeepPeer\<close>, the server's proxy headers (\<open>proxied\<close>, a library), the
  refusal of cross-site changes, the request context, the routes.
\<close>

definition app_stack ::
  "string option \<Rightarrow> (request \<Rightarrow> request) \<Rightarrow> string \<Rightarrow> (request_context \<Rightarrow> request \<Rightarrow> 's \<Rightarrow> response \<times> 's) \<Rightarrow>
     request \<Rightarrow> 's \<Rightarrow> response \<times> 's"
where
  "app_stack tcp_peer proxied method routes rq =
     refuse_cross_site_changes method (with_request_context routes) (proxied (keep_peer tcp_peer rq))"

end
