(* ===== verification/Application_Properties.thy ===== *)
theory Application_Properties
  imports Application Settings_Properties Environment_Properties Account_Properties
begin

text \<open>
  Startup adds what is missing, leaves the rest alone and is idempotent, whatever other replicas did
  before; retention removes what is old enough and
  nothing else.
\<close>


section \<open>Startup\<close>

lemma user_get_append_iff: "user_get n (rows @ [u]) = None \<longleftrightarrow> user_get n rows = None \<and> us_name u \<noteq> n"
  by (auto simp: user_get_def find_None_iff)

text \<open>Seeding only appends: accounts the table did not have.\<close>

lemma seed_env_users_appends:
  "\<exists>added. seed_env_users L salts users admin rows = rows @ added \<and>
     (\<forall>u \<in> set added. us_name u \<in> fst ` set users \<and> user_get (us_name u) rows = None)"
  unfolding seed_env_users_def
proof (induction users arbitrary: rows)
  case Nil
  then show ?case by simp
next
  case (Cons p users)
  obtain name password where p: "p = (name, password)" by fastforce
  show ?case
  proof (cases "user_get name rows = None")
    case False
    with Cons.IH [of rows] show ?thesis by (auto simp: p)
  next
    case True
    let ?u = "new_user name (hash_password L (salts name) None password)
      (if name = admin then ''Admin'' else ''Operator'') None None False"
    from Cons.IH [of "rows @ [?u]"] obtain added where
      "fold (\<lambda>(name, password) rows. if user_get name rows = None
         then rows @ [new_user name (hash_password L (salts name) None password)
                        (if name = admin then ''Admin'' else ''Operator'') None None False]
         else rows) users (rows @ [?u]) = (rows @ [?u]) @ added"
      "\<forall>u \<in> set added. us_name u \<in> fst ` set users \<and> user_get (us_name u) (rows @ [?u]) = None" by blast
    with True show ?thesis
      by (intro exI [of _ "?u # added"]) (auto simp: p user_get_append_iff new_user_def)
  qed
qed

lemma seed_env_users_known:
  "\<forall>n \<in> fst ` set users. user_get n rows \<noteq> None \<Longrightarrow> seed_env_users L salts users admin rows = rows"
  unfolding seed_env_users_def by (induction users) auto

lemma user_get_appended: "user_get n rows \<noteq> None \<Longrightarrow> user_get n (rows @ added) \<noteq> None"
  by (auto simp: user_get_def find_None_iff)

lemma seed_env_users_all:
  "n \<in> fst ` set users \<Longrightarrow> user_get n (seed_env_users L salts users admin rows) \<noteq> None"
proof (induction users arbitrary: rows)
  case Nil
  then show ?case by simp
next
  case (Cons p users)
  obtain name password where p: "p = (name, password)" by fastforce
  let ?rows = "if user_get name rows = None
     then rows @ [new_user name (hash_password L (salts name) None password)
                    (if name = admin then ''Admin'' else ''Operator'') None None False]
     else rows"
  have step: "seed_env_users L salts (p # users) admin rows = seed_env_users L salts users admin ?rows"
    by (simp add: seed_env_users_def p)
  have "user_get name ?rows \<noteq> None"
    by (cases "user_get name rows = None") (simp_all add: user_get_append_iff new_user_def del: not_None_eq)
  with seed_env_users_appends [of L salts users admin ?rows] have "user_get name (seed_env_users L salts users admin ?rows) \<noteq> None"
    using user_get_appended by metis
  with Cons step show ?case by (auto simp: p)
qed

lemma stored_channel_reads_back:
  assumes "cipher_ok L c (smtp_channel host port)"
  shows "decrypt_setting L c ''channels'' (encrypt_setting L c ''channels'' (smtp_channel host port)) = Inr (smtp_channel host port)"
  using assms
  by (auto simp: cipher_ok_def encrypt_setting_def decrypt_setting_def SECRET_SETTING_KEYS_def smtp_channel_def
      ENCRYPTED_def split: option.splits)

text \<open>Once seeded, the channels are there.\<close>

lemma seed_channels_twice:
  assumes "seed_channels L c host port table = (Inr (), table')" "cipher_ok L c (smtp_channel host port)"
  shows "seed_channels L c host port table' = (Inr (), table')"
proof (cases "table' = table")
  case True
  with assms(1) show ?thesis by simp
next
  case False
  with assms(1) have "table' = dict_set ''channels'' (encrypt_setting L c ''channels'' (smtp_channel host port)) table"
    by (auto simp: seed_channels_def settings_put_def Let_def split: if_splits sum.splits)
  then have "settings_get L c ''channels'' PNone table' = Inr (smtp_channel host port)"
    using stored_channel_reads_back [OF assms(2)] by (simp add: settings_get_def AList.update_conv')
  then show ?thesis by (simp add: seed_channels_def smtp_channel_def)
qed

lemma adopted_twice:
  "adopt_unscoped e v (adopt_unscoped e v rules) = adopt_unscoped e v rules"
  "policies_adopt e v (policies_adopt e v policies) = policies_adopt e v policies"
  by (simp_all add: adopt_unscoped_def policies_adopt_def)

text \<open>What seeding does to the settings: at most the channels are written, and only where none are stored.\<close>

lemma seed_channels_keeps:
  assumes "seed_channels L c host port table = (Inr (), table')"
  shows "settings_get L c ''channels'' PNone table = Inr v \<Longrightarrow> truthy v \<Longrightarrow> table' = table"
    and "k \<noteq> ''channels'' \<Longrightarrow> dict_get table' k = dict_get table k"
  using assms
  by (auto simp: seed_channels_def settings_put_def Let_def AList.update_conv' split: if_splits sum.splits)

text \<open>What startup may do to a rule or policy: give it the default scope if it has none.\<close>

definition policy_adopted :: "scope \<Rightarrow> policy \<Rightarrow> policy \<Rightarrow> bool" where
  "policy_adopted place p q \<longleftrightarrow>
     (if pl_environment p = None
      then q = p\<lparr>pl_environment := Some (fst place), pl_vhost := Some (snd place)\<rparr> else q = p)"

definition rule_adopted :: "scope \<Rightarrow> alert_rule \<Rightarrow> alert_rule \<Rightarrow> bool" where
  "rule_adopted place p q \<longleftrightarrow>
     (if ar_environment p = None
      then q = p\<lparr>ar_environment := Some (fst place), ar_vhost := Some (snd place)\<rparr> else q = p)"

lemma adopted_rows:
  "list_all2 (policy_adopted place) policies (policies_adopt (fst place) (snd place) policies)"
  "list_all2 (rule_adopted place) rules (adopt_unscoped (fst place) (snd place) rules)"
  by (auto simp: list_all2_conv_all_nth policies_adopt_def adopt_unscoped_def policy_adopted_def rule_adopted_def)

text \<open>
  C34. Startup adds what is missing and repeats nothing. The accounts of the environment variables are
  created, with the salt of whoever came first; accounts that exist stay as they are, password and role
  included, also when the variables now say otherwise. Stored channels are left alone, and so is every
  other setting; rules and policies that have a scope keep it, and those of a release before scopes are
  given the default one. Replicas that start one after the other on one database, in any number, leave
  it as the first one did. (With a key configured, the encryption has to read back the e-mail channel.)
\<close>

theorem startup_repeats_nothing:
  assumes "init_database L salts cfg c host port m s = (Inr (), s1)" and "cipher_ok L c (smtp_channel host port)"
  shows "init_database L salts' cfg c host port m s1 = (Inr (), s1) \<and>
    (\<exists>users added. settings_users L cfg = Inr users \<and> su_users s1 = su_users s @ added \<and>
       (\<forall>u \<in> set added. us_name u \<in> fst ` set users \<and> user_get (us_name u) (su_users s) = None) \<and>
       (\<forall>name \<in> fst ` set users. user_get name (su_users s1) \<noteq> None)) \<and>
    (\<forall>v. settings_get L c ''channels'' PNone (su_settings s) = Inr v \<longrightarrow> truthy v \<longrightarrow> su_settings s1 = su_settings s) \<and>
    (\<forall>k. k \<noteq> ''channels'' \<longrightarrow> dict_get (su_settings s1) k = dict_get (su_settings s) k) \<and>
    list_all2 (policy_adopted (default_key m)) (su_policies s) (su_policies s1) \<and>
    list_all2 (rule_adopted (default_key m)) (su_rules s) (su_rules s1)"
proof -
  obtain users table where users: "settings_users L cfg = Inr users"
    and seeded: "seed_channels L c host port (su_settings s) = (Inr (), table)"
    and s1: "s1 = s\<lparr>su_users := seed_env_users L salts users (s_admin_username cfg) (su_users s), su_settings := table,
      su_policies := policies_adopt (fst (default_key m)) (snd (default_key m)) (su_policies s),
      su_rules := adopt_unscoped (fst (default_key m)) (snd (default_key m)) (su_rules s)\<rparr>"
    using assms(1) by (auto simp: init_database_def seed_defaults_def split: sum.splits prod.splits)
  have all: "\<forall>name \<in> fst ` set users. user_get name (su_users s1) \<noteq> None"
    by (simp add: s1 seed_env_users_all del: not_None_eq)
  then have again: "seed_env_users L salts' users (s_admin_username cfg) (su_users s1) = su_users s1"
    by (rule seed_env_users_known)
  have "init_database L salts' cfg c host port m s1 = (Inr (), s1)"
    using seed_channels_twice [OF seeded assms(2)] again
    by (simp add: init_database_def seed_defaults_def users adopted_twice s1)
  moreover have "\<exists>users added. settings_users L cfg = Inr users \<and> su_users s1 = su_users s @ added \<and>
       (\<forall>u \<in> set added. us_name u \<in> fst ` set users \<and> user_get (us_name u) (su_users s) = None) \<and>
       (\<forall>name \<in> fst ` set users. user_get name (su_users s1) \<noteq> None)"
    using seed_env_users_appends [of L salts users "s_admin_username cfg" "su_users s"] users all by (auto simp: s1)
  moreover have "su_settings s1 = table" "su_policies s1 = policies_adopt (fst (default_key m)) (snd (default_key m)) (su_policies s)"
    "su_rules s1 = adopt_unscoped (fst (default_key m)) (snd (default_key m)) (su_rules s)"
    by (simp_all add: s1)
  ultimately show ?thesis using seed_channels_keeps [OF seeded] by (simp add: adopted_rows)
qed

definition plain_lib :: pylib where
  "plain_lib = sample_lib\<lparr>json_loads := (\<lambda>_. Some (PDict []))\<rparr>"

definition first_start :: "(exn + unit) \<times> startup_tables" where
  "first_start = init_database plain_lib (\<lambda>_. ''salt'') sample_settings None ''mail'' 1025 stg_manager
     \<lparr>su_users = [bob], su_settings = [], su_policies = [], su_rules = []\<rparr>"

theorem startup_repeats_nothing_witness:
  "\<exists>s1. first_start = (Inr (), s1) \<and>
     init_database plain_lib (\<lambda>_. ''other salt'') sample_settings None ''mail'' 1025 stg_manager s1 = (Inr (), s1) \<and>
     map us_name (su_users s1) = [''bob'', ''admin'']"
proof -
  have v: "case first_start of (Inr _, s1) \<Rightarrow> map us_name (su_users s1) = [''bob'', ''admin''] | _ \<Rightarrow> False" by code_simp
  obtain x s1 where x: "first_start = (x, s1)" by fastforce
  note v = v [unfolded x prod.case]
  then obtain u where u: "x = Inr u" by (cases x) auto
  have "init_database plain_lib (\<lambda>_. ''salt'') sample_settings None ''mail'' 1025 stg_manager
     \<lparr>su_users = [bob], su_settings = [], su_policies = [], su_rules = []\<rparr> = (Inr (), s1)"
    using x u by (simp add: first_start_def)
  from startup_repeats_nothing [OF this] have
    "init_database plain_lib (\<lambda>_. ''other salt'') sample_settings None ''mail'' 1025 stg_manager s1 = (Inr (), s1)"
    by (simp add: cipher_ok_def)
  with v x u show ?thesis by (intro exI [of _ s1]) simp
qed


section \<open>Retention\<close>

text \<open>What a pass leaves is what is young enough, in the same order; without a positive number of days, everything.\<close>

lemma retention_keeps_recent:
  assumes "retention_days L c table = Inr n" "0 < n"
  shows "retention_pass L c table now1 now2 st =
    (filter (\<lambda>r. now1 - days n \<le> as_utc (aw_timestamp r)) (fst st),
     filter (\<lambda>r. now2 - days n \<le> as_utc (nt_timestamp r)) (snd st))"
  using assms
  by (simp add: retention_pass_def delete_older_than_def purge_older_than_def Let_def not_less)

lemma retention_off: "retention_days L c table = Inl e \<or> retention_days L c table = Inr n \<and> n \<le> 0 \<Longrightarrow>
    retention_pass L c table now1 now2 st = st"
  by (auto simp: retention_pass_def)


section \<open>Requests from other sites\<close>

text \<open>Whatever the routes do, a change asked for by a page of another site does not reach them.\<close>

lemma cross_site_changes_refused:
  assumes "cross_site_change method (proxied (keep_peer peer rq))"
  shows "\<exists>detail. app_stack peer proxied method routes rq s = (Json 403 detail, s)"
  using assms by (simp add: app_stack_def refuse_cross_site_changes_def)

lemma same_origin_reaches_routes:
  assumes "header (proxied (keep_peer peer rq)) ''sec-fetch-site'' \<notin> {Some ''cross-site'', Some ''same-site''}"
  shows "app_stack peer proxied method routes rq s = with_request_context routes (proxied (keep_peer peer rq)) s"
  using assms by (simp add: app_stack_def refuse_cross_site_changes_def cross_site_change_def)

end
