(* ===== verification/Schema.thy ===== *)
theory Schema
  imports Domain
begin

text \<open>
  The database's tables: their columns (app/infrastructure/persistence/models.py), bringing a database
  of an earlier release up to them (Database.start, app/infrastructure/persistence/database.py) and
  copying everything into another database (app/copy_db.py).

  SQLAlchemy and the database are outside: whether an ALTER TABLE or an INSERT succeeds is a function
  given as an argument (reading, and creating a missing table, succeed). What raises inside a
  transaction is undone, but for two things: SQLite commits every CREATE TABLE and ALTER TABLE by
  itself, and in PostgreSQL a sequence that \<open>setval\<close> set stays as it is.
\<close>


section \<open>The tables (models.py), by name\<close>

record table_def =
  td_name :: string
  td_columns :: "string list"
  td_auto :: "string option"

definition METADATA :: "table_def list" where
  "METADATA =
     [\<lparr>td_name = ''alert_rules'', td_columns = [''id'', ''name'', ''pattern'', ''environment'', ''vhost'', ''metric'',
         ''operator'', ''threshold'', ''duration_seconds'', ''severity'', ''channels'', ''enabled'', ''created_by'',
         ''last_fired_at'', ''fired''], td_auto = Some ''id''\<rparr>,
      \<lparr>td_name = ''app_settings'', td_columns = [''key'', ''value''], td_auto = None\<rparr>,
      \<lparr>td_name = ''audit_events'', td_columns = [''id'', ''timestamp'', ''username'', ''action'', ''source_queue'',
         ''message_fingerprint'', ''payload_hash'', ''target_type'', ''target_exchange'', ''target_queue'',
         ''target_routing_key'', ''result'', ''error_message'', ''request_ip'', ''user_agent'', ''metadata_json''],
         td_auto = Some ''id''\<rparr>,
      \<lparr>td_name = ''bulk_batches'', td_columns = [''id'', ''payload'', ''expires_at''], td_auto = None\<rparr>,
      \<lparr>td_name = ''login_failures'', td_columns = [''id'', ''key'', ''at''], td_auto = Some ''id''\<rparr>,
      \<lparr>td_name = ''notifications'', td_columns = [''id'', ''timestamp'', ''level'', ''title'', ''message'', ''source'',
         ''rule_id'', ''delivery''], td_auto = Some ''id''\<rparr>,
      \<lparr>td_name = ''replay_policies'', td_columns = [''id'', ''name'', ''queue'', ''environment'', ''vhost'',
         ''max_deaths'', ''backoff_minutes'', ''interval_minutes'', ''cap'', ''enabled'', ''created_by'',
         ''last_run_at'', ''last_result'', ''consecutive_failures''], td_auto = Some ''id''\<rparr>,
      \<lparr>td_name = ''users'', td_columns = [''username'', ''password_hash'', ''role'', ''email'', ''invited_by'',
         ''created_at'', ''active'', ''must_change_password''], td_auto = None\<rparr>]"


section \<open>Upgrading (Database._create_and_upgrade)\<close>

text \<open>What a database has: the columns of each table.\<close>

type_synonym schema = "string list dict"

definition MIGRATIONS :: "(string \<times> string \<times> string) list" where
  "MIGRATIONS =
     [(''alert_rules'', ''fired'', ''BOOLEAN NOT NULL DEFAULT FALSE''),
      (''users'', ''must_change_password'', ''BOOLEAN NOT NULL DEFAULT FALSE''),
      (''replay_policies'', ''environment'', ''VARCHAR(128)''),
      (''replay_policies'', ''vhost'', ''VARCHAR(255)''),
      (''alert_rules'', ''environment'', ''VARCHAR(128)''),
      (''alert_rules'', ''vhost'', ''VARCHAR(255)'')]"

text \<open>\<open>create_all\<close>: tables that are missing, never an existing one.\<close>

definition create_all :: "table_def list \<Rightarrow> schema \<Rightarrow> schema" where
  "create_all tables schema =
     fold (\<lambda>t s. if dict_get s (td_name t) = None then s @ [(td_name t, td_columns t)] else s) tables schema"

definition alter_statement :: "string \<Rightarrow> string \<Rightarrow> string \<Rightarrow> string" where
  "alter_statement table column ddl = ''ALTER TABLE '' @ table @ '' ADD COLUMN '' @ column @ '' '' @ ddl"

definition upgrade_error :: "string \<Rightarrow> string \<Rightarrow> string \<Rightarrow> exn \<Rightarrow> exn" where
  "upgrade_error table column statement e =
     mk_exn (Other ''SchemaUpgradeError'')
       (''Could not add the column '' @ table @ ''.'' @ column @ '' this release needs ('' @ str_or (exn_text e) [] @
        ''). Run `'' @ statement @ ''` as a database user allowed to alter tables, or give '' @
        ''QueueLens's user that right, then start QueueLens again.'')"

definition add_column :: "string \<Rightarrow> string \<Rightarrow> schema \<Rightarrow> schema" where
  "add_column table column schema =
     dict_set table ((case dict_get schema table of None \<Rightarrow> [] | Some cs \<Rightarrow> cs) @ [column]) schema"

text \<open>
  The loop. \<open>known\<close> is the dictionary of columns it has read: a table is inspected once, then the
  entry is kept up to date. \<open>alter\<close> is the database's reply to a statement.
\<close>

fun add_columns ::
  "(string \<Rightarrow> exn option) \<Rightarrow> (string \<times> string \<times> string) list \<Rightarrow> string list dict \<Rightarrow> schema \<Rightarrow> (exn + unit) \<times> schema"
where
  "add_columns alter [] known schema = (Inr (), schema)"
| "add_columns alter ((table, column, ddl) # rest) known schema =
     (case (case dict_get known table of Some cs \<Rightarrow> Some cs | None \<Rightarrow> dict_get schema table) of
        None \<Rightarrow> (Inl (mk_exn (Other ''NoSuchTableError'') table), schema)
      | Some cs \<Rightarrow>
          if column \<in> set cs then add_columns alter rest (dict_set table cs known) schema
          else (case alter (alter_statement table column ddl) of
                  Some e \<Rightarrow> (Inl (upgrade_error table column (alter_statement table column ddl) e), schema)
                | None \<Rightarrow> add_columns alter rest (dict_set table (cs @ [column]) known) (add_column table column schema)))"

text \<open>
  \<open>Database.start\<close>: one transaction in PostgreSQL, where an error leaves the schema as it was; in
  SQLite what was created and altered before the error stays.
\<close>

definition database_start :: "bool \<Rightarrow> (string \<Rightarrow> exn option) \<Rightarrow> schema \<Rightarrow> (exn + unit) \<times> schema" where
  "database_start postgres alter schema =
     (case add_columns alter MIGRATIONS [] (create_all METADATA schema) of
        (Inl e, partial) \<Rightarrow> (Inl e, if postgres then schema else partial)
      | (Inr _, upgraded) \<Rightarrow> (Inr (), upgraded))"


section \<open>Copying (copy_db.py)\<close>

text \<open>
  A database: its schema, its rows as they are read once the schema is current (an added column has
  its default in them), and the next id of each table.
\<close>

record database =
  db_schema :: schema
  db_rows :: "string \<Rightarrow> pyval dict list"
  db_next :: "string \<Rightarrow> int"

definition BATCH :: nat where
  "BATCH = 1000"

text \<open>\<open>_utc\<close>: SQLite hands timestamps back without a zone.\<close>

fun utc_value :: "pyval \<Rightarrow> pyval" where
  "utc_value (PTime (Naive t)) = PTime (Aware t)"
| "utc_value v = v"

definition utc_row :: "pyval dict \<Rightarrow> pyval dict" where
  "utc_row row = map (\<lambda>(key, v). (key, utc_value v)) row"

text \<open>\<open>partitions(n)\<close>\<close>

function partitions :: "nat \<Rightarrow> 'a list \<Rightarrow> 'a list list" where
  "partitions n xs = (if xs = [] \<or> n = 0 then [] else take n xs # partitions n (drop n xs))"
  by auto
termination by (relation "measure (\<lambda>(n, xs). length xs)") auto

declare partitions.simps [simp del]

definition system_exit :: "string \<Rightarrow> exn" where
  "system_exit s = mk_exn (Other ''SystemExit'') s"

text \<open>\<open>insert\<close> is the target's reply to one INSERT: what the table then holds.\<close>

type_synonym inserting = "string \<Rightarrow> pyval dict list \<Rightarrow> pyval dict list \<Rightarrow> exn + pyval dict list"

fun insert_chunks :: "inserting \<Rightarrow> string \<Rightarrow> pyval dict list list \<Rightarrow> pyval dict list \<Rightarrow> exn + pyval dict list" where
  "insert_chunks ins table [] rows = Inr rows"
| "insert_chunks ins table (c # cs) rows =
     or_raise (ins table (map utc_row c) rows) (insert_chunks ins table cs)"

definition row_ids :: "string \<Rightarrow> pyval dict list \<Rightarrow> int list" where
  "row_ids column rows = List.map_filter (\<lambda>r. case py_get r column of PInt i \<Rightarrow> Some i | _ \<Rightarrow> None) rows"

text \<open>\<open>setval\<close>: ids go on after the greatest one; nothing changes for a table without rows.\<close>

definition next_id :: "bool \<Rightarrow> string option \<Rightarrow> pyval dict list \<Rightarrow> int \<Rightarrow> int" where
  "next_id postgres auto rows old =
     (case auto of
        None \<Rightarrow> old
      | Some column \<Rightarrow>
          if postgres \<and> row_ids column rows \<noteq> [] then Max (set (row_ids column rows)) + 1 else old)"

definition copy_table :: "bool \<Rightarrow> inserting \<Rightarrow> database \<Rightarrow> table_def \<Rightarrow> database \<Rightarrow> (exn + int) \<times> database" where
  "copy_table postgres ins src t dst =
     (let name = td_name t; n = length (db_rows src name)
      in case insert_chunks ins name (partitions BATCH (db_rows src name)) (db_rows dst name) of
           Inl e \<Rightarrow> (Inl e, dst)
         | Inr rows \<Rightarrow>
             if length rows \<noteq> n
             then (Inl (system_exit (name @ '': copied '' @ nat_text (length rows) @ '' of '' @ nat_text n @ '' rows'')), dst)
             else (Inr (int n), dst\<lparr>db_rows := (db_rows dst)(name := rows),
                    db_next := (db_next dst)(name := next_id postgres (td_auto t) rows (db_next dst name))\<rparr>))"

fun copy_tables ::
  "bool \<Rightarrow> inserting \<Rightarrow> database \<Rightarrow> table_def list \<Rightarrow> int dict \<Rightarrow> database \<Rightarrow> (exn + int dict) \<times> database"
where
  "copy_tables postgres ins src [] counts dst = (Inr counts, dst)"
| "copy_tables postgres ins src (t # ts) counts dst =
     (case copy_table postgres ins src t dst of
        (Inl e, dst') \<Rightarrow> (Inl e, dst')
      | (Inr n, dst') \<Rightarrow> copy_tables postgres ins src ts (dict_set (td_name t) n counts) dst')"

fun all_empty :: "database \<Rightarrow> table_def list \<Rightarrow> exn + unit" where
  "all_empty dst [] = Inr ()"
| "all_empty dst (t # ts) =
     (if db_rows dst (td_name t) \<noteq> []
      then Inl (system_exit (td_name t @ '' already has rows in the target: copy into an empty database''))
      else all_empty dst ts)"

text \<open>
  Both databases are brought up to the schema first; then everything is one transaction on the target,
  which an error undoes but for the sequences. \<open>pg_source\<close>, \<open>postgres\<close>: which of the two are PostgreSQL.
\<close>

definition copy ::
  "bool \<Rightarrow> (string \<Rightarrow> exn option) \<Rightarrow> (string \<Rightarrow> exn option) \<Rightarrow> bool \<Rightarrow> inserting \<Rightarrow> string \<Rightarrow> string \<Rightarrow> database \<Rightarrow> database \<Rightarrow>
     (exn + int dict) \<times> database \<times> database"
where
  "copy pg_source alter_src alter_dst postgres ins source_url target_url src dst =
     (if source_url = target_url then (Inl (system_exit ''source and target are the same database''), src, dst)
      else case database_start pg_source alter_src (db_schema src) of
        (Inl e, s1) \<Rightarrow> (Inl e, src\<lparr>db_schema := s1\<rparr>, dst)
      | (Inr _, s1) \<Rightarrow>
          let src1 = src\<lparr>db_schema := s1\<rparr>
          in (case database_start postgres alter_dst (db_schema dst) of
                (Inl e, s2) \<Rightarrow> (Inl e, src1, dst\<lparr>db_schema := s2\<rparr>)
              | (Inr _, s2) \<Rightarrow>
                  let dst1 = dst\<lparr>db_schema := s2\<rparr>
                  in (case all_empty dst1 METADATA of
                        Inl e \<Rightarrow> (Inl e, src1, dst1)
                      | Inr _ \<Rightarrow>
                          (case copy_tables postgres ins src1 METADATA [] dst1 of
                             (Inl e, dst2) \<Rightarrow> (Inl e, src1, dst1\<lparr>db_next := db_next dst2\<rparr>)
                           | (Inr counts, dst2) \<Rightarrow> (Inr counts, src1, dst2)))))"

end
