(* ===== verification/Schema_Properties.thy ===== *)
theory Schema_Properties
  imports Schema
begin

text \<open>
  A database of an earlier release, which is what the tables were when they were first released and
  whatever was added since, ends up with every column, keeps the ones it has, and needs no statement
  the next time; a copy is complete or leaves the target's rows alone.
\<close>


section \<open>Upgrading\<close>

text \<open>Without the dictionary of columns: every migration looks at the table.\<close>

fun add_directly :: "(string \<Rightarrow> exn option) \<Rightarrow> (string \<times> string \<times> string) list \<Rightarrow> schema \<Rightarrow> (exn + unit) \<times> schema" where
  "add_directly alter [] schema = (Inr (), schema)"
| "add_directly alter ((table, column, ddl) # rest) schema =
     (case dict_get schema table of
        None \<Rightarrow> (Inl (mk_exn (Other ''NoSuchTableError'') table), schema)
      | Some cs \<Rightarrow>
          if column \<in> set cs then add_directly alter rest schema
          else (case alter (alter_statement table column ddl) of
                  Some e \<Rightarrow> (Inl (upgrade_error table column (alter_statement table column ddl) e), schema)
                | None \<Rightarrow> add_directly alter rest (add_column table column schema)))"

lemma get_add_column:
  "dict_get (add_column table column schema) t =
     (if t = table then Some ((case dict_get schema table of None \<Rightarrow> [] | Some cs \<Rightarrow> cs) @ [column]) else dict_get schema t)"
  by (simp add: add_column_def AList.update_conv')

lemma add_columns_directly:
  assumes "\<And>t cs. dict_get known t = Some cs \<Longrightarrow> dict_get schema t = Some cs"
  shows "add_columns alter migs known schema = add_directly alter migs schema"
  using assms
proof (induction migs arbitrary: known schema)
  case Nil
  then show ?case by simp
next
  case (Cons m migs)
  obtain t c d where m: "m = (t, c, d)" by (cases m) auto
  have known: "(case dict_get known t of Some cs \<Rightarrow> Some cs | None \<Rightarrow> dict_get schema t) = dict_get schema t"
    using Cons.prems [of t] by (auto split: option.split)
  show ?case
  proof (cases "dict_get schema t")
    case None
    then show ?thesis unfolding m add_columns.simps known by simp
  next
    case (Some cs)
    have "add_columns alter migs (dict_set t cs known) schema = add_directly alter migs schema"
      by (rule Cons.IH) (use Cons.prems Some in \<open>auto simp: AList.update_conv' split: if_splits\<close>)
    moreover have "add_columns alter migs (dict_set t (cs @ [c]) known) (add_column t c schema) =
        add_directly alter migs (add_column t c schema)"
      by (rule Cons.IH) (use Cons.prems Some in \<open>auto simp: AList.update_conv' get_add_column split: if_splits\<close>)
    ultimately show ?thesis unfolding m add_columns.simps known by (simp add: Some split: option.split)
  qed
qed

lemma add_directly_result:
  assumes "add_directly alter migs schema = (r, s')"
  shows "(r = Inr () \<longrightarrow> (\<forall>t c d. (t, c, d) \<in> set migs \<longrightarrow> (\<exists>cs. dict_get s' t = Some cs \<and> c \<in> set cs))) \<and>
    (\<forall>t cs. dict_get schema t = Some cs \<longrightarrow> (\<exists>added. dict_get s' t = Some (cs @ added)))"
  using assms
proof (induction migs arbitrary: schema)
  case Nil
  then show ?case by simp
next
  case (Cons m migs)
  obtain t c d where m: "m = (t, c, d)" by (cases m) auto
  show ?case
  proof (cases "dict_get schema t")
    case None
    with Cons.prems show ?thesis by (auto simp: m)
  next
    case (Some cs)
    consider "c \<in> set cs" | e where "c \<notin> set cs" "alter (alter_statement t c d) = Some e"
      | "c \<notin> set cs" "alter (alter_statement t c d) = None" by fastforce
    then show ?thesis
    proof cases
      case 1
      with Cons.prems Some have run: "add_directly alter migs schema = (r, s')" by (simp add: m)
      from Cons.IH [OF this] Some 1 show ?thesis by (fastforce simp: m)
    next
      case 2
      with Cons.prems Some show ?thesis by (auto simp: m)
    next
      case 3
      with Cons.prems Some have run: "add_directly alter migs (add_column t c schema) = (r, s')" by (simp add: m)
      note rest = Cons.IH [OF this]
      have grown: "\<exists>added. dict_get s' t' = Some (xs @ added)" if "dict_get schema t' = Some xs" for t' xs
      proof (cases "t' = t")
        case True
        then have "dict_get (add_column t c schema) t' = Some (xs @ [c])" using that Some by (simp add: get_add_column)
        with rest have "\<exists>added. dict_get s' t' = Some ((xs @ [c]) @ added)" by blast
        then show ?thesis by auto
      next
        case False
        then have "dict_get (add_column t c schema) t' = Some xs" using that by (simp add: get_add_column)
        with rest show ?thesis by blast
      qed
      have "dict_get (add_column t c schema) t = Some (cs @ [c])" using Some by (simp add: get_add_column)
      with rest have "\<exists>added. dict_get s' t = Some ((cs @ [c]) @ added)" by blast
      then have "\<exists>xs. dict_get s' t = Some xs \<and> c \<in> set xs" by auto
      with rest grown show ?thesis by (auto simp: m)
    qed
  qed
qed

lemma add_directly_done:
  "\<forall>t c d. (t, c, d) \<in> set migs \<longrightarrow> (\<exists>cs. dict_get schema t = Some cs \<and> c \<in> set cs) \<Longrightarrow>
   add_directly alter migs schema = (Inr (), schema)"
  by (induction migs) (auto simp: split_paired_all, fastforce)

lemma create_all_keeps: "dict_get schema t = Some cs \<Longrightarrow> dict_get (create_all tables schema) t = Some cs"
  unfolding create_all_def by (induction tables arbitrary: schema) (auto simp: map_add_def)

lemma create_all_known: "\<forall>t \<in> set tables. dict_get schema (td_name t) \<noteq> None \<Longrightarrow> create_all tables schema = schema"
  unfolding create_all_def by (induction tables) auto

lemma create_all_creates:
  assumes "distinct (map td_name tables)" "t \<in> set tables" "dict_get schema (td_name t) = None"
  shows "dict_get (create_all tables schema) (td_name t) = Some (td_columns t)"
  using assms
proof (induction tables arbitrary: schema)
  case Nil
  then show ?case by simp
next
  case (Cons u tables)
  let ?s = "if dict_get schema (td_name u) = None then schema @ [(td_name u, td_columns u)] else schema"
  have step: "create_all (u # tables) schema = create_all tables ?s" by (simp add: create_all_def)
  show ?case
  proof (cases "u = t")
    case True
    then have "dict_get ?s (td_name t) = Some (td_columns t)" using Cons.prems(3) by (simp add: map_add_def)
    then show ?thesis unfolding step by (rule create_all_keeps)
  next
    case False
    with Cons.prems have t: "t \<in> set tables" by simp
    with Cons.prems(1) have "td_name u \<noteq> td_name t" by force
    with Cons.prems(3) have "dict_get ?s (td_name t) = None" by (simp add: map_add_def)
    then show ?thesis unfolding step using Cons.IH [OF _ t] Cons.prems(1) by simp
  qed
qed

text \<open>
  The tables as they were first released: whether an alert fired, the forced change of a password and
  the scopes of policies and alert rules came later. A database of any release so far has, of each table
  it has, at least these columns.
\<close>

definition FIRST_RELEASE :: schema where
  "FIRST_RELEASE =
     [(''alert_rules'', [''id'', ''name'', ''pattern'', ''metric'', ''operator'', ''threshold'', ''duration_seconds'',
         ''severity'', ''channels'', ''enabled'', ''created_by'', ''last_fired_at'']),
      (''app_settings'', [''key'', ''value'']),
      (''audit_events'', [''id'', ''timestamp'', ''username'', ''action'', ''source_queue'', ''message_fingerprint'',
         ''payload_hash'', ''target_type'', ''target_exchange'', ''target_queue'', ''target_routing_key'', ''result'',
         ''error_message'', ''request_ip'', ''user_agent'', ''metadata_json'']),
      (''bulk_batches'', [''id'', ''payload'', ''expires_at'']),
      (''login_failures'', [''id'', ''key'', ''at'']),
      (''notifications'', [''id'', ''timestamp'', ''level'', ''title'', ''message'', ''source'', ''rule_id'', ''delivery'']),
      (''replay_policies'', [''id'', ''name'', ''queue'', ''max_deaths'', ''backoff_minutes'', ''interval_minutes'', ''cap'',
         ''enabled'', ''created_by'', ''last_run_at'', ''last_result'', ''consecutive_failures'']),
      (''users'', [''username'', ''password_hash'', ''role'', ''email'', ''invited_by'', ''created_at'', ''active''])]"

definition earlier_release :: "schema \<Rightarrow> bool" where
  "earlier_release schema \<longleftrightarrow>
     list_all (\<lambda>(table, columns). case dict_get schema table of
         None \<Rightarrow> True | Some cs \<Rightarrow> list_all (\<lambda>c. c \<in> set cs) columns) FIRST_RELEASE"

lemma metadata_names: "distinct (map td_name METADATA)"
  by (simp add: METADATA_def)

text \<open>What a table has gained since its first release is among the migrations.\<close>

lemma migrations_complete:
  "list_all (\<lambda>t. case dict_get FIRST_RELEASE (td_name t) of
       None \<Rightarrow> False
     | Some cs \<Rightarrow> list_all (\<lambda>c. c \<in> set cs \<or> (td_name t, c) \<in> set (map (\<lambda>(t, c, d). (t, c)) MIGRATIONS)) (td_columns t))
     METADATA"
  by code_simp

lemma earlier_columns:
  assumes "earlier_release schema" "t \<in> set METADATA" "dict_get schema (td_name t) = Some cs" "c \<in> set (td_columns t)" "c \<notin> set cs"
  shows "\<exists>d. (td_name t, c, d) \<in> set MIGRATIONS"
proof -
  obtain first where first: "dict_get FIRST_RELEASE (td_name t) = Some first"
      "c \<in> set first \<or> (td_name t, c) \<in> set (map (\<lambda>(t, c, d). (t, c)) MIGRATIONS)"
    using migrations_complete assms(2,4) by (fastforce simp: list_all_iff split: option.splits)
  then have "(td_name t, first) \<in> set FIRST_RELEASE" by (simp add: map_of_SomeD)
  with assms(1,3,5) have "c \<notin> set first" by (fastforce simp: earlier_release_def list_all_iff)
  with first(2) show ?thesis by auto
qed

text \<open>
  C35. A start that succeeds leaves a database that fits this release: every table is there with every
  column the code uses, whether the database was empty, of an earlier release or current; columns it
  had stay, in their places; and the next start changes nothing and needs no statement, so a user
  without the right to alter tables suffices from then on. A start that fails takes no column away
  either, and in PostgreSQL changes nothing.
\<close>

theorem start_upgrades_schema:
  assumes "earlier_release schema" and "database_start postgres alter schema = (r, s')"
  shows "(\<forall>t cs. dict_get schema t = Some cs \<longrightarrow> (\<exists>added. dict_get s' t = Some (cs @ added))) \<and>
    (case r of
       Inl e \<Rightarrow> postgres \<longrightarrow> s' = schema
     | Inr _ \<Rightarrow>
         (\<forall>t \<in> set METADATA. \<exists>cs. dict_get s' (td_name t) = Some cs \<and> set (td_columns t) \<subseteq> set cs) \<and>
         (\<forall>postgres' alter'. database_start postgres' alter' s' = (Inr (), s')))"
proof -
  let ?s = "create_all METADATA schema"
  have direct: "add_columns alter' MIGRATIONS [] x = add_directly alter' MIGRATIONS x" for alter' x
    by (rule add_columns_directly) simp
  obtain r1 s1 where run: "add_directly alter MIGRATIONS ?s = (r1, s1)" by fastforce
  from add_directly_result [OF run] have
    added: "\<And>t c d. r1 = Inr () \<Longrightarrow> (t, c, d) \<in> set MIGRATIONS \<Longrightarrow> \<exists>cs. dict_get s1 t = Some cs \<and> c \<in> set cs" and
    kept: "\<And>t cs. dict_get ?s t = Some cs \<Longrightarrow> \<exists>more. dict_get s1 t = Some (cs @ more)" by blast+
  have stays: "\<exists>added. dict_get s1 t = Some (cs @ added)" if "dict_get schema t = Some cs" for t cs
    by (rule kept [OF create_all_keeps [OF that]])
  show ?thesis
  proof (cases r1)
    case (Inl e)
    then have "r = Inl e" "s' = (if postgres then schema else s1)"
      using assms(2) run by (auto simp: database_start_def direct)
    with stays show ?thesis by simp
  next
    case (Inr u)
    then have r: "r1 = Inr ()" "r = Inr ()" "s' = s1" using assms(2) run by (auto simp: database_start_def direct)
    note added = added [OF r(1)]
    have complete: "\<exists>cs. dict_get s1 (td_name t) = Some cs \<and> set (td_columns t) \<subseteq> set cs" if t: "t \<in> set METADATA" for t
    proof (cases "dict_get schema (td_name t)")
      case None
      from kept [OF create_all_creates [OF metadata_names t None]] show ?thesis by auto
    next
      case (Some cs)
      from stays [OF this] obtain more where more: "dict_get s1 (td_name t) = Some (cs @ more)" by blast
      have "c \<in> set (cs @ more)" if c: "c \<in> set (td_columns t)" "c \<notin> set cs" for c
      proof -
        from earlier_columns [OF assms(1) t Some c] obtain d where "(td_name t, c, d) \<in> set MIGRATIONS" by blast
        from added [OF this] more show ?thesis by auto
      qed
      with more show ?thesis by fastforce
    qed
    have "create_all METADATA s1 = s1" using complete by (intro create_all_known) fastforce
    then have "database_start postgres' alter' s1 = (Inr (), s1)" for postgres' alter'
      unfolding database_start_def direct using added by (simp add: add_directly_done)
    with complete stays r show ?thesis by simp
  qed
qed

text \<open>A database from before policies and alert rules knew their scope, on which tables may be altered.\<close>

definition old_schema :: schema where
  "old_schema =
     [(''users'', [''username'', ''password_hash'', ''role'', ''email'', ''invited_by'', ''created_at'', ''active'']),
      (''alert_rules'', [''id'', ''name'', ''pattern'', ''metric'', ''operator'', ''threshold'', ''duration_seconds'',
         ''severity'', ''channels'', ''enabled'', ''created_by'', ''last_fired_at'', ''plugin''])]"

theorem start_upgrades_schema_witness:
  "\<exists>s'. database_start False (\<lambda>_. None) old_schema = (Inr (), s') \<and>
     database_start True (\<lambda>_. Some (system_exit [])) s' = (Inr (), s') \<and>
     (\<exists>cs. dict_get s' ''users'' = Some cs \<and> last cs = ''must_change_password'')"
proof -
  have v: "case database_start False (\<lambda>_. None) old_schema of
      (r, s') \<Rightarrow> r = Inr () \<and> (case dict_get s' ''users'' of Some cs \<Rightarrow> last cs = ''must_change_password'' | None \<Rightarrow> False)"
    by code_simp
  then obtain s' where s': "database_start False (\<lambda>_. None) old_schema = (Inr (), s')"
    by (auto split: prod.splits)
  have "earlier_release old_schema"
    by code_simp
  from start_upgrades_schema [OF this s'] v s' show ?thesis by (auto split: option.splits)
qed


section \<open>Copying\<close>

lemma concat_partitions: "0 < n \<Longrightarrow> concat (partitions n xs) = xs"
proof (induction n xs rule: partitions.induct)
  case (1 n xs)
  show ?case
  proof (cases "xs = []")
    case True
    then show ?thesis by (simp add: partitions.simps)
  next
    case False
    with 1 show ?thesis by (subst partitions.simps) simp
  qed
qed

lemma partitions_bounded: "c \<in> set (partitions n xs) \<Longrightarrow> c \<noteq> [] \<and> length c \<le> n"
proof (induction n xs rule: partitions.induct)
  case (1 n xs)
  then show ?case by (subst (asm) (2) partitions.simps) (auto split: if_splits)
qed

text \<open>What the copy relies on in the target: an INSERT that succeeds appends its rows, and nothing else.\<close>

abbreviation inserts_append :: "inserting \<Rightarrow> bool" where
  "inserts_append ins \<equiv> \<forall>table new rows rows'. ins table new rows = Inr rows' \<longrightarrow> rows' = rows @ new"

lemma insert_chunks_append:
  "inserts_append ins \<Longrightarrow> insert_chunks ins table cs rows = Inr rows' \<Longrightarrow> rows' = rows @ map utc_row (concat cs)"
  by (induction cs arbitrary: rows) (simp_all add: or_raise_Inr_iff, force)

text \<open>What a table is after it has been copied.\<close>

definition table_copied :: "bool \<Rightarrow> database \<Rightarrow> database \<Rightarrow> table_def \<Rightarrow> bool" where
  "table_copied postgres src dst t \<longleftrightarrow>
     db_rows dst (td_name t) = map utc_row (db_rows src (td_name t)) \<and>
     (postgres \<longrightarrow> (\<forall>column. td_auto t = Some column \<longrightarrow>
        (\<forall>i \<in> set (row_ids column (db_rows dst (td_name t))). i < db_next dst (td_name t))))"

lemma next_id_beyond: "i \<in> set (row_ids column rows) \<Longrightarrow> i < next_id True (Some column) rows old"
  using Max_ge [of "set (row_ids column rows)" i] by (auto simp: next_id_def)

lemma copy_table_result:
  assumes "inserts_append ins" "copy_table postgres ins src t dst = (Inr n, dst')" "db_rows dst (td_name t) = []"
  shows "n = int (length (db_rows src (td_name t))) \<and> table_copied postgres src dst' t \<and>
    (\<forall>name. name \<noteq> td_name t \<longrightarrow> db_rows dst' name = db_rows dst name \<and> db_next dst' name = db_next dst name)"
proof -
  from assms(2) obtain rows where
    rows: "insert_chunks ins (td_name t) (partitions BATCH (db_rows src (td_name t))) (db_rows dst (td_name t)) = Inr rows" and
    n: "n = int (length (db_rows src (td_name t)))" and
    dst': "dst' = dst\<lparr>db_rows := (db_rows dst)(td_name t := rows),
      db_next := (db_next dst)(td_name t := next_id postgres (td_auto t) rows (db_next dst (td_name t)))\<rparr>"
    by (auto simp: copy_table_def Let_def split: if_splits sum.splits)
  have "rows = map utc_row (db_rows src (td_name t))"
    using insert_chunks_append [OF assms(1) rows] assms(3) by (simp add: concat_partitions BATCH_def)
  then show ?thesis using n dst' by (auto simp: table_copied_def next_id_beyond)
qed

lemma copy_table_error: "copy_table postgres ins src t dst = (Inl e, dst') \<Longrightarrow> dst' = dst"
  by (auto simp: copy_table_def Let_def split: if_splits sum.splits)

text \<open>The next id of a table: as it was, or beyond the ids that were copied.\<close>

definition next_kept :: "bool \<Rightarrow> database \<Rightarrow> database \<Rightarrow> database \<Rightarrow> string \<Rightarrow> bool" where
  "next_kept postgres src dst dst' name \<longleftrightarrow> db_next dst' name = db_next dst name \<or>
     postgres \<and> (\<exists>t \<in> set METADATA. \<exists>column. td_name t = name \<and> td_auto t = Some column \<and>
       db_next dst' name = Max (set (row_ids column (map utc_row (db_rows src name)))) + 1)"

lemma copy_table_next:
  assumes "inserts_append ins" "copy_table postgres ins src t dst = (Inr n, dst')" "db_rows dst (td_name t) = []" "t \<in> set METADATA"
  shows "next_kept postgres src dst dst' (td_name t)"
proof -
  have "db_next dst' (td_name t) = next_id postgres (td_auto t) (db_rows dst' (td_name t)) (db_next dst (td_name t))"
    using assms(2) by (auto simp: copy_table_def Let_def split: if_splits sum.splits)
  moreover have "db_rows dst' (td_name t) = map utc_row (db_rows src (td_name t))"
    using copy_table_result [OF assms(1-3)] by (simp add: table_copied_def)
  ultimately show ?thesis using assms(4) by (auto simp: next_kept_def next_id_def split: option.splits if_splits)
qed

lemma table_copied_cong:
  "db_rows dst' (td_name t) = db_rows dst (td_name t) \<Longrightarrow> db_next dst' (td_name t) = db_next dst (td_name t) \<Longrightarrow>
   table_copied postgres src dst' t = table_copied postgres src dst t"
  by (simp add: table_copied_def)

lemma copy_tables_result:
  assumes "inserts_append ins" "distinct (map td_name ts)" "\<forall>t \<in> set ts. db_rows dst (td_name t) = []"
    "copy_tables postgres ins src ts counts dst = (Inr counts', dst')"
  shows "(\<forall>t \<in> set ts. table_copied postgres src dst' t \<and>
      dict_get counts' (td_name t) = Some (int (length (db_rows src (td_name t))))) \<and>
    (\<forall>name. name \<notin> td_name ` set ts \<longrightarrow> db_rows dst' name = db_rows dst name \<and>
      db_next dst' name = db_next dst name \<and> dict_get counts' name = dict_get counts name)"
  using assms
proof (induction ts arbitrary: counts dst)
  case Nil
  then show ?case by simp
next
  case (Cons t ts)
  from Cons.prems(4) obtain n d where one: "copy_table postgres ins src t dst = (Inr n, d)" and
    rest: "copy_tables postgres ins src ts (dict_set (td_name t) n counts) d = (Inr counts', dst')"
    by (auto split: prod.splits sum.splits)
  have new: "td_name t \<notin> td_name ` set ts" using Cons.prems(2) by simp
  from Cons.prems(3) have "db_rows dst (td_name t) = []" by simp
  note first = copy_table_result [OF Cons.prems(1) one this]
  have "\<forall>u \<in> set ts. db_rows d (td_name u) = []" using first Cons.prems(3) new by (metis image_eqI list.set_intros(2))
  note others = Cons.IH [OF Cons.prems(1) _ this rest]
  from others new Cons.prems(2) have kept: "db_rows dst' (td_name t) = db_rows d (td_name t)"
    "db_next dst' (td_name t) = db_next d (td_name t)"
    "dict_get counts' (td_name t) = dict_get (dict_set (td_name t) n counts) (td_name t)" by auto
  from first have "table_copied postgres src dst' t" using table_copied_cong [OF kept(1,2)] by blast
  moreover have "dict_get counts' (td_name t) = Some (int (length (db_rows src (td_name t))))"
    using kept(3) first by (simp add: AList.update_conv')
  ultimately show ?case using others first Cons.prems(2) by (auto simp: AList.update_conv')
qed

lemma copy_tables_next:
  assumes "inserts_append ins" "distinct (map td_name ts)" "set ts \<subseteq> set METADATA" "\<forall>t \<in> set ts. db_rows dst (td_name t) = []"
    "copy_tables postgres ins src ts counts dst = (r, dst')"
  shows "if name \<in> td_name ` set ts then next_kept postgres src dst dst' name else db_next dst' name = db_next dst name"
  using assms
proof (induction ts arbitrary: counts dst)
  case Nil
  then show ?case by simp
next
  case (Cons t ts)
  obtain x d where one: "copy_table postgres ins src t dst = (x, d)" by fastforce
  show ?case
  proof (cases x)
    case (Inl e)
    with Cons.prems(5) one copy_table_error [of postgres ins src t dst e d] show ?thesis by (auto simp: next_kept_def)
  next
    case (Inr n)
    note one = one [unfolded Inr]
    have rest: "copy_tables postgres ins src ts (dict_set (td_name t) n counts) d = (r, dst')"
      using Cons.prems(5) one by simp
    from Cons.prems(4) have empty: "db_rows dst (td_name t) = []" by simp
    note first = copy_table_result [OF Cons.prems(1) one empty]
    have new: "td_name t \<notin> td_name ` set ts" using Cons.prems(2) by simp
    have "\<forall>u \<in> set ts. db_rows d (td_name u) = []" using first Cons.prems(4) new by (metis image_eqI list.set_intros(2))
    note others = Cons.IH [OF Cons.prems(1) _ _ this rest]
    have own: "next_kept postgres src dst d (td_name t)"
      using copy_table_next [OF Cons.prems(1) one empty] Cons.prems(3) by simp
    show ?thesis
    proof (cases "name = td_name t")
      case True
      with others new Cons.prems(2,3) have "db_next dst' name = db_next d name" by simp
      with own True show ?thesis by (simp add: next_kept_def)
    next
      case False
      with first have "db_next d name = db_next dst name" by blast
      with others False Cons.prems(2,3) show ?thesis by (simp add: next_kept_def split: if_splits)
    qed
  qed
qed

lemma all_empty_Inr: "all_empty dst ts = Inr u \<Longrightarrow> \<forall>t \<in> set ts. db_rows dst (td_name t) = []"
  by (induction ts) (auto split: if_splits)

text \<open>How a copy ends: before anything was copied, or with what became of copying the tables.\<close>

lemma copy_cases:
  assumes "copy pg_source alter_src alter_dst postgres ins source_url target_url src dst = (r, src', dst')"
  obtains (early) s1 s2 e where "r = Inl e" "src' = src\<lparr>db_schema := s1\<rparr>" "dst' = dst\<lparr>db_schema := s2\<rparr>"
    | (copied) s1 s2 r2 dst2 where "src' = src\<lparr>db_schema := s1\<rparr>" "r = r2"
        "all_empty (dst\<lparr>db_schema := s2\<rparr>) METADATA = Inr ()"
        "copy_tables postgres ins src' METADATA [] (dst\<lparr>db_schema := s2\<rparr>) = (r2, dst2)"
        "dst' = (case r2 of Inl e \<Rightarrow> dst\<lparr>db_schema := s2, db_next := db_next dst2\<rparr> | Inr _ \<Rightarrow> dst2)"
proof (cases "source_url = target_url")
  case True
  with assms show ?thesis by (intro early [of _ "db_schema src" "db_schema dst"]) (auto simp: copy_def)
next
  case False
  obtain r1 s1 where start1: "database_start pg_source alter_src (db_schema src) = (r1, s1)" by fastforce
  obtain r2 s2 where start2: "database_start postgres alter_dst (db_schema dst) = (r2, s2)" by fastforce
  obtain r3 dst2 where run: "copy_tables postgres ins (src\<lparr>db_schema := s1\<rparr>) METADATA [] (dst\<lparr>db_schema := s2\<rparr>) = (r3, dst2)"
    by fastforce
  note whole = assms [unfolded copy_def if_not_P [OF False] start1 prod.case Let_def]
  show ?thesis
  proof (cases r1)
    case (Inl e)
    with whole show ?thesis by (intro early [of e s1 "db_schema dst"]) simp_all
  next
    case one: (Inr u)
    note whole = whole [unfolded one sum.case database.simps start2 prod.case]
    show ?thesis
    proof (cases r2)
      case (Inl e)
      with whole show ?thesis by (intro early [of e s1 s2]) simp_all
    next
      case two: (Inr u)
      note whole = whole [unfolded two sum.case]
      show ?thesis
      proof (cases "all_empty (dst\<lparr>db_schema := s2\<rparr>) METADATA")
        case (Inl e)
        with whole show ?thesis by (intro early [of e s1 s2]) simp_all
      next
        case three: (Inr u)
        with whole run show ?thesis by (intro copied [of s1 r3 s2 dst2]) (auto split: sum.splits)
      qed
    qed
  qed
qed

text \<open>
  C36. A copy lands whole or not at all. However it ends, the source keeps its rows. When it ends in an
  error - the same address twice, a schema that cannot be brought up to date, a target that has rows, an
  INSERT that is refused half way, a count that does not agree - the target has the rows it had; of its
  ids, none is given out that was not due, but in PostgreSQL a table that had been copied before the
  error goes on after the greatest id copied, as no rollback undoes that. Otherwise every table has all
  of the source's rows, in order and with their timestamps in UTC, the answer has the number for each,
  and in PostgreSQL no id that was copied will be given out again.
\<close>

theorem copy_whole_or_nothing:
  assumes "inserts_append ins"
    and "copy pg_source alter_src alter_dst postgres ins source_url target_url src dst = (r, src', dst')"
  shows "db_rows src' = db_rows src \<and> db_next src' = db_next src \<and>
    (case r of
       Inl e \<Rightarrow> db_rows dst' = db_rows dst \<and> (\<forall>name. next_kept postgres src dst dst' name)
     | Inr counts \<Rightarrow> \<forall>t \<in> set METADATA. table_copied postgres src dst' t \<and>
         dict_get counts (td_name t) = Some (int (length (db_rows src (td_name t)))))"
proof -
  from assms(2) show ?thesis
  proof (cases rule: copy_cases)
    case early
    then have "\<forall>name. next_kept postgres src dst dst' name" by (intro allI) (simp add: next_kept_def)
    then show ?thesis unfolding early sum.case by simp
  next
    case (copied s1 s2 r2 dst2)
    note empty = all_empty_Inr [OF copied(3)]
    show ?thesis
    proof (cases r2)
      case (Inl e)
      have "next_kept postgres src dst dst' name" for name
        using copy_tables_next [OF assms(1) metadata_names subset_refl empty copied(4), of name] copied(1,5) Inl
        by (auto simp: next_kept_def split: if_splits)
      then have "\<forall>name. next_kept postgres src dst dst' name" ..
      then show ?thesis unfolding copied(1,2,5) Inl sum.case by simp
    next
      case (Inr counts)
      from copy_tables_result [OF assms(1) metadata_names empty copied(4) [unfolded Inr]] copied Inr
      show ?thesis by (simp add: table_copied_def)
    qed
  qed
qed

text \<open>A SQLite database with two notifications of one rule, copied into an empty PostgreSQL one.\<close>

definition sqlite :: database where
  "sqlite = \<lparr>db_schema = old_schema,
     db_rows = (\<lambda>_. [])(''notifications'' :=
       [[(''id'', PInt 3), (''timestamp'', PTime (Naive 60))], [(''id'', PInt 8), (''timestamp'', PTime (Naive 90))]]),
     db_next = (\<lambda>_. 9)\<rparr>"

definition postgresql :: database where
  "postgresql = \<lparr>db_schema = [], db_rows = (\<lambda>_. []), db_next = (\<lambda>_. 1)\<rparr>"

text \<open>The same where the last table cannot be written: the notifications' ids stay advanced.\<close>

definition broken_insert :: inserting where
  "broken_insert table new rows = (if table = ''users'' then Inl (mk_exn (Other ''IntegrityError'') []) else Inr (rows @ new))"

definition sqlite_users :: database where
  "sqlite_users = sqlite\<lparr>db_rows := (db_rows sqlite)(''users'' := [[(''username'', PStr ''ada'')]])\<rparr>"

theorem copy_whole_or_nothing_witness:
  "\<exists>counts src' dst' e src'' dst''. copy False (\<lambda>_. None) (\<lambda>_. None) True (\<lambda>table new rows. Inr (rows @ new))
     ''sqlite+aiosqlite:///q.db'' ''postgresql+asyncpg://h/q'' sqlite postgresql = (Inr counts, src', dst') \<and>
     db_rows dst' ''notifications'' =
       [[(''id'', PInt 3), (''timestamp'', PTime (Aware 60))], [(''id'', PInt 8), (''timestamp'', PTime (Aware 90))]] \<and>
     db_next dst' ''notifications'' = 9 \<and> (\<forall>t \<in> set METADATA. table_copied True sqlite dst' t) \<and>
     copy False (\<lambda>_. None) (\<lambda>_. None) True broken_insert
       ''sqlite+aiosqlite:///q.db'' ''postgresql+asyncpg://h/q'' sqlite_users postgresql = (Inl e, src'', dst'') \<and>
     db_rows dst'' ''notifications'' = [] \<and> db_next dst'' ''notifications'' = 9"
proof -
  let ?run = "copy False (\<lambda>_. None) (\<lambda>_. None) True (\<lambda>table new rows. Inr (rows @ new))
     ''sqlite+aiosqlite:///q.db'' ''postgresql+asyncpg://h/q'' sqlite postgresql"
  let ?broken = "copy False (\<lambda>_. None) (\<lambda>_. None) True broken_insert
     ''sqlite+aiosqlite:///q.db'' ''postgresql+asyncpg://h/q'' sqlite_users postgresql"
  have v: "case ?run of (r, _, dst') \<Rightarrow> \<not> isl r \<and> db_rows dst' ''notifications'' =
       [[(''id'', PInt 3), (''timestamp'', PTime (Aware 60))], [(''id'', PInt 8), (''timestamp'', PTime (Aware 90))]] \<and>
     db_next dst' ''notifications'' = 9"
    and w: "case ?broken of (r, _, dst') \<Rightarrow> isl r \<and> db_next dst' ''notifications'' = 9"
    by code_simp+
  obtain r s d where x: "?run = (r, s, d)" by (rule prod_cases3)
  note v = v [unfolded x prod.case]
  from v obtain counts where r: "r = Inr counts" by (cases r) auto
  obtain r1 s1 d1 where y: "?broken = (r1, s1, d1)" by (rule prod_cases3)
  note w = w [unfolded y prod.case]
  from w obtain e where e: "r1 = Inl e" by (cases r1) auto
  have "db_rows d1 = db_rows postgresql"
    using copy_whole_or_nothing [OF _ y] e by (simp add: broken_insert_def)
  with copy_whole_or_nothing [OF _ x] v w x r y e show ?thesis by (auto simp: postgresql_def)
qed

end
