(* ===== verification/Management.thy ===== *)
theory Management
  imports Environments
begin

text \<open>
  The client of the Management API (app/infrastructure/rabbitmq/management_client.py): the paths it
  asks for, how replies become values or errors, creating a vhost, and when the client may be used.

  httpx and the broker are outside: the reply to a request is a function of the requests so far, given
  as an argument. The requests that were sent are returned as a list.
\<close>


section \<open>Percent-encoding (urllib.parse.quote with safe="")\<close>

definition unreserved :: "char \<Rightarrow> bool" where
  "unreserved c \<longleftrightarrow>
     CHR ''A'' \<le> c \<and> c \<le> CHR ''Z'' \<or> CHR ''a'' \<le> c \<and> c \<le> CHR ''z'' \<or> is_digit c \<or> c \<in> set ''_.-~''"

definition hex_digit :: "nat \<Rightarrow> char" where
  "hex_digit n = (if n < 10 then char_of (48 + n) else char_of (55 + n))"

definition quote_char :: "char \<Rightarrow> string" where
  "quote_char c =
     (if unreserved c then [c]
      else [CHR ''%'', hex_digit (of_char c div 16), hex_digit (of_char c mod 16)])"

definition quote :: "string \<Rightarrow> string" where
  "quote s = concat (map quote_char s)"


section \<open>Requests and replies\<close>

datatype http_verb = Get | Put

record api_request =
  aq_verb :: http_verb
  aq_path :: string
  aq_json :: "pyval dict option"

text \<open>A reply: its status and what \<open>response.json()\<close> gives (\<open>None\<close>: it is not JSON, which raises).\<close>

record api_reply =
  ap_status :: int
  ap_json :: "pyval option"

type_synonym api = "api_request list \<Rightarrow> api_request \<Rightarrow> exn + api_reply"

text \<open>The client: what it was started with (base URL, user and password, timeout aside), or not started.\<close>

record api_client =
  ac_settings :: settings
  ac_session :: "(string \<times> string \<times> string) option"

definition start_client :: "api_client \<Rightarrow> api_client" where
  "start_client c =
     (case ac_session c of
        Some _ \<Rightarrow> c
      | None \<Rightarrow> c\<lparr>ac_session := Some (rstrip_slash (s_management_url (ac_settings c)),
                   s_management_username (ac_settings c), s_management_password (ac_settings c))\<rparr>)"

definition close_client :: "api_client \<Rightarrow> api_client" where
  "close_client c = c\<lparr>ac_session := None\<rparr>"

text \<open>The \<open>client\<close> property.\<close>

definition session_of :: "api_client \<Rightarrow> exn + string \<times> string \<times> string" where
  "session_of c =
     (case ac_session c of
        None \<Rightarrow> Inl (mk_exn (Other ''RuntimeError'') ''RabbitMQ Management client has not started'')
      | Some s \<Rightarrow> Inr s)"

text \<open>One request: refused before it is sent by a client that has not started.\<close>

definition send :: "api \<Rightarrow> api_client \<Rightarrow> api_request \<Rightarrow> api_request list \<Rightarrow> (exn + api_reply) \<times> api_request list" where
  "send http c q sent =
     (case session_of c of
        Inl e \<Rightarrow> (Inl e, sent)
      | Inr _ \<Rightarrow> (http sent q, sent @ [q]))"

definition is_error :: "int \<Rightarrow> bool" where
  "is_error status \<longleftrightarrow> 400 \<le> status \<and> status \<le> 599"

definition json_or_raise :: "api_reply \<Rightarrow> exn + pyval" where
  "json_or_raise reply =
     (if is_error (ap_status reply)
      then Inl (mk_exn (ManagementErr (Some (ap_status reply)))
                  (''RabbitMQ Management API returned HTTP '' @ int_text (ap_status reply)))
      else (case ap_json reply of
              None \<Rightarrow> Inl (mk_exn ValueErr ''JSONDecodeError'')
            | Some v \<Rightarrow> Inr v))"

definition get_json :: "api \<Rightarrow> api_client \<Rightarrow> string \<Rightarrow> api_request list \<Rightarrow> (exn + pyval) \<times> api_request list" where
  "get_json http c path sent =
     (case send http c \<lparr>aq_verb = Get, aq_path = path, aq_json = None\<rparr> sent of
        (r, sent') \<Rightarrow> (or_raise r json_or_raise, sent'))"


section \<open>The operations\<close>

definition vhost_path :: "string \<Rightarrow> api_client \<Rightarrow> string" where
  "vhost_path what c = ''/api/'' @ what @ ''/'' @ quote (s_rabbitmq_vhost (ac_settings c))"

definition queue_path :: "api_client \<Rightarrow> string \<Rightarrow> string" where
  "queue_path c queue_name = vhost_path ''queues'' c @ ''/'' @ quote queue_name"

definition api_overview :: "api \<Rightarrow> api_client \<Rightarrow> api_request list \<Rightarrow> (exn + pyval) \<times> api_request list" where
  "api_overview http c = get_json http c ''/api/overview''"

definition api_exchanges :: "api \<Rightarrow> api_client \<Rightarrow> api_request list \<Rightarrow> (exn + pyval) \<times> api_request list" where
  "api_exchanges http c = get_json http c (vhost_path ''exchanges'' c)"

definition api_bindings :: "api \<Rightarrow> api_client \<Rightarrow> api_request list \<Rightarrow> (exn + pyval) \<times> api_request list" where
  "api_bindings http c = get_json http c (vhost_path ''bindings'' c)"

definition api_queues :: "api \<Rightarrow> api_client \<Rightarrow> api_request list \<Rightarrow> (exn + pyval) \<times> api_request list" where
  "api_queues http c = get_json http c (vhost_path ''queues'' c)"

definition api_queue ::
  "api \<Rightarrow> api_client \<Rightarrow> string \<Rightarrow> api_request list \<Rightarrow> (exn + pyval) \<times> api_request list" where
  "api_queue http c queue_name = get_json http c (queue_path c queue_name)"

definition vhost_request :: "http_verb \<Rightarrow> string \<Rightarrow> api_request" where
  "vhost_request verb vhost = \<lparr>aq_verb = verb, aq_path = ''/api/vhosts/'' @ quote vhost, aq_json = None\<rparr>"

definition permission_request :: "api_client \<Rightarrow> string \<Rightarrow> api_request" where
  "permission_request c vhost =
     \<lparr>aq_verb = Put,
      aq_path = ''/api/permissions/'' @ quote vhost @ ''/'' @ quote (s_management_username (ac_settings c)),
      aq_json = Some [(''configure'', PStr ''.*''), (''write'', PStr ''.*''), (''read'', PStr ''.*'')]\<rparr>"

text \<open>\<open>raise_for_status()\<close>: anything but success raises.\<close>

definition raise_for_status :: "api_reply \<Rightarrow> exn + unit" where
  "raise_for_status reply =
     (if 200 \<le> ap_status reply \<and> ap_status reply \<le> 299 then Inr ()
      else Inl (mk_exn (Other ''HTTPStatusError'') (int_text (ap_status reply))))"

text \<open>The last reply is not looked at: a permission that is refused goes unnoticed.\<close>

definition ensure_vhost :: "api \<Rightarrow> api_client \<Rightarrow> string \<Rightarrow> api_request list \<Rightarrow> (exn + unit) \<times> api_request list" where
  "ensure_vhost http c vhost sent =
     (case send http c (vhost_request Get vhost) sent of
        (Inl e, sent) \<Rightarrow> (Inl e, sent)
      | (Inr reply, sent) \<Rightarrow>
          (case (if ap_status reply = 404
                 then (case send http c (vhost_request Put vhost) sent of
                         (r, sent) \<Rightarrow> (or_raise r raise_for_status, sent))
                 else (Inr (), sent)) of
             (Inl e, sent) \<Rightarrow> (Inl e, sent)
           | (Inr _, sent) \<Rightarrow>
               (case send http c (permission_request c vhost) sent of
                  (r, sent) \<Rightarrow> (or_raise r (\<lambda>_. Inr ()), sent))))"

text \<open>\<open>async with management_client(settings)\<close>: closed whatever the body does.\<close>

definition management_client :: "settings \<Rightarrow> (api_client \<Rightarrow> 'a) \<Rightarrow> 'a \<times> api_client" where
  "management_client s body =
     (let c = start_client \<lparr>ac_settings = s, ac_session = None\<rparr> in (body c, close_client c))"

end
