(* ===== verification/Management_Properties.thy ===== *)
theory Management_Properties
  imports Management
begin

text \<open>
  The path of a request names exactly the vhost and the queue it is about, whatever characters their
  names have; a vhost is created only when the broker says it does not exist.
\<close>


section \<open>Percent-encoding loses nothing\<close>

definition hex_value :: "char \<Rightarrow> nat" where
  "hex_value c = (if is_digit c then of_char c - 48 else of_char c - 55)"

text \<open>What the server does with a segment of a path.\<close>

fun unquote :: "string \<Rightarrow> string" where
  "unquote [] = []"
| "unquote (c # s) =
     (if c = CHR ''%''
      then (case s of h # l # rest \<Rightarrow> char_of (16 * hex_value h + hex_value l) # unquote rest | _ \<Rightarrow> c # unquote s)
      else c # unquote s)"

lemma hex_value_digit: "n < 16 \<Longrightarrow> hex_value (hex_digit n) = n"
proof -
  assume "n < 16"
  then consider "n < 10" | "n \<in> {10, 11, 12, 13, 14, 15}" by fastforce
  then show ?thesis
    by cases (auto simp: hex_value_def hex_digit_def is_digit_def less_eq_char_def)
qed

lemma unreserved_percent: "unreserved c \<Longrightarrow> c \<noteq> CHR ''%''"
  by (auto simp: unreserved_def is_digit_def less_eq_char_def)

lemma unquote_quote_char: "unquote (quote_char c @ s) = c # unquote s"
proof (cases "unreserved c")
  case True
  then show ?thesis using unreserved_percent by (simp add: quote_char_def)
next
  case False
  have "(of_char c :: nat) div 16 < 16" "(of_char c :: nat) mod 16 < 16"
    using nat_of_char_less_256 [of c] by linarith+
  with False show ?thesis by (simp add: quote_char_def hex_value_digit)
qed

lemma unquote_quote [simp]: "unquote (quote s) = s"
  by (induction s) (simp_all add: quote_def unquote_quote_char)

lemma quote_eq_iff: "quote s = quote t \<longleftrightarrow> s = t"
  by (metis unquote_quote)

lemma unreserved_hex: "n < 16 \<Longrightarrow> unreserved (hex_digit n)"
  by (auto simp: unreserved_def hex_digit_def is_digit_def less_eq_char_def)

lemma quote_safe: "c \<in> set (quote s) \<Longrightarrow> unreserved c \<or> c = CHR ''%''"
proof (induction s)
  case (Cons d s)
  have "(of_char d :: nat) div 16 < 16" using nat_of_char_less_256 [of d] by linarith+
  with Cons show ?case by (auto simp: quote_def quote_char_def unreserved_hex split: if_splits)
qed (simp add: quote_def)

lemma slash_reserved: "\<not> unreserved CHR ''/''" "\<not> unreserved CHR ''?''" "\<not> unreserved CHR ''#''"
  by code_simp+

lemma quote_no_slash: "CHR ''/'' \<notin> set (quote s)"
  using quote_safe slash_reserved by fastforce

lemma segments_eq_iff:
  "CHR ''/'' \<notin> set a \<Longrightarrow> CHR ''/'' \<notin> set b \<Longrightarrow> a @ CHR ''/'' # x = b @ CHR ''/'' # y \<longleftrightarrow> a = b \<and> x = y"
  by (induction a arbitrary: b) (case_tac b; auto)+

text \<open>
  A queue's statistics are those of that queue. The path names one vhost and one queue: different
  names never share a path, even if they contain slashes, percent signs or what ends a path; the
  broker, decoding the two segments, reads the very names; asking for the queue sends this one GET, and
  nothing if the client has not started.
\<close>

theorem queue_paths_unambiguous:
  "(queue_path c q = queue_path c' q' \<longleftrightarrow>
      s_rabbitmq_vhost (ac_settings c) = s_rabbitmq_vhost (ac_settings c') \<and> q = q') \<and>
   map unquote (split_on CHR ''/'' (queue_path c q)) =
     [[], ''api'', ''queues'', s_rabbitmq_vhost (ac_settings c), q] \<and>
   CHR ''?'' \<notin> set (queue_path c q) \<and> CHR ''#'' \<notin> set (queue_path c q) \<and>
   snd (api_queue http c q sent) =
     (case ac_session c of None \<Rightarrow> sent
      | Some _ \<Rightarrow> sent @ [\<lparr>aq_verb = Get, aq_path = queue_path c q, aq_json = None\<rparr>])"
proof -
  have split: "split_on CHR ''/'' (a @ CHR ''/'' # s) = a # split_on CHR ''/'' s" if "CHR ''/'' \<notin> set a" for a s
    using that by (induction a) auto
  have last: "split_on CHR ''/'' a = [a]" if "CHR ''/'' \<notin> set a" for a
    using that by (induction a) auto
  have "split_on CHR ''/'' (queue_path c q) = [[], ''api'', ''queues'', quote (s_rabbitmq_vhost (ac_settings c)), quote q]"
    by (simp add: queue_path_def vhost_path_def split last quote_no_slash)
  moreover have "CHR ''?'' \<notin> set (quote s) \<and> CHR ''#'' \<notin> set (quote s)" for s
    using quote_safe slash_reserved by fastforce
  ultimately show ?thesis
    by (auto simp: queue_path_def vhost_path_def segments_eq_iff quote_no_slash quote_eq_iff api_queue_def
        get_json_def send_def session_of_def split: option.splits)
qed


section \<open>Creating a vhost\<close>

lemma send_sent: "send http c q sent = (r, sent') \<Longrightarrow> sent' = sent \<or> sent' = sent @ [q] \<and> r = http sent q"
  by (auto simp: send_def split: sum.splits)

text \<open>
  A vhost is created only after the broker has answered that it does not exist; nothing else is ever
  changed but the own user's permissions on that vhost; and when this succeeds they were asked for last.
\<close>

lemma vhost_created_when_missing:
  assumes "ensure_vhost http c vhost sent = (r, sent')" and "ac_session c \<noteq> None"
  shows "\<exists>new. sent' = sent @ vhost_request Get vhost # new \<and>
    (vhost_request Put vhost \<in> set new \<longrightarrow>
      (\<exists>reply. http sent (vhost_request Get vhost) = Inr reply \<and> ap_status reply = 404)) \<and>
    set new \<subseteq> {vhost_request Put vhost, permission_request c vhost} \<and>
    (r = Inr () \<longrightarrow> new \<noteq> [] \<and> last new = permission_request c vhost)"
proof -
  from assms(2) obtain session where "session_of c = Inr session" by (auto simp: session_of_def)
  then have sent: "send http c q s = (http s q, s @ [q])" for q s by (simp add: send_def)
  have other: "permission_request c vhost \<noteq> vhost_request Put vhost"
    by (simp add: permission_request_def vhost_request_def)
  show ?thesis using assms(1) other
    by (auto simp: ensure_vhost_def sent or_raise_Inr_iff split: sum.splits if_splits prod.splits)
qed

end
