(* ===== verification/Connection.thy ===== *)
theory Connection
  imports Domain
begin

text \<open>
  The AMQP connection of a scope (app/infrastructure/rabbitmq/connection.py): starting it, what the
  library's callbacks note, the loop that dials again, closing it, and what counts as connected.

  aio_pika's robust connection is outside: a connection object is a number, and its state is the
  library's - up, down while the library itself reconnects, or closed for good. A call that waits
  for the library is two steps, so callbacks and the other task come in between. Whether a cancelled
  attempt to connect leaves a socket behind is the library's affair.
\<close>


section \<open>The object\<close>

datatype link = Up | Down | Closed

text \<open>What the owner's call (start, close) waits for, and what the reconnect task is doing.\<close>

datatype owner_phase = At_Rest | Dialing | Hanging_Up nat

datatype loop_phase = No_Loop | Sleeping | Redialing | Ended

record amqp =
  am_connection :: "nat option"
  am_started :: bool
  am_healthy :: bool
  am_loop :: loop_phase

type_synonym links = "nat \<Rightarrow> link option"

definition new_connection :: amqp where
  "new_connection = \<lparr>am_connection = None, am_started = False, am_healthy = False, am_loop = No_Loop\<rparr>"

definition is_closed :: "links \<Rightarrow> nat \<Rightarrow> bool" where
  "is_closed links c \<longleftrightarrow> links c = Some Closed"

definition is_connected :: "links \<Rightarrow> amqp \<Rightarrow> bool" where
  "is_connected links a \<longleftrightarrow>
     (case am_connection a of None \<Rightarrow> False | Some c \<Rightarrow> \<not> is_closed links c \<and> am_healthy a)"

text \<open>The \<open>connection\<close> property, which \<open>channel\<close> opens its channel on.\<close>

definition connection_of :: "links \<Rightarrow> amqp \<Rightarrow> exn + nat" where
  "connection_of links a =
     (case am_connection a of
        None \<Rightarrow> Inl (mk_exn (Other ''RabbitMQUnavailableError'') ''RabbitMQ connection is not available'')
      | Some c \<Rightarrow>
          if is_closed links c
          then Inl (mk_exn (Other ''RabbitMQUnavailableError'') ''RabbitMQ connection is not available'')
          else Inr c)"

text \<open>\<open>start\<close>, up to the attempt to connect: whether there is one.\<close>

definition start_enter :: "links \<Rightarrow> amqp \<Rightarrow> amqp \<times> bool" where
  "start_enter links a =
     (a\<lparr>am_started := True\<rparr>, case am_connection a of None \<Rightarrow> True | Some c \<Rightarrow> is_closed links c)"

text \<open>Its outcome: a new connection, whose callbacks are registered, or an exception.\<close>

definition start_reply :: "nat option \<Rightarrow> amqp \<Rightarrow> amqp" where
  "start_reply made a =
     (case made of
        None \<Rightarrow> a\<lparr>am_connection := None, am_healthy := False\<rparr>
      | Some c \<Rightarrow> a\<lparr>am_connection := Some c, am_healthy := True\<rparr>)"

definition on_connection_lost :: "amqp \<Rightarrow> amqp" where
  "on_connection_lost a = a\<lparr>am_healthy := False\<rparr>"

definition on_connection_restored :: "amqp \<Rightarrow> amqp" where
  "on_connection_restored a = a\<lparr>am_healthy := True\<rparr>"

definition start_reconnect_loop :: "amqp \<Rightarrow> amqp" where
  "start_reconnect_loop a = (if am_loop a = No_Loop then a\<lparr>am_loop := Sleeping\<rparr> else a)"

text \<open>One turn of \<open>_reconnect_loop\<close>, from the end of a sleep to its next wait.\<close>

definition reconnect_turn :: "links \<Rightarrow> amqp \<Rightarrow> amqp" where
  "reconnect_turn links a =
     (if \<not> am_started a then a\<lparr>am_loop := Ended\<rparr>
      else if is_connected links a then a
      else (case start_enter links a of (a', dial) \<Rightarrow> if dial then a'\<lparr>am_loop := Redialing\<rparr> else a'))"

text \<open>\<open>close\<close>: the loop is cancelled and awaited, then the connection, if open, is closed.\<close>

definition close_enter :: "links \<Rightarrow> amqp \<Rightarrow> amqp \<times> owner_phase" where
  "close_enter links a =
     (let a' = a\<lparr>am_started := False, am_loop := No_Loop\<rparr>
      in case am_connection a of
           None \<Rightarrow> (a', At_Rest)
         | Some c \<Rightarrow> if is_closed links c then (a'\<lparr>am_connection := None\<rparr>, At_Rest) else (a', Hanging_Up c))"

definition close_reply :: "amqp \<Rightarrow> amqp" where
  "close_reply a = a\<lparr>am_connection := None\<rparr>"


section \<open>What can happen\<close>

text \<open>
  The owner starts a connection and then its loop, and closes it, one call after another (a bundle is
  started and stopped under the manager's lock). Links change by themselves at any time; a link
  that is lost or restored calls the callbacks, a closed one never comes back.
\<close>

inductive connection_runs :: "links \<Rightarrow> amqp \<Rightarrow> owner_phase \<Rightarrow> bool" where
  made: "connection_runs (\<lambda>_. None) new_connection At_Rest"
| start: "connection_runs links a At_Rest \<Longrightarrow> am_loop a = No_Loop \<Longrightarrow> start_enter links a = (a', dial) \<Longrightarrow>
    connection_runs links a' (if dial then Dialing else At_Rest)"
| dialed: "connection_runs links a Dialing \<Longrightarrow> links c = None \<Longrightarrow>
    connection_runs (links(c \<mapsto> Up)) (start_reply (Some c) a) At_Rest"
| not_dialed: "connection_runs links a Dialing \<Longrightarrow> connection_runs links (start_reply None a) At_Rest"
| loop: "connection_runs links a At_Rest \<Longrightarrow> connection_runs links (start_reconnect_loop a) At_Rest"
| turn: "connection_runs links a p \<Longrightarrow> am_loop a = Sleeping \<Longrightarrow> connection_runs links (reconnect_turn links a) p"
| redialed: "connection_runs links a p \<Longrightarrow> am_loop a = Redialing \<Longrightarrow> links c = None \<Longrightarrow>
    connection_runs (links(c \<mapsto> Up)) ((start_reply (Some c) a)\<lparr>am_loop := Sleeping\<rparr>) p"
| not_redialed: "connection_runs links a p \<Longrightarrow> am_loop a = Redialing \<Longrightarrow>
    connection_runs links ((start_reply None a)\<lparr>am_loop := Sleeping\<rparr>) p"
| lost: "connection_runs links a p \<Longrightarrow> links c = Some Up \<Longrightarrow>
    connection_runs (links(c \<mapsto> Down)) (on_connection_lost a) p"
| restored: "connection_runs links a p \<Longrightarrow> links c = Some Down \<Longrightarrow>
    connection_runs (links(c \<mapsto> Up)) (on_connection_restored a) p"
| gave_up: "connection_runs links a p \<Longrightarrow> links c \<in> {Some Up, Some Down} \<Longrightarrow>
    connection_runs (links(c \<mapsto> Closed)) (on_connection_lost a) p"
| close: "connection_runs links a At_Rest \<Longrightarrow> close_enter links a = (a', p) \<Longrightarrow> connection_runs links a' p"
| closed: "connection_runs links a (Hanging_Up c) \<Longrightarrow>
    connection_runs (links(c \<mapsto> Closed)) (close_reply (on_connection_lost a)) At_Rest"

end
