(* ===== verification/Connection_Properties.thy ===== *)
theory Connection_Properties
  imports Connection
begin

text \<open>
  What the callbacks note is the truth about the one connection there is: however starting, losing,
  dialing again and closing interleave.
\<close>

text \<open>A link the broker or the library still knows.\<close>

definition live :: "links \<Rightarrow> nat \<Rightarrow> bool" where
  "live links c \<longleftrightarrow> links c = Some Up \<or> links c = Some Down"

lemma live_upd [simp]:
  "live (links(c := v)) d = (if d = c then v = Some Up \<or> v = Some Down else live links d)"
  "live (\<lambda>x. if x = c then v else links x) d = (if d = c then v = Some Up \<or> v = Some Down else live links d)"
  by (simp_all add: live_def)

lemma live_cases: "live links c \<longleftrightarrow> links c \<noteq> None \<and> links c \<noteq> Some Closed"
  by (cases "links c"; cases "the (links c)") (auto simp: live_def)

text \<open>Every other connection is closed; a healthy note means the own one is up.\<close>

definition connection_ok :: "links \<Rightarrow> amqp \<Rightarrow> owner_phase \<Rightarrow> bool" where
  "connection_ok links a p \<longleftrightarrow>
     (\<forall>c. live links c \<longrightarrow> am_connection a = Some c) \<and>
     (\<forall>c. am_connection a = Some c \<longrightarrow> links c \<noteq> None) \<and>
     (\<forall>c. live links c \<longrightarrow> (am_healthy a \<longleftrightarrow> links c = Some Up)) \<and>
     (p = Dialing \<or> am_loop a = Redialing \<longrightarrow> (\<forall>c. \<not> live links c)) \<and>
     (p = Dialing \<longrightarrow> am_loop a = No_Loop) \<and>
     (\<forall>c. p = Hanging_Up c \<longrightarrow> am_connection a = Some c \<and> am_loop a = No_Loop)"

lemma connection_okD:
  assumes "connection_ok links a p"
  shows "live links c \<Longrightarrow> am_connection a = Some c"
    and "am_connection a = Some c \<Longrightarrow> links c \<noteq> None"
    and "live links c \<Longrightarrow> am_healthy a \<longleftrightarrow> links c = Some Up"
    and "p = Dialing \<Longrightarrow> \<not> live links c"
    and "am_loop a = Redialing \<Longrightarrow> \<not> live links c"
    and "p = Dialing \<Longrightarrow> am_loop a = No_Loop"
    and "p = Hanging_Up c \<Longrightarrow> am_connection a = Some c \<and> am_loop a = No_Loop"
  using assms unfolding connection_ok_def by blast+

lemmas connection_defs =
  new_connection_def is_connected_def start_enter_def start_reply_def on_connection_lost_def
  on_connection_restored_def start_reconnect_loop_def reconnect_turn_def close_enter_def close_reply_def

lemma only_live: "connection_ok links a p \<Longrightarrow> live links c \<Longrightarrow> live links d \<longleftrightarrow> d = c"
  using connection_okD(1) [of links a p c] connection_okD(1) [of links a p d] by auto

text \<open>Without a usable connection none is live.\<close>

lemma none_live:
  "connection_ok links a p \<Longrightarrow> am_connection a = None \<or> (\<exists>c. am_connection a = Some c \<and> is_closed links c) \<Longrightarrow> \<not> live links d"
  using connection_okD(1) [of links a p d] by (auto simp: live_def is_closed_def)

lemma start_enter_ok:
  "connection_ok links a p \<Longrightarrow> start_enter links a = (a', dial) \<Longrightarrow> a' = a\<lparr>am_started := True\<rparr> \<and> (dial \<longrightarrow> (\<forall>c. \<not> live links c))"
  using none_live [of links a p] by (auto simp: start_enter_def split: option.splits)

text \<open>The link changes, and its callback notes it.\<close>

lemma link_changes:
  assumes ok: "connection_ok links a p" and c: "live links c"
  shows "connection_ok (links(c \<mapsto> v)) (a\<lparr>am_healthy := (v = Up)\<rparr>) p"
proof -
  have own: "am_connection a = Some c" "p \<noteq> Dialing" "am_loop a \<noteq> Redialing"
    using connection_okD(1,4,5) [OF ok] c by blast+
  have "live (links(c \<mapsto> v)) d \<longleftrightarrow> d = c \<and> v \<noteq> Closed" for d
    using only_live [OF ok c, of d] by (cases v) auto
  moreover have "d = c \<and> am_loop a = No_Loop" if "p = Hanging_Up d" for d
    using connection_okD(7) [OF ok that] own(1) by simp
  ultimately show ?thesis unfolding connection_ok_def using own by (cases v) (simp_all del: live_upd)
qed

lemma connection_runs_ok: "connection_runs links a p \<Longrightarrow> connection_ok links a p"
proof (induction rule: connection_runs.induct)
  case made
  show ?case by (simp add: connection_ok_def connection_defs live_def)
next
  case (start links a a' dial)
  from start_enter_ok [OF start.IH start.hyps(3)] start.IH start.hyps(2) show ?case by (auto simp: connection_ok_def)
next
  case (dialed links a c)
  from connection_okD(4) [OF dialed.IH] have only: "live (links(c \<mapsto> Up)) d \<longleftrightarrow> d = c" for d by simp
  show ?case unfolding connection_ok_def only using connection_okD(6) [OF dialed.IH] by (simp add: start_reply_def)
next
  case (not_dialed links a)
  with connection_okD(4,6) [OF not_dialed.IH] show ?case by (simp add: connection_ok_def start_reply_def)
next
  case (loop links a)
  then show ?case by (simp add: connection_ok_def start_reconnect_loop_def)
next
  case (turn links a p)
  obtain a' dial where enter: "start_enter links a = (a', dial)" by fastforce
  from start_enter_ok [OF turn.IH this] turn.IH turn.hyps(2) show ?case
    by (auto simp: connection_ok_def reconnect_turn_def enter)
next
  case (redialed links a p c)
  from connection_okD(5) [OF redialed.IH] redialed.hyps(2) have only: "live (links(c \<mapsto> Up)) d \<longleftrightarrow> d = c" for d by simp
  show ?case unfolding connection_ok_def only
    using connection_okD(6,7) [OF redialed.IH] redialed.hyps(2) by (auto simp: start_reply_def)
next
  case (not_redialed links a p)
  with connection_okD(5-7) [OF not_redialed.IH] show ?case by (auto simp: connection_ok_def start_reply_def)
next
  case (lost links a p c)
  then show ?case using link_changes [OF lost.IH, of c Down] by (simp add: on_connection_lost_def live_def fun_upd_def)
next
  case (restored links a p c)
  then show ?case using link_changes [OF restored.IH, of c Up] by (simp add: on_connection_restored_def live_def fun_upd_def)
next
  case (gave_up links a p c)
  then show ?case using link_changes [OF gave_up.IH, of c Closed] by (auto simp: on_connection_lost_def live_def fun_upd_def)
next
  case (close links a a' p)
  show ?case
  proof (cases "am_connection a")
    case None
    with close.hyps(2) none_live [OF close.IH] show ?thesis by (auto simp: connection_ok_def close_enter_def Let_def)
  next
    case (Some c)
    show ?thesis
    proof (cases "is_closed links c")
      case True
      with Some close.hyps(2) none_live [OF close.IH] show ?thesis
        by (auto simp: connection_ok_def close_enter_def Let_def)
    next
      case False
      with Some close.hyps(2) close.IH show ?thesis
        by (auto simp: connection_ok_def close_enter_def Let_def)
    qed
  qed
next
  case (closed links a c)
  from connection_okD(7) [OF closed.IH] have own: "am_connection a = Some c" "am_loop a = No_Loop" by simp_all
  with connection_okD(1) [OF closed.IH] have "\<not> live (links(c \<mapsto> Closed)) d" for d by (cases "d = c") fastforce+
  then show ?case
    using own unfolding connection_ok_def by (simp add: close_reply_def on_connection_lost_def del: live_upd)
qed

text \<open>
  C37. The readiness of a scope is that of its broker. However starting, the library's own
  reconnecting, the reconnect loop and closing interleave, the connection counts as connected exactly
  when it is up; there is never a second open connection, so a lost one is not left behind when
  another is dialed; and once it has been closed and nobody waits, no connection is open.
\<close>

theorem connected_means_up:
  assumes "connection_runs links a p"
  shows "(is_connected links a \<longleftrightarrow> (\<exists>c. am_connection a = Some c \<and> links c = Some Up)) \<and>
    (\<forall>c d. live links c \<longrightarrow> live links d \<longrightarrow> c = d) \<and>
    (is_connected links a \<longrightarrow> connection_of links a = Inr (the (am_connection a))) \<and>
    (am_connection a = None \<longrightarrow> (\<forall>c. \<not> live links c))"
proof -
  note ok = connection_okD [OF connection_runs_ok [OF assms]]
  have "is_connected links a \<longleftrightarrow> (\<exists>c. am_connection a = Some c \<and> links c = Some Up)"
    using ok(2,3) by (cases "am_connection a") (auto simp: is_connected_def is_closed_def live_cases, force)
  moreover have "c = d" if "live links c" "live links d" for c d
    using ok(1) [OF that(1)] ok(1) [OF that(2)] by simp
  moreover have "connection_of links a = Inr (the (am_connection a))" if "is_connected links a"
    using that by (auto simp: is_connected_def connection_of_def split: option.splits)
  moreover have "\<not> live links c" if "am_connection a = None" for c
    using ok(1) [of c] that by auto
  ultimately show ?thesis by blast
qed

text \<open>The broker is down at the start; the loop gets through; the link is lost, and restored.\<close>

theorem connected_means_up_witness:
  "\<exists>links a. connection_runs links a At_Rest \<and> is_connected links a \<and> am_connection a = Some 4 \<and> links 4 = Some Up"
proof -
  let ?a = "\<lparr>am_connection = None, am_started = True, am_healthy = False, am_loop = Sleeping\<rparr>"
  let ?b = "\<lparr>am_connection = Some 4, am_started = True, am_healthy = True, am_loop = Sleeping\<rparr>"
  have "connection_runs (\<lambda>_. None) \<lparr>am_connection = None, am_started = True, am_healthy = False, am_loop = No_Loop\<rparr> Dialing"
    using start [OF made] by (simp add: connection_defs)
  from loop [OF not_dialed [OF this]] have "connection_runs (\<lambda>_. None) ?a At_Rest"
    by (simp add: connection_defs)
  from turn [OF this] have "connection_runs (\<lambda>_. None) (?a\<lparr>am_loop := Redialing\<rparr>) At_Rest"
    by (simp add: connection_defs)
  from redialed [OF this, of 4] have "connection_runs [4 \<mapsto> Up] ?b At_Rest"
    by (simp add: connection_defs)
  from restored [OF lost [OF this, of 4], of 4] have run: "connection_runs [4 \<mapsto> Up] ?b At_Rest"
    by (simp add: connection_defs)
  from connected_means_up [OF run] have "is_connected [4 \<mapsto> Up] ?b" by simp
  with run show ?thesis by fastforce
qed

end
