(* ===== verification/Monitoring.thy ===== *)
theory Monitoring
  imports Connection Management Policies Accounts
begin

text \<open>
  What the console and Prometheus read: the health, broker, users, exchanges, configuration, topology and
  connection test routes (app/api/routes/health.py), the queue routes (queues.py), the gauges and the
  metrics summary (metrics.py).

  Prometheus' registry is outside: the samples of a counter are an argument, the gauges that a scrape
  sets are a record. PyYAML is outside: the parsed alert rules are an argument.
\<close>


section \<open>Addresses (urllib.parse.urlparse)\<close>

text \<open>
  The network location of a URL without control characters. That a bracketed host is a valid
  address is not checked here.
\<close>

definition is_alpha :: "char \<Rightarrow> bool" where
  "is_alpha c \<longleftrightarrow> CHR ''A'' \<le> c \<and> c \<le> CHR ''Z'' \<or> CHR ''a'' \<le> c \<and> c \<le> CHR ''z''"

definition scheme_char :: "char \<Rightarrow> bool" where
  "scheme_char c \<longleftrightarrow> is_alpha c \<or> is_digit c \<or> c \<in> set ''+-.''"

definition before_char :: "char \<Rightarrow> string \<Rightarrow> string" where
  "before_char c s = takeWhile (\<lambda>x. x \<noteq> c) s"

definition after_char :: "char \<Rightarrow> string \<Rightarrow> string" where
  "after_char c s = tl (dropWhile (\<lambda>x. x \<noteq> c) s)"

definition after_scheme :: "string \<Rightarrow> string" where
  "after_scheme url =
     (let s = before_char CHR '':'' url
      in if CHR '':'' \<in> set url \<and> s \<noteq> [] \<and> is_alpha (hd s) \<and> list_all scheme_char s then after_char CHR '':'' url else url)"

definition netloc :: "string \<Rightarrow> exn + string" where
  "netloc url =
     (let rest = after_scheme url;
          loc = (if starts_with rest ''//'' then takeWhile (\<lambda>c. c \<notin> set ''/?#'') (drop 2 rest) else [])
      in if (CHR ''['' \<in> set loc) \<noteq> (CHR '']'' \<in> set loc) then Inl (mk_exn ValueErr ''Invalid IPv6 URL'') else Inr loc)"

text \<open>What follows the last \<open>@\<close>: host and port, without the user's name and password.\<close>

definition hostinfo :: "string \<Rightarrow> string \<times> string" where
  "hostinfo loc =
     (let info = rev (before_char CHR ''@'' (rev loc))
      in if CHR ''['' \<in> set info
         then (let bracketed = after_char CHR ''['' info
               in (before_char CHR '']'' bracketed, after_char CHR '':'' (after_char CHR '']'' bracketed)))
         else (before_char CHR '':'' info, after_char CHR '':'' info))"

definition url_hostname :: "string \<Rightarrow> string option" where
  "url_hostname loc =
     (let host = fst (hostinfo loc)
      in if host = [] then None
         else Some (lower (before_char CHR ''%'' host) @ dropWhile (\<lambda>c. c \<noteq> CHR ''%'') host))"

definition url_port :: "string \<Rightarrow> exn + int option" where
  "url_port loc =
     (let port = snd (hostinfo loc)
      in if port = [] then Inr None
         else if list_all is_digit port
         then (case parse_digits 0 port of
                 Some n \<Rightarrow> if n \<le> 65535 then Inr (Some n) else Inl (mk_exn ValueErr ''Port out of range 0-65535'')
               | None \<Rightarrow> Inl (mk_exn ValueErr ''Port out of range 0-65535''))
         else Inl (mk_exn ValueErr (''Port could not be cast to integer value as '' @ port)))"

text \<open>\<open>host:port\<close>, as the broker route shows it.\<close>

definition shown_address :: "string \<Rightarrow> exn + string" where
  "shown_address loc =
     or_raise (url_port loc) (\<lambda>port.
       let host = str_or (url_hostname loc) ''rabbitmq''
       in Inr (case port of None \<Rightarrow> host | Some p \<Rightarrow> if p = 0 then host else host @ '':'' @ int_text p))"


section \<open>Health and the broker (health.py)\<close>

definition health :: "string dict" where
  "health = [(''status'', ''ok'')]"

text \<open>\<open>connection.is_started and connection.is_connected\<close>\<close>

definition amqp_up :: "links \<Rightarrow> amqp \<Rightarrow> bool" where
  "amqp_up links a \<longleftrightarrow> am_started a \<and> is_connected links a"

definition ready :: "bool \<Rightarrow> (links \<times> amqp) option \<Rightarrow> int \<times> string dict" where
  "ready app_ready connection =
     (if \<not> app_ready then (503, [(''status'', ''not_ready'')])
      else if (case connection of None \<Rightarrow> False | Some (links, a) \<Rightarrow> am_started a \<and> \<not> is_connected links a)
      then (503, [(''status'', ''not_ready'')])
      else (200, [(''status'', ''ok'')]))"

definition broker_info :: "broker \<Rightarrow> pyval dict io" where
  "broker_info b =
     bnd (lift (netloc (s_rabbitmq_url (bk_settings b)))) (\<lambda>loc.
     bnd (catch (bnd (overview (bk_env b)) (\<lambda>o'. ret (py_get o' ''rabbitmq_version''))) (\<lambda>_. ret PNone)) (\<lambda>version.
     bnd (lift (shown_address loc)) (\<lambda>address.
       ret [(''host'', PStr address), (''vhost'', PStr (s_rabbitmq_vhost (bk_settings b))),
            (''rabbitmq_version'', version), (''environment'', PStr (s_environment (bk_settings b)))])))"

text \<open>\<open>stored\<close> is what reading the users table gives; an error falls back to the configured accounts.\<close>

definition users_route :: "pylib \<Rightarrow> settings \<Rightarrow> exn + user_row list \<Rightarrow> exn + pyval dict list" where
  "users_route L s stored =
     (case (case stored of Inl _ \<Rightarrow> [] | Inr rows \<Rightarrow> users_list rows) of
        [] \<Rightarrow>
          or_raise (settings_users L s) (\<lambda>users.
            Inr (map (\<lambda>name. [(''username'', PStr name),
                              (''role'', PStr (if name = s_admin_username s then ''Administrator'' else ''Operator''))])
                   (sort (map fst users))))
      | rows \<Rightarrow>
          or_raise (settings_users L s) (\<lambda>users.
            Inr (map (\<lambda>u. [(''username'', PStr (us_name u)),
                           (''role'', PStr (if us_role u = ''Admin'' then ''Administrator'' else us_role u)),
                           (''email'', opt_str (us_email u)), (''invited_by'', opt_str (us_invited_by u)),
                           (''active'', PBool (us_active u)), (''must_change_password'', PBool (us_must_change u)),
                           (''managed'', PStr (if dict_get users (us_name u) \<noteq> None then ''env'' else ''local''))])
                   rows)))"

definition config_route :: "pylib \<Rightarrow> settings \<Rightarrow> exn + pyval dict" where
  "config_route L s =
     or_raise (settings_replay_targets L s) (\<lambda>targets.
       Inr [(''app_name'', PStr (s_app_name s)), (''environment'', PStr (s_environment s)),
            (''auth_enabled'', PBool (s_auth_enabled s)), (''management_url'', PStr (s_management_url s)),
            (''vhost'', PStr (s_rabbitmq_vhost s)), (''connection_name'', PStr (s_connection_name s)),
            (''operation_timeout_seconds'', PFloat (s_operation_timeout s)),
            (''max_preview_messages'', PInt (s_max_preview_messages s)),
            (''max_message_size_bytes'', PInt (s_max_message_size_bytes s)),
            (''refetch_window_size'', PInt (s_refetch_window_size s)),
            (''max_browse_depth'', PInt (s_max_browse_depth s)), (''max_bulk_size'', PInt (s_max_bulk_size s)),
            (''bulk_dry_run_ttl_seconds'', PInt (s_bulk_dry_run_ttl_seconds s)),
            (''masking_enabled'', PBool (s_masking_enabled s)),
            (''masked_fields'', PList (map PStr (masked_field_names s))),
            (''replay_targets'', PList (map PStr (sort (map fst targets))))])"

text \<open>A live check: what the Management API says, and whether AMQP is up afterwards.\<close>

definition py_len :: "pyval \<Rightarrow> exn + nat" where
  "py_len v =
     (case v of PList xs \<Rightarrow> Inr (length xs) | PDict d \<Rightarrow> Inr (length d) | PStr s \<Rightarrow> Inr (utf8_length s)
      | _ \<Rightarrow> Inl (mk_exn TypeErr ''object has no len()''))"

definition overview_detail :: "pyval dict \<Rightarrow> exn + pyval dict" where
  "overview_detail o' =
     or_raise (sub_dict o' ''object_totals'') (\<lambda>totals.
     or_raise (py_len (py_or (dict_get o' ''listeners'') (PList []))) (\<lambda>nodes.
       Inr [(''rabbitmq_version'', py_get o' ''rabbitmq_version''), (''cluster_name'', py_get o' ''cluster_name''),
            (''queues'', py_get totals ''queues''), (''nodes'', if nodes = 0 then PNone else PInt (int nodes))]))"

text \<open>
  \<open>management_ok\<close> is set once the overview has been read, so an odd overview leaves it true with the
  error as the detail.
\<close>

definition broker_test :: "env \<Rightarrow> bool \<Rightarrow> pyval dict io" where
  "broker_test E amqp_ok =
     bnd (clock E) (\<lambda>started.
     bnd (outcome (overview E)) (\<lambda>r.
       let (management_ok, detail) =
             (case r of
                Inl e \<Rightarrow> (False, [(''error'', PStr (str_or (exn_text e) ''Management API unreachable''))])
              | Inr o' \<Rightarrow>
                  (True, case overview_detail o' of
                     Inl e \<Rightarrow> [(''error'', PStr (str_or (exn_text e) ''Management API unreachable''))]
                   | Inr d \<Rightarrow> d))
       in bnd (clock E) (\<lambda>now.
            ret (dict_merge
                   [(''ok'', PBool (management_ok \<and> amqp_ok)), (''management_api'', PBool management_ok),
                    (''amqp'', PBool amqp_ok), (''latency_ms'', PInt (py_round (of_int (now - started) / 1000)))]
                   detail))))"


section \<open>Exchanges and the topology\<close>

definition get_default :: "pyval dict \<Rightarrow> string \<Rightarrow> pyval \<Rightarrow> pyval" where
  "get_default d k v = (case dict_get d k of None \<Rightarrow> v | Some x \<Rightarrow> x)"

fun dicts_of :: "pyval list \<Rightarrow> exn + pyval dict list" where
  "dicts_of [] = Inr []"
| "dicts_of (v # vs) = or_raise (as_dict v) (\<lambda>d. or_raise (dicts_of vs) (\<lambda>ds. Inr (d # ds)))"

text \<open>Iterating over what the API sent, each item used as a dictionary.\<close>

definition rows_of :: "pyval \<Rightarrow> exn + pyval dict list" where
  "rows_of v =
     (case v of
        PList xs \<Rightarrow> dicts_of xs
      | PDict d \<Rightarrow> if d = [] then Inr [] else Inl attribute_error
      | PStr s \<Rightarrow> if s = [] then Inr [] else Inl attribute_error
      | _ \<Rightarrow> Inl (mk_exn TypeErr ''object is not iterable''))"

definition exchange_dict :: "pyval dict \<Rightarrow> pyval dict" where
  "exchange_dict e =
     [(''name'', get_default e ''name'' (PStr [])), (''type'', get_default e ''type'' (PStr ''direct''))]"

definition exchanges :: "api \<Rightarrow> api_client \<Rightarrow> api_request list \<Rightarrow> (exn + pyval dict list) \<times> api_request list" where
  "exchanges http c sent =
     (case api_exchanges http c sent of
        (raw, sent') \<Rightarrow>
          (or_raise raw (\<lambda>v. or_raise (rows_of v) (\<lambda>items.
             Inr (map exchange_dict (filter (\<lambda>e. \<not> truthy (get_default e ''internal'' (PBool False))) items)))), sent'))"

definition TOPOLOGY_CACHE_MICROSECONDS :: int where
  "TOPOLOGY_CACHE_MICROSECONDS = seconds 30"

definition binding_dict :: "pyval dict \<Rightarrow> pyval dict" where
  "binding_dict b =
     [(''source'', get_default b ''source'' (PStr [])), (''destination'', get_default b ''destination'' (PStr [])),
      (''destination_type'', get_default b ''destination_type'' (PStr ''queue'')),
      (''routing_key'', get_default b ''routing_key'' (PStr []))]"

fun queue_dicts :: "pyval dict list \<Rightarrow> exn + pyval list" where
  "queue_dicts [] = Inr []"
| "queue_dicts (q # qs) =
     or_raise (sub_dict q ''arguments'') (\<lambda>args.
     or_raise (queue_dicts qs) (\<lambda>ds.
       Inr (PDict [(''name'', get_default q ''name'' (PStr [])), (''consumers'', get_default q ''consumers'' (PInt 0)),
                   (''messages'', get_default q ''messages'' (PInt 0)),
                   (''dlx'', py_get args ''x-dead-letter-exchange''),
                   (''dlx_routing_key'', py_get args ''x-dead-letter-routing-key'')] # ds)))"

definition topology_of :: "pyval \<Rightarrow> pyval \<Rightarrow> pyval \<Rightarrow> exn + pyval dict" where
  "topology_of exchanges_raw bindings_raw queues_raw =
     or_raise (rows_of exchanges_raw) (\<lambda>es.
     or_raise (rows_of bindings_raw) (\<lambda>bs.
     or_raise (rows_of queues_raw) (\<lambda>rows.
     or_raise (queue_dicts rows) (\<lambda>qs.
       Inr [(''exchanges'', PList (map (\<lambda>e. PDict (exchange_dict e))
               (filter (\<lambda>e. truthy (py_get e ''name'') \<and> \<not> truthy (get_default e ''internal'' (PBool False))) es))),
            (''bindings'', PList (map (\<lambda>b. PDict (binding_dict b)) bs)),
            (''queues'', PList qs)]))))"

text \<open>
  \<open>cache\<close> is the scope's \<open>topology_cache\<close>: until when, and what. \<open>started\<close> and \<open>finished\<close> are the monotonic
  clock when the route begins and when the lists have been read.
\<close>

definition topology ::
  "api \<Rightarrow> api_client \<Rightarrow> int \<Rightarrow> int \<Rightarrow> (int \<times> pyval dict) option \<Rightarrow> api_request list \<Rightarrow>
     (exn + pyval dict) \<times> (int \<times> pyval dict) option \<times> api_request list"
where
  "topology http c started finished cache sent =
     (case (case cache of Some (until, result) \<Rightarrow> if started < until then Some result else None | None \<Rightarrow> None) of
        Some result \<Rightarrow> (Inr result, cache, sent)
      | None \<Rightarrow>
          (case api_exchanges http c sent of
             (Inl e, sent) \<Rightarrow> (Inl e, cache, sent)
           | (Inr es, sent) \<Rightarrow>
               (case api_bindings http c sent of
                  (Inl e, sent) \<Rightarrow> (Inl e, cache, sent)
                | (Inr bs, sent) \<Rightarrow>
                    (case api_queues http c sent of
                       (Inl e, sent) \<Rightarrow> (Inl e, cache, sent)
                     | (Inr qs, sent) \<Rightarrow>
                         (case topology_of es bs qs of
                            Inl e \<Rightarrow> (Inl e, cache, sent)
                          | Inr result \<Rightarrow>
                              (Inr result, Some (finished + TOPOLOGY_CACHE_MICROSECONDS, result), sent))))))"


section \<open>The packaged alert rules\<close>

fun rule_dicts :: "pyval dict list \<Rightarrow> exn + pyval dict list" where
  "rule_dicts [] = Inr []"
| "rule_dicts (r # rs) =
     or_raise (sub_dict r ''annotations'') (\<lambda>notes.
     or_raise (sub_dict r ''labels'') (\<lambda>labels.
     or_raise (rule_dicts rs) (\<lambda>ds.
       Inr ([(''name'', get_default r ''alert'' (PStr [])), (''expr'', get_default r ''expr'' (PStr [])),
             (''for'', get_default r ''for'' (PStr ''0m'')),
             (''severity'', get_default labels ''severity'' (PStr ''warning'')),
             (''summary'', get_default notes ''summary'' (PStr [])),
             (''description'', get_default notes ''description'' (PStr []))] # ds))))"

fun group_rules :: "pyval dict list \<Rightarrow> exn + pyval dict list" where
  "group_rules [] = Inr []"
| "group_rules (g # gs) =
     or_raise (rows_of (get_default g ''rules'' (PList []))) (\<lambda>rs.
     or_raise (rule_dicts rs) (\<lambda>ds.
     or_raise (group_rules gs) (\<lambda>rest. Inr (ds @ rest))))"

text \<open>\<open>file\<close>: the parsed file, if it is there.\<close>

definition packaged_rules :: "pyval option \<Rightarrow> exn + pyval dict list \<times> string option" where
  "packaged_rules file =
     (case file of
        None \<Rightarrow> Inr ([], None)
      | Some parsed \<Rightarrow>
          or_raise (as_dict (if truthy parsed then parsed else PDict [])) (\<lambda>d.
          or_raise (rows_of (get_default d ''groups'' (PList []))) (\<lambda>gs.
          or_raise (group_rules gs) (\<lambda>rules. Inr (rules, Some ''deploy/prometheus/alerts.yml'')))))"


section \<open>Queues (queues.py)\<close>

definition list_queues_route :: "broker \<Rightarrow> bool \<Rightarrow> pyval dict list io" where
  "list_queues_route b dlq_only =
     bnd (list_queues (bk_env b) (bk_version b) dlq_only) (\<lambda>(queues, _). ret (queues_to_dicts queues))"

definition get_queue_route :: "broker \<Rightarrow> string \<Rightarrow> pyval dict io" where
  "get_queue_route b q =
     bnd (get_queue (bk_env b) (bk_version b) q) (\<lambda>(queue, _). ret (hd (queues_to_dicts [queue])))"


section \<open>The gauges (metrics.py)\<close>

record gauges =
  gg_ready :: int
  gg_up :: "(scope \<times> int) list"
  gg_dlq :: "((scope \<times> string) \<times> int) list"
  gg_paused :: "int dict"

text \<open>
  \<open>_dlqs\<close>: the queues of one scope, or none when they cannot be read in time. Each broker has its own
  history; \<open>slow\<close> tells whether the five seconds pass first.
\<close>

definition dlqs ::
  "pylib \<Rightarrow> (scope \<Rightarrow> env) \<Rightarrow> (scope \<Rightarrow> hist) \<Rightarrow> (scope \<Rightarrow> bool) \<Rightarrow> scope \<Rightarrow> environments \<Rightarrow>
     queue_info list option \<times> environments"
where
  "dlqs L brokers seen slow key m =
     (case queue_service_for L m (Some (fst key), Some (snd key)) of
        Inl _ \<Rightarrow> (None, m)
      | Inr (_, m') \<Rightarrow>
          (if slow key then None
           else (case fst (list_queues (brokers key) None True (seen key)) of Inl _ \<Rightarrow> None | Inr (qs, _) \<Rightarrow> Some qs), m'))"

fun gather_dlqs ::
  "pylib \<Rightarrow> (scope \<Rightarrow> env) \<Rightarrow> (scope \<Rightarrow> hist) \<Rightarrow> (scope \<Rightarrow> bool) \<Rightarrow> scope list \<Rightarrow> environments \<Rightarrow>
     queue_info list option list \<times> environments"
where
  "gather_dlqs L brokers seen slow [] m = ([], m)"
| "gather_dlqs L brokers seen slow (k # ks) m =
     (case dlqs L brokers seen slow k m of
        (r, m') \<Rightarrow> (case gather_dlqs L brokers seen slow ks m' of (rs, m'') \<Rightarrow> (r # rs, m'')))"

definition set_scope :: "scope \<Rightarrow> scope \<Rightarrow> queue_info list option \<Rightarrow> gauges \<Rightarrow> gauges" where
  "set_scope home key queues g =
     g\<lparr>gg_up := AList.update key (if queues = None then 0 else 1) (gg_up g),
       gg_ready := (if queues = None \<and> key = home then 0 else gg_ready g),
       gg_dlq := fold (\<lambda>q. AList.update (key, qi_name q) (qi_messages q))
                   (case queues of None \<Rightarrow> [] | Some qs \<Rightarrow> qs) (gg_dlq g)\<rparr>"

definition set_scopes :: "scope \<Rightarrow> scope list \<Rightarrow> queue_info list option list \<Rightarrow> gauges \<Rightarrow> gauges" where
  "set_scopes home scopes found g = fold (\<lambda>(key, queues). set_scope home key queues) (zip scopes found) g"

definition paused_gauge :: "policy \<Rightarrow> int" where
  "paused_gauge p = (if \<not> pl_enabled p \<and> pl_failures p \<ge> PAUSE_AFTER_FAILED_RUNS then 1 else 0)"

definition refresh_gauges ::
  "pylib \<Rightarrow> (scope \<Rightarrow> env) \<Rightarrow> (scope \<Rightarrow> hist) \<Rightarrow> (scope \<Rightarrow> bool) \<Rightarrow> bool \<Rightarrow> exn + policy list \<Rightarrow>
     environments \<times> gauges \<Rightarrow> (exn + unit) \<times> environments \<times> gauges"
where
  "refresh_gauges L brokers seen slow amqp_ok policies st =
     (case st of (m, g) \<Rightarrow>
        (case gather_dlqs L brokers seen slow (all_scopes L m) m of (found, m') \<Rightarrow>
           let g1 = g\<lparr>gg_ready := (if amqp_ok then 1 else 0), gg_up := [], gg_dlq := [], gg_paused := []\<rparr>;
               g2 = set_scopes (default_key m) (all_scopes L m) found g1
           in (case policies of
                 Inl e \<Rightarrow> (Inl e, m', g2)
               | Inr ps \<Rightarrow>
                   (Inr (), m', g2\<lparr>gg_paused := fold (\<lambda>p. dict_set (pl_name p) (paused_gauge p)) (policies_list ps) []\<rparr>))))"


section \<open>The summary\<close>

record sample =
  sm_name :: string
  sm_action :: string
  sm_result :: string
  sm_value :: rat

definition action_rows :: "sample list \<Rightarrow> (string \<times> string \<times> int) list" where
  "action_rows samples =
     sort_key (\<lambda>(_, _, count). - count)
       (map (\<lambda>s. (sm_action s, sm_result s, trunc (sm_value s)))
          (filter (\<lambda>s. ends_with (sm_name s) ''_total'') samples))"

definition round4 :: "rat \<Rightarrow> rat" where
  "round4 r = of_int (py_round (r * 10000)) / 10000"

definition operation_rows :: "sample list \<Rightarrow> (string \<times> int \<times> rat) list" where
  "operation_rows samples =
     (let totals = fold (\<lambda>s d. if ends_with (sm_name s) ''_sum'' then dict_set (sm_action s) (sm_value s) d else d) samples [];
          counts = fold (\<lambda>s d. if \<not> ends_with (sm_name s) ''_sum'' \<and> ends_with (sm_name s) ''_count''
                               then dict_set (sm_action s) (trunc (sm_value s)) d else d) samples []
      in map (\<lambda>(action, count).
           (action, count,
            if count \<noteq> 0 then round4 ((case dict_get totals action of None \<Rightarrow> 0 | Some v \<Rightarrow> v) / of_int count) else 0))
           (sort_key fst counts))"

definition preview_count :: "sample list \<Rightarrow> rat" where
  "preview_count samples =
     (case find (\<lambda>s. ends_with (sm_name s) ''_total'') samples of None \<Rightarrow> 0 | Some s \<Rightarrow> sm_value s)"

record summary =
  su_ready :: bool
  su_dlq :: "(string \<times> int) list"
  su_backlog :: int
  su_previews :: int
  su_actions :: "(string \<times> string \<times> int) list"
  su_succeeded :: int
  su_failed :: int
  su_operations :: "(string \<times> int \<times> rat) list"

definition count_results :: "string \<Rightarrow> (string \<times> string \<times> int) list \<Rightarrow> int" where
  "count_results result rows = sum_list (map (\<lambda>(_, _, n). n) (filter (\<lambda>(_, r, _). r = result) rows))"

definition metrics_summary ::
  "broker \<Rightarrow> bool \<Rightarrow> sample list \<Rightarrow> sample list \<Rightarrow> sample list \<Rightarrow> summary io"
where
  "metrics_summary b amqp_ok actions operations previews =
     bnd (outcome (list_queues (bk_env b) (bk_version b) True)) (\<lambda>r.
       let (dlq, ok) = (case r of
             Inl _ \<Rightarrow> ([], False)
           | Inr (queues, _) \<Rightarrow> (map (\<lambda>q. (qi_name q, qi_messages q)) queues, amqp_ok));
           rows = action_rows actions
       in ret \<lparr>su_ready = ok, su_dlq = dlq, su_backlog = sum_list (map snd dlq),
               su_previews = trunc (preview_count previews), su_actions = rows,
               su_succeeded = count_results ''success'' rows, su_failed = count_results ''failed'' rows,
               su_operations = operation_rows operations\<rparr>)"

end
