(* ===== verification/Lifecycle.thy ===== *)
theory Lifecycle
  imports Environments
begin

text \<open>
  The life of a server (lifespan, app/main.py) and of its broker bundles (EnvironmentManager,
  app/application/environments.py; the start and stop of the alert engine and the policy runner).

  What a part does when it starts or stops is in the other theories; here is the order, and what a part
  that fails does to the others. Whether it fails is a function given as an argument.
\<close>


section \<open>What is running\<close>

datatype part =
    Tables | Stored_Settings | Default_Broker
  | Alert_Task | Policy_Task | Retention_Task | Sync_Task
  | Amqp scope | Api scope | Coordinator_Session | Database_Pool

text \<open>A bundle's flag, and whether its two clients are open.\<close>

record bundle_parts =
  bp_started :: bool
  bp_amqp :: bool
  bp_api :: bool

record server =
  sv_ready :: bool
  sv_tasks :: "part list"
  sv_bundles :: "(scope \<times> bundle_parts) list"
  sv_coordinator :: bool
  sv_database :: bool

type_synonym failing = "part \<Rightarrow> exn option"


section \<open>Bundles\<close>

definition closed_bundle :: bundle_parts where
  "closed_bundle = \<lparr>bp_started = False, bp_amqp = False, bp_api = False\<rparr>"

definition bundle_at :: "scope \<Rightarrow> server \<Rightarrow> bundle_parts" where
  "bundle_at key s = (case map_of (sv_bundles s) key of None \<Rightarrow> closed_bundle | Some b \<Rightarrow> b)"

definition put_bundle :: "scope \<Rightarrow> bundle_parts \<Rightarrow> server \<Rightarrow> server" where
  "put_bundle key b s = s\<lparr>sv_bundles := AList.update key b (sv_bundles s)\<rparr>"

text \<open>\<open>attach_default\<close>: the default bundle exists, unstarted, before anything runs.\<close>

definition attach_default :: "scope \<Rightarrow> server \<Rightarrow> server" where
  "attach_default home s = (if map_of (sv_bundles s) home = None then put_bundle home closed_bundle s else s)"

text \<open>
  \<open>_ensure_bundle\<close>: the Management client, then (a vhost that cannot be created only being logged) the
  connection and its loop, which do not raise.
\<close>

definition start_bundle :: "failing \<Rightarrow> scope \<Rightarrow> server \<Rightarrow> exn option \<times> server" where
  "start_bundle starts key s =
     (let b = bundle_at key s
      in if bp_started b then (None, s)
         else (case starts (Api key) of
                 Some e \<Rightarrow> (Some e, put_bundle key b s)
               | None \<Rightarrow> (None, put_bundle key \<lparr>bp_started = True, bp_amqp = True, bp_api = True\<rparr> s)))"

text \<open>\<open>queue_service_for\<close>: the Management client only.\<close>

definition monitor_bundle :: "scope \<Rightarrow> server \<Rightarrow> server" where
  "monitor_bundle key s = put_bundle key ((bundle_at key s)\<lparr>bp_api := True\<rparr>) s"

text \<open>\<open>_stop\<close>\<close>

definition stop_bundle :: "failing \<Rightarrow> scope \<Rightarrow> bundle_parts \<Rightarrow> exn option \<times> bundle_parts" where
  "stop_bundle stops key b =
     (if \<not> bp_started b then (None, b)
      else (case stops (Amqp key) of
              Some e \<Rightarrow> (Some e, b)
            | None \<Rightarrow>
                (case stops (Api key) of
                   Some e \<Rightarrow> (Some e, b\<lparr>bp_amqp := False\<rparr>)
                 | None \<Rightarrow> (None, closed_bundle))))"

text \<open>\<open>stop_all\<close>: one after the other; an error leaves the rest as they are.\<close>

fun stop_all :: "failing \<Rightarrow> (scope \<times> bundle_parts) list \<Rightarrow> exn option \<times> (scope \<times> bundle_parts) list" where
  "stop_all stops [] = (None, [])"
| "stop_all stops ((key, b) # rest) =
     (case stop_bundle stops key b of
        (Some e, b') \<Rightarrow> (Some e, (key, b') # rest)
      | (None, b') \<Rightarrow> (case stop_all stops rest of (r, rest') \<Rightarrow> (r, (key, b') # rest')))"

text \<open>\<open>remove_custom\<close>: the bundles of an environment are dropped, each stopped if it had been started.\<close>

fun drop_bundles ::
  "failing \<Rightarrow> string \<Rightarrow> (scope \<times> bundle_parts) list \<Rightarrow>
     exn option \<times> (scope \<times> bundle_parts) list \<times> (scope \<times> bundle_parts) list"
where
  "drop_bundles stops name [] = (None, [], [])"
| "drop_bundles stops name ((key, b) # rest) =
     (if fst key \<noteq> name
      then (case drop_bundles stops name rest of (r, kept, dropped) \<Rightarrow> (r, (key, b) # kept, dropped))
      else (case stop_bundle stops key b of
              (Some e, b') \<Rightarrow> (Some e, rest, [(key, b')])
            | (None, b') \<Rightarrow>
                (case drop_bundles stops name rest of (r, kept, dropped) \<Rightarrow> (r, kept, (key, b') # dropped))))"


section \<open>The server\<close>

text \<open>The first error of a list of steps ends it.\<close>

fun in_order :: "(server \<Rightarrow> exn option \<times> server) list \<Rightarrow> server \<Rightarrow> exn option \<times> server" where
  "in_order [] s = (None, s)"
| "in_order (f # fs) s = (case f s of (Some e, s') \<Rightarrow> (Some e, s') | (None, s') \<Rightarrow> in_order fs s')"

definition may_fail :: "exn option \<Rightarrow> server \<Rightarrow> exn option \<times> server" where
  "may_fail r s = (r, s)"

definition new_task :: "part \<Rightarrow> server \<Rightarrow> exn option \<times> server" where
  "new_task t s = (None, s\<lparr>sv_tasks := sv_tasks s @ [t]\<rparr>)"

definition end_task :: "part \<Rightarrow> server \<Rightarrow> server" where
  "end_task t s = s\<lparr>sv_tasks := filter (\<lambda>x. x \<noteq> t) (sv_tasks s)\<rparr>"

text \<open>\<open>stop\<close> of the engine and of the runner: cancelled and awaited; what the task raised is raised.\<close>

definition stop_task :: "failing \<Rightarrow> part \<Rightarrow> server \<Rightarrow> exn option \<times> server" where
  "stop_task stops t s = (if t \<in> set (sv_tasks s) then (stops t, end_task t s) else (None, s))"

definition startup :: "failing \<Rightarrow> scope \<Rightarrow> server \<Rightarrow> exn option \<times> server" where
  "startup starts home =
     in_order [may_fail (starts Tables), may_fail (starts Stored_Settings), start_bundle starts home,
       new_task Alert_Task, new_task Policy_Task, new_task Retention_Task, new_task Sync_Task,
       \<lambda>s. (None, s\<lparr>sv_ready := True\<rparr>)]"

definition shutdown :: "failing \<Rightarrow> server \<Rightarrow> exn option \<times> server" where
  "shutdown stops =
     in_order [\<lambda>s. (None, s\<lparr>sv_ready := False\<rparr>),
       \<lambda>s. (None, end_task Sync_Task (end_task Retention_Task s)),
       stop_task stops Alert_Task, stop_task stops Policy_Task,
       \<lambda>s. (case stop_all stops (sv_bundles s) of (r, bs) \<Rightarrow> (r, s\<lparr>sv_bundles := bs\<rparr>)),
       \<lambda>s. (case stops Coordinator_Session of Some e \<Rightarrow> (Some e, s) | None \<Rightarrow> (None, s\<lparr>sv_coordinator := False\<rparr>)),
       \<lambda>s. (case stops Database_Pool of Some e \<Rightarrow> (Some e, s) | None \<Rightarrow> (None, s\<lparr>sv_database := False\<rparr>))]"

text \<open>
  \<open>lifespan\<close>: \<open>serve\<close> is what happens between (requests start and drop bundles), and how it ends. The
  shutdown always runs; an error in it replaces the one that led to it.
\<close>

definition lifespan ::
  "failing \<Rightarrow> failing \<Rightarrow> scope \<Rightarrow> (server \<Rightarrow> exn option \<times> server) \<Rightarrow> server \<Rightarrow> exn option \<times> server"
where
  "lifespan starts stops home serve s =
     (case (case startup starts home s of (Some e, s1) \<Rightarrow> (Some e, s1) | (None, s1) \<Rightarrow> serve s1) of
        (r, s2) \<Rightarrow> (case shutdown stops s2 of (Some e, s3) \<Rightarrow> (Some e, s3) | (None, s3) \<Rightarrow> (r, s3)))"

definition new_server :: "scope \<Rightarrow> server" where
  "new_server home =
     attach_default home \<lparr>sv_ready = False, sv_tasks = [], sv_bundles = [], sv_coordinator = True, sv_database = True\<rparr>"

end
