(* ===== verification/Lifecycle_Properties.thy ===== *)
theory Lifecycle_Properties
  imports Lifecycle
begin

text \<open>
  A server that stops, or fails to start, closes its connections, tasks and database, whatever requests
  did to its bundles. The Management client of a scope that was only monitored stays open.
\<close>


section \<open>Requests and passes while serving\<close>

text \<open>What serving does to the bundles.\<close>

inductive serves_bundles :: "server \<Rightarrow> server \<Rightarrow> bool" where
  idle: "serves_bundles s s"
| used: "serves_bundles s t \<Longrightarrow> start_bundle starts key t = (r, u) \<Longrightarrow> serves_bundles s u"
| monitored: "serves_bundles s t \<Longrightarrow> serves_bundles s (monitor_bundle key t)"
| removed: "serves_bundles s t \<Longrightarrow> drop_bundles stops name (sv_bundles t) = (r, kept, dropped) \<Longrightarrow>
    serves_bundles s (t\<lparr>sv_bundles := kept\<rparr>)"

text \<open>A connection is open only in a bundle that counts as started, whose client is open too.\<close>

definition bundles_ok :: "(scope \<times> bundle_parts) list \<Rightarrow> bool" where
  "bundles_ok bs \<longleftrightarrow> (\<forall>x \<in> set bs. bp_amqp (snd x) \<longrightarrow> bp_started (snd x))"

lemma set_alist_update: "set (AList.update k v al) \<subseteq> insert (k, v) (set al)"
  by (induction al) auto

lemma bundles_ok_update:
  "bundles_ok bs \<Longrightarrow> bp_amqp b \<longrightarrow> bp_started b \<Longrightarrow> bundles_ok (AList.update key b bs)"
  unfolding bundles_ok_def by (rule ballI) (use set_alist_update [of key b bs] in fastforce)

lemma bundle_at_ok: "bundles_ok (sv_bundles s) \<Longrightarrow> bp_amqp (bundle_at key s) \<longrightarrow> bp_started (bundle_at key s)"
  by (auto simp: bundle_at_def bundles_ok_def closed_bundle_def split: option.splits dest!: map_of_SomeD)

lemma start_bundle_result:
  assumes "start_bundle starts key s = (r, t)"
  shows "\<exists>bs. t = s\<lparr>sv_bundles := bs\<rparr>" and "bundles_ok (sv_bundles s) \<Longrightarrow> bundles_ok (sv_bundles t)"
  using assms bundle_at_ok [of s key]
  by (auto simp: start_bundle_def put_bundle_def Let_def bundles_ok_update split: if_splits option.splits
      intro: exI [of _ "sv_bundles s"])

lemma drop_bundles_kept: "drop_bundles stops name bs = (r, kept, dropped) \<Longrightarrow> set kept \<subseteq> set bs"
  by (induction bs arbitrary: r kept dropped) (force split: if_splits prod.splits option.splits)+

lemma serves_bundles_ok:
  "serves_bundles s t \<Longrightarrow> (\<exists>bs. t = s\<lparr>sv_bundles := bs\<rparr>) \<and> (bundles_ok (sv_bundles s) \<longrightarrow> bundles_ok (sv_bundles t))"
proof (induction rule: serves_bundles.induct)
  case (idle s)
  then show ?case by (auto intro: exI [of _ "sv_bundles s"])
next
  case (used s t starts key r u)
  then show ?case using start_bundle_result [OF used.hyps(2)] by fastforce
next
  case (monitored s t key)
  then show ?case using bundle_at_ok [of t key] by (auto simp: monitor_bundle_def put_bundle_def intro: bundles_ok_update)
next
  case (removed s t stops name r kept dropped)
  then show ?case using drop_bundles_kept [OF removed.hyps(2)] by (auto simp: bundles_ok_def)
qed


section \<open>Stopping\<close>

lemma stop_all_ends:
  assumes "\<And>p. stops p = None" and "stop_all stops bs = (r, bs')" and "bundles_ok bs"
  shows "r = None \<and> (\<forall>x \<in> set bs'. \<not> bp_amqp (snd x) \<and> \<not> bp_started (snd x) \<and> (bp_api (snd x) \<longrightarrow> x \<in> set bs))"
  using assms(2,3)
proof (induction bs arbitrary: r bs')
  case Nil
  then show ?case by simp
next
  case (Cons x bs)
  obtain key b where x: "x = (key, b)" by (cases x)
  obtain r' rest where rest: "stop_all stops bs = (r', rest)" by fastforce
  from Cons.prems(2) have "bundles_ok bs" "bp_amqp b \<longrightarrow> bp_started b" by (auto simp: bundles_ok_def x)
  have one: "stop_bundle stops key b = (None, if bp_started b then closed_bundle else b)"
    by (simp add: stop_bundle_def assms(1))
  have "bs' = (key, if bp_started b then closed_bundle else b) # rest" "r = r'"
    using Cons.prems(1) by (simp_all add: x one rest)
  with Cons.IH [OF rest \<open>bundles_ok bs\<close>] \<open>bp_amqp b \<longrightarrow> bp_started b\<close> show ?case
    by (auto simp: x closed_bundle_def)
qed

lemma startup_result:
  assumes "startup starts home s = (r, t)" and "\<not> sv_ready s"
  shows "(sv_tasks t = sv_tasks s \<or> sv_tasks t = sv_tasks s @ [Alert_Task, Policy_Task, Retention_Task, Sync_Task]) \<and>
    (bundles_ok (sv_bundles s) \<longrightarrow> bundles_ok (sv_bundles t)) \<and>
    (sv_ready t \<longleftrightarrow> r = None) \<and>
    (r = None \<longrightarrow> starts Tables = None \<and> starts Stored_Settings = None \<and> bp_started (bundle_at home t))"
proof -
  obtain x u where b: "start_bundle starts home s = (x, u)" by fastforce
  then obtain bs where u: "u = s\<lparr>sv_bundles := bs\<rparr>" using start_bundle_result(1) by blast
  have ok: "bundles_ok (sv_bundles s) \<longrightarrow> bundles_ok (sv_bundles u)" using start_bundle_result(2) [OF b] by blast
  have started: "x = None \<Longrightarrow> bp_started (bundle_at home u)"
    using b by (auto simp: start_bundle_def put_bundle_def bundle_at_def Let_def AList.update_conv' split: if_splits option.splits)
  show ?thesis
  proof (cases "starts Tables = None \<and> starts Stored_Settings = None")
    case True
    then show ?thesis
      using assms b u ok started by (cases x) (auto simp: startup_def may_fail_def new_task_def bundle_at_def)
  next
    case False
    then obtain e where "startup starts home s = (Some e, s)"
      by (cases "starts Tables"; cases "starts Stored_Settings") (simp_all add: startup_def may_fail_def)
    with assms(1) have "t = s" "r \<noteq> None" by auto
    then show ?thesis using assms(2) by auto
  qed
qed

text \<open>
  A server leaves nothing running, however its life went: whichever part failed to start, whatever
  requests did to the bundles in between, and however serving ended, as long as stopping a part does
  not fail, in the end it is not ready, no background task runs, no AMQP connection is open, the
  session that makes it leader and the database pool are closed, and the error that ended it, if any,
  is the one that leaves. It serves only if the tables, the stored settings and the default broker's
  bundle were set up.
\<close>

theorem server_closes_what_it_opened:
  assumes "\<And>p. stops p = None" and "\<And>s. serves_bundles s (snd (serve s))"
    and "lifespan starts stops home serve (new_server home) = (r, s)"
  shows "\<not> sv_ready s \<and> sv_tasks s = [] \<and> \<not> sv_coordinator s \<and> \<not> sv_database s \<and>
    (\<forall>x \<in> set (sv_bundles s). \<not> bp_amqp (snd x) \<and> \<not> bp_started (snd x)) \<and>
    (case startup starts home (new_server home) of
       (Some e, t) \<Rightarrow> r = Some e \<and> \<not> sv_ready t
     | (None, t) \<Rightarrow> r = fst (serve t) \<and> starts Tables = None \<and> starts Stored_Settings = None \<and> bp_started (bundle_at home t))"
proof -
  obtain x t where up: "startup starts home (new_server home) = (x, t)" by fastforce
  define y where "y = (if x = None then serve t else (x, t))"
  have new: "bundles_ok (sv_bundles (new_server home))" "sv_tasks (new_server home) = []" "\<not> sv_ready (new_server home)"
    by (auto simp: new_server_def attach_default_def put_bundle_def bundles_ok_def closed_bundle_def)
  note started = startup_result [OF up new(3)]
  from started new have t: "bundles_ok (sv_bundles t)"
    "sv_tasks t = [] \<or> sv_tasks t = [Alert_Task, Policy_Task, Retention_Task, Sync_Task]" by auto
  from serves_bundles_ok [OF assms(2) [of t]] t have
    z: "bundles_ok (sv_bundles (snd y))"
       "sv_tasks (snd y) = [] \<or> sv_tasks (snd y) = [Alert_Task, Policy_Task, Retention_Task, Sync_Task]"
    by (auto simp: y_def)
  obtain r' bs where all: "stop_all stops (sv_bundles (snd y)) = (r', bs)" by fastforce
  note ends = stop_all_ends [OF assms(1) all z(1)]
  have down: "shutdown stops (snd y) = (None, (snd y)\<lparr>sv_ready := False, sv_tasks := [], sv_bundles := bs,
      sv_coordinator := False, sv_database := False\<rparr>)"
    using z(2) all ends
    by (auto simp: shutdown_def stop_task_def end_task_def assms(1) [of Alert_Task] assms(1) [of Policy_Task]
        assms(1) [of Coordinator_Session] assms(1) [of Database_Pool])
  have "r = fst y" "s = (snd y)\<lparr>sv_ready := False, sv_tasks := [], sv_bundles := bs,
      sv_coordinator := False, sv_database := False\<rparr>"
    using assms(3) up down by (auto simp: lifespan_def y_def split: option.splits prod.splits)
  with ends started up show ?thesis by (auto simp: y_def split: option.splits)
qed

text \<open>
  Alert rules watch a scope nobody uses: its Management client is still open when the server is gone, as
  stopping leaves a bundle alone that was never started.
\<close>

theorem server_closes_what_it_opened_witness:
  "let home = (''prod'', ''/''); watched = (''qa'', ''/'');
       s = snd (lifespan (\<lambda>_. None) (\<lambda>_. None) home (\<lambda>s. (None, monitor_bundle watched s)) (new_server home))
   in \<not> sv_database s \<and> sv_tasks s = [] \<and> \<not> bp_api (bundle_at home s) \<and> bp_api (bundle_at watched s)"
proof -
  let ?home = "(''prod'', ''/'')" and ?watched = "(''qa'', ''/'')"
  let ?run = "lifespan (\<lambda>_. None) (\<lambda>_. None) ?home (\<lambda>s. (None, monitor_bundle ?watched s)) (new_server ?home)"
  have v: "\<not> bp_api (bundle_at ?home (snd ?run)) \<and> bp_api (bundle_at ?watched (snd ?run))" by code_simp
  obtain r s where x: "?run = (r, s)" by fastforce
  have "serves_bundles t (snd (None :: exn option, monitor_bundle ?watched t))" for t
    by (simp add: serves_bundles.intros)
  from server_closes_what_it_opened [OF refl this x] v x show ?thesis by (simp add: Let_def)
qed

end
