(* ===== verification/Requests.thy ===== *)
theory Requests
  imports Platform Policy_Routes Message_Routes Bulk_Routes Audit_Trail Application
begin

text \<open>
  What a request has to look like before a route sees it: the bounds its body's class declares (the
  pydantic models of app/api/routes), which FastAPI checks, answering 422 to anything else. Then the
  routes that only list what is stored, and the pages that lead to the console (app/web/routes.py).

  Turning JSON into the typed fields is pydantic's; the records are those of the route theories.
\<close>


section \<open>Declared bounds\<close>

definition sized :: "nat \<Rightarrow> nat \<Rightarrow> string \<Rightarrow> bool" where
  "sized low high s \<longleftrightarrow> low \<le> utf8_length s \<and> utf8_length s \<le> high"

definition at_most :: "nat \<Rightarrow> string option \<Rightarrow> bool" where
  "at_most high s \<longleftrightarrow> (case s of None \<Rightarrow> True | Some t \<Rightarrow> utf8_length t \<le> high)"

definition between :: "int \<Rightarrow> int \<Rightarrow> int \<Rightarrow> bool" where
  "between low high n \<longleftrightarrow> low \<le> n \<and> n \<le> high"

text \<open>\<open>^[a-zA-Z0-9._-]+$\<close>\<close>

definition plain_char :: "char \<Rightarrow> bool" where
  "plain_char c \<longleftrightarrow>
     CHR ''A'' \<le> c \<and> c \<le> CHR ''Z'' \<or> CHR ''a'' \<le> c \<and> c \<le> CHR ''z'' \<or> is_digit c \<or> c \<in> set ''._-''"

definition plain_name :: "string \<Rightarrow> bool" where
  "plain_name s \<longleftrightarrow> s \<noteq> [] \<and> list_all plain_char s"


subsection \<open>Messages\<close>

definition valid_target :: "replay_target \<Rightarrow> bool" where
  "valid_target t \<longleftrightarrow> target_type t \<in> {''queue'', ''exchange''}"

definition target_to_domain ::
  "string \<Rightarrow> string option \<Rightarrow> string option \<Rightarrow> string option \<Rightarrow> replay_target"
where
  "target_to_domain kind queue exchange routing_key =
     \<lparr>target_type = kind, target_queue = queue, target_exchange = exchange, target_routing_key = routing_key\<rparr>"

definition valid_action_request :: "('a action_request_scheme) \<Rightarrow> bool" where
  "valid_action_request r \<longleftrightarrow>
     aq_source_queue r \<noteq> [] \<and> 8 \<le> utf8_length (aq_fingerprint r) \<and> at_most 64 (aq_snapshot r)"

definition valid_replay_request :: "replay_request \<Rightarrow> bool" where
  "valid_replay_request r \<longleftrightarrow>
     valid_action_request r \<and> aq_mode r \<in> {''copy'', ''move''} \<and>
     (case aq_target r of None \<Rightarrow> True | Some t \<Rightarrow> valid_target t)"

definition valid_publish_properties :: "publish_properties \<Rightarrow> bool" where
  "valid_publish_properties p \<longleftrightarrow>
     list_all (at_most 255) [pp_message_id p, pp_correlation_id p, pp_content_type p, pp_type p, pp_app_id p, pp_reply_to p] \<and>
     (case pp_priority p of None \<Rightarrow> True | Some n \<Rightarrow> between 0 255 n) \<and>
     (case pp_delivery_mode p of None \<Rightarrow> True | Some n \<Rightarrow> n \<in> {1, 2})"

fun header_scalar :: "pyval \<Rightarrow> bool" where
  "header_scalar (PStr _) = True"
| "header_scalar (PInt _) = True"
| "header_scalar (PFloat _) = True"
| "header_scalar (PBool _) = True"
| "header_scalar _ = False"

definition valid_publish_request :: "publish_request \<Rightarrow> bool" where
  "valid_publish_request r \<longleftrightarrow>
     pr_routing_key r \<noteq> [] \<and> utf8_length (pr_payload r) \<le> 1048576 \<and> length (pr_headers r) \<le> 64 \<and>
     list_all (\<lambda>(_, v). header_scalar v) (pr_headers r) \<and> valid_publish_properties (pr_properties r)"

definition valid_snapshot_match :: "snapshot_match \<Rightarrow> bool" where
  "valid_snapshot_match m \<longleftrightarrow>
     at_most 256 (sm_contains m) \<and>
     (case sm_format m of None \<Rightarrow> True | Some f \<Rightarrow> f \<in> {''json'', ''text'', ''base64''}) \<and>
     (case sm_min_deaths m of None \<Rightarrow> True | Some n \<Rightarrow> 1 \<le> n)"

definition valid_bulk_dry_run :: "bulk_dry_run_request \<Rightarrow> bool" where
  "valid_bulk_dry_run r \<longleftrightarrow>
     bd_source_queue r \<noteq> [] \<and> bd_action r \<in> {''replay'', ''park'', ''delete''} \<and> bd_mode r \<in> {''copy'', ''move''} \<and>
     (case bd_target r of None \<Rightarrow> True | Some t \<Rightarrow> valid_target t) \<and>
     (case bd_fingerprints r of None \<Rightarrow> True | Some fs \<Rightarrow> length fs \<le> 1000) \<and> at_most 64 (bd_snapshot r) \<and>
     (case bd_match r of None \<Rightarrow> True | Some m \<Rightarrow> valid_snapshot_match m)"

definition valid_bulk_execute :: "bulk_execute_request \<Rightarrow> bool" where
  "valid_bulk_execute r \<longleftrightarrow> 8 \<le> utf8_length (be_batch_id r)"


subsection \<open>Accounts, rules, policies, environments\<close>

definition valid_role :: "string \<Rightarrow> bool" where
  "valid_role r \<longleftrightarrow> r \<in> {''Admin'', ''Operator'', ''Viewer''}"

definition valid_invite :: "invite_body \<Rightarrow> bool" where
  "valid_invite b \<longleftrightarrow>
     sized 2 128 (iv_username b) \<and> plain_name (iv_username b) \<and> valid_role (iv_role b) \<and> at_most 255 (iv_email b)"

definition valid_user_change :: "string option \<Rightarrow> bool" where
  "valid_user_change new_role \<longleftrightarrow> (case new_role of None \<Rightarrow> True | Some r \<Rightarrow> valid_role r)"

definition valid_password_change :: "string \<Rightarrow> string \<Rightarrow> bool" where
  "valid_password_change current new \<longleftrightarrow> sized 1 255 current \<and> sized 10 255 new"

definition METRICS :: "string list" where
  "METRICS = [''messages_ready'', ''messages'', ''consumers'', ''publish_rate'']"

definition CHANNELS :: "string list" where
  "CHANNELS = [''email'', ''slack'', ''webhook'', ''pagerduty'']"

definition valid_alert_body :: "alert_body \<Rightarrow> bool" where
  "valid_alert_body b \<longleftrightarrow>
     sized 1 128 (ab_name b) \<and> sized 1 255 (ab_pattern b) \<and> ab_metric b \<in> set METRICS \<and>
     ab_operator b \<in> {''>'', ''>='', ''='', ''<''} \<and> between 0 86400 (ab_duration b) \<and>
     ab_severity b \<in> {''Info'', ''Warning'', ''Alert''} \<and> list_all (\<lambda>c. c \<in> set CHANNELS) (ab_channels b)"

definition valid_channel_test :: "string \<Rightarrow> bool" where
  "valid_channel_test channel \<longleftrightarrow> channel \<in> set CHANNELS"

definition valid_policy_body :: "policy_body \<Rightarrow> bool" where
  "valid_policy_body b \<longleftrightarrow>
     sized 1 128 (pb_name b) \<and> sized 1 255 (pb_queue b) \<and> between 1 100 (pb_max_deaths b) \<and>
     between 1 1440 (pb_backoff b) \<and> between 1 1440 (pb_interval b) \<and> between 1 1000 (pb_cap b)"

definition valid_environment_body :: "environment_body \<Rightarrow> bool" where
  "valid_environment_body b \<longleftrightarrow>
     sized 1 64 (eb_name b) \<and> plain_name (eb_name b) \<and> 1 \<le> length (eb_vhosts b) \<and> length (eb_vhosts b) \<le> 50 \<and>
     at_most 255 (eb_host b) \<and> at_most 128 (eb_username b) \<and> at_most 255 (eb_password b) \<and>
     at_most 255 (eb_management_url b) \<and> at_most 128 (eb_management_username b) \<and> at_most 255 (eb_management_password b)"

definition valid_activate_body :: "string \<Rightarrow> bool" where
  "valid_activate_body environment \<longleftrightarrow> environment \<noteq> []"


section \<open>Lists\<close>

text \<open>\<open>_to_dict\<close> of a rule, as clients see it.\<close>

definition rule_to_dict :: "pylib \<Rightarrow> alert_rule \<Rightarrow> pyval dict" where
  "rule_to_dict L r =
     [(''id'', PInt (ar_id r)), (''name'', PStr (ar_name r)), (''pattern'', PStr (ar_pattern r)),
      (''environment'', opt_str (ar_environment r)), (''vhost'', opt_str (ar_vhost r)), (''metric'', PStr (ar_metric r)),
      (''operator'', PStr (ar_operator r)), (''threshold'', PInt (ar_threshold r)),
      (''duration_seconds'', PInt (ar_duration r)), (''severity'', PStr (ar_severity r)),
      (''channels'', PList (map PStr (ar_channels r))), (''enabled'', PBool (ar_enabled r)),
      (''created_by'', PStr (ar_created_by r)), (''last_fired_at'', opt_str (map_option (isoformat L) (ar_last_fired r))),
      (''fired'', PBool (ar_fired r))]"

definition list_alerts_route :: "pylib \<Rightarrow> alert_rule list \<Rightarrow> pyval dict list" where
  "list_alerts_route L rules = map (rule_to_dict L) (rules_list rules)"

text \<open>\<open>_to_dict\<close> of a policy, with \<open>next_run_at\<close> as \<open>_with_next_run\<close> adds it.\<close>

definition result_to_dict :: "run_result \<Rightarrow> pyval dict" where
  "result_to_dict r =
     [(''at'', PStr (rr_at r)), (''scanned'', PInt (rr_scanned r)), (''waiting'', PInt (rr_waiting r)),
      (''no_history'', PInt (rr_no_history r)), (''no_target'', PInt (rr_no_target r)),
      (''capped'', PInt (rr_capped r)), (''replayed'', PInt (rr_replayed r)), (''parked'', PInt (rr_parked r)),
      (''failed'', PInt (rr_failed r)), (''skipped_no_consumers'', PInt (rr_skipped r)), (''targets'', PDict (rr_targets r)),
      (''errors'', PList (map PStr (rr_errors r)))] @
     (case rr_to_park r of None \<Rightarrow> [] | Some n \<Rightarrow> [(''to_park'', PInt n)])"

definition policy_to_dict :: "pylib \<Rightarrow> policy \<Rightarrow> pyval dict" where
  "policy_to_dict L p =
     [(''id'', PInt (pl_id p)), (''name'', PStr (pl_name p)), (''queue'', PStr (pl_queue p)),
      (''max_deaths'', PInt (pl_max_deaths p)), (''backoff_minutes'', PInt (pl_backoff p)),
      (''interval_minutes'', PInt (pl_interval p)), (''cap'', PInt (pl_cap p)), (''enabled'', PBool (pl_enabled p)),
      (''environment'', opt_str (pl_environment p)), (''vhost'', opt_str (pl_vhost p)), (''created_by'', PStr (pl_created_by p)),
      (''last_run_at'', opt_str (last_run_text L p)),
      (''last_result'', PDict (case pl_last_result p of None \<Rightarrow> [] | Some r \<Rightarrow> result_to_dict r)),
      (''consecutive_failures'', PInt (pl_failures p))]"

definition list_policies_route :: "pylib \<Rightarrow> policy list \<Rightarrow> exn + pyval dict list" where
  "list_policies_route L ps =
     or_raise (list_policies L (policies_list ps)) (\<lambda>shown.
       Inr (map (\<lambda>(p, next). policy_to_dict L p @ [(''next_run_at'', opt_str next)]) shown))"

definition list_notifications_route :: "pylib \<Rightarrow> notification_row list \<Rightarrow> pyval dict list" where
  "list_notifications_route L rows = notifications_list L 100 rows"

text \<open>\<open>limit\<close> is checked before the route runs: from 1 to 500.\<close>

definition list_audit_route ::
  "string option \<Rightarrow> string option \<Rightarrow> string option \<Rightarrow> string option \<Rightarrow> int \<Rightarrow> audit_row list \<Rightarrow> exn + audit_row list"
where
  "list_audit_route action username source_queue result limit rows =
     (if between 1 500 limit then Inr (audit_list action username source_queue result (nat limit) rows)
      else Inl (http_error 422 ''Input should be between 1 and 500''))"


section \<open>Pages (web/routes.py)\<close>

text \<open>\<open>_identity_context\<close>: the name in a Basic header, for the error page. \<open>decode\<close> is \<open>b64decode\<close>, \<open>None\<close>: it raises.\<close>

definition identity_context :: "pylib \<Rightarrow> (string \<Rightarrow> string option) \<Rightarrow> request \<Rightarrow> string option" where
  "identity_context L decode rq =
     (let value = str_or (header rq ''authorization'') []
      in if starts_with (lower value) ''basic ''
         then (case decode (tl (dropWhile (\<lambda>c. c \<noteq> CHR 0x20) value)) of
                 None \<Rightarrow> None
               | Some bytes \<Rightarrow> Some (takeWhile (\<lambda>c. c \<noteq> CHR '':'') (utf8_replace L bytes)))
         else None)"

datatype page = Console | Redirect int string

definition legacy_paths :: "string list" where
  "legacy_paths =
     [''/login'', ''/classic'', ''/queues'', ''/messages'', ''/replay'', ''/users'', ''/notifications'', ''/audit'', ''/config'']"

text \<open>The first two ask for a sign-in, the old addresses do not.\<close>

definition web_page :: "exn + current_user \<Rightarrow> string \<Rightarrow> exn + page" where
  "web_page user path =
     (if path = ''/app'' then or_raise user (\<lambda>_. Inr Console)
      else if path = ''/'' then or_raise user (\<lambda>_. Inr (Redirect 307 ''/app''))
      else if path \<in> set legacy_paths \<or> starts_with path ''/queues/'' \<or> starts_with path ''/messages/''
      then Inr (Redirect 301 ''/app'')
      else Inl (http_error 404 ''Not Found''))"

end
