(* ===== verification/Request_Properties.thy ===== *)
theory Request_Properties
  imports Requests Policy_Route_Properties Alert_Properties
begin

text \<open>
  What is stored stays well-typed: every request that passes its class's checks, every seeding, pass and
  run leaves only roles, metrics, comparisons and bounds in the tables that the code handles.
\<close>


section \<open>Well-typed rows\<close>

definition rule_typed :: "alert_rule \<Rightarrow> bool" where
  "rule_typed r \<longleftrightarrow>
     ar_metric r \<in> set METRICS \<and> ar_operator r \<in> {''>'', ''>='', ''='', ''<''} \<and> between 0 86400 (ar_duration r) \<and>
     ar_severity r \<in> {''Info'', ''Warning'', ''Alert''} \<and> set (ar_channels r) \<subseteq> set CHANNELS"

definition policy_typed :: "policy \<Rightarrow> bool" where
  "policy_typed p \<longleftrightarrow>
     between 1 100 (pl_max_deaths p) \<and> between 1 1440 (pl_backoff p) \<and> between 1 1440 (pl_interval p) \<and>
     between 1 1000 (pl_cap p)"

definition well_typed :: "user_row list \<times> alert_rule list \<times> policy list \<Rightarrow> bool" where
  "well_typed tables \<longleftrightarrow>
     (case tables of (users, rules, policies) \<Rightarrow>
        (\<forall>u \<in> set users. valid_role (us_role u)) \<and> (\<forall>r \<in> set rules. rule_typed r) \<and> (\<forall>p \<in> set policies. policy_typed p))"


section \<open>What writes to the tables\<close>

datatype table_call =
    Seed "string \<Rightarrow> string" "string dict" string
  | Invite current_user invite_body
  | Change_User settings current_user string "string option" "bool option"
  | Delete_User settings current_user string
  | Change_Password settings current_user string string
  | Create_Alert environments request current_user alert_body int
  | Update_Alert current_user int alert_body
  | Patch_Alert current_user int bool
  | Delete_Alert current_user int
  | Evaluate alert_rule "queue_info list" int "(int \<times> int) list"
  | Create_Policy "scope \<times> broker" current_user policy_body int
  | Update_Policy manager current_user int policy_body
  | Toggle_Policy current_user int bool
  | Delete_Policy current_user int
  | Run_Policy settings manager policy bool batch_backend
  | Adopt string string

text \<open>The checks a body has passed.\<close>

fun checked :: "table_call \<Rightarrow> bool" where
  "checked (Invite _ body) = valid_invite body"
| "checked (Change_User _ _ _ new_role _) = valid_user_change new_role"
| "checked (Change_Password _ _ current new) = valid_password_change current new"
| "checked (Create_Alert _ _ _ body _) = valid_alert_body body"
| "checked (Update_Alert _ _ body) = valid_alert_body body"
| "checked (Create_Policy _ _ body _) = valid_policy_body body"
| "checked (Update_Policy _ _ _ body) = valid_policy_body body"
| "checked _ = True"

definition new_table :: "('a \<times> 't) io \<Rightarrow> hist \<Rightarrow> 't \<Rightarrow> 't" where
  "new_table m h old = (case m h of (Inr (_, t), _) \<Rightarrow> t | (Inl _, _) \<Rightarrow> old)"

fun table_step ::
  "env \<Rightarrow> hist \<Rightarrow> table_call \<Rightarrow> user_row list \<times> alert_rule list \<times> policy list \<Rightarrow>
     user_row list \<times> alert_rule list \<times> policy list"
where
  "table_step E h (Seed salts env_users admin) (us, rs, ps) = (seed_env_users (e_lib E) salts env_users admin us, rs, ps)"
| "table_step E h (Invite user body) (us, rs, ps) = (new_table (invite_user E user body us) h us, rs, ps)"
| "table_step E h (Change_User cfg user name new_role active) (us, rs, ps) =
     (new_table (update_user E cfg user name new_role active us) h us, rs, ps)"
| "table_step E h (Delete_User cfg user name) (us, rs, ps) = (new_table (delete_user E cfg user name us) h us, rs, ps)"
| "table_step E h (Change_Password cfg user current new) (us, rs, ps) =
     (new_table (change_my_password E cfg user current new us) h us, rs, ps)"
| "table_step E h (Create_Alert m rq user body i) (us, rs, ps) = (us, new_table (create_alert E m rq user body i rs) h rs, ps)"
| "table_step E h (Update_Alert user i body) (us, rs, ps) = (us, new_table (update_alert E user i body rs) h rs, ps)"
| "table_step E h (Patch_Alert user i enabled) (us, rs, ps) = (us, new_table (patch_alert E user i enabled rs) h rs, ps)"
| "table_step E h (Delete_Alert user i) (us, rs, ps) = (us, new_table (delete_alert E user i rs) h rs, ps)"
| "table_step E h (Evaluate r queues now clocks) (us, rs, ps) =
     (us, snd (new_table (evaluate E r queues now (clocks, rs)) h (clocks, rs)), ps)"
| "table_step E h (Create_Policy here user body i) (us, rs, ps) = (us, rs, new_table (create_policy E here user body i ps) h ps)"
| "table_step E h (Update_Policy manager user i body) (us, rs, ps) =
     (us, rs, new_table (update_policy E manager user i body ps) h ps)"
| "table_step E h (Toggle_Policy user i enabled) (us, rs, ps) = (us, rs, new_table (toggle_policy E user i enabled ps) h ps)"
| "table_step E h (Delete_Policy user i) (us, rs, ps) = (us, rs, new_table (delete_policy E user i ps) h ps)"
| "table_step E h (Run_Policy cfg manager p preview batches) (us, rs, ps) =
     (us, rs, fst (new_table (run E cfg manager p preview (ps, batches)) h (ps, batches)))"
| "table_step E h (Adopt environment vhost) (us, rs, ps) =
     (us, Alerts.adopt_unscoped environment vhost rs, policies_adopt environment vhost ps)"


section \<open>Each keeps the rows well-typed\<close>

lemma new_table_cases: "(\<And>x t h'. m h = (Inr (x, t), h') \<Longrightarrow> P t) \<Longrightarrow> P old \<Longrightarrow> P (new_table m h old)"
  by (auto simp: new_table_def split: prod.splits sum.splits)

lemma users_list_roles:
  assumes "\<forall>u \<in> set us. valid_role (us_role u)"
  shows "users_update name new_role active us = (True, us') \<Longrightarrow> valid_user_change new_role \<Longrightarrow> \<forall>u \<in> set us'. valid_role (us_role u)"
    and "users_delete name us = (True, us') \<Longrightarrow> \<forall>u \<in> set us'. valid_role (us_role u)"
    and "change_password L salt name old new us = (True, us') \<Longrightarrow> \<forall>u \<in> set us'. valid_role (us_role u)"
    and "users_create L salt name password given email by change us = (True, us') \<Longrightarrow> valid_role given \<Longrightarrow>
      \<forall>u \<in> set us'. valid_role (us_role u)"
  using assms
  by (auto simp: users_update_def users_delete_def change_password_def users_create_def new_user_def map_user_def
      valid_user_change_def split: if_splits option.splits)

lemma seed_roles: "\<forall>u \<in> set us. valid_role (us_role u) \<Longrightarrow> \<forall>u \<in> set (seed_env_users L salts env_users admin us). valid_role (us_role u)"
  unfolding seed_env_users_def
  by (rule fold_invariant [where Q = "\<lambda>_. True"]) (auto simp: new_user_def valid_role_def split: if_splits)

lemma rule_typed_simps [simp]:
  "rule_typed (r\<lparr>ar_id := i\<rparr>) = rule_typed r"
  "rule_typed (r\<lparr>ar_enabled := enabled\<rparr>) = rule_typed r"
  "rule_typed (r\<lparr>ar_fired := fired\<rparr>) = rule_typed r"
  "rule_typed (r\<lparr>ar_last_fired := stamp\<rparr>) = rule_typed r"
  "rule_typed (r\<lparr>ar_environment := environment\<rparr>) = rule_typed r"
  "rule_typed (r\<lparr>ar_vhost := vhost\<rparr>) = rule_typed r"
  by (simp_all add: rule_typed_def)

lemma policy_typed_simps [simp]:
  "policy_typed (p\<lparr>pl_id := i\<rparr>) = policy_typed p"
  "policy_typed (p\<lparr>pl_enabled := enabled\<rparr>) = policy_typed p"
  "policy_typed (p\<lparr>pl_failures := n\<rparr>) = policy_typed p"
  "policy_typed (p\<lparr>pl_last_run := stamp\<rparr>) = policy_typed p"
  "policy_typed (p\<lparr>pl_last_result := result\<rparr>) = policy_typed p"
  "policy_typed (p\<lparr>pl_environment := environment\<rparr>) = policy_typed p"
  "policy_typed (p\<lparr>pl_vhost := vhost\<rparr>) = policy_typed p"
  by (simp_all add: policy_typed_def)

lemma rules_typed:
  assumes "\<forall>r \<in> set rs. rule_typed r"
  shows "(\<And>r. rule_typed r \<Longrightarrow> rule_typed (change r)) \<Longrightarrow> \<forall>r \<in> set (snd (rules_update i change rs)). rule_typed r"
    and "rule_typed r \<Longrightarrow> \<forall>r \<in> set (snd (rules_create i r rs)). rule_typed r"
    and "\<forall>r \<in> set (snd (rules_delete i rs)). rule_typed r"
    and "\<forall>r \<in> set (snd (set_fired L i fired stamp rs)). rule_typed r"
    and "\<forall>r \<in> set (Alerts.adopt_unscoped environment vhost rs). rule_typed r"
  using assms
  by (auto simp: rules_update_def rules_create_def rules_delete_def set_fired_def Alerts.adopt_unscoped_def
      split: option.splits)

lemma body_typed:
  "valid_alert_body b \<Longrightarrow> rule_typed (apply_body b r)"
  "valid_alert_body b \<Longrightarrow> rule_typed (new_rule user place b)"
  by (simp_all add: valid_alert_body_def rule_typed_def apply_body_def new_rule_def list_all_iff subset_iff)

lemma alert_routes_typed:
  assumes "\<forall>r \<in> set rs. rule_typed r"
  shows "create_alert E m rq user body i rs h = (Inr (x, rs'), h') \<Longrightarrow> valid_alert_body body \<Longrightarrow> \<forall>r \<in> set rs'. rule_typed r"
    and "update_alert E user i body rs h = (Inr (x, rs'), h') \<Longrightarrow> valid_alert_body body \<Longrightarrow> \<forall>r \<in> set rs'. rule_typed r"
    and "patch_alert E user i enabled rs h = (Inr (x, rs'), h') \<Longrightarrow> \<forall>r \<in> set rs'. rule_typed r"
    and "delete_alert E user i rs h = (Inr (y, rs'), h') \<Longrightarrow> \<forall>r \<in> set rs'. rule_typed r"
proof -
  show "\<forall>r \<in> set rs'. rule_typed r" if "create_alert E m rq user body i rs h = (Inr (x, rs'), h')" "valid_alert_body body"
  proof -
    from that(1) have "rs' = rs \<or> (\<exists>place. rs' = snd (rules_create i (new_rule (cu_username user) place body) rs))"
      by (auto simp: create_alert_def ret_def rules_create_def split: sum.splits prod.splits dest!: audited_result)
    then show ?thesis using assms rules_typed(2) [OF assms body_typed(2) [OF that(2)]] by auto
  qed
  show "\<forall>r \<in> set rs'. rule_typed r" if "update_alert E user i body rs h = (Inr (x, rs'), h')" "valid_alert_body body"
  proof -
    from that(1) have "rs' = rs \<or> rs' = snd (rules_update i (apply_body body) rs)"
      by (auto simp: update_alert_def ret_def rules_update_def split: sum.splits prod.splits option.splits dest!: audited_result)
    then show ?thesis using assms rules_typed(1) [OF assms, of "apply_body body" i] body_typed(1) [OF that(2)] by auto
  qed
  show "\<forall>r \<in> set rs'. rule_typed r" if "patch_alert E user i enabled rs h = (Inr (x, rs'), h')"
  proof -
    from that have "rs' = rs \<or> rs' = snd (rules_update i (\<lambda>r. r\<lparr>ar_enabled := enabled\<rparr>) rs)"
      by (auto simp: patch_alert_def ret_def rules_update_def split: sum.splits prod.splits option.splits dest!: audited_result)
    then show ?thesis using assms rules_typed(1) [OF assms, of "\<lambda>r. r\<lparr>ar_enabled := enabled\<rparr>" i] by auto
  qed
  show "\<forall>r \<in> set rs'. rule_typed r" if "delete_alert E user i rs h = (Inr (y, rs'), h')"
  proof -
    from that have "rs' = rs \<or> rs' = snd (rules_delete i rs)"
      by (auto simp: delete_alert_def ret_def Let_def rules_delete_def split: sum.splits prod.splits bool.splits dest!: audited_result)
    then show ?thesis using assms rules_typed(3) [OF assms] by auto
  qed
qed

lemma evaluate_typed:
  assumes "\<forall>r \<in> set rs. rule_typed r" and "evaluate E r queues now (clocks, rs) h = (Inr (x, st'), h')"
  shows "\<forall>r \<in> set (snd st'). rule_typed r"
  using assms(2)
  by (cases rule: evaluate_cases) (use assms(1) rules_typed(4) [OF assms(1)] in \<open>auto simp: mark_fired_def\<close>)

lemma policies_typed:
  assumes "\<forall>p \<in> set ps. policy_typed p"
  shows "(\<And>p. policy_typed p \<Longrightarrow> policy_typed (change p)) \<Longrightarrow> \<forall>p \<in> set (snd (policies_update i change enables ps)). policy_typed p"
    and "policy_typed p \<Longrightarrow> \<forall>p \<in> set (snd (policies_create i p ps)). policy_typed p"
    and "\<forall>p \<in> set (snd (policies_delete i ps)). policy_typed p"
    and "\<forall>p \<in> set (snd (record_run L i t result failed ps)). policy_typed p"
    and "\<forall>p \<in> set (policies_adopt environment vhost ps). policy_typed p"
  using assms
  by (auto simp: policies_update_def policies_create_def policies_delete_def record_run_rows ran_row_def
      policies_adopt_def Let_def)

lemma policy_body_typed:
  "valid_policy_body b \<Longrightarrow> policy_typed (apply_policy b p)"
  "valid_policy_body b \<Longrightarrow> policy_typed (new_policy user place b)"
  by (simp_all add: valid_policy_body_def policy_typed_def apply_policy_def new_policy_def)

lemma audited_policy_rows: "audited_policy E user action meta p rows h = (Inr (x, rows'), h') \<Longrightarrow> rows' = rows"
  by (auto simp: audited_policy_def bnd_def ret_def split: prod.splits sum.splits dest!: audited_result)

lemma run_typed:
  assumes "\<forall>p \<in> set ps. policy_typed p" and "run E cfg manager p preview (ps, batches) h = (Inr (x, (ps', batches')), h')"
  shows "\<forall>p \<in> set ps'. policy_typed p"
  using assms(2)
proof (cases rule: run_cases)
  case apart
  then show ?thesis using assms(1) by simp
next
  case (finished r u z h1)
  have paused: "policy_typed (paused_row q)" if "policy_typed q" for q
    using that by (simp add: paused_row_def)
  from finished show ?thesis
    by (cases rule: finish_run_cases) (use paused policies_typed(4) [OF assms(1)] in auto)
qed

lemma policy_routes_typed:
  assumes "\<forall>p \<in> set ps. policy_typed p"
  shows "create_policy E here user body i ps h = (Inr (x, ps'), h') \<Longrightarrow> valid_policy_body body \<Longrightarrow> \<forall>p \<in> set ps'. policy_typed p"
    and "update_policy E manager user i body ps h = (Inr (x, ps'), h') \<Longrightarrow> valid_policy_body body \<Longrightarrow> \<forall>p \<in> set ps'. policy_typed p"
    and "toggle_policy E user i enabled ps h = (Inr (x, ps'), h') \<Longrightarrow> \<forall>p \<in> set ps'. policy_typed p"
    and "delete_policy E user i ps h = (Inr (y, ps'), h') \<Longrightarrow> \<forall>p \<in> set ps'. policy_typed p"
proof -
  show "\<forall>p \<in> set ps'. policy_typed p" if "create_policy E here user body i ps h = (Inr (x, ps'), h')" "valid_policy_body body"
  proof -
    from that(1) have "ps' = ps \<or> ps' = snd (policies_create i (new_policy (cu_username user) (fst here) body) ps)"
      unfolding create_policy_def bnd_def [of "outcome _"]
      by (auto simp: outcome_def ret_def policies_create_def split: sum.splits prod.splits dest!: audited_policy_rows)
    then show ?thesis using assms policies_typed(2) [OF assms policy_body_typed(2) [OF that(2), of "cu_username user" "fst here"]] by auto
  qed
  show "\<forall>p \<in> set ps'. policy_typed p" if "update_policy E manager user i body ps h = (Inr (x, ps'), h')" "valid_policy_body body"
  proof -
    from that(1) have "ps' = ps \<or> ps' = snd (policies_update i (apply_policy body) (pb_enabled body) ps)"
      unfolding update_policy_def bnd_def [of "outcome _"]
      by (auto simp: outcome_def ret_def split: sum.splits prod.splits dest!: audited_policy_rows)
    then show ?thesis
      using assms policies_typed(1) [OF assms, of "apply_policy body" i "pb_enabled body"] policy_body_typed(1) [OF that(2)]
      by auto
  qed
  show "\<forall>p \<in> set ps'. policy_typed p" if "toggle_policy E user i enabled ps h = (Inr (x, ps'), h')"
  proof -
    from that have "ps' = ps \<or> ps' = snd (policies_update i (\<lambda>p. p\<lparr>pl_enabled := enabled\<rparr>) enabled ps)"
      by (auto simp: toggle_policy_def ret_def split: sum.splits prod.splits dest!: audited_policy_rows)
    then show ?thesis using assms policies_typed(1) [OF assms, of "\<lambda>p. p\<lparr>pl_enabled := enabled\<rparr>" i enabled] by auto
  qed
  show "\<forall>p \<in> set ps'. policy_typed p" if "delete_policy E user i ps h = (Inr (y, ps'), h')"
  proof -
    from that have "ps' = ps \<or> ps' = snd (policies_delete i ps)"
      by (auto simp: delete_policy_def ret_def split: sum.splits prod.splits dest!: audited_result)
    then show ?thesis using assms policies_typed(3) [OF assms] by auto
  qed
qed

lemma user_routes_typed:
  assumes "\<forall>u \<in> set us. valid_role (us_role u)"
  shows "invite_user E user body us h = (Inr (x, us'), h') \<Longrightarrow> valid_invite body \<Longrightarrow> \<forall>u \<in> set us'. valid_role (us_role u)"
    and "update_user E cfg user name new_role active us h = (Inr (x, us'), h') \<Longrightarrow> valid_user_change new_role \<Longrightarrow>
      \<forall>u \<in> set us'. valid_role (us_role u)"
    and "delete_user E cfg user name us h = (Inr (x, us'), h') \<Longrightarrow> \<forall>u \<in> set us'. valid_role (us_role u)"
    and "change_my_password E cfg user current new us h = (Inr (x, us'), h') \<Longrightarrow> \<forall>u \<in> set us'. valid_role (us_role u)"
  using assms users_list_roles [OF assms]
  by (auto simp: valid_invite_def dest!: invite_user_rows update_user_rows delete_user_rows change_my_password_rows)

lemma table_step_typed:
  assumes "well_typed tables" and "checked c"
  shows "well_typed (table_step E h c tables)"
proof -
  obtain us rs ps where tables: "tables = (us, rs, ps)" by (cases tables) auto
  with assms(1) have ok: "\<forall>u \<in> set us. valid_role (us_role u)" "\<forall>r \<in> set rs. rule_typed r" "\<forall>p \<in> set ps. policy_typed p"
    by (auto simp: well_typed_def)
  show ?thesis
  proof (cases c)
    case (Evaluate r queues now clocks)
    have "\<forall>r \<in> set (snd (new_table (evaluate E r queues now (clocks, rs)) h (clocks, rs))). rule_typed r"
      by (rule new_table_cases) (use evaluate_typed [OF ok(2)] ok(2) in auto)
    with ok Evaluate show ?thesis by (simp add: tables well_typed_def)
  next
    case (Run_Policy cfg manager p preview batches)
    have "\<forall>p \<in> set (fst (new_table (run E cfg manager p preview (ps, batches)) h (ps, batches))). policy_typed p"
      by (rule new_table_cases) (use run_typed [OF ok(3)] ok(3) in auto)
    with ok Run_Policy show ?thesis by (simp add: tables well_typed_def)
  next
    case (Adopt environment vhost)
    with ok rules_typed(5) [OF ok(2)] policies_typed(5) [OF ok(3)] show ?thesis by (simp add: tables well_typed_def)
  next
    case (Seed salts env_users admin)
    with ok seed_roles [OF ok(1)] show ?thesis by (simp add: tables well_typed_def)
  next
    case (Invite user body)
    have "\<forall>u \<in> set (new_table (invite_user E user body us) h us). valid_role (us_role u)"
      by (rule new_table_cases) (use assms(2) Invite user_routes_typed(1) [OF ok(1)] ok(1) in \<open>simp_all, (blast)?\<close>)
    with ok Invite show ?thesis by (simp add: tables well_typed_def)
  next
    case (Change_User cfg user name new_role active)
    have "\<forall>u \<in> set (new_table (update_user E cfg user name new_role active us) h us). valid_role (us_role u)"
      by (rule new_table_cases) (use assms(2) Change_User user_routes_typed(2) [OF ok(1)] ok(1) in \<open>simp_all, (blast)?\<close>)
    with ok Change_User show ?thesis by (simp add: tables well_typed_def)
  next
    case (Delete_User cfg user name)
    have "\<forall>u \<in> set (new_table (delete_user E cfg user name us) h us). valid_role (us_role u)"
      by (rule new_table_cases) (use user_routes_typed(3) [OF ok(1)] ok(1) in \<open>simp_all, (blast)?\<close>)
    with ok Delete_User show ?thesis by (simp add: tables well_typed_def)
  next
    case (Change_Password cfg user current new)
    have "\<forall>u \<in> set (new_table (change_my_password E cfg user current new us) h us). valid_role (us_role u)"
      by (rule new_table_cases) (use user_routes_typed(4) [OF ok(1)] ok(1) in \<open>simp_all, (blast)?\<close>)
    with ok Change_Password show ?thesis by (simp add: tables well_typed_def)
  next
    case (Create_Alert m rq user body i)
    have "\<forall>r \<in> set (new_table (create_alert E m rq user body i rs) h rs). rule_typed r"
      by (rule new_table_cases) (use assms(2) Create_Alert alert_routes_typed(1) [OF ok(2)] ok(2) in \<open>simp_all, (blast)?\<close>)
    with ok Create_Alert show ?thesis by (simp add: tables well_typed_def)
  next
    case (Update_Alert user i body)
    have "\<forall>r \<in> set (new_table (update_alert E user i body rs) h rs). rule_typed r"
      by (rule new_table_cases) (use assms(2) Update_Alert alert_routes_typed(2) [OF ok(2)] ok(2) in \<open>simp_all, (blast)?\<close>)
    with ok Update_Alert show ?thesis by (simp add: tables well_typed_def)
  next
    case (Patch_Alert user i enabled)
    have "\<forall>r \<in> set (new_table (patch_alert E user i enabled rs) h rs). rule_typed r"
      by (rule new_table_cases) (use alert_routes_typed(3) [OF ok(2)] ok(2) in \<open>simp_all, (blast)?\<close>)
    with ok Patch_Alert show ?thesis by (simp add: tables well_typed_def)
  next
    case (Delete_Alert user i)
    have "\<forall>r \<in> set (new_table (delete_alert E user i rs) h rs). rule_typed r"
      by (rule new_table_cases) (use alert_routes_typed(4) [OF ok(2)] ok(2) in \<open>simp_all, (blast)?\<close>)
    with ok Delete_Alert show ?thesis by (simp add: tables well_typed_def)
  next
    case (Create_Policy here user body i)
    have "\<forall>p \<in> set (new_table (create_policy E here user body i ps) h ps). policy_typed p"
      by (rule new_table_cases) (use assms(2) Create_Policy policy_routes_typed(1) [OF ok(3)] ok(3) in \<open>simp_all, (blast)?\<close>)
    with ok Create_Policy show ?thesis by (simp add: tables well_typed_def)
  next
    case (Update_Policy manager user i body)
    have "\<forall>p \<in> set (new_table (update_policy E manager user i body ps) h ps). policy_typed p"
      by (rule new_table_cases) (use assms(2) Update_Policy policy_routes_typed(2) [OF ok(3)] ok(3) in \<open>simp_all, (blast)?\<close>)
    with ok Update_Policy show ?thesis by (simp add: tables well_typed_def)
  next
    case (Toggle_Policy user i enabled)
    have "\<forall>p \<in> set (new_table (toggle_policy E user i enabled ps) h ps). policy_typed p"
      by (rule new_table_cases) (use policy_routes_typed(3) [OF ok(3)] ok(3) in \<open>simp_all, (blast)?\<close>)
    with ok Toggle_Policy show ?thesis by (simp add: tables well_typed_def)
  next
    case (Delete_Policy user i)
    have "\<forall>p \<in> set (new_table (delete_policy E user i ps) h ps). policy_typed p"
      by (rule new_table_cases) (use policy_routes_typed(4) [OF ok(3)] ok(3) in \<open>simp_all, (blast)?\<close>)
    with ok Delete_Policy show ?thesis by (simp add: tables well_typed_def)
  qed
qed

text \<open>
  C40. What is stored has the types the code relies on, however requests, passes of the alert engine,
  policy runs, seedings and adoptions follow each other, as long as every request's body passed its
  checks: every account's role is one that roles are compared with, so a sign-in never fails on it;
  every alert rule reads a metric a queue has and compares with an operator that is known, holds it at
  most a day and notifies over channels that exist; every policy is within its limits - one to a hundred
  deaths, at most a day of backoff and of interval, at most a thousand messages a run.
\<close>

theorem stored_rows_well_typed:
  assumes "\<forall>(E, h, c) \<in> set calls. checked c"
    and "fold (\<lambda>(E, h, c). table_step E h c) calls ([], [], []) = (users, rules, policies)"
  shows "(\<forall>u \<in> set users. \<exists>n. role_index (us_role u) = Inr n) \<and> (\<forall>r \<in> set rules. rule_typed r) \<and>
    (\<forall>p \<in> set policies. policy_typed p)"
proof -
  have "well_typed (fold (\<lambda>(E, h, c). table_step E h c) calls ([], [], []))"
  proof (rule fold_invariant [where Q = "\<lambda>(E, h, c). checked c"])
    show "(\<lambda>(E, h, c). checked c) call" if "call \<in> set calls" for call
      using assms(1) that by blast
    show "well_typed ([], [], [])"
      by (simp add: well_typed_def)
    show "well_typed ((\<lambda>(E, h, c). table_step E h c) call tables)" if "(\<lambda>(E, h, c). checked c) call" "well_typed tables" for call tables
      using that table_step_typed by (cases call) auto
  qed
  then show ?thesis unfolding assms(2)
    by (auto simp: well_typed_def valid_role_def role_index_def role_of_def)
qed

definition first_calls :: "(env \<times> hist \<times> table_call) list" where
  "first_calls =
     [(classic_env, [], Seed (\<lambda>name. ''salt'') [(''root'', ''pw''), (''bob'', ''pw'')] ''root''),
      (classic_env, [], Invite \<lparr>cu_username = ''root'', cu_role = ''Admin'', cu_must_change = False\<rparr>
         \<lparr>iv_username = ''carol'', iv_role = ''Viewer'', iv_email = None\<rparr>),
      (classic_env, [], Create_Policy ((''prod'', ''/''), \<lparr>bk_env = classic_env, bk_settings = sample_settings, bk_version = None\<rparr>)
         \<lparr>cu_username = ''root'', cu_role = ''Admin'', cu_must_change = False\<rparr>
         \<lparr>pb_name = ''retry'', pb_queue = ''dlq'', pb_max_deaths = 3, pb_backoff = 5, pb_interval = 10, pb_cap = 50, pb_enabled = True\<rparr> 7)]"

theorem stored_rows_well_typed_witness:
  "\<exists>users rules policies. fold (\<lambda>(E, h, c). table_step E h c) first_calls ([], [], []) = (users, rules, policies) \<and>
     map us_role users = [''Admin'', ''Operator'', ''Viewer''] \<and> map pl_name policies = [''retry''] \<and>
     (\<forall>u \<in> set users. \<exists>n. role_index (us_role u) = Inr n) \<and> (\<forall>p \<in> set policies. policy_typed p)"
proof -
  obtain users rules policies
    where after: "fold (\<lambda>(E, h, c). table_step E h c) first_calls ([], [], []) = (users, rules, policies)"
    by (metis prod_cases3)
  have v: "case fold (\<lambda>(E, h, c). table_step E h c) first_calls ([], [], []) of
      (users, rules, policies) \<Rightarrow> map us_role users = [''Admin'', ''Operator'', ''Viewer''] \<and> map pl_name policies = [''retry'']"
    by code_simp
  have passed: "list_all (\<lambda>(E, h, c). checked c) first_calls"
    by code_simp
  from stored_rows_well_typed [OF _ after] passed v after show ?thesis by (auto simp: list_all_iff)
qed

end
