(* ===== verification/Routing.thy ===== *)
theory Routing
  imports Application
begin

text \<open>
  What stands between the middlewares and a route's own code: the table of routes that create_app puts
  together (app/main.py and the decorators of app/api/routes and app/web/routes.py), and the
  dependencies of a route - who may call it, and the broker the request is for.

  Which route of the table a path selects is the framework's choice, an argument; \<open>router\<close> says what is
  needed of it. Turning the path's and the body's text into the handler's arguments, answering 422, is a
  part of the handler here, and so is what the mount of the static files does with a HEAD, which is not
  listed.
\<close>


section \<open>The table\<close>

text \<open>\<open>get_current_user\<close>, \<open>require_operator\<close>, \<open>require_admin\<close>, or nothing.\<close>

datatype access = Anyone | Signed_In | Operators | Admins

text \<open>\<open>rt_scoped\<close>: the route depends on \<open>broker_scope\<close>.\<close>

record route =
  rt_method :: string
  rt_path :: string
  rt_scoped :: bool
  rt_access :: access
  rt_handler :: string

definition under :: "string \<Rightarrow> bool \<Rightarrow> (string \<times> string \<times> access \<times> string) list \<Rightarrow> route list" where
  "under start scoped rows =
     map (\<lambda>(method, path, needs, handler).
       \<lparr>rt_method = method, rt_path = start @ path, rt_scoped = scoped, rt_access = needs, rt_handler = handler\<rparr>) rows"

definition doc_routes :: "route list" where
  "doc_routes = under [] False
     [(''GET'', ''/openapi.json'', Signed_In, ''_openapi''), (''GET'', ''/docs'', Signed_In, ''_docs''),
      (''GET'', ''/redoc'', Signed_In, ''_redoc'')]"

definition health_routes :: "route list" where
  "health_routes =
     under [] False [(''GET'', ''/health'', Anyone, ''health'')] @
     under [] True [(''GET'', ''/api/broker'', Signed_In, ''broker_info'')] @
     under [] False [(''GET'', ''/api/users'', Signed_In, ''users'')] @
     under [] True
       [(''GET'', ''/api/exchanges'', Signed_In, ''exchanges''), (''GET'', ''/api/config'', Signed_In, ''config''),
        (''GET'', ''/api/topology'', Signed_In, ''topology'')] @
     under [] False [(''GET'', ''/api/alert-rules'', Signed_In, ''alert_rules'')] @
     under [] True [(''GET'', ''/api/broker/test'', Signed_In, ''broker_test'')] @
     under [] False [(''GET'', ''/ready'', Anyone, ''ready'')]"

definition metric_routes :: "route list" where
  "metric_routes =
     under [] False [(''GET'', ''/metrics'', Signed_In, ''metrics'')] @
     under [] True [(''GET'', ''/api/metrics/summary'', Signed_In, ''metrics_summary'')] @
     under [] False [(''GET'', ''/api/metrics/alert-rules'', Signed_In, ''metrics.alert_rules'')]"

definition queue_routes :: "route list" where
  "queue_routes = under ''/api/queues'' True
     [(''GET'', [], Signed_In, ''list_queues''), (''GET'', ''/{queue_name}'', Signed_In, ''get_queue'')]"

definition audit_routes :: "route list" where
  "audit_routes = under ''/api/audit'' False
     [(''GET'', [], Signed_In, ''list_audit_events''), (''GET'', ''/export'', Signed_In, ''export_audit'')]"

definition message_routes :: "route list" where
  "message_routes = under ''/api/queues'' True
     [(''GET'', ''/{queue_name}/messages'', Signed_In, ''list_messages''),
      (''GET'', ''/{queue_name}/messages/{fingerprint}'', Signed_In, ''get_message''),
      (''GET'', ''/{queue_name}/snapshots/{snapshot_id}/export'', Signed_In, ''export_snapshot'')]"

definition action_routes :: "route list" where
  "action_routes = under ''/api/messages'' True
     [(''POST'', ''/replay'', Operators, ''replay''), (''POST'', ''/park'', Operators, ''park''),
      (''POST'', ''/delete'', Admins, ''delete''), (''POST'', ''/publish'', Operators, ''publish'')]"

definition bulk_routes :: "route list" where
  "bulk_routes = under ''/api/messages/bulk'' True
     [(''POST'', ''/dry-run'', Operators, ''dry_run''), (''POST'', ''/execute'', Operators, ''execute'')]"

definition platform_routes :: "route list" where
  "platform_routes = under ''/api'' False
     [(''GET'', ''/me'', Signed_In, ''whoami''),
      (''GET'', ''/settings'', Signed_In, ''get_settings_api''), (''PUT'', ''/settings'', Admins, ''put_settings_api''),
      (''GET'', ''/alerts'', Signed_In, ''list_alerts''), (''POST'', ''/alerts'', Operators, ''create_alert''),
      (''PUT'', ''/alerts/{rule_id}'', Operators, ''update_alert''), (''PATCH'', ''/alerts/{rule_id}'', Operators, ''patch_alert''),
      (''DELETE'', ''/alerts/{rule_id}'', Operators, ''delete_alert''),
      (''POST'', ''/alerts/test-channel'', Operators, ''test_channel''),
      (''GET'', ''/notifications'', Signed_In, ''list_notifications''),
      (''POST'', ''/users/invite'', Admins, ''invite_user''), (''PATCH'', ''/users/{username}'', Admins, ''update_user''),
      (''DELETE'', ''/users/{username}'', Admins, ''delete_user''),
      (''POST'', ''/users/me/password'', Signed_In, ''change_my_password''),
      (''GET'', ''/environments'', Signed_In, ''list_environments''), (''POST'', ''/environments'', Admins, ''create_environment''),
      (''DELETE'', ''/environments/{name}'', Admins, ''delete_environment''),
      (''POST'', ''/environments/activate'', Operators, ''activate_environment'')]"

definition policy_routes :: "route list" where
  "policy_routes = under ''/api/policies'' True
     [(''GET'', [], Signed_In, ''list_policies''), (''POST'', [], Admins, ''create_policy''),
      (''PUT'', ''/{policy_id}'', Admins, ''update_policy''), (''PATCH'', ''/{policy_id}'', Operators, ''toggle_policy''),
      (''DELETE'', ''/{policy_id}'', Admins, ''delete_policy''),
      (''POST'', ''/{policy_id}/preview'', Operators, ''preview_policy''), (''POST'', ''/{policy_id}/run'', Admins, ''run_policy'')]"

definition legacy_routes :: "route list" where
  "legacy_routes = under [] False
     (map (\<lambda>path. (''GET'', path, Anyone, ''legacy_console''))
       [''/login'', ''/classic'', ''/queues'', ''/queues/{rest:path}'', ''/messages'', ''/messages/{rest:path}'', ''/replay'',
        ''/users'', ''/notifications'', ''/audit'', ''/config''])"

definition web_routes :: "route list" where
  "web_routes =
     under [] False [(''GET'', ''/app'', Signed_In, ''spa''), (''GET'', ''/'', Signed_In, ''root'')] @ legacy_routes"

text \<open>The order of \<open>create_app\<close>. The static files are the console's own, for anyone.\<close>

definition static_route :: route where
  "static_route = \<lparr>rt_method = ''GET'', rt_path = ''/static/{path:path}'', rt_scoped = False, rt_access = Anyone,
     rt_handler = ''static''\<rparr>"

definition all_routes :: "route list" where
  "all_routes = doc_routes @ health_routes @ metric_routes @ queue_routes @ audit_routes @ message_routes @
     action_routes @ bulk_routes @ platform_routes @ policy_routes @ web_routes @ [static_route]"


section \<open>What is needed of the framework's choice\<close>

type_synonym picker = "route list \<Rightarrow> string \<Rightarrow> string \<Rightarrow> route option"

locale router =
  fixes pick :: picker
  assumes from_table: "pick rts method path = Some r \<Longrightarrow> r \<in> set rts \<and> rt_method r = method"

text \<open>
  The documented choice: the first of the table whose method is the request's and whose path matches - a
  parameter in braces matches one segment, one marked \<open>:path\<close> all that is left.
\<close>

fun segments_match :: "string list \<Rightarrow> string list \<Rightarrow> bool" where
  "segments_match [] ss = (ss = [])"
| "segments_match (p # ps) ss =
     (if p \<noteq> [] \<and> hd p = CHR ''{''
      then (if ends_with p '':path}'' then ss \<noteq> []
            else (case ss of [] \<Rightarrow> False | s # rest \<Rightarrow> s \<noteq> [] \<and> segments_match ps rest))
      else (case ss of [] \<Rightarrow> False | s # rest \<Rightarrow> s = p \<and> segments_match ps rest))"

definition first_match :: picker where
  "first_match rts method path =
     find (\<lambda>r. rt_method r = method \<and> segments_match (split_on CHR ''/'' (rt_path r)) (split_on CHR ''/'' path)) rts"

interpretation first: router first_match
  by unfold_locales (auto simp: first_match_def find_Some_iff)


section \<open>The dependencies of a route\<close>

fun meets :: "access \<Rightarrow> current_user \<Rightarrow> exn + current_user" where
  "meets Operators u = require_operator u"
| "meets Admins u = require_admin u"
| "meets _ u = Inr u"

text \<open>
  Dependencies run in order, each once per request: the user first (\<open>broker_scope\<close> itself asks for it,
  before connecting anywhere), then the scope, which is the router's, then the route's own role. What
  audit rows will say of the request is set on the way (\<open>ACTING_ROLE\<close>, \<open>BROKER_SCOPE\<close>).
\<close>

record admission =
  ad_user :: "current_user option"
  ad_services :: "services option"
  ad_context :: request_context

definition admit ::
  "pylib \<Rightarrow> settings \<Rightarrow> string \<Rightarrow> moment \<Rightarrow> route \<Rightarrow> request_context \<Rightarrow> request \<Rightarrow> auth_state \<times> environments \<Rightarrow>
     (exn + admission) \<times> auth_state \<times> environments"
where
  "admit L cfg cache_key mo r ctx rq st =
     (if rt_access r = Anyone then (Inr \<lparr>ad_user = None, ad_services = None, ad_context = ctx\<rparr>, st)
      else (case authenticate L cfg cache_key mo rq (fst st) of
              (Inl e, auth) \<Rightarrow> (Inl e, auth, snd st)
            | (Inr u, auth) \<Rightarrow>
                (let named = ctx\<lparr>rc_role := Some (cu_role u)\<rparr>
                 in case (if rt_scoped r
                          then or_raise (broker_scope L (snd st) rq) (\<lambda>((key, services, created), m').
                                 Inr (Some services, named\<lparr>rc_scope := Some key\<rparr>, m'))
                          else Inr (None, named, snd st)) of
                      Inl e \<Rightarrow> (Inl e, auth, snd st)
                    | Inr (services, ctx', m') \<Rightarrow>
                        (or_raise (meets (rt_access r) u) (\<lambda>_.
                           Inr \<lparr>ad_user = Some u, ad_services = services, ad_context = ctx'\<rparr>), auth, m'))))"

definition answer_error :: "request \<Rightarrow> exn \<Rightarrow> response" where
  "answer_error rq e =
     (case handle_error rq (str_or (exn_text e) []) e of Some answer \<Rightarrow> answer | None \<Rightarrow> Json 500 ''Internal Server Error'')"

text \<open>
  A request past the middlewares: \<open>unmatched\<close> is what the framework answers when no route is chosen, \<open>handle\<close>
  the code of a route, on the whole state of the server.
\<close>

definition serve ::
  "picker \<Rightarrow> (request \<Rightarrow> response) \<Rightarrow> pylib \<Rightarrow> settings \<Rightarrow> string \<Rightarrow> moment \<Rightarrow>
     (route \<Rightarrow> admission \<Rightarrow> request \<Rightarrow> auth_state \<times> environments \<times> 's \<Rightarrow> response \<times> auth_state \<times> environments \<times> 's) \<Rightarrow>
     string \<Rightarrow> request_context \<Rightarrow> request \<Rightarrow> auth_state \<times> environments \<times> 's \<Rightarrow> response \<times> auth_state \<times> environments \<times> 's"
where
  "serve pick unmatched L cfg cache_key mo handle method ctx rq st =
     (case pick all_routes method (rq_path rq) of
        None \<Rightarrow> (unmatched rq, st)
      | Some r \<Rightarrow>
          (case admit L cfg cache_key mo r ctx rq (fst st, fst (snd st)) of
             (Inl e, auth, m) \<Rightarrow> (answer_error rq e, auth, m, snd (snd st))
           | (Inr ad, auth, m) \<Rightarrow> handle r ad rq (auth, m, snd (snd st))))"

definition answer ::
  "picker \<Rightarrow> (request \<Rightarrow> response) \<Rightarrow> pylib \<Rightarrow> settings \<Rightarrow> string \<Rightarrow> moment \<Rightarrow>
     (route \<Rightarrow> admission \<Rightarrow> request \<Rightarrow> auth_state \<times> environments \<times> 's \<Rightarrow> response \<times> auth_state \<times> environments \<times> 's) \<Rightarrow>
     string option \<Rightarrow> (request \<Rightarrow> request) \<Rightarrow> string \<Rightarrow> request \<Rightarrow> auth_state \<times> environments \<times> 's \<Rightarrow>
     response \<times> auth_state \<times> environments \<times> 's"
where
  "answer pick unmatched L cfg cache_key mo handle tcp_peer proxied method =
     app_stack tcp_peer proxied method (serve pick unmatched L cfg cache_key mo handle method)"

end
