(* ===== verification/Routing_Properties.thy ===== *)
theory Routing_Properties
  imports Routing Account_Properties Action_Properties
begin

text \<open>
  Who gets past the dependencies: no route's own code runs for a request that is not signed in with the
  role the route asks for, or that another site made.
\<close>


section \<open>The table\<close>

definition open_handlers :: "string list" where
  "open_handlers = [''health'', ''ready'', ''legacy_console'', ''static'']"

definition sound_route :: "route \<Rightarrow> bool" where
  "sound_route r \<longleftrightarrow>
     (rt_access r = Anyone \<longrightarrow> rt_handler r \<in> set open_handlers \<and> \<not> rt_scoped r) \<and>
     (rt_method r \<notin> set SAFE_METHODS \<longrightarrow>
        rt_access r \<in> {Operators, Admins} \<or> rt_access r = Signed_In \<and> rt_handler r = ''change_my_password'')"

lemma table_sound: "r \<in> set all_routes \<Longrightarrow> sound_route r"
proof -
  have "list_all sound_route all_routes" by code_simp
  then show "r \<in> set all_routes \<Longrightarrow> sound_route r" by (simp add: list_all_iff)
qed

text \<open>No entry is shadowed: the documented choice finds each of them by its own path.\<close>

lemma table_reachable: "list_all (\<lambda>r. first_match all_routes (rt_method r) (rt_path r) = Some r) all_routes"
  by code_simp


section \<open>The dependencies\<close>

lemma meets_result: "meets needs u = Inr v \<Longrightarrow> v = u \<and> (needs = Operators \<longrightarrow> can_operate u) \<and> (needs = Admins \<longrightarrow> is_admin u)"
  by (cases needs) (auto simp: require_operator_def require_admin_def split: if_splits)

lemma admin_can_operate: "is_admin u \<Longrightarrow> can_operate u"
  by (simp add: is_admin_def can_operate_def)

lemma authenticate_users: "authenticate L cfg key mo rq st = (r, st') \<Longrightarrow> au_users st' = au_users st"
  by (auto simp: authenticate_def basic_login_def Let_def split: if_splits sum.splits option.splits prod.splits bool.splits)

text \<open>Signing in writes nothing but the cache of verified passwords and, for a failed attempt with
  credentials, its row in the table of failures.\<close>

lemma authenticate_keeps_au:
  assumes "authenticate L cfg key mo rq st = (r, st')"
  shows "au_failures st' = au_failures st \<or>
    isl r \<and> (\<exists>name password. rq_credentials rq = Some (name, password) \<and>
      au_failures st' = record_failure L (mo_record mo) (client_ip rq) name (au_failures st))"
  using assms
  by (auto simp: authenticate_def basic_login_def Let_def split: if_splits sum.splits option.splits prod.splits bool.splits)

text \<open>
  What the dependencies of a route may have done when it is refused, or before its own code runs: signed
  the caller in or counted the failed attempt, and, for a caller who is signed in, resolved the scope the
  request names, which starts its services.
\<close>

definition dependencies_did ::
  "pylib \<Rightarrow> settings \<Rightarrow> string \<Rightarrow> moment \<Rightarrow> request \<Rightarrow> auth_state \<Rightarrow> environments \<Rightarrow> auth_state \<Rightarrow> environments \<Rightarrow> bool"
where
  "dependencies_did L cfg key mo rq auth m auth' m' \<longleftrightarrow>
     au_users auth' = au_users auth \<and>
     (auth' = auth \<or> auth' = snd (authenticate L cfg key mo rq auth)) \<and>
     (au_failures auth' = au_failures auth \<or>
      isl (fst (authenticate L cfg key mo rq auth)) \<and> (\<exists>name password. rq_credentials rq = Some (name, password) \<and>
        au_failures auth' = record_failure L (mo_record mo) (client_ip rq) name (au_failures auth))) \<and>
     (m' = m \<or>
      \<not> isl (fst (authenticate L cfg key mo rq auth)) \<and>
      (\<exists>scope services created. broker_scope L m rq = Inr ((scope, services, created), m')))"

lemma dependencies_nothing: "dependencies_did L cfg key mo rq auth m auth m"
  by (simp add: dependencies_did_def)

definition admitted ::
  "pylib \<Rightarrow> settings \<Rightarrow> string \<Rightarrow> moment \<Rightarrow> route \<Rightarrow> request_context \<Rightarrow> request \<Rightarrow> auth_state \<Rightarrow> environments \<Rightarrow> admission \<Rightarrow> bool"
where
  "admitted L cfg key mo r ctx rq auth m ad \<longleftrightarrow>
     (case ad_user ad of
        None \<Rightarrow> rt_access r = Anyone \<and> ad_services ad = None \<and> ad_context ad = ctx
      | Some u \<Rightarrow>
          fst (authenticate L cfg key mo rq auth) = Inr u \<and>
          (rt_access r = Operators \<longrightarrow> can_operate u) \<and> (rt_access r = Admins \<longrightarrow> is_admin u) \<and>
          rc_role (ad_context ad) = Some (cu_role u) \<and>
          (if rt_scoped r
           then \<exists>scope services created m'. broker_scope L m rq = Inr ((scope, services, created), m') \<and>
             ad_services ad = Some services \<and> rc_scope (ad_context ad) = Some scope
           else ad_services ad = None))"

lemma admit_did:
  assumes "admit L cfg key mo r ctx rq (auth, m) = (x, auth', m')"
  shows "dependencies_did L cfg key mo rq auth m auth' m'"
proof (cases "rt_access r = Anyone")
  case True
  with assms show ?thesis by (simp add: admit_def dependencies_nothing)
next
  case False
  obtain y auth1 where a: "authenticate L cfg key mo rq auth = (y, auth1)" by fastforce
  note users = authenticate_users [OF a] and failures = authenticate_keeps_au [OF a]
  have "auth' = auth1" using assms False a by (auto simp: admit_def Let_def split: sum.splits prod.splits)
  moreover have "m' = m \<or> \<not> isl y \<and> (\<exists>scope services created. broker_scope L m rq = Inr ((scope, services, created), m'))"
    using assms False a
    by (auto simp: admit_def Let_def or_raise_Inr_iff split: sum.splits prod.splits if_splits)
  ultimately show ?thesis using users failures a by (simp add: dependencies_did_def)
qed

lemma admit_admitted:
  assumes "admit L cfg key mo r ctx rq (auth, m) = (Inr ad, auth', m')"
  shows "admitted L cfg key mo r ctx rq auth m ad"
  using assms
  by (cases "rt_access r = Anyone")
     (auto simp: admit_def admitted_def Let_def or_raise_Inr_iff dest!: meets_result split: if_splits sum.splits prod.splits)


definition context_of :: "request \<Rightarrow> request_context" where
  "context_of rq = \<lparr>rc_ip = rq_client rq, rc_agent = header rq ''user-agent'', rc_scope = None, rc_role = None\<rparr>"


section \<open>Whatever route is chosen\<close>

context router
begin

lemma chosen: "pick all_routes method path = Some r \<Longrightarrow> r \<in> set all_routes \<and> rt_method r = method \<and> sound_route r"
  using from_table table_sound by blast

lemma serve_cases:
  assumes "serve pick unmatched L cfg key mo handle method ctx rq (auth, m, s) = (resp, auth', m', s')"
  obtains (refused) "s' = s" "dependencies_did L cfg key mo rq auth m auth' m'"
  | (handled) r ad auth1 m1 where "r \<in> set all_routes" "rt_method r = method" "sound_route r"
      "dependencies_did L cfg key mo rq auth m auth1 m1" "admitted L cfg key mo r ctx rq auth m ad"
      "handle r ad rq (auth1, m1, s) = (resp, auth', m', s')"
proof (cases "pick all_routes method (rq_path rq)")
  case None
  with assms have "s' = s" "auth' = auth" "m' = m" by (simp_all add: serve_def)
  then show thesis by (intro refused) (simp_all add: dependencies_nothing)
next
  case (Some r)
  obtain x auth1 m1 where a: "admit L cfg key mo r ctx rq (auth, m) = (x, auth1, m1)" by (metis prod_cases3)
  note did = admit_did [OF a]
  show thesis
  proof (cases x)
    case (Inl e)
    with assms Some a have "s' = s" "auth' = auth1" "m' = m1" by (simp_all add: serve_def)
    with did show thesis by (intro refused) simp_all
  next
    case (Inr ad)
    have "handle r ad rq (auth1, m1, s) = (resp, auth', m', s')"
      using assms Some a Inr by (simp add: serve_def)
    with chosen [OF Some] did admit_admitted [OF a [unfolded Inr]] show thesis by (intro handled) simp_all
  qed
qed

end

text \<open>
  C10. No route's own code runs for a stranger. Whatever request arrives, through whatever chain of
  proxies, and whichever route of the table the framework chooses for it, one of two things happens.
  Either it is refused: the accounts and everything the routes work on stay as they are, and all that
  is left of it is what signing in does - a failed attempt is counted, a verified password is cached -
  and, for a caller who did sign in, that the services of the environment and vhost the request names
  may have been started, before the role is checked. Or one route's own code runs after exactly that,
  and then the route is of the request's method and either is open to anyone - the health and
  readiness checks, the old addresses, the static files - or its caller is signed in, has the role that
  the route asks for, and is named by role in the audit trail; a route that works on a broker gets the
  services and the audit scope that the request's headers resolve to. And a route that may change
  something never runs for a request from another site, nor for a caller who cannot operate, except
  the one to change one's own password.
\<close>

theorem only_callers_with_role_served:
  assumes "router pick"
    and "answer pick unmatched L cfg key mo handle tcp_peer proxied method rq (auth, m, s) = (resp, auth', m', s')"
  defines "rq' \<equiv> proxied (keep_peer tcp_peer rq)"
  shows "s' = s \<and> dependencies_did L cfg key mo rq' auth m auth' m' \<or>
    (\<exists>r ad auth1 m1. r \<in> set all_routes \<and> rt_method r = method \<and>
       handle r ad rq' (auth1, m1, s) = (resp, auth', m', s') \<and> dependencies_did L cfg key mo rq' auth m auth1 m1 \<and>
       admitted L cfg key mo r (context_of rq') rq' auth m ad \<and>
       (ad_user ad = None \<longrightarrow> rt_handler r \<in> set open_handlers \<and> method \<in> set SAFE_METHODS) \<and>
       (method \<notin> set SAFE_METHODS \<longrightarrow> \<not> cross_site_change method rq' \<and>
          (\<exists>u. ad_user ad = Some u \<and> (can_operate u \<or> rt_handler r = ''change_my_password''))))"
proof (cases "cross_site_change method rq'")
  case True
  with assms(2) show ?thesis
    by (simp add: answer_def app_stack_def refuse_cross_site_changes_def rq'_def dependencies_nothing)
next
  case False
  from assms(2) False
  have "serve pick unmatched L cfg key mo handle method (context_of rq') rq' (auth, m, s) = (resp, auth', m', s')"
    by (simp add: answer_def app_stack_def refuse_cross_site_changes_def with_request_context_def rq'_def context_of_def)
  from this show ?thesis
  proof (cases rule: router.serve_cases [OF assms(1), consumes 1, case_names refused handled])
    case refused
    then show ?thesis by simp
  next
    case (handled r ad auth1 m1)
    have "ad_user ad = None \<longrightarrow> rt_handler r \<in> set open_handlers \<and> method \<in> set SAFE_METHODS"
      "method \<notin> set SAFE_METHODS \<longrightarrow> (\<exists>u. ad_user ad = Some u \<and> (can_operate u \<or> rt_handler r = ''change_my_password''))"
      using handled(2,3,5)
      by (auto simp: admitted_def sound_route_def admin_can_operate split: option.splits)
    with handled False show ?thesis
      by (intro disjI2 exI [of _ r] exI [of _ ad] exI [of _ auth1] exI [of _ m1]) simp
  qed
qed

text \<open>
  A message is to be deleted: bob, an Operator, is refused and nothing is asked of the broker; for ada, an
  Admin, the route's code runs.
\<close>

definition ada :: user_row where
  "ada = new_user ''ada'' (hash_password login_lib ''5a17'' None ''secret'') ''Admin'' None None False"

definition delete_request :: "string \<Rightarrow> request" where
  "delete_request name = \<lparr>rq_headers = [], rq_client = Some ''10.9.9.9'', rq_peer = None,
     rq_path = ''/api/messages/delete'', rq_credentials = Some (name, ''secret'')\<rparr>"

definition run_delete ::
  "route \<Rightarrow> admission \<Rightarrow> request \<Rightarrow> auth_state \<times> environments \<times> hist \<Rightarrow> response \<times> auth_state \<times> environments \<times> hist"
where
  "run_delete r ad rq st =
     (case ad_user ad of
        None \<Rightarrow> (Json 200 ''open'', st)
      | Some u \<Rightarrow>
          (case route_delete managed_classic_env sample_settings (service_guard managed_classic_env None) (''prod'', ''/'')
                  (cu_username u) \<lparr>aq_source_queue = ''dlq'', aq_fingerprint = ''b'', aq_confirm = True, aq_snapshot = None\<rparr>
                  [] (snd (snd st)) of
             (_, h) \<Rightarrow> (Json 200 (cu_username u), fst st, fst (snd st), h)))"

definition two_accounts :: auth_state where
  "two_accounts = \<lparr>au_users = [bob, ada], au_failures = [], au_cache = []\<rparr>"

definition fresh_manager :: environments where
  "fresh_manager = projr (new_manager login_lib sso_settings)"

definition asks_delete :: "string \<Rightarrow> response \<times> auth_state \<times> environments \<times> hist" where
  "asks_delete name = answer first_match (\<lambda>_. Json 404 ''Not Found'') login_lib sso_settings ''k'' sample_moment run_delete
     (Some ''10.9.9.9'') (\<lambda>rq. rq) ''POST'' (delete_request name) (two_accounts, fresh_manager, [])"

theorem only_callers_with_role_served_witness:
  "fst (asks_delete ''bob'') = Json 403 ''This action requires the Admin role'' \<and> snd (snd (snd (asks_delete ''bob''))) = [] \<and>
   fst (asks_delete ''ada'') = Json 200 ''ada'' \<and>
   (\<exists>r ad m auth1 m1. r \<in> set all_routes \<and> run_delete r ad m (auth1, m1, []) = asks_delete ''ada'' \<and>
      ad_user ad \<noteq> None)"
proof -
  have v: "fst (asks_delete ''bob'') = Json 403 ''This action requires the Admin role''" "snd (snd (snd (asks_delete ''bob''))) = []"
    "fst (asks_delete ''ada'') = Json 200 ''ada''" "snd (snd (snd (asks_delete ''ada''))) \<noteq> []"
    by code_simp+
  obtain resp auth' m' s' where run: "asks_delete ''ada'' = (resp, auth', m', s')" by (metis prod_cases4)
  from only_callers_with_role_served [OF first.router_axioms run [unfolded asks_delete_def]] v(4)
  obtain r ad auth1 m1 where "r \<in> set all_routes"
    "run_delete r ad (keep_peer (Some ''10.9.9.9'') (delete_request ''ada'')) (auth1, m1, []) = asks_delete ''ada''"
    "ad_user ad \<noteq> None"
    unfolding run by (auto simp: SAFE_METHODS_def)
  with v show ?thesis by blast
qed

end
