(* ===== verification/Settings_Refinement.thy ===== *)
theory Settings_Refinement
  imports Settings_Properties
begin

text \<open>
  The settings table refines a plain dictionary: encryption at rest, rows from before a key was
  configured, and the order the database returns the rows in do not show in what is read.
\<close>


section \<open>What can be stored\<close>

text \<open>A dictionary with the marker's key would be taken for an encrypted value.\<close>

definition plain :: "pyval \<Rightarrow> bool" where
  "plain v \<longleftrightarrow> (case v of PDict d \<Rightarrow> dict_get d ENCRYPTED = None | _ \<Rightarrow> True)"

text \<open>The settings that hold credentials: the alert channels and the stored environments.\<close>

definition secret_setting :: "string \<Rightarrow> bool" where
  "secret_setting k \<longleftrightarrow> k = ''channels'' \<or> k = ''custom_environments''"

definition setting_storable :: "pylib \<Rightarrow> cipher option \<Rightarrow> string \<Rightarrow> pyval \<Rightarrow> bool" where
  "setting_storable L c k v \<longleftrightarrow> (if c \<noteq> None \<and> secret_setting k then cipher_ok L c v else plain v)"

lemma secret_setting_keys: "secret_setting k \<longleftrightarrow> k \<in> set SECRET_SETTING_KEYS"
  by (simp add: secret_setting_def SECRET_SETTING_KEYS_def)

lemma setting_reads_back: "setting_storable L c k v \<Longrightarrow> decrypt_setting L c k (encrypt_setting L c k v) = Inr v"
  by (cases c; cases v)
     (auto simp: setting_storable_def secret_setting_keys plain_def cipher_ok_def decrypt_setting_def encrypt_setting_def
       split: option.splits if_splits)

lemma get_all_after_set:
  "settings_get_all L c table = Inr stored \<Longrightarrow> decrypt_setting L c k w = Inr v \<Longrightarrow>
     settings_get_all L c (dict_set k w table) = Inr (dict_set k v stored)"
  by (induction table arbitrary: stored) (auto simp: or_raise_Inr_iff)

lemma get_all_after_puts:
  assumes "settings_get_all L c table = Inr stored" and "\<forall>(k, v) \<in> set values. setting_storable L c k v"
  shows "settings_get_all L c (fold (\<lambda>(k, v). dict_set k (encrypt_setting L c k v)) values table) =
    Inr (fold (\<lambda>(k, v). dict_set k v) values stored)"
  using assms
proof (induction "values" arbitrary: table stored)
  case (Cons p rest)
  then show ?case
    by (cases p) (auto intro!: Cons.IH get_all_after_set setting_reads_back)
qed simp

lemma get_as_get_all:
  "settings_get_all L c table = Inr stored \<Longrightarrow>
     settings_get L c k dflt table = Inr (case dict_get stored k of None \<Rightarrow> dflt | Some v \<Rightarrow> v)"
  by (induction table arbitrary: stored)
     (auto simp: or_raise_Inr_iff settings_get_def split: if_splits option.splits)

text \<open>Reading row by row: whatever the order, a table with the same rows reads as the same dictionary.\<close>

lemma get_all_rows:
  "settings_get_all L c rows = Inr shown \<longleftrightarrow>
     map fst shown = map fst rows \<and> list_all2 (\<lambda>(k, w) (_, v). decrypt_setting L c k w = Inr v) rows shown"
proof (induction rows arbitrary: shown)
  case (Cons p rest)
  then show ?case
    by (cases p; cases shown) (auto simp: or_raise_Inr_iff)
qed auto

lemma get_all_entry:
  assumes "settings_get_all L c rows = Inr shown"
  shows "dict_get shown k = (case dict_get rows k of None \<Rightarrow> None | Some w \<Rightarrow> Some (projr (decrypt_setting L c k w)))"
  using assms by (induction rows arbitrary: shown) (auto simp: or_raise_Inr_iff)

lemma get_all_readable:
  "(\<exists>shown. settings_get_all L c rows = Inr shown) \<longleftrightarrow> (\<forall>(k, w) \<in> set rows. \<not> isl (decrypt_setting L c k w))"
proof (induction rows)
  case (Cons p rest)
  then show ?case
    by (cases p; cases "decrypt_setting L c (fst p) (snd p)"; cases "settings_get_all L c rest") auto
qed simp

lemma same_rows_lookup:
  assumes "mset rows = mset table" "distinct (map fst table)"
  shows "dict_get rows = dict_get table" "set rows = set table"
proof -
  show rows: "set rows = set table" using assms(1) by (rule mset_eq_setD)
  have "mset (map fst rows) = mset (map fst table)" using assms(1) by simp
  then have "distinct (map fst rows)" using assms(2) mset_eq_imp_distinct_iff by blast
  with assms(2) rows show "dict_get rows = dict_get table" by (simp add: map_of_inject_set)
qed

lemma get_all_any_order:
  assumes "settings_get_all L c table = Inr stored" "mset rows = mset table" "distinct (map fst table)"
  shows "\<exists>shown. settings_get_all L c rows = Inr shown \<and> dict_get shown = dict_get stored"
proof -
  note same = same_rows_lookup [OF assms(2,3)]
  have "\<forall>(k, w) \<in> set rows. \<not> isl (decrypt_setting L c k w)"
    using assms(1) get_all_readable [of L c table] unfolding same(2) by blast
  then obtain shown where shown: "settings_get_all L c rows = Inr shown" using get_all_readable by blast
  have "dict_get shown k = dict_get stored k" for k
    using get_all_entry [OF shown, of k] get_all_entry [OF assms(1), of k] by (simp only: same(1))
  with shown show ?thesis by blast
qed

lemma fold_dict_set_distinct:
  "distinct (map fst table) \<Longrightarrow> distinct (map fst (fold (\<lambda>(k, v). dict_set k (f k v)) values table))"
  by (induction "values" arbitrary: table) (auto simp: AList.distinct_update)

lemma fold_dict_set_lookup:
  "distinct (map fst values) \<Longrightarrow>
     dict_get (fold (\<lambda>(k, v). dict_set k (f k v)) values table) k =
       (case dict_get values k of None \<Rightarrow> dict_get table k | Some v \<Rightarrow> Some (f k v))"
proof (induction "values" arbitrary: table)
  case (Cons p rest)
  obtain k' v where p: "p = (k', v)" by fastforce
  then have "dict_get rest k' = None" using Cons.prems by (simp add: map_of_eq_None_iff)
  with Cons p show ?case by (auto simp: update_conv' split: option.splits)
qed simp

text \<open>
  C23. For its readers the settings table is a plain dictionary. Take a table that can be read, with or
  without a key configured, some rows still in plain text from before there was one. Storing values
  leaves a table that reads as the dictionary it read as before with those values set, whatever order
  the database returns its rows in, and this is what storing answers; reading one key gives that
  dictionary's value, or the default when it has none; and with a key configured the channels and the
  stored environments, where they were among the values, are in the table as their encryption under
  that key. The encryption and JSON are asked only to read back what they wrote of those two, and a
  value in plain text not to look like an encrypted one.
\<close>

theorem settings_refine_dictionary:
  assumes "settings_get_all L c table = Inr stored" and "distinct (map fst table)" and "distinct (map fst values)"
    and "\<forall>(k, v) \<in> set values. setting_storable L c k v"
  defines "after_put \<equiv> dict_get stored ++ dict_get values"
  shows "\<exists>answer table'. settings_put L c values table = (Inr answer, table') \<and> dict_get answer = after_put \<and>
    (\<forall>rows. mset rows = mset table' \<longrightarrow>
       (\<exists>shown. settings_get_all L c rows = Inr shown \<and> dict_get shown = after_put) \<and>
       (\<forall>k dflt. settings_get L c k dflt rows = Inr (case after_put k of None \<Rightarrow> dflt | Some v \<Rightarrow> v))) \<and>
    (\<forall>f k v. c = Some f \<longrightarrow> k \<in> {''channels'', ''custom_environments''} \<longrightarrow> dict_get values k = Some v \<longrightarrow>
       dict_get table' k = Some (PDict [(''__encrypted__'', PStr (ci_encrypt f (json_dumps L v)))]))"
proof -
  let ?table = "fold (\<lambda>(k, v). dict_set k (encrypt_setting L c k v)) values table"
  let ?answer = "fold (\<lambda>(k, v). dict_set k v) values stored"
  have all: "settings_get_all L c ?table = Inr ?answer" by (rule get_all_after_puts [OF assms(1,4)])
  have answer: "dict_get ?answer = after_put"
    using fold_dict_set_lookup [OF assms(3), of "\<lambda>k v. v" stored]
    by (auto simp: fun_eq_iff after_put_def map_add_def)
  have dist: "distinct (map fst ?table)" using assms(2) by (rule fold_dict_set_distinct)
  have put: "settings_put L c values table = (Inr ?answer, ?table)" using all by (simp add: settings_put_def Let_def)
  have order: "(\<exists>shown. settings_get_all L c rows = Inr shown \<and> dict_get shown = after_put) \<and>
      (\<forall>k dflt. settings_get L c k dflt rows = Inr (case after_put k of None \<Rightarrow> dflt | Some v \<Rightarrow> v))"
    if same: "mset rows = mset ?table" for rows
  proof -
    obtain shown where "settings_get_all L c rows = Inr shown" "dict_get shown = after_put"
      using get_all_any_order [OF all same dist] answer by auto
    with get_as_get_all show ?thesis by blast
  qed
  have "dict_get ?table k = Some (PDict [(''__encrypted__'', PStr (ci_encrypt f (json_dumps L v)))])"
    if "c = Some f" "k \<in> {''channels'', ''custom_environments''}" "dict_get values k = Some v" for f k v
    using that fold_dict_set_lookup [OF assms(3), of "encrypt_setting L c" table k]
    by (auto simp: encrypt_setting_def SECRET_SETTING_KEYS_def ENCRYPTED_def)
  with put answer order show ?thesis by blast
qed

text \<open>A key was configured after the slack channel had been stored.\<close>

definition old_table :: "pyval dict" where
  "old_table = [(''ui'', PDict []), (''channels'', PDict [])]"

definition new_table :: "pyval dict" where
  "new_table = [(''ui'', PDict []), (''channels'', PDict [(ENCRYPTED, PStr (rev ''{}''))])]"

theorem settings_refine_dictionary_witness:
  "settings_put sample_store_lib (Some sample_cipher) [(''channels'', PDict sample_channels)] old_table =
     (Inr [(''ui'', PDict []), (''channels'', PDict sample_channels)], new_table) \<and>
   (\<exists>shown. settings_get_all sample_store_lib (Some sample_cipher) (rev new_table) = Inr shown \<and>
      dict_get shown ''ui'' = Some (PDict []) \<and> dict_get shown ''channels'' = Some (PDict sample_channels))"
proof -
  have read: "settings_get_all sample_store_lib (Some sample_cipher) old_table = Inr old_table" by code_simp
  have put: "settings_put sample_store_lib (Some sample_cipher) [(''channels'', PDict sample_channels)] old_table =
     (Inr [(''ui'', PDict []), (''channels'', PDict sample_channels)], new_table)" by code_simp
  have "distinct (map fst old_table)" "distinct (map fst [(''channels'', PDict sample_channels)])"
    by (simp_all add: old_table_def)
  moreover have "\<forall>(k, v) \<in> set [(''channels'', PDict sample_channels)]. setting_storable sample_store_lib (Some sample_cipher) k v"
    using sample_store(4) by (simp add: setting_storable_def secret_setting_def)
  ultimately have "\<forall>rows. mset rows = mset new_table \<longrightarrow>
      (\<exists>shown. settings_get_all sample_store_lib (Some sample_cipher) rows = Inr shown \<and>
         dict_get shown = dict_get old_table ++ dict_get [(''channels'', PDict sample_channels)])"
    using settings_refine_dictionary [OF read, of "[(''channels'', PDict sample_channels)]"] put by auto
  then obtain shown where "settings_get_all sample_store_lib (Some sample_cipher) (rev new_table) = Inr shown"
    "dict_get shown = dict_get old_table ++ dict_get [(''channels'', PDict sample_channels)]"
    by (metis mset_rev)
  with put show ?thesis by (intro conjI exI [of _ shown]) (simp_all add: old_table_def map_add_def)
qed

text \<open>What the last condition is for: such a value, once stored, makes every setting unreadable.\<close>

lemma marked_value_blocks_reading:
  "\<exists>e table'. settings_put L None [(''ui'', PDict [(ENCRYPTED, v)])] [] = (Inl e, table') \<and> settings_get_all L None table' = Inl e"
  by (simp add: settings_put_def Let_def encrypt_setting_def decrypt_setting_def)

end
