(* ===== verification/Metrics.thy ===== *)
theory Metrics
  imports Bulk_Service Policies Alerts
begin

text \<open>
  The counters (app/observability/metrics.py) and what the code adds to them when a message is acted on, a
  batch has run, a policy has run, an alert was delivered. The gauges are in Monitoring. The registry
  itself is the Prometheus client's: here a counter is a number for each combination of labels.
\<close>


section \<open>Families\<close>

datatype metric_kind = Counter | Gauge | Histogram

record metric_family =
  mf_kind :: metric_kind
  mf_name :: string
  mf_labels :: "string list"

definition RABBITMQ_READY :: metric_family where
  "RABBITMQ_READY = \<lparr>mf_kind = Gauge, mf_name = ''queuelens_rabbitmq_ready'', mf_labels = []\<rparr>"

definition MANAGEMENT_UP :: metric_family where
  "MANAGEMENT_UP = \<lparr>mf_kind = Gauge, mf_name = ''queuelens_management_up'', mf_labels = [''environment'', ''vhost'']\<rparr>"

definition DLQ_MESSAGES :: metric_family where
  "DLQ_MESSAGES = \<lparr>mf_kind = Gauge, mf_name = ''queuelens_dlq_messages'', mf_labels = [''environment'', ''vhost'', ''queue'']\<rparr>"

definition PREVIEW_REQUESTS :: metric_family where
  "PREVIEW_REQUESTS = \<lparr>mf_kind = Counter, mf_name = ''queuelens_preview_requests_total'', mf_labels = []\<rparr>"

definition ACTIONS :: metric_family where
  "ACTIONS = \<lparr>mf_kind = Counter, mf_name = ''queuelens_actions_total'', mf_labels = [''action'', ''result'']\<rparr>"

definition OPERATION_SECONDS :: metric_family where
  "OPERATION_SECONDS = \<lparr>mf_kind = Histogram, mf_name = ''queuelens_operation_duration_seconds'', mf_labels = [''action'']\<rparr>"

definition ALERT_DELIVERIES :: metric_family where
  "ALERT_DELIVERIES = \<lparr>mf_kind = Counter, mf_name = ''queuelens_alert_deliveries_total'', mf_labels = [''channel'', ''result'']\<rparr>"

definition POLICY_RUNS :: metric_family where
  "POLICY_RUNS = \<lparr>mf_kind = Counter, mf_name = ''queuelens_policy_runs_total'', mf_labels = [''policy'', ''result'']\<rparr>"

definition POLICY_MESSAGES :: metric_family where
  "POLICY_MESSAGES = \<lparr>mf_kind = Counter, mf_name = ''queuelens_policy_messages_total'', mf_labels = [''policy'', ''outcome'']\<rparr>"

definition POLICY_PAUSED :: metric_family where
  "POLICY_PAUSED = \<lparr>mf_kind = Gauge, mf_name = ''queuelens_policy_paused'', mf_labels = [''policy'']\<rparr>"


section \<open>Counting\<close>

type_synonym counters = "string \<times> string list \<Rightarrow> int"

definition inc :: "metric_family \<Rightarrow> string list \<Rightarrow> int \<Rightarrow> counters \<Rightarrow> counters" where
  "inc f labels n c = c((mf_name f, labels) := c (mf_name f, labels) + n)"

text \<open>Counts of zero are not added, so that no sample of zero appears.\<close>

definition inc_each :: "metric_family \<Rightarrow> string \<Rightarrow> (string \<times> int) list \<Rightarrow> counters \<Rightarrow> counters" where
  "inc_each f label counts c = fold (\<lambda>(name, n) c. if n \<noteq> 0 then inc f [label, name] n c else c) counts c"

text \<open>One action: \<open>run_action\<close> of the routes, by how it ended.\<close>

definition count_action :: "string \<Rightarrow> (exn + 'a) \<Rightarrow> counters \<Rightarrow> counters" where
  "count_action action r = inc ACTIONS [action, case r of Inl _ \<Rightarrow> ''failed'' | Inr _ \<Rightarrow> ''success''] 1"

definition bulk_counts :: "bulk_summary \<Rightarrow> (string \<times> int) list" where
  "bulk_counts s = [(''success'', bs_succeeded s), (''failed'', bs_failed s), (''skipped_duplicate'', bs_skipped s),
     (''not_found'', bs_not_found s), (''not_attempted'', bs_not_attempted s)]"

definition count_bulk :: "bulk_batch \<Rightarrow> bulk_summary \<Rightarrow> counters \<Rightarrow> counters" where
  "count_bulk b s c =
     inc_each ACTIONS (bb_action b) (bulk_counts s)
       (inc ACTIONS [''bulk_'' @ bb_action b, if bs_failed s = 0 then ''success'' else ''partial''] 1 c)"

definition count_run :: "policy \<Rightarrow> run_result \<Rightarrow> bool \<Rightarrow> counters \<Rightarrow> counters" where
  "count_run p r unreachable c =
     inc_each POLICY_MESSAGES (pl_name p)
       [(''replayed'', rr_replayed r), (''parked'', rr_parked r), (''failed'', rr_failed r), (''held'', rr_skipped r)]
       (inc POLICY_RUNS [pl_name p, run_outcome r unreachable] 1 c)"

text \<open>\<open>dispatch\<close>: one delivery for each channel of the report.\<close>

definition delivery_result :: "pyval dict \<Rightarrow> string" where
  "delivery_result report =
     (if truthy (py_get report ''skipped'') then ''skipped'' else if truthy (py_get report ''ok'') then ''ok'' else ''failed'')"

definition count_deliveries :: "(string \<times> pyval dict) list \<Rightarrow> counters \<Rightarrow> counters" where
  "count_deliveries outcomes = fold (\<lambda>(channel, o'). inc ALERT_DELIVERIES [channel, delivery_result o'] 1) outcomes"


section \<open>What the counters say\<close>

lemma inc_at: "inc f labels n c k = c k + (if k = (mf_name f, labels) then n else 0)"
  by (simp add: inc_def)

lemma inc_each_at:
  "distinct (map fst counts) \<Longrightarrow>
     inc_each f label counts c k =
       c k + (case List.find (\<lambda>(name, n). k = (mf_name f, [label, name])) counts of None \<Rightarrow> 0 | Some (_, n) \<Rightarrow> n)"
proof (induction counts arbitrary: c)
  case (Cons p counts)
  obtain name n where p: "p = (name, n)" by fastforce
  have missing: "List.find (\<lambda>(name, n). k = (mf_name f, [label, name])) counts = None" if "k = (mf_name f, [label, name])"
    using Cons.prems that p by (force simp: find_None_iff)
  have step: "inc_each f label (p # counts) c = inc_each f label counts (if n \<noteq> 0 then inc f [label, name] n c else c)"
    by (simp add: inc_each_def p)
  show ?case
    unfolding step using Cons.IH Cons.prems missing by (auto simp: p inc_at)
qed (simp add: inc_each_def)

text \<open>
  After a batch, every status of a message has gone up by the number of its results with that status -
  the statuses are those the operator reports - and the batch itself was counted once.
\<close>

lemma batch_counted_once:
  shows "status \<in> {''success'', ''failed'', ''skipped_duplicate'', ''not_found'', ''not_attempted''} \<Longrightarrow>
      count_bulk b (summary_of b results) c (mf_name ACTIONS, [bb_action b, status]) =
        c (mf_name ACTIONS, [bb_action b, status]) + int (count_list (map bk_status results) status)"
    and "count_bulk b s c (mf_name ACTIONS, [''bulk_'' @ bb_action b, r]) =
      c (mf_name ACTIONS, [''bulk_'' @ bb_action b, r]) + (if r = (if bs_failed s = 0 then ''success'' else ''partial'') then 1 else 0)"
proof -
  have d: "distinct (map fst (bulk_counts s))" for s by (simp add: bulk_counts_def)
  have other: "''bulk_'' @ bb_action b \<noteq> bb_action b" by (metis append_self_conv2 list.distinct(1))
  show "count_bulk b (summary_of b results) c (mf_name ACTIONS, [bb_action b, status]) =
      c (mf_name ACTIONS, [bb_action b, status]) + int (count_list (map bk_status results) status)"
    if "status \<in> {''success'', ''failed'', ''skipped_duplicate'', ''not_found'', ''not_attempted''}"
    unfolding count_bulk_def inc_each_at [OF d] inc_at using that other [symmetric]
    by (auto simp: bulk_counts_def summary_of_def Let_def)
  show "count_bulk b s c (mf_name ACTIONS, [''bulk_'' @ bb_action b, r]) =
      c (mf_name ACTIONS, [''bulk_'' @ bb_action b, r]) + (if r = (if bs_failed s = 0 then ''success'' else ''partial'') then 1 else 0)"
    unfolding count_bulk_def inc_each_at [OF d] inc_at using other
    by (auto simp: bulk_counts_def)
qed

lemma deliveries_counted:
  "count_deliveries outcomes c (mf_name ALERT_DELIVERIES, [channel, r]) =
     c (mf_name ALERT_DELIVERIES, [channel, r]) +
       int (length (filter (\<lambda>(ch, o'). ch = channel \<and> delivery_result o' = r) outcomes))"
proof (induction outcomes arbitrary: c)
  case (Cons p outcomes)
  have "count_deliveries (p # outcomes) c = count_deliveries outcomes (inc ALERT_DELIVERIES [fst p, delivery_result (snd p)] 1 c)"
    by (simp add: count_deliveries_def case_prod_beta)
  with Cons.IH show ?case by (auto simp: inc_at case_prod_beta)
qed (simp add: count_deliveries_def)

end
