(* ===== verification/Demo.thy ===== *)
theory Demo
  imports Domain
begin

text \<open>
  The demo data (app/demo.py): a few work queues whose messages are rejected, so that the broker itself
  dead-letters them, some several times.

  The broker is what the script relies on, documented behaviour of RabbitMQ: queues are lists, a direct
  exchange hands a message to the queues bound with its key, the default exchange to the queue of that
  name, a rejected message goes where its queue's arguments say, and is there before the next call of the
  connection is served. What it adds to a message it
  dead-letters, how long that takes and which call it refuses are arguments.
\<close>


section \<open>Messages\<close>

definition TENANTS :: "string list" where
  "TENANTS = [''acme'', ''globex'', ''initech'', ''umbrella'']"

definition PAYMENT_ERRORS :: "(string \<times> string) list" where
  "PAYMENT_ERRORS =
     [(''card_declined'', ''Your card was declined.''),
      (''insufficient_funds'', ''The card has insufficient funds to complete the purchase.''),
      (''gateway_timeout'', ''Payment provider did not respond within 30s.''),
      (''fraud_suspected'', ''Blocked by risk rules: velocity limit exceeded.'')]"

text \<open>Formats: hexadecimal, and decimal filled with zeros.\<close>

fun hex_text :: "nat \<Rightarrow> string" where
  "hex_text n = (if n < 16 then [''0123456789abcdef'' ! n] else hex_text (n div 16) @ [''0123456789abcdef'' ! (n mod 16)])"

declare hex_text.simps [simp del]

definition zero_filled :: "nat \<Rightarrow> nat \<Rightarrow> string" where
  "zero_filled width n = replicate (width - length (nat_text n)) CHR ''0'' @ nat_text n"

definition payment :: "nat \<Rightarrow> pyval" where
  "payment i =
     (case PAYMENT_ERRORS ! (i mod 4) of (code, message) \<Rightarrow>
        PDict [(''payment_id'', PStr (''pay_'' @ hex_text (8400000 + i * 37))),
               (''order_id'', PStr (''ord_'' @ nat_text (10400 + i))),
               (''amount'', PDict [(''value'', PStr (nat_text (19 + (i * 7) mod 480) @ ''.'' @ zero_filled 2 ((i * 13) mod 100))),
                                   (''currency'', PStr ''EUR'')]),
               (''provider'', PStr ([''stripe'', ''adyen''] ! (i mod 2))),
               (''error'', PDict [(''code'', PStr code), (''message'', PStr message)])])"

definition order :: "nat \<Rightarrow> pyval" where
  "order i =
     PDict [(''order_id'', PStr (''ord_'' @ nat_text (20100 + i))), (''customer_id'', PStr (''cus_'' @ nat_text (3000 + i * 11))),
            (''items'', PList [PDict [(''sku'', PStr (''SKU-'' @ nat_text (4400 + i mod 9))), (''qty'', PInt (1 + int (i mod 3)))]]),
            (''error'', PStr ''inventory reservation timed out after 3 attempts'')]"

record demo_message =
  dm_body :: string
  dm_headers :: "pyval dict"
  dm_persistent :: bool
  dm_content_type :: string
  dm_content_encoding :: "string option"
  dm_message_id :: string
  dm_correlation_id :: string
  dm_timestamp :: int
  dm_app_id :: string
  dm_type :: string

record demo_queue =
  dq_work :: string
  dq_dlq :: string
  dq_exchange :: string
  dq_key :: string
  dq_count :: nat
  dq_payload :: "nat \<Rightarrow> pyval"
  dq_args :: "pyval dict"

definition QUEUES :: "demo_queue list" where
  "QUEUES =
     [\<lparr>dq_work = ''payments.retry'', dq_dlq = ''payments.retry.dlq'', dq_exchange = ''payments'',
        dq_key = ''payment.retry'', dq_count = 220, dq_payload = payment, dq_args = []\<rparr>,
      \<lparr>dq_work = ''orders.created'', dq_dlq = ''orders.created.dlq'', dq_exchange = ''orders'',
        dq_key = ''order.created'', dq_count = 37, dq_payload = order, dq_args = []\<rparr>,
      \<lparr>dq_work = ''inventory.sync'', dq_dlq = ''inventory.sync.dlq'', dq_exchange = ''inventory'',
        dq_key = ''inventory.sync'', dq_count = 9,
        dq_payload = (\<lambda>i. PStr (''SKU-'' @ nat_text (4400 + i) @ '',warehouse=AMS-'' @ nat_text (1 + i mod 3) @
          '',delta=-'' @ nat_text (1 + i mod 4))), dq_args = []\<rparr>,
      \<lparr>dq_work = ''notifications.email'', dq_dlq = ''notifications.email.dlq'', dq_exchange = ''notifications'',
        dq_key = ''email.send'', dq_count = 4,
        dq_payload = (\<lambda>i. PDict [(''template'', PStr ''order_confirmation''),
          (''to'', PStr (''customer'' @ nat_text i @ ''@example.com'')),
          (''error'', PStr ''SMTP 451 4.7.1 greylisted, try again later'')]), dq_args = []\<rparr>,
      \<lparr>dq_work = ''ledger.events'', dq_dlq = ''ledger.events.dlq'', dq_exchange = ''ledger'',
        dq_key = ''ledger.post'', dq_count = 6,
        dq_payload = (\<lambda>i. PDict [(''entry_id'', PStr (''led_'' @ nat_text (900 + i))), (''error'', PStr ''unbalanced journal entry'')]),
        dq_args = [(''x-queue-type'', PStr ''quorum''), (''x-delivery-limit'', PInt 5)]\<rparr>]"

text \<open>\<open>_deaths\<close>: how often message \<open>i\<close> is dead-lettered.\<close>

definition demo_deaths :: "nat \<Rightarrow> nat" where
  "demo_deaths i = (if i mod 25 = 3 then 5 else if i mod 9 = 4 then 3 else 1)"

text \<open>\<open>_message\<close>; \<open>gzip\<close> is \<open>gzip.compress\<close>.\<close>

definition demo_message_of :: "pylib \<Rightarrow> (string \<Rightarrow> string) \<Rightarrow> string \<Rightarrow> nat \<Rightarrow> pyval \<Rightarrow> int \<Rightarrow> demo_message" where
  "demo_message_of L gzip work i payload now =
     (let text = (case payload of PStr s \<Rightarrow> s | _ \<Rightarrow> json_dumps L payload);
          zipped = (work = ''payments.retry'' \<and> i mod 7 = 5);
          service = hd (split_on CHR ''.'' work)
      in \<lparr>dm_body = (if zipped then gzip text else text),
          dm_headers = [(''x-tenant'', PStr (TENANTS ! (i mod length TENANTS))),
                        (''x-trace-id'', PStr (take 16 (hex_text (i * 2654435761))))],
          dm_persistent = True,
          dm_content_type = (case payload of PStr _ \<Rightarrow> ''text/plain'' | _ \<Rightarrow> ''application/json''),
          dm_content_encoding = (if zipped then Some ''gzip'' else None),
          dm_message_id = take 3 service @ ''-'' @ zero_filled 4 i,
          dm_correlation_id = ''req-'' @ zero_filled 5 ((i * 7919) mod 100000),
          dm_timestamp = now - 3 * int i * 60000000,
          dm_app_id = service @ ''-svc'', dm_type = work @ ''.failed''\<rparr>)"

text \<open>\<open>_copy\<close>\<close>

definition copy_of :: "demo_message \<Rightarrow> demo_message" where
  "copy_of m = m\<lparr>dm_persistent := True\<rparr>"


section \<open>The broker\<close>

record demo_world =
  dw_ready :: "string \<Rightarrow> demo_message list"
  dw_args :: "string \<Rightarrow> pyval dict"
  dw_bound :: "(string \<times> string \<times> string) list"
  dw_open :: bool
  dw_calls :: nat
  dw_waits :: nat

text \<open>
  \<open>db_refuse\<close>: the exception a call raises, by its number. \<open>db_slow\<close>: how many reads come back empty before a
  message that is on its way is there, by the number of the wait. \<open>db_stamp\<close>: a message as it is after
  being dead-lettered from a queue.
\<close>

record demo_broker =
  db_refuse :: "nat \<Rightarrow> exn option"
  db_slow :: "nat \<Rightarrow> nat"
  db_stamp :: "string \<Rightarrow> demo_message \<Rightarrow> demo_message"

type_synonym 'a act = "demo_world \<Rightarrow> (exn + 'a) \<times> demo_world"

definition give :: "'a \<Rightarrow> 'a act" where
  "give x w = (Inr x, w)"

definition after :: "'a act \<Rightarrow> ('a \<Rightarrow> 'b act) \<Rightarrow> 'b act" where
  "after m f w = (case m w of (Inl e, w') \<Rightarrow> (Inl e, w') | (Inr x, w') \<Rightarrow> f x w')"

definition demo_call :: "demo_broker \<Rightarrow> (demo_world \<Rightarrow> 'a \<times> demo_world) \<Rightarrow> 'a act" where
  "demo_call B f w =
     (let w1 = w\<lparr>dw_calls := Suc (dw_calls w)\<rparr>
      in case db_refuse B (dw_calls w) of
           Some e \<Rightarrow> (Inl e, w1)
         | None \<Rightarrow> (case f w1 of (x, w2) \<Rightarrow> (Inr x, w2)))"

definition to_queue :: "string \<Rightarrow> demo_message \<Rightarrow> demo_world \<Rightarrow> demo_world" where
  "to_queue q m w = w\<lparr>dw_ready := (dw_ready w)(q := dw_ready w q @ [m])\<rparr>"

definition demo_declare :: "demo_broker \<Rightarrow> string \<Rightarrow> pyval dict \<Rightarrow> nat act" where
  "demo_declare B q args = demo_call B (\<lambda>w. (length (dw_ready w q), w\<lparr>dw_args := (dw_args w)(q := args)\<rparr>))"

definition bind_queue :: "demo_broker \<Rightarrow> string \<Rightarrow> string \<Rightarrow> string \<Rightarrow> unit act" where
  "bind_queue B exchange key q = demo_call B (\<lambda>w. ((), w\<lparr>dw_bound := List.insert (exchange, key, q) (dw_bound w)\<rparr>))"

definition demo_publish :: "demo_broker \<Rightarrow> string \<Rightarrow> string \<Rightarrow> demo_message \<Rightarrow> unit act" where
  "demo_publish B exchange key m =
     demo_call B (\<lambda>w. ((),
       if exchange = [] then to_queue key m w
       else fold (\<lambda>(x, k, q) w. if x = exchange \<and> k = key then to_queue q m w else w) (dw_bound w) w))"

definition reject_from :: "demo_broker \<Rightarrow> string \<Rightarrow> demo_message \<Rightarrow> unit act" where
  "reject_from B work m =
     demo_call B (\<lambda>w. ((),
       case (dict_get (dw_args w work) ''x-dead-letter-exchange'', dict_get (dw_args w work) ''x-dead-letter-routing-key'') of
         (Some (PStr []), Some (PStr dlq)) \<Rightarrow> to_queue dlq (db_stamp B work m) w
       | _ \<Rightarrow> w))"


section \<open>Seeding\<close>

text \<open>\<open>_next\<close>: a hundred reads, each waiting a little.\<close>

fun poll :: "demo_broker \<Rightarrow> string \<Rightarrow> nat \<Rightarrow> nat \<Rightarrow> demo_message act" where
  "poll B q 0 late = (\<lambda>w. (Inl (mk_exn (Other ''TimeoutError'') (''nothing arrived in '' @ q)), w))"
| "poll B q (Suc k) late =
     after (demo_call B (\<lambda>w. case dw_ready w q of
                         [] \<Rightarrow> (None, w)
                       | m # ms \<Rightarrow> if late > 0 then (None, w) else (Some m, w\<lparr>dw_ready := (dw_ready w)(q := ms)\<rparr>)))
       (\<lambda>r. case r of Some m \<Rightarrow> give m | None \<Rightarrow> poll B q k (late - 1))"

definition next_message :: "demo_broker \<Rightarrow> string \<Rightarrow> demo_message act" where
  "next_message B q w = poll B q 100 (db_slow B (dw_waits w)) (w\<lparr>dw_waits := Suc (dw_waits w)\<rparr>)"

text \<open>\<open>_dead_letter\<close>\<close>

definition dead_letter :: "demo_broker \<Rightarrow> string \<Rightarrow> string \<Rightarrow> string \<Rightarrow> demo_message \<Rightarrow> unit act" where
  "dead_letter B exchange work key m =
     after (demo_publish B exchange key m) (\<lambda>_. after (next_message B work) (reject_from B work))"

text \<open>One message, several times round the work queue; the copy on its own is acknowledged away.\<close>

fun go_round :: "demo_broker \<Rightarrow> string \<Rightarrow> string \<Rightarrow> string \<Rightarrow> string \<Rightarrow> nat \<Rightarrow> demo_message \<Rightarrow> demo_message act" where
  "go_round B exchange work dlq key 0 m = give m"
| "go_round B exchange work dlq key (Suc k) m =
     after (dead_letter B exchange work key m) (\<lambda>_.
     after (next_message B dlq) (\<lambda>back.
     after (demo_call B (\<lambda>w. ((), w))) (\<lambda>_. go_round B exchange work dlq key k (copy_of back))))"

fun hold_each ::
  "demo_broker \<Rightarrow> string \<Rightarrow> string \<Rightarrow> string \<Rightarrow> string \<Rightarrow> (nat \<Rightarrow> demo_message) \<Rightarrow> nat list \<Rightarrow> (nat \<times> demo_message) list \<Rightarrow>
     (nat \<times> demo_message) list act"
where
  "hold_each B exchange work dlq key msg [] held = give held"
| "hold_each B exchange work dlq key msg (i # rest) held =
     after (go_round B exchange work dlq key (demo_deaths i) (msg i)) (\<lambda>m.
       hold_each B exchange work dlq key msg rest (AList.update i m held))"

fun fill ::
  "demo_broker \<Rightarrow> string \<Rightarrow> string \<Rightarrow> string \<Rightarrow> string \<Rightarrow> (nat \<Rightarrow> demo_message) \<Rightarrow> (nat \<times> demo_message) list \<Rightarrow> nat list \<Rightarrow>
     unit act"
where
  "fill B exchange work dlq key msg held [] = give ()"
| "fill B exchange work dlq key msg held (i # rest) =
     after (case map_of held i of
              Some m \<Rightarrow> demo_publish B [] dlq m
            | None \<Rightarrow> dead_letter B exchange work key (msg i)) (\<lambda>_.
       fill B exchange work dlq key msg held rest)"

text \<open>One queue: whether it was seeded, which ends the loop if not.\<close>

definition seed_queue :: "demo_broker \<Rightarrow> string \<Rightarrow> (demo_queue \<Rightarrow> nat \<Rightarrow> demo_message) \<Rightarrow> demo_queue \<Rightarrow> bool act" where
  "seed_queue B before msg d =
     (let work = before @ dq_work d; dlq = before @ dq_dlq d; exchange = before @ dq_exchange d
      in after (demo_declare B dlq (dq_args d)) (\<lambda>waiting.
           if waiting > 0 then give False
           else
             after (demo_call B (\<lambda>w. ((), w))) (\<lambda>_.
             after (demo_declare B work
                      [(''x-dead-letter-exchange'', PStr []), (''x-dead-letter-routing-key'', PStr dlq)]) (\<lambda>_.
             after (bind_queue B exchange (dq_key d) work) (\<lambda>_.
             after (hold_each B exchange work dlq (dq_key d) (msg d) (filter (\<lambda>i. demo_deaths i > 1) [0..<dq_count d]) []) (\<lambda>held.
             after (fill B exchange work dlq (dq_key d) (msg d) held [0..<dq_count d]) (\<lambda>_. give True)))))))"

fun seed_queues :: "demo_broker \<Rightarrow> string \<Rightarrow> (demo_queue \<Rightarrow> nat \<Rightarrow> demo_message) \<Rightarrow> demo_queue list \<Rightarrow> bool act" where
  "seed_queues B before msg [] = give True"
| "seed_queues B before msg (d # ds) =
     after (seed_queue B before msg d) (\<lambda>new. if new then seed_queues B before msg ds else give False)"

text \<open>\<open>seed\<close>: the connection is closed however it ends.\<close>

definition seed :: "pylib \<Rightarrow> (string \<Rightarrow> string) \<Rightarrow> demo_broker \<Rightarrow> int \<Rightarrow> string \<Rightarrow> bool act" where
  "seed L gzip B now before w =
     (case demo_call B (\<lambda>w. ((), w\<lparr>dw_open := True\<rparr>)) w of
        (Inl e, w') \<Rightarrow> (Inl e, w')
      | (Inr _, w') \<Rightarrow>
          (case after (demo_call B (\<lambda>w. ((), w)))
                  (\<lambda>_. seed_queues B before (\<lambda>d i. demo_message_of L gzip (dq_work d) i (dq_payload d i) now) QUEUES) w' of
             (r, w'') \<Rightarrow> (r, w''\<lparr>dw_open := False\<rparr>)))"

end
