(* ===== verification/Demo_Properties.thy ===== *)
theory Demo_Properties
  imports Demo Sample_World
begin

text \<open>
  What seeding leaves in the queues: on a broker that refuses nothing and dead-letters within the script's
  patience, every message in its place, each having gone round as often as it should.
\<close>


section \<open>Steps that only move messages\<close>

definition calm :: "demo_broker \<Rightarrow> bool" where
  "calm B \<longleftrightarrow> (\<forall>n. db_refuse B n = None) \<and> (\<forall>n. db_slow B n < 100)"

text \<open>What a step depends on, the counters apart.\<close>

definition layout :: "demo_world \<Rightarrow> (string \<Rightarrow> pyval dict) \<times> (string \<times> string \<times> string) list \<times> bool" where
  "layout w = (dw_args w, dw_bound w, dw_open w)"

definition moves :: "'a act \<Rightarrow> demo_world \<Rightarrow> 'a \<Rightarrow> (string \<Rightarrow> demo_message list) \<Rightarrow> bool" where
  "moves m w x ready \<longleftrightarrow> (\<exists>w'. m w = (Inr x, w') \<and> dw_ready w' = ready \<and> layout w' = layout w)"

lemma moves_give [simp, intro]: "dw_ready w = ready \<Longrightarrow> moves (give x) w x ready"
  by (simp add: moves_def give_def)

lemma moves_after:
  assumes "moves m w x mid" and "\<And>w'. dw_ready w' = mid \<Longrightarrow> layout w' = layout w \<Longrightarrow> moves (f x) w' y ready"
  shows "moves (after m f) w y ready"
  using assms by (fastforce simp: moves_def after_def)

lemma moves_ask:
  assumes "calm B" and "\<And>w1. dw_ready w1 = dw_ready w \<Longrightarrow> layout w1 = layout w \<Longrightarrow>
    fst (f w1) = x \<and> dw_ready (snd (f w1)) = ready \<and> layout (snd (f w1)) = layout w1"
  shows "moves (demo_call B f) w x ready"
proof -
  let ?w = "w\<lparr>dw_calls := Suc (dw_calls w)\<rparr>"
  obtain y w' where f: "f ?w = (y, w')" by fastforce
  have "dw_ready ?w = dw_ready w" "layout ?w = layout w" by (simp_all add: layout_def)
  from assms(2) [OF this] f have "y = x" "dw_ready w' = ready" "layout w' = layout w" by (simp_all add: layout_def)
  with assms(1) f show ?thesis by (simp add: moves_def demo_call_def calm_def)
qed

lemma to_queue_simps [simp]:
  "dw_ready (to_queue q m w) = (dw_ready w)(q := dw_ready w q @ [m])"
  "layout (to_queue q m w) = layout w"
  by (simp_all add: to_queue_def layout_def)

lemma moves_poll:
  assumes "calm B" and "dw_ready w q = m # ms" and "late < k"
  shows "moves (poll B q k late) w m ((dw_ready w)(q := ms))"
  using assms(2,3)
proof (induction k arbitrary: late w)
  case (Suc k)
  let ?read = "demo_call B (\<lambda>w. case dw_ready w q of [] \<Rightarrow> (None, w)
    | m # ms \<Rightarrow> if late > 0 then (None, w) else (Some m, w\<lparr>dw_ready := (dw_ready w)(q := ms)\<rparr>))"
  show ?case
  proof (cases "late = 0")
    case True
    have "moves ?read w (Some m) ((dw_ready w)(q := ms))"
      by (rule moves_ask [OF assms(1)]) (use Suc.prems True in \<open>auto simp: layout_def\<close>)
    then show ?thesis unfolding poll.simps by (rule moves_after) (simp add: fun_upd_def)
  next
    case False
    have read: "moves ?read w None (dw_ready w)"
      by (rule moves_ask [OF assms(1)]) (use Suc.prems False in auto)
    have again: "moves (poll B q k (late - 1)) w' m ((dw_ready w)(q := ms))" if "dw_ready w' = dw_ready w" for w'
      using Suc.IH [of w' "late - 1"] Suc.prems False that by (simp add: fun_upd_def)
    show ?thesis unfolding poll.simps
      by (rule moves_after [OF read]) (simp only: option.case again)
  qed
qed simp

lemma moves_next:
  assumes "calm B" and "dw_ready w q = m # ms"
  shows "moves (next_message B q) w m ((dw_ready w)(q := ms))"
proof -
  let ?w = "w\<lparr>dw_waits := Suc (dw_waits w)\<rparr>"
  have "moves (poll B q 100 (db_slow B (dw_waits w))) ?w m ((dw_ready ?w)(q := ms))"
    by (rule moves_poll) (use assms in \<open>auto simp: calm_def\<close>)
  then show ?thesis by (simp add: moves_def next_message_def layout_def)
qed


section \<open>One queue\<close>

definition wired :: "string \<Rightarrow> string \<Rightarrow> string \<Rightarrow> string \<Rightarrow> demo_world \<Rightarrow> bool" where
  "wired exchange key work dlq w \<longleftrightarrow>
     exchange \<noteq> [] \<and> work \<noteq> dlq \<and> [b \<leftarrow> dw_bound w. fst b = exchange \<and> fst (snd b) = key] = [(exchange, key, work)] \<and>
     dict_get (dw_args w work) ''x-dead-letter-exchange'' = Some (PStr []) \<and>
     dict_get (dw_args w work) ''x-dead-letter-routing-key'' = Some (PStr dlq)"

lemma wired_layout: "wired exchange key work dlq w \<Longrightarrow> layout w' = layout w \<Longrightarrow> wired exchange key work dlq w'"
  by (simp add: wired_def layout_def)

lemma fold_bound:
  "fold (\<lambda>(x, k, q) w. if x = exchange \<and> k = key then to_queue q m w else w) bs w =
   fold (\<lambda>b w. to_queue (snd (snd b)) m w) [b \<leftarrow> bs. fst b = exchange \<and> fst (snd b) = key] w"
  by (induction bs arbitrary: w) (auto split: prod.splits)

lemma moves_ask_wired:
  assumes "calm B" and "wired exchange key work dlq w"
    and "\<And>w1. wired exchange key work dlq w1 \<Longrightarrow> dw_ready w1 = dw_ready w \<Longrightarrow>
      fst (f w1) = x \<and> dw_ready (snd (f w1)) = ready \<and> layout (snd (f w1)) = layout w1"
  shows "moves (demo_call B f) w x ready"
  by (rule moves_ask [OF assms(1)]) (use assms(3) wired_layout [OF assms(2)] in blast)

lemma moves_publish:
  assumes "calm B" and "wired exchange key work dlq w"
  shows "moves (demo_publish B exchange key m) w () ((dw_ready w)(work := dw_ready w work @ [m]))"
  unfolding demo_publish_def by (rule moves_ask_wired [OF assms]) (simp add: wired_def fold_bound)

lemma moves_publish_default:
  "calm B \<Longrightarrow> moves (demo_publish B [] q m) w () ((dw_ready w)(q := dw_ready w q @ [m]))"
  unfolding demo_publish_def by (rule moves_ask) auto

lemma moves_reject:
  assumes "calm B" and "wired exchange key work dlq w"
  shows "moves (reject_from B work m) w () ((dw_ready w)(dlq := dw_ready w dlq @ [db_stamp B work m]))"
  unfolding reject_from_def
  by (rule moves_ask_wired [OF assms]) (simp add: wired_def)

lemma moves_dead_letter:
  assumes "calm B" and "wired exchange key work dlq w" and "dw_ready w work = []"
  shows "moves (dead_letter B exchange work key m) w () ((dw_ready w)(dlq := dw_ready w dlq @ [db_stamp B work m]))"
  unfolding dead_letter_def
proof (rule moves_after [OF moves_publish [OF assms(1,2)]], rule moves_after)
  fix w1 assume w1: "dw_ready w1 = (dw_ready w)(work := dw_ready w work @ [m])" "layout w1 = layout w"
  then have "dw_ready w1 work = m # []" using assms(3) by simp
  from moves_next [OF assms(1) this] show "moves (next_message B work) w1 m (dw_ready w)"
    using w1 assms(3) by (simp add: fun_upd_idem)
  fix w2 assume w2: "dw_ready w2 = dw_ready w" "layout w2 = layout w1"
  with w1 have "wired exchange key work dlq w2" using wired_layout [OF assms(2)] by simp
  from moves_reject [OF assms(1) this] w2
  show "moves (reject_from B work m) w2 () ((dw_ready w)(dlq := dw_ready w dlq @ [db_stamp B work m]))" by simp
qed

text \<open>A message after \<open>k\<close> rounds.\<close>

definition rounds :: "demo_broker \<Rightarrow> string \<Rightarrow> nat \<Rightarrow> demo_message \<Rightarrow> demo_message" where
  "rounds B work k m = ((\<lambda>m. copy_of (db_stamp B work m)) ^^ k) m"

lemma moves_go_round:
  assumes "calm B" and "wired exchange key work dlq w" and "dw_ready w work = []" "dw_ready w dlq = []"
  shows "moves (go_round B exchange work dlq key k m) w (rounds B work k m) (dw_ready w)"
  using assms(2-4)
proof (induction k arbitrary: m w)
  case (Suc k)
  let ?returned = "db_stamp B work m"
  show ?case unfolding go_round.simps
  proof (rule moves_after [OF moves_dead_letter [OF assms(1) Suc.prems(1,2)]], rule moves_after)
    fix w1 assume w1: "dw_ready w1 = (dw_ready w)(dlq := dw_ready w dlq @ [?returned])" "layout w1 = layout w"
    then have "dw_ready w1 dlq = ?returned # []" using Suc.prems(3) by simp
    from moves_next [OF assms(1) this] show "moves (next_message B dlq) w1 ?returned (dw_ready w)"
      using w1 Suc.prems(3) by (simp add: fun_upd_idem)
    fix w2 assume w2: "dw_ready w2 = dw_ready w" "layout w2 = layout w1"
    show "moves (after (demo_call B (\<lambda>w. ((), w))) (\<lambda>_. go_round B exchange work dlq key k (copy_of ?returned))) w2
        (rounds B work (Suc k) m) (dw_ready w)"
    proof (rule moves_after)
      show "moves (demo_call B (\<lambda>w. ((), w))) w2 () (dw_ready w)" by (rule moves_ask [OF assms(1)]) (simp_all add: w2)
      fix w3 assume w3: "dw_ready w3 = dw_ready w" "layout w3 = layout w2"
      with w2 w1 Suc.prems(2,3) have "wired exchange key work dlq w3" "dw_ready w3 work = []" "dw_ready w3 dlq = []"
        using wired_layout [OF Suc.prems(1)] by simp_all
      from Suc.IH [OF this, of "copy_of ?returned"] w3
      show "moves (go_round B exchange work dlq key k (copy_of ?returned)) w3 (rounds B work (Suc k) m) (dw_ready w)"
        by (simp add: rounds_def funpow_Suc_right del: funpow.simps)
    qed
  qed
qed (simp add: rounds_def)

lemma moves_hold_each:
  assumes "calm B" and "wired exchange key work dlq w" and "dw_ready w work = []" "dw_ready w dlq = []"
  shows "moves (hold_each B exchange work dlq key msg is held) w
    (fold (\<lambda>i. AList.update i (rounds B work (demo_deaths i) (msg i))) is held) (dw_ready w)"
  using assms(2-4)
proof (induction "is" arbitrary: held w)
  case (Cons i rest)
  show ?case unfolding hold_each.simps
  proof (rule moves_after [OF moves_go_round [OF assms(1) Cons.prems]])
    fix w' assume w': "dw_ready w' = dw_ready w" "layout w' = layout w"
    show "moves (hold_each B exchange work dlq key msg rest (AList.update i (rounds B work (demo_deaths i) (msg i)) held)) w'
        (fold (\<lambda>i. AList.update i (rounds B work (demo_deaths i) (msg i))) (i # rest) held) (dw_ready w)"
      using Cons.IH [OF wired_layout [OF Cons.prems(1) w'(2)]] Cons.prems w'(1) by simp
  qed
qed simp

lemma map_of_held:
  "map_of (fold (\<lambda>i. AList.update i (f i)) is held) j = (if j \<in> set is then Some (f j) else map_of held j)"
  by (induction "is" arbitrary: held) (auto simp: AList.update_conv')

text \<open>What ends up in a dead-letter queue for message \<open>i\<close>: the last time a message that goes round more
  than once is put there, it is published, not rejected.\<close>

definition seeded_message :: "demo_broker \<Rightarrow> string \<Rightarrow> (nat \<Rightarrow> demo_message) \<Rightarrow> nat \<Rightarrow> demo_message" where
  "seeded_message B work msg i =
     (if demo_deaths i > 1 then rounds B work (demo_deaths i) (msg i) else db_stamp B work (msg i))"

lemma moves_fill:
  assumes "calm B" and "wired exchange key work dlq w" and "dw_ready w work = []"
    and "\<And>i. i \<in> set is \<Longrightarrow>
      map_of held i = (if demo_deaths i > 1 then Some (rounds B work (demo_deaths i) (msg i)) else None)"
  shows "moves (fill B exchange work dlq key msg held is) w ()
    ((dw_ready w)(dlq := dw_ready w dlq @ map (seeded_message B work msg) is))"
  using assms(2-4)
proof (induction "is" arbitrary: w)
  case (Cons i rest)
  let ?one = "case map_of held i of Some m \<Rightarrow> demo_publish B [] dlq m | None \<Rightarrow> dead_letter B exchange work key (msg i)"
  let ?mid = "(dw_ready w)(dlq := dw_ready w dlq @ [seeded_message B work msg i])"
  have one: "moves ?one w () ?mid"
    using Cons.prems(3) [of i] moves_publish_default [OF assms(1)] moves_dead_letter [OF assms(1) Cons.prems(1,2)]
    by (simp add: seeded_message_def)
  have other: "work \<noteq> dlq" using Cons.prems(1) by (simp add: wired_def)
  show ?case unfolding fill.simps
  proof (rule moves_after [OF one])
    fix w' assume w': "dw_ready w' = ?mid" "layout w' = layout w"
    with Cons.prems(2) other have ok: "wired exchange key work dlq w'" "dw_ready w' work = []"
      using wired_layout [OF Cons.prems(1)] by simp_all
    have "moves (fill B exchange work dlq key msg held rest) w' ()
        ((dw_ready w')(dlq := dw_ready w' dlq @ map (seeded_message B work msg) rest))"
      by (rule Cons.IH) (use ok Cons.prems(3) in auto)
    then show "moves (fill B exchange work dlq key msg held rest) w' ()
        ((dw_ready w)(dlq := dw_ready w dlq @ map (seeded_message B work msg) (i # rest)))"
      using w' by simp
  qed
qed simp


section \<open>All of them\<close>

lemma demo_call_calm:
  "calm B \<Longrightarrow> demo_call B f w =
     (Inr (fst (f (w\<lparr>dw_calls := Suc (dw_calls w)\<rparr>))), snd (f (w\<lparr>dw_calls := Suc (dw_calls w)\<rparr>)))"
  by (simp add: demo_call_def calm_def case_prod_beta Let_def)

lemma after_moves:
  assumes "moves m w x ready"
  obtains w' where "after m f w = f x w'" "dw_ready w' = ready" "layout w' = layout w"
  using assms by (auto simp: moves_def after_def)

text \<open>Another queue is not in the way: its exchange has nothing bound yet.\<close>

lemma seed_queue_empty:
  assumes "calm B" and "dw_ready w (before @ dq_dlq d) = []" "dw_ready w (before @ dq_work d) = []"
    and "\<forall>b \<in> set (dw_bound w). fst b \<noteq> before @ dq_exchange d" and "dq_exchange d \<noteq> []" "dq_work d \<noteq> dq_dlq d"
  obtains w' where "seed_queue B before msg d w = (Inr True, w')"
    "dw_ready w' = (dw_ready w)(before @ dq_dlq d :=
       map (seeded_message B (before @ dq_work d) (msg d)) [0..<dq_count d])"
    "dw_open w' = dw_open w" "fst ` set (dw_bound w') \<subseteq> insert (before @ dq_exchange d) (fst ` set (dw_bound w))"
proof -
  let ?work = "before @ dq_work d" and ?dlq = "before @ dq_dlq d" and ?exchange = "before @ dq_exchange d"
  let ?args = "[(''x-dead-letter-exchange'', PStr []), (''x-dead-letter-routing-key'', PStr ?dlq)]"
  let ?is = "filter (\<lambda>i. demo_deaths i > 1) [0..<dq_count d]"
  let ?hold = "hold_each B ?exchange ?work ?dlq (dq_key d) (msg d) ?is []"
  define held where "held = fold (\<lambda>i. AList.update i (rounds B ?work (demo_deaths i) (msg d i))) ?is []"
  let ?fill = "fill B ?exchange ?work ?dlq (dq_key d) (msg d) held [0..<dq_count d]"
  note called = demo_call_calm [OF assms(1)] demo_declare_def bind_queue_def
  define w1 where "w1 = snd (demo_declare B ?dlq (dq_args d) w)"
  have w1: "demo_declare B ?dlq (dq_args d) w = (Inr 0, w1)" "dw_ready w1 = dw_ready w" "dw_bound w1 = dw_bound w"
      "dw_open w1 = dw_open w"
    by (simp_all add: w1_def called assms(2))
  define w2 where "w2 = snd (demo_call B (\<lambda>w. ((), w)) w1)"
  have w2: "demo_call B (\<lambda>w. ((), w)) w1 = (Inr (), w2)" "dw_ready w2 = dw_ready w" "dw_bound w2 = dw_bound w"
      "dw_open w2 = dw_open w"
    by (simp_all add: w2_def called w1)
  define w3 where "w3 = snd (demo_declare B ?work ?args w2)"
  have w3: "demo_declare B ?work ?args w2 = (Inr (length (dw_ready w2 ?work)), w3)" "dw_ready w3 = dw_ready w"
      "dw_bound w3 = dw_bound w" "dw_open w3 = dw_open w" "dw_args w3 ?work = ?args"
    by (simp_all add: w3_def called w2)
  define w4 where "w4 = snd (bind_queue B ?exchange (dq_key d) ?work w3)"
  have w4: "bind_queue B ?exchange (dq_key d) ?work w3 = (Inr (), w4)" "dw_ready w4 = dw_ready w"
      "dw_bound w4 = List.insert (?exchange, dq_key d, ?work) (dw_bound w)" "dw_open w4 = dw_open w" "dw_args w4 ?work = ?args"
    by (simp_all add: w4_def called w3)
  have fresh_binding: "(?exchange, dq_key d, ?work) \<notin> set (dw_bound w)" using assms(4) by auto
  have wired: "wired ?exchange (dq_key d) ?work ?dlq w4"
    using assms(4-6) fresh_binding by (auto simp: wired_def w4 filter_empty_conv)
  have "moves ?hold w4 held (dw_ready w)"
    unfolding held_def using moves_hold_each [OF assms(1) wired] w4(2) assms(2,3) by simp
  then obtain w5 where w5: "after ?hold (\<lambda>held. after (fill B ?exchange ?work ?dlq (dq_key d) (msg d) held [0..<dq_count d]) (\<lambda>_. give True)) w4 =
      after ?fill (\<lambda>_. give True) w5" "dw_ready w5 = dw_ready w" "layout w5 = layout w4"
    by (elim after_moves)
  have ready5: "dw_ready w5 ?work = []" by (simp only: w5(2) assms(3))
  have holds: "map_of held i = (if demo_deaths i > 1 then Some (rounds B ?work (demo_deaths i) (msg d i)) else None)"
    if "i \<in> set [0..<dq_count d]" for i
    using that by (simp add: held_def map_of_held)
  have "moves ?fill w5 () ((dw_ready w5)(?dlq := dw_ready w5 ?dlq @ map (seeded_message B ?work (msg d)) [0..<dq_count d]))"
    by (rule moves_fill [OF assms(1) wired_layout [OF wired w5(3)] ready5 holds])
  then obtain w6 where w6: "after ?fill (\<lambda>_. give True) w5 = (Inr True, w6)"
      "dw_ready w6 = (dw_ready w)(?dlq := map (seeded_message B ?work (msg d)) [0..<dq_count d])" "layout w6 = layout w4"
    using w5(2,3) assms(2) after_moves [of ?fill w5 "()" _ "\<lambda>_. give True"] by (auto simp: give_def)
  have "seed_queue B before msg d w = (Inr True, w6)"
    using w5(1) w6(1) by (simp add: seed_queue_def Let_def after_def w1(1) w2(1) w3(1) w4(1))
  moreover have "dw_open w6 = dw_open w" "fst ` set (dw_bound w6) \<subseteq> insert ?exchange (fst ` set (dw_bound w))"
    using w6(3) w4(3,4) by (auto simp: layout_def)
  ultimately show thesis using that w6(2) by blast
qed

text \<open>Everything \<open>ds\<close> needs of the broker before it is seeded.\<close>

definition demo_free :: "string \<Rightarrow> demo_queue list \<Rightarrow> demo_world \<Rightarrow> bool" where
  "demo_free before ds w \<longleftrightarrow>
     (\<forall>d \<in> set ds. dw_ready w (before @ dq_dlq d) = [] \<and> dw_ready w (before @ dq_work d) = [] \<and>
        (\<forall>b \<in> set (dw_bound w). fst b \<noteq> before @ dq_exchange d))"

definition apart :: "demo_queue list \<Rightarrow> bool" where
  "apart ds \<longleftrightarrow> distinct (map dq_work ds @ map dq_dlq ds) \<and> distinct (map dq_exchange ds) \<and> list_all (\<lambda>d. dq_exchange d \<noteq> []) ds"

lemma QUEUES_apart: "apart QUEUES"
  by (simp add: apart_def QUEUES_def)

lemma seed_queues_free:
  assumes "calm B" and "demo_free before ds w" and "apart ds"
  shows "\<exists>w'. seed_queues B before msg ds w = (Inr True, w') \<and> dw_open w' = dw_open w \<and>
    (\<forall>d \<in> set ds. dw_ready w' (before @ dq_dlq d) = map (seeded_message B (before @ dq_work d) (msg d)) [0..<dq_count d]) \<and>
    (\<forall>q. q \<notin> (@) before ` dq_dlq ` set ds \<longrightarrow> dw_ready w' q = dw_ready w q)"
  using assms(2,3)
proof (induction ds arbitrary: w)
  case Nil
  then show ?case by (simp add: give_def)
next
  case (Cons d ds)
  have d: "dw_ready w (before @ dq_dlq d) = []" "dw_ready w (before @ dq_work d) = []"
    "\<forall>b \<in> set (dw_bound w). fst b \<noteq> before @ dq_exchange d" "dq_exchange d \<noteq> []" "dq_work d \<noteq> dq_dlq d"
    using Cons.prems by (auto simp: demo_free_def apart_def)
  obtain w1 where w1: "seed_queue B before msg d w = (Inr True, w1)"
    "dw_ready w1 = (dw_ready w)(before @ dq_dlq d := map (seeded_message B (before @ dq_work d) (msg d)) [0..<dq_count d])"
    "dw_open w1 = dw_open w" "fst ` set (dw_bound w1) \<subseteq> insert (before @ dq_exchange d) (fst ` set (dw_bound w))"
    by (rule seed_queue_empty [OF assms(1) d])
  have others: "dq_dlq e \<noteq> dq_dlq d \<and> dq_work e \<noteq> dq_dlq d \<and> dq_exchange e \<noteq> dq_exchange d" if "e \<in> set ds" for e
  proof -
    have "dq_dlq d \<notin> dq_dlq ` set ds" "dq_dlq d \<notin> dq_work ` set ds" "dq_exchange d \<notin> dq_exchange ` set ds"
      using Cons.prems(2) by (auto simp: apart_def)
    with that show ?thesis by (metis imageI)
  qed
  have "demo_free before ds w1"
    unfolding demo_free_def
  proof (intro ballI conjI)
    fix e b assume e: "e \<in> set ds"
    show "dw_ready w1 (before @ dq_dlq e) = []" "dw_ready w1 (before @ dq_work e) = []"
      using Cons.prems(1) e others [OF e] by (auto simp: demo_free_def w1(2))
    assume "b \<in> set (dw_bound w1)"
    with w1(4) have "fst b = before @ dq_exchange d \<or> (\<exists>b' \<in> set (dw_bound w). fst b = fst b')" by auto
    moreover have "\<forall>b' \<in> set (dw_bound w). fst b' \<noteq> before @ dq_exchange e"
      using Cons.prems(1) e by (simp add: demo_free_def)
    ultimately show "fst b \<noteq> before @ dq_exchange e" using others [OF e] by (metis same_append_eq)
  qed
  moreover have "apart ds" using Cons.prems(2) by (auto simp: apart_def)
  ultimately obtain w2 where w2: "seed_queues B before msg ds w1 = (Inr True, w2)" "dw_open w2 = dw_open w1"
    "\<forall>d \<in> set ds. dw_ready w2 (before @ dq_dlq d) = map (seeded_message B (before @ dq_work d) (msg d)) [0..<dq_count d]"
    "\<forall>q. q \<notin> (@) before ` dq_dlq ` set ds \<longrightarrow> dw_ready w2 q = dw_ready w1 q"
    using Cons.IH by blast
  have "dw_ready w2 (before @ dq_dlq d) = dw_ready w1 (before @ dq_dlq d)"
    using w2(4) others by (metis (no_types, lifting) imageE same_append_eq)
  with w1 w2 show ?case by (auto simp: after_def)
qed

lemma seed_queues_taken:
  assumes "calm B" and "dw_ready w (before @ dq_dlq d) \<noteq> []"
  shows "\<exists>w'. seed_queues B before msg (d # ds) w = (Inr False, w') \<and> dw_ready w' = dw_ready w"
  using assms(2)
  by (simp add: after_def seed_queue_def Let_def demo_declare_def demo_call_calm [OF assms(1)] give_def)

text \<open>
  The demo data is what it says. On a broker that refuses nothing, delivers dead letters within
  the script's patience and holds nothing under the demo's names, seeding reports that it seeded
  and closes its connection; every dead-letter queue then holds exactly its messages, in the
  order of their numbers, each dead-lettered by the broker as often as it is meant to be - having
  gone round the work queue that many times, if more than once - and every other queue is as it
  was. Seeding again right after reports that there was nothing to do, and changes no queue.
\<close>

theorem demo_seeded_once:
  fixes L :: pylib and gzip :: "string \<Rightarrow> string"
  assumes "calm B" and "demo_free before QUEUES w"
  defines "msg \<equiv> \<lambda>now d i. demo_message_of L gzip (dq_work d) i (dq_payload d i) now"
  shows "\<exists>w'. seed L gzip B now before w = (Inr True, w') \<and> \<not> dw_open w' \<and>
    (\<forall>d \<in> set QUEUES. dw_ready w' (before @ dq_dlq d) =
       map (\<lambda>i. if demo_deaths i > 1 then rounds B (before @ dq_work d) (demo_deaths i) (msg now d i)
                 else db_stamp B (before @ dq_work d) (msg now d i)) [0..<dq_count d]) \<and>
    (\<forall>q. q \<notin> (@) before ` dq_dlq ` set QUEUES \<longrightarrow> dw_ready w' q = dw_ready w q) \<and>
    (\<exists>w''. seed L gzip B later before w' = (Inr False, w'') \<and> dw_ready w'' = dw_ready w')"
proof -
  define start where "start = (\<lambda>w. snd (demo_call B (\<lambda>w. ((), w)) (snd (demo_call B (\<lambda>w. ((), w\<lparr>dw_open := True\<rparr>)) w))))"
  have start: "seed L gzip B now before w =
      (case seed_queues B before (msg now) QUEUES (start w) of (r, w'') \<Rightarrow> (r, w''\<lparr>dw_open := False\<rparr>))"
    "dw_ready (start w) = dw_ready w" "dw_bound (start w) = dw_bound w" for now w
    by (simp_all add: seed_def start_def demo_call_calm [OF assms(1)] after_def msg_def)
  have "demo_free before QUEUES (start w)" using assms(2) by (simp add: demo_free_def start)
  from seed_queues_free [OF assms(1) this QUEUES_apart, of "msg now"]
  obtain w1 where w1: "seed_queues B before (msg now) QUEUES (start w) = (Inr True, w1)"
    "\<forall>d \<in> set QUEUES. dw_ready w1 (before @ dq_dlq d) = map (seeded_message B (before @ dq_work d) (msg now d)) [0..<dq_count d]"
    "\<forall>q. q \<notin> (@) before ` dq_dlq ` set QUEUES \<longrightarrow> dw_ready w1 q = dw_ready w q"
    by (auto simp: start)
  let ?w' = "w1\<lparr>dw_open := False\<rparr>"
  obtain d ds where QUEUES: "QUEUES = d # ds" and "dq_count d = Suc 219" by (simp add: QUEUES_def)
  have "d \<in> set QUEUES" unfolding QUEUES by (rule list.set_intros(1))
  from w1(2) [rule_format, OF this] \<open>dq_count d = Suc 219\<close>
  have "dw_ready (start ?w') (before @ dq_dlq d) \<noteq> []" by (simp add: start)
  from seed_queues_taken [OF assms(1) this, of "msg later" ds]
  obtain w2 where "seed_queues B before (msg later) QUEUES (start ?w') = (Inr False, w2)" "dw_ready w2 = dw_ready ?w'"
    unfolding QUEUES by (auto simp: start)
  then have "\<exists>w''. seed L gzip B later before ?w' = (Inr False, w'') \<and> dw_ready w'' = dw_ready ?w'"
    by (simp add: start)
  with w1 show ?thesis
    by (intro exI [of _ ?w']) (simp add: start seeded_message_def [abs_def])
qed

definition fresh_world :: demo_world where
  "fresh_world = \<lparr>dw_ready = (\<lambda>_. []), dw_args = (\<lambda>_. []), dw_bound = [], dw_open = False, dw_calls = 0, dw_waits = 0\<rparr>"

text \<open>A broker that counts rejections in the message's type, and is a little slow.\<close>

definition marking_broker :: demo_broker where
  "marking_broker = \<lparr>db_refuse = (\<lambda>_. None), db_slow = (\<lambda>_. 2),
     db_stamp = (\<lambda>work m. m\<lparr>dm_type := dm_type m @ ''!''\<rparr>)\<rparr>"

theorem demo_seeded_once_witness:
  "\<exists>w'. seed sample_lib (\<lambda>s. s) marking_broker 0 ''demo.'' fresh_world = (Inr True, w') \<and>
     map (length \<circ> dw_ready w') [''demo.payments.retry.dlq'', ''demo.orders.created.dlq'', ''demo.payments.retry''] = [220, 37, 0] \<and>
     dm_type (dw_ready w' ''demo.orders.created.dlq'' ! 4) = ''orders.created.failed!!!''"
proof -
  have calm: "calm marking_broker" by (simp add: calm_def marking_broker_def)
  have free: "demo_free ''demo.'' QUEUES fresh_world" by (simp add: demo_free_def fresh_world_def)
  from demo_seeded_once [OF calm free, of sample_lib "\<lambda>s. s" 0 0]
  obtain w' where w': "seed sample_lib (\<lambda>s. s) marking_broker 0 ''demo.'' fresh_world = (Inr True, w')"
    "\<forall>d \<in> set QUEUES. dw_ready w' (''demo.'' @ dq_dlq d) =
       map (\<lambda>i. if demo_deaths i > 1 then rounds marking_broker (''demo.'' @ dq_work d) (demo_deaths i)
                    (demo_message_of sample_lib (\<lambda>s. s) (dq_work d) i (dq_payload d i) 0)
                 else db_stamp marking_broker (''demo.'' @ dq_work d)
                    (demo_message_of sample_lib (\<lambda>s. s) (dq_work d) i (dq_payload d i) 0)) [0..<dq_count d]"
    "\<forall>q. q \<notin> (@) ''demo.'' ` dq_dlq ` set QUEUES \<longrightarrow> dw_ready w' q = dw_ready fresh_world q"
    by blast
  have rest: "dw_ready w' ''demo.payments.retry'' = []" using w'(3) by (simp add: QUEUES_def fresh_world_def)
  have len: "length (dw_ready w' (''demo.'' @ dq_dlq d)) = dq_count d" if "d \<in> set QUEUES" for d
    using w'(2) that by simp
  have "length (dw_ready w' ''demo.payments.retry.dlq'') = 220" "length (dw_ready w' ''demo.orders.created.dlq'') = 37"
    using len [of "QUEUES ! 0"] len [of "QUEUES ! 1"] by (simp_all add: QUEUES_def)
  note lengths = this
  have "dw_ready w' (''demo.'' @ dq_dlq (QUEUES ! 1)) ! 4 =
      rounds marking_broker (''demo.'' @ dq_work (QUEUES ! 1)) (demo_deaths 4)
        (demo_message_of sample_lib (\<lambda>s. s) (dq_work (QUEUES ! 1)) 4 (dq_payload (QUEUES ! 1) 4) 0)"
    (is "?message = rounds _ _ _ ?sent")
  proof -
    have "QUEUES ! 1 \<in> set QUEUES" "4 < dq_count (QUEUES ! 1)" "1 < demo_deaths 4"
      by (simp_all add: QUEUES_def demo_deaths_def)
    with w'(2) [rule_format, of "QUEUES ! 1"] show ?thesis by (simp del: upt_rec_numeral)
  qed
  moreover have "demo_deaths 4 = Suc (Suc (Suc 0))" by (simp add: demo_deaths_def)
  moreover have "dm_type (demo_message_of L g work i payload now) = work @ ''.failed''" for L g work i payload now
    by (simp add: demo_message_of_def Let_def)
  ultimately have "dm_type ?message = dq_work (QUEUES ! 1) @ ''.failed!!!''"
    by (simp add: rounds_def marking_broker_def copy_of_def)
  then have "dm_type (dw_ready w' ''demo.orders.created.dlq'' ! 4) = ''orders.created.failed!!!''"
    by (simp add: QUEUES_def)
  with rest lengths show ?thesis using w'(1) by simp
qed

end
