(* ===== verification/Spec2Isabelle.thy ===== *)
theory Spec2Isabelle
  imports Operator_Properties Bulk_Operation Browse_Properties Queue_Guard Rendering Config Snapshots
    Action_Properties Bulk_Properties Alert_Properties Policy_Properties Account_Properties
    Environment_Properties Settings_Properties Platform_Properties Audit_Trail_Properties
    Policy_Route_Properties Message_Route_Properties Bulk_Route_Properties
    Coordination_Properties Application_Properties Schema_Properties Management_Properties
    Connection_Properties Monitoring_Properties Lifecycle_Properties Request_Properties
    Routing_Properties Settings_Refinement Metrics Demo_Properties
begin

text \<open>
  QueueLens: a verification development for the message browser and operator of RabbitMQ dead-letter
  queues (src/app).

  \<^bold>\<open>The program.\<close> QueueLens is a FastAPI server. Requests are authenticated, resolved to a
  scope (an environment and a vhost) and served by that scope's services: the browser reads a queue by
  getting messages and requeueing them, the operator moves, parks, copies or deletes one message or a
  batch, the queue service reads statistics. The rest keeps what the server knows - accounts, settings,
  alert rules, replay policies, bulk batches, the audit trail - in a database that replicas share, and
  runs three background jobs: alert evaluation, replay policies, retention.

  \<^bold>\<open>How it is modelled.\<close> Python values, dictionaries, exceptions and text are in
  Prelude. Code that talks to the outside is a program over a history of calls (Effects): an event is a
  call with its arguments and its reply, the environment gives every reply as a function of the
  history, and nothing is assumed of it, so a theorem covers every reply, failure and interleaving the
  broker, the Management API and the database can produce. What a theorem does need of the outside is
  a named hypothesis: the queue behind the calls (Queue_Model, \<open>serves\<close>), PostgreSQL's promises about
  advisory locks (Coordination), an INSERT that appends (Schema). Library functions whose result is
  only passed on are the fields of \<open>pylib\<close> (Domain). Starting a scope's services, which can create
  its vhost on the broker, is an event of its own (\<open>EvStart\<close>) where a replay policy causes it; for
  requests it is in Environments, and what a route's property says is about the route's own code,
  after its scope was resolved. State that the code mutates is passed explicitly; what interleaves is
  an inductive step relation.

  \<^bold>\<open>Theories and sources.\<close>
    \<^item> Domain: app/domain (records, death counts, fingerprints). Config: app/config.py and
      configured limits and targets.
    \<^item> Browser, Queue_Model, Browse_Properties: message_browser.py - fetching, requeueing, records,
      decoding; what a scan leaves of a classic and of a quorum queue.
    \<^item> Operator, Operator_Safety, Conservation, Operator_Properties, Bulk_Operation:
      message_operator.py - one action and a batch; publish before ack; conservation of messages for
      both queue types (locales \<open>holding\<close>, \<open>ordered\<close>); truthful reports. Sample_World is the concrete
      broker of the witnesses.
    \<^item> Queue_Service, Queue_Guard: queue_service.py - classification, delivery limits, the
      guard the services share (locale \<open>scan_guard\<close>). Rendering, Snapshots: message_service.py and
      snapshots.py - masking, pages of one scan.
    \<^item> Actions, Action_Properties: action_service.py and the action routes with their audit.
      Bulk_Service, Bulk_Batches, Bulk_Properties: bulk_service.py, bulk_runs.py and the batch
      repository - one-shot batches behind a token (locale \<open>batch_store\<close>, with memory and database as
      its providers).
    \<^item> Alerts, Alert_Properties: alert_engine.py, mailer.py and the rule table. Policies,
      Policy_Properties: replay_policies.py and the policy table.
    \<^item> Accounts, Account_Properties: auth/basic.py, auth/proxy.py, the user and login failure tables.
      Environments, Environment_Properties: environments.py and scope.py. Settings_Store,
      Settings_Properties, Settings_Refinement: the settings table and its routes; the table as a
      plain dictionary.
    \<^item> Platform, Policy_Routes, Bulk_Routes, Message_Routes and their property theories:
      app/api/routes (platform.py, policies.py, bulk.py, messages.py and the composer of actions.py).
      Audit_Trail, Audit_Trail_Properties: audit_repository.py and the export of routes/audit.py.
      Monitoring, Monitoring_Properties: routes/health.py, metrics.py, queues.py.
    \<^item> Management, Connection: management_client.py and connection.py. Coordination: coordination.py.
      Schema: database.py, models.py, copy_db.py. Application: app/main.py - startup, retention,
      synchronisation, error handlers, middlewares, notifications. Lifecycle: main.py's lifespan and
      the starting and stopping of bundles. Routing, Routing_Properties: the table of routes, their
      dependencies (who is asking, for which broker) and the whole way to a route's own code, for any
      choice of route that comes from the table (locale \<open>router\<close>). Metrics: observability/metrics.py
      and where counters go up. Demo, Demo_Properties: app/demo.py.
    \<^item> Requests, Request_Properties: the bounds declared by the request classes of app/api/routes,
      the plain lists, web/routes.py; what a sequence of requests can leave in the tables.

  \<^bold>\<open>What the theorems show.\<close> The numbered properties are, in order of importance: an
  acknowledgement is always justified by a unique match and a confirmed copy, for one message and for
  batches, and neither queue type loses messages; refusals change nothing; masked values stay hidden;
  no route's code runs for a caller without its role; every attempt is in the audit trail before the
  broker is touched; batches run once and only on what was approved; alerts, policies, sign-in,
  scopes, credentials and roles keep their contracts; encryption at rest does not show to readers;
  exports and pages are complete; replicas exclude each other; startup, schema upgrades and database
  copies are repeatable or all-or-nothing (the tables an interrupted upgrade of SQLite already changed
  and the sequences of PostgreSQL are the exceptions, and are in the model); what is monitored is what is there; stored rows stay
  within the values the code handles. A theorem with hypotheses is followed by a witness that
  applies it to a concrete run.

  \<^bold>\<open>Loops.\<close> Every loop of the code that is modelled is total: the fetch loop decreases
  the number of messages it may still read, batches and lists are recursions on their input, the paged
  audit export stops because pages move past what was recorded (\<open>pages_from\<close> has an explicit bound that
  the termination theorem shows to be enough). Background loops are modelled pass by pass.

  \<^bold>\<open>Not modelled.\<close> turning JSON into a request's typed fields (pydantic); cancellation
  of a waiting asyncio task; the rounding of floats; the Prometheus registry and the text it renders;
  OpenAPI pages, static files and the browser console; the build and documentation scripts under
  scripts/; the construction of the parts in create_app; an environment removed by one request while
  another starts it. The order in which a SELECT lists the settings is not relied on:
  Settings_Refinement holds for any order.
\<close>

end
